(* ===== verification/TR_Prelude.thy ===== *)
theory TR_Prelude
  imports Main "HOL-Library.AList" "HOL-Library.Char_ord" "HOL-Library.List_Lexorder"
    "HOL-Library.Sublist" "HOL-Library.Countable"
begin

text \<open>
  What every theory of the development shares: the result type of fallible code, the string
  functions of the Rust standard library that the crate calls (on UTF-8 byte strings, the
  \<open>string\<close> type of HOL), hash maps as association lists with distinct keys, and ordered maps
  (\<open>BTreeMap\<close>) as association lists sorted by key.  Two collections carry the proofs:
  \<open>store_laws\<close> for the laws of maps and stores and \<open>handler_defs\<close> for the definitions that a
  case analysis of a handler unfolds.
\<close>

named_theorems store_laws
named_theorems handler_defs

section \<open>Results\<close>

datatype ('a, 'e) result = Ok 'a | Err 'e

fun map_err :: "('e \<Rightarrow> 'f) \<Rightarrow> ('a, 'e) result \<Rightarrow> ('a, 'f) result" where
  "map_err f (Ok a) = Ok a"
| "map_err f (Err e) = Err (f e)"

fun bind_ok :: "('a, 'e) result \<Rightarrow> ('a \<Rightarrow> ('b, 'e) result) \<Rightarrow> ('b, 'e) result" where
  "bind_ok (Ok a) f = f a"
| "bind_ok (Err e) f = Err e"

fun ok_or :: "'a option \<Rightarrow> 'e \<Rightarrow> ('a, 'e) result" where
  "ok_or (Some a) e = Ok a"
| "ok_or None e = Err e"

fun is_ok :: "('a, 'e) result \<Rightarrow> bool" where
  "is_ok (Ok _) = True"
| "is_ok (Err _) = False"

fun ok_opt :: "('a, 'e) result \<Rightarrow> 'a option" where
  "ok_opt (Ok a) = Some a"
| "ok_opt (Err _) = None"

lemma bind_ok_eq_Ok [simp]: "bind_ok r f = Ok b \<longleftrightarrow> (\<exists>a. r = Ok a \<and> f a = Ok b)"
  by (cases r) auto

lemma bind_ok_eq_Err: "bind_ok r f = Err e \<longleftrightarrow> r = Err e \<or> (\<exists>a. r = Ok a \<and> f a = Err e)"
  by (cases r) auto

lemma ok_or_eq_Ok [simp]: "ok_or x e = Ok a \<longleftrightarrow> x = Some a"
  by (cases x) auto

lemma ok_or_eq_Err [simp]: "ok_or x e = Err e' \<longleftrightarrow> x = None \<and> e' = e"
  by (cases x) auto

lemma map_err_eq_Ok [simp]: "map_err f r = Ok a \<longleftrightarrow> r = Ok a"
  by (cases r) auto

lemma map_err_eq_Err [simp]: "map_err f r = Err e \<longleftrightarrow> (\<exists>e'. r = Err e' \<and> e = f e')"
  by (cases r) auto

lemma ok_opt_eq_Some [simp]: "ok_opt r = Some a \<longleftrightarrow> r = Ok a"
  by (cases r) auto

section \<open>Strings\<close>

definition starts_with :: "string \<Rightarrow> string \<Rightarrow> bool" where
  "starts_with p s \<longleftrightarrow> take (length p) s = p"

definition ends_with :: "string \<Rightarrow> string \<Rightarrow> bool" where
  "ends_with p s \<longleftrightarrow> starts_with (rev p) (rev s)"

fun contains_str :: "string \<Rightarrow> string \<Rightarrow> bool" where
  "contains_str p [] \<longleftrightarrow> p = []"
| "contains_str p (c # s) \<longleftrightarrow> starts_with p (c # s) \<or> contains_str p s"

definition strip_prefix :: "string \<Rightarrow> string \<Rightarrow> string option" where
  "strip_prefix p s = (if starts_with p s then Some (drop (length p) s) else None)"

text \<open>\<open>str::split_once\<close> at a character, \<open>str::split\<close> at a character.\<close>

fun split_once :: "char \<Rightarrow> string \<Rightarrow> (string \<times> string) option" where
  "split_once c [] = None"
| "split_once c (x # xs) =
     (if x = c then Some ([], xs)
      else (case split_once c xs of None \<Rightarrow> None | Some (a, b) \<Rightarrow> Some (x # a, b)))"

fun split_char :: "char \<Rightarrow> string \<Rightarrow> string list" where
  "split_char c [] = [[]]"
| "split_char c (x # xs) =
     (if x = c then [] # split_char c xs
      else (case split_char c xs of [] \<Rightarrow> [[x]] | y # ys \<Rightarrow> (x # y) # ys))"

fun join_str :: "string \<Rightarrow> string list \<Rightarrow> string" where
  "join_str sep [] = []"
| "join_str sep [x] = x"
| "join_str sep (x # y # zs) = x @ sep @ join_str sep (y # zs)"

text \<open>\<open>to_lowercase\<close> and \<open>trim\<close> on the ASCII range, the part of them the comparisons of the
  crate can observe (no letter outside ASCII lowers to a letter of a literal compared).\<close>

definition ascii_lower :: "char \<Rightarrow> char" where
  "ascii_lower c = (let n = (of_char c :: nat) in if 65 \<le> n \<and> n \<le> 90 then char_of (n + 32) else c)"

definition to_lowercase :: "string \<Rightarrow> string" where
  "to_lowercase s = map ascii_lower s"

definition is_space :: "char \<Rightarrow> bool" where
  "is_space c = (let n = (of_char c :: nat) in n = 32 \<or> (9 \<le> n \<and> n \<le> 13))"

definition trim_start :: "string \<Rightarrow> string" where
  "trim_start s = dropWhile is_space s"

definition trim_str :: "string \<Rightarrow> string" where
  "trim_str s = rev (trim_start (rev (trim_start s)))"

fun show_nat :: "nat \<Rightarrow> string" where
  "show_nat n = (if n < 10 then [char_of (48 + n)] else show_nat (n div 10) @ [char_of (48 + n mod 10)])"

declare show_nat.simps [simp del]

lemma starts_with_append [simp]: "starts_with p (p @ s)"
  by (simp add: starts_with_def)

lemma starts_with_iff: "starts_with p s \<longleftrightarrow> (\<exists>t. s = p @ t)"
  by (metis append_eq_conv_conj append_take_drop_id starts_with_def)

lemma strip_prefix_append [simp]: "strip_prefix p (p @ s) = Some s"
  by (simp add: strip_prefix_def)

lemma strip_prefix_eq_Some: "strip_prefix p s = Some t \<longleftrightarrow> s = p @ t"
  by (auto simp: strip_prefix_def starts_with_iff)

lemma split_char_not_Nil [simp]: "split_char c s \<noteq> []"
  by (induction s) (auto split: list.splits)

lemma split_char_no_sep: "c \<notin> set s \<Longrightarrow> split_char c s = [s]"
  by (induction s) auto

lemma split_char_append:
  "c \<notin> set s \<Longrightarrow> split_char c (s @ c # t) = s # split_char c t"
  by (induction s) auto

lemma join_str_head: "join_str sep ((x # a) # l) = x # join_str sep (a # l)"
  by (cases l) auto

lemma join_str_Nil_head: "l \<noteq> [] \<Longrightarrow> join_str sep ([] # l) = sep @ join_str sep l"
  by (cases l) auto

lemma split_char_join: "join_str [c] (split_char c s) = s"
  by (induction s) (auto simp: join_str_head join_str_Nil_head split: list.splits)

lemma split_char_join_inv:
  assumes "xs \<noteq> []" "\<forall>x \<in> set xs. c \<notin> set x"
  shows "split_char c (join_str [c] xs) = xs"
  using assms
  by (induction "[c]" xs rule: join_str.induct) (auto simp: split_char_no_sep split_char_append)

lemma split_once_Some:
  "split_once c s = Some (a, b) \<Longrightarrow> s = a @ c # b \<and> c \<notin> set a"
  by (induction s arbitrary: a) (auto split: if_splits option.splits)

lemma split_once_append: "c \<notin> set a \<Longrightarrow> split_once c (a @ c # b) = Some (a, b)"
  by (induction a) auto

lemma split_once_None: "split_once c s = None \<longleftrightarrow> c \<notin> set s"
  by (induction s) (auto split: option.splits)

section \<open>Hash maps\<close>

text \<open>
  A \<open>HashMap\<close> is an association list with distinct keys; its iteration order is some order of
  the list, so no property below depends on it.  \<open>keyed f\<close> says that every value sits under the
  key \<open>f\<close> computes from it, which is what makes a scan over the values a lookup.
\<close>

type_synonym ('k, 'v) hmap = "('k \<times> 'v) list"

definition hm_values :: "('k, 'v) hmap \<Rightarrow> 'v list" where
  "hm_values m = map snd m"

definition hm_contains :: "('k, 'v) hmap \<Rightarrow> 'k \<Rightarrow> bool" where
  "hm_contains m k = (map_of m k \<noteq> None)"

definition hm_ok :: "('k, 'v) hmap \<Rightarrow> bool" where
  "hm_ok m = distinct (map fst m)"

definition keyed :: "('v \<Rightarrow> 'k) \<Rightarrow> ('k, 'v) hmap \<Rightarrow> bool" where
  "keyed f m = list_all (\<lambda>(k, v). k = f v) m"

lemma map_of_upd [simp, store_laws]: "map_of (AList.update k v m) = (map_of m)(k \<mapsto> v)"
  by (rule AList.update_conv')

lemma map_of_del [simp, store_laws]: "map_of (AList.delete k m) = (map_of m)(k := None)"
  by (rule AList.delete_conv')

lemma hm_ok_Nil [simp]: "hm_ok []"
  by (simp add: hm_ok_def)

lemma hm_ok_update [simp]: "hm_ok m \<Longrightarrow> hm_ok (AList.update k v m)"
  by (simp add: hm_ok_def AList.distinct_update)

lemma hm_ok_delete [simp]: "hm_ok m \<Longrightarrow> hm_ok (AList.delete k m)"
  by (simp add: hm_ok_def AList.distinct_delete)

lemma keyed_Nil [simp]: "keyed f []"
  by (simp add: keyed_def)

lemma keyed_update: "keyed f m \<Longrightarrow> keyed f (AList.update (f v) v m)"
  by (induction m) (auto simp: keyed_def)

lemma keyed_delete [simp]: "keyed f m \<Longrightarrow> keyed f (AList.delete k m)"
  by (auto simp: keyed_def AList.delete_eq list_all_iff)

lemma keyed_map_of: "keyed f m \<Longrightarrow> map_of m k = Some v \<Longrightarrow> f v = k"
  by (auto simp: keyed_def list_all_iff dest: map_of_SomeD)

lemma find_keyed:
  "keyed f m \<Longrightarrow> List.find (\<lambda>v. f v = k) (hm_values m) = map_of m k"
  by (induction m) (auto simp: keyed_def hm_values_def)

lemma hm_values_set:
  "hm_ok m \<Longrightarrow> set (hm_values m) = ran (map_of m)"
  by (auto simp: hm_values_def hm_ok_def ran_distinct)

lemma map_of_rev_distinct: "distinct (map fst m) \<Longrightarrow> map_of (rev m) = map_of m"
  by (subst map_of_inject_set) (simp_all add: rev_map [symmetric])

lemma hm_contains_update [simp]: "hm_contains (AList.update k v m) k' = (k' = k \<or> hm_contains m k')"
  by (simp add: hm_contains_def)

section \<open>Ordered maps\<close>

text \<open>\<open>BTreeMap<String, _>\<close>: keys strictly increasing, insertion in place.\<close>

fun bt_insert :: "'k::linorder \<Rightarrow> 'v \<Rightarrow> ('k \<times> 'v) list \<Rightarrow> ('k \<times> 'v) list" where
  "bt_insert k v [] = [(k, v)]"
| "bt_insert k v ((k', v') # m) =
     (if k < k' then (k, v) # (k', v') # m
      else if k = k' then (k, v) # m
      else (k', v') # bt_insert k v m)"

definition bt_remove :: "'k \<Rightarrow> ('k \<times> 'v) list \<Rightarrow> ('k \<times> 'v) list" where
  "bt_remove k m = filter (\<lambda>p. fst p \<noteq> k) m"

definition bt_ok :: "('k::linorder \<times> 'v) list \<Rightarrow> bool" where
  "bt_ok m = sorted_wrt (<) (map fst m)"

definition bt_of :: "('k::linorder \<times> 'v) list \<Rightarrow> ('k \<times> 'v) list" where
  "bt_of kvs = fold (\<lambda>(k, v) m. bt_insert k v m) kvs []"

lemma map_of_bt_insert [simp, store_laws]: "map_of (bt_insert k v m) = (map_of m)(k \<mapsto> v)"
proof (induction m)
  case (Cons p m)
  then show ?case by (cases p) auto
qed simp

lemma fst_set_bt_insert [simp]: "fst ` set (bt_insert k v m) = insert k (fst ` set m)"
proof (induction m)
  case (Cons p m)
  then show ?case by (cases p) (simp add: insert_commute)
qed simp

lemma set_bt_insert_sub: "set (bt_insert k v m) \<subseteq> insert (k, v) (set m)"
proof (induction m)
  case (Cons p m)
  then show ?case by (cases p) (simp add: subset_insertI2 insert_commute subset_iff)
qed simp

lemma bt_ok_insert [simp]: "bt_ok m \<Longrightarrow> bt_ok (bt_insert k v m)"
proof (induction m)
  case (Cons p m)
  obtain k' v' where p: "p = (k', v')" by (cases p)
  have "\<forall>x \<in> fst ` set (bt_insert k v m). k' < x" if "\<not> k < k'" "k \<noteq> k'"
    using Cons.prems p that by (auto simp: bt_ok_def)
  then show ?case using Cons p by (force simp: bt_ok_def)
qed (simp add: bt_ok_def)

lemma bt_ok_Nil [simp]: "bt_ok []"
  by (simp add: bt_ok_def)

lemma bt_ok_Cons: "bt_ok ((k, v) # m) \<longleftrightarrow> bt_ok m \<and> (\<forall>k' \<in> fst ` set m. k < k')"
  by (auto simp: bt_ok_def)

lemma bt_ok_remove [simp]: "bt_ok m \<Longrightarrow> bt_ok (bt_remove k m)"
  by (induction m) (auto simp: bt_ok_def bt_remove_def)

lemma map_of_bt_remove [simp, store_laws]: "map_of (bt_remove k m) = (map_of m)(k := None)"
  by (induction m) (auto simp: bt_remove_def fun_eq_iff)

lemma bt_insert_remove: "bt_ok m \<Longrightarrow> bt_insert k v (bt_remove k m) = bt_insert k v m"
proof (induction m)
  case (Cons p m)
  obtain k' v' where p: "p = (k', v')" by (cases p)
  have "bt_remove k m = m" if "k \<le> k'"
    using Cons.prems that p by (force simp: bt_ok_def bt_remove_def intro: filter_True)
  moreover have "bt_insert k v m = (k, v) # m" if "k \<le> k'"
    using Cons.prems that p by (cases m) (auto simp: bt_ok_def)
  ultimately show ?case using Cons p by (auto simp: bt_ok_def bt_remove_def)
qed (simp add: bt_remove_def)

lemma bt_ok_distinct: "bt_ok m \<Longrightarrow> distinct (map fst m)"
  by (simp add: bt_ok_def strict_sorted_iff)

lemma bt_ok_ext:
  assumes "bt_ok m" "bt_ok m'" "map_of m = map_of m'"
  shows "m = m'"
proof (rule map_sorted_distinct_set_unique [where f = fst])
  have d: "distinct (map fst m)" "distinct (map fst m')"
    using assms(1,2) by (simp_all add: bt_ok_distinct)
  show eq: "set m = set m'"
    using map_of_inject_set [OF d] assms(3) by simp
  show "inj_on fst (set m \<union> set m')" using d eq by (simp add: distinct_map)
  show "sorted (map fst m)" "sorted (map fst m')" "distinct (map fst m)" "distinct (map fst m')"
    using assms(1,2) d by (simp_all add: bt_ok_def strict_sorted_iff)
qed

lemma bt_ok_fold_insert:
  "bt_ok m \<Longrightarrow> bt_ok (fold (\<lambda>(k, v) m. bt_insert k v m) kvs m)"
  by (induction kvs arbitrary: m) auto

lemma bt_ok_bt_of [simp]: "bt_ok (bt_of kvs)"
  by (simp add: bt_of_def bt_ok_fold_insert)

lemma map_of_fold_insert:
  "bt_ok m \<Longrightarrow> map_of (fold (\<lambda>(k, v) m. bt_insert k v m) kvs m) = map_of m ++ map_of (rev kvs)"
  by (induction kvs arbitrary: m) (auto simp: fun_eq_iff map_add_def split: option.splits)

lemma map_of_bt_of: "map_of (bt_of kvs) = map_of (rev kvs)"
  by (simp add: bt_of_def map_of_fold_insert)

section \<open>Files\<close>

text \<open>
  The next calls on a file succeed or fail as a script says; once it is used up they succeed.  A
  failed write may leave other contents behind.
\<close>

datatype io_outcome = IoOk | IoFails string | IoFailsLeaving string string

section \<open>A concrete codec\<close>

text \<open>
  The text formats (JSON, CSV, base64) come from other crates and are parameters of the model.
  Any countable type has a codec that satisfies the round-trip law such a parameter is assumed
  to have; the instances below use this one, in unary.
\<close>

definition unary_enc :: "'a::countable \<Rightarrow> string" where
  "unary_enc x = replicate (to_nat x) CHR ''x''"

definition unary_dec :: "string \<Rightarrow> 'a::countable" where
  "unary_dec s = from_nat (length s)"

lemma unary_dec_enc [simp]: "unary_dec (unary_enc x) = x"
  by (simp add: unary_dec_def unary_enc_def)

lemma trim_no_space: "\<forall>c \<in> set s. \<not> is_space c \<Longrightarrow> trim_str s = s"
proof -
  have d: "\<forall>c \<in> set t. \<not> is_space c \<Longrightarrow> trim_start t = t" for t
    by (cases t) (auto simp: trim_start_def)
  show "\<forall>c \<in> set s. \<not> is_space c \<Longrightarrow> trim_str s = s"
    using d [of s] d [of "rev s"] by (simp add: trim_str_def)
qed

lemma trim_unary_enc [simp]: "trim_str (unary_enc x) = unary_enc x"
  by (rule trim_no_space) (auto simp: unary_enc_def is_space_def)

end
