(* ===== verification/Json_Value.thy ===== *)
theory Json_Value
  imports TR_Prelude
begin

text \<open>
  JSON values as \<open>serde_json::Value\<close> has them without the \<open>preserve_order\<close> feature: an object is a
  \<open>BTreeMap\<close>, here an association list sorted by key, and \<open>json_ok\<close> says that every object inside
  a value is one.  Then the accessors of the standard API the crate uses, and \<open>merge_json_values\<close>
  of \<open>domain/mod.rs\<close> with its laws: it preserves \<open>json_ok\<close>, merges key by key, and a path that
  the additional value defines wins over the base.
\<close>

datatype json_num = NInt int | NFloat string

datatype json =
    JNull
  | JBool bool
  | JNum json_num
  | JStr string
  | JArr "json list"
  | JObj "(string \<times> json) list"

instance json_num :: countable
  by countable_datatype

instance json :: countable
  by countable_datatype

primrec json_ok :: "json \<Rightarrow> bool" where
  "json_ok JNull = True"
| "json_ok (JBool b) = True"
| "json_ok (JNum n) = True"
| "json_ok (JStr s) = True"
| "json_ok (JArr xs) = list_all (\<lambda>b. b) (map json_ok xs)"
| "json_ok (JObj m) = (bt_ok m \<and> list_all snd (map (map_prod id json_ok) m))"

lemma json_ok_JArr: "json_ok (JArr xs) \<longleftrightarrow> (\<forall>x \<in> set xs. json_ok x)"
  by (simp add: list_all_iff)

lemma json_ok_JObj: "json_ok (JObj m) \<longleftrightarrow> bt_ok m \<and> (\<forall>(k, v) \<in> set m. json_ok v)"
  by (auto simp: list_all_iff)

declare json_ok.simps(5,6) [simp del]
declare json_ok_JArr [simp] json_ok_JObj [simp]

fun as_str :: "json \<Rightarrow> string option" where
  "as_str (JStr s) = Some s"
| "as_str _ = None"

fun as_bool :: "json \<Rightarrow> bool option" where
  "as_bool (JBool b) = Some b"
| "as_bool _ = None"

fun as_array :: "json \<Rightarrow> json list option" where
  "as_array (JArr xs) = Some xs"
| "as_array _ = None"

fun json_get :: "json \<Rightarrow> string \<Rightarrow> json option" where
  "json_get (JObj m) k = map_of m k"
| "json_get _ k = None"

fun is_object :: "json \<Rightarrow> bool" where
  "is_object (JObj m) = True"
| "is_object _ = False"

fun is_array :: "json \<Rightarrow> bool" where
  "is_array (JArr m) = True"
| "is_array _ = False"

definition get_str :: "json \<Rightarrow> string \<Rightarrow> string option" where
  "get_str j k = Option.bind (json_get j k) as_str"

definition jobj :: "(string \<times> json) list \<Rightarrow> json" where
  "jobj kvs = JObj (bt_of kvs)"

lemma json_get_jobj: "json_get (jobj kvs) k = map_of (rev kvs) k"
  by (simp add: jobj_def map_of_bt_of)

lemma json_ok_bt_insert:
  "json_ok (JObj m) \<Longrightarrow> json_ok v \<Longrightarrow> json_ok (JObj (bt_insert k v m))"
  using set_bt_insert_sub [of k v m] by auto

lemma json_ok_fold_insert:
  "json_ok (JObj m) \<Longrightarrow> \<forall>(k, v) \<in> set kvs. json_ok v \<Longrightarrow>
   json_ok (JObj (fold (\<lambda>(k, v) m. bt_insert k v m) kvs m))"
proof (induction kvs arbitrary: m)
  case (Cons p kvs)
  obtain k v where p: "p = (k, v)" by (cases p)
  have v: "json_ok v" using Cons.prems(2) p by auto
  show ?case using Cons.IH [OF json_ok_bt_insert [OF Cons.prems(1) v]] Cons.prems(2) p by auto
qed simp

lemma json_ok_jobj: "\<forall>(k, v) \<in> set kvs. json_ok v \<Longrightarrow> json_ok (jobj kvs)"
  unfolding jobj_def bt_of_def by (rule json_ok_fold_insert) auto

section \<open>Merging\<close>

function merge_json_values :: "json \<Rightarrow> json \<Rightarrow> json"
  and merge_fields :: "(string \<times> json) list \<Rightarrow> (string \<times> json) list \<Rightarrow> (string \<times> json) list" where
  "merge_json_values base additional =
     (case (base, additional) of
        (JObj base_map, JObj additional_map) \<Rightarrow> JObj (merge_fields base_map additional_map)
      | (_, additional_value) \<Rightarrow> additional_value)"
| "merge_fields base_map [] = base_map"
| "merge_fields base_map ((key, additional_value) # rest) =
     (let merged_value =
            (case map_of base_map key of
               Some base_value \<Rightarrow> merge_json_values base_value additional_value
             | None \<Rightarrow> additional_value)
      in merge_fields (bt_insert key merged_value (bt_remove key base_map)) rest)"
  by pat_completeness auto
termination
  by (relation "measure (case_sum (\<lambda>(b, a). 2 * size a) (\<lambda>(b, a). 2 * size (JObj a) - 1))") auto

declare merge_json_values.simps [simp del]

lemma merge_json_obj [simp]:
  "merge_json_values (JObj b) (JObj a) = JObj (merge_fields b a)"
  by (simp add: merge_json_values.simps)

lemma merge_json_other:
  "\<not> (is_object b \<and> is_object a) \<Longrightarrow> merge_json_values b a = a"
  by (cases b; cases a) (auto simp: merge_json_values.simps)

lemma merge_keep_ok:
  "json_ok base \<Longrightarrow> json_ok additional \<Longrightarrow> json_ok (merge_json_values base additional)"
  "json_ok (JObj base_map) \<Longrightarrow> \<forall>(k, v) \<in> set am. json_ok v \<Longrightarrow>
     json_ok (JObj (merge_fields base_map am))"
proof (induction base additional and base_map am rule: merge_json_values_merge_fields.induct)
  case (1 base additional)
  show ?case
  proof (cases "is_object base \<and> is_object additional")
    case True
    then obtain b a where ba: "base = JObj b" "additional = JObj a"
      by (cases base; cases additional) auto
    show ?thesis using "1.IH" [of base additional b a] "1.prems" ba by simp
  next
    case False
    then show ?thesis using "1.prems" by (simp add: merge_json_other)
  qed
next
  case (3 base_map key v rest)
  let ?mv = "case map_of base_map key of Some b \<Rightarrow> merge_json_values b v | None \<Rightarrow> v"
  have "json_ok ?mv"
  proof (cases "map_of base_map key")
    case (Some b)
    then have "json_ok b" using "3.prems"(1) by (auto dest: map_of_SomeD)
    then show ?thesis using Some "3.IH"(1) [OF Some] "3.prems"(2) by auto
  qed (use "3.prems" in auto)
  moreover have "json_ok (JObj (bt_remove key base_map))"
    using "3.prems"(1) by (auto simp: bt_remove_def[of key base_map] intro: bt_ok_remove[unfolded bt_remove_def])
  ultimately have "json_ok (JObj (bt_insert key ?mv (bt_remove key base_map)))"
    by (rule json_ok_bt_insert [rotated])
  then show ?case using "3.IH"(2) [OF refl] "3.prems"(2) by (simp add: Let_def)
qed simp

lemma map_of_merge_fields:
  assumes "distinct (map fst am)"
  shows "map_of (merge_fields base_map am) k =
     (case (map_of base_map k, map_of am k) of
        (Some b, Some a) \<Rightarrow> Some (merge_json_values b a)
      | (None, Some a) \<Rightarrow> Some a
      | (b, None) \<Rightarrow> b)"
  using assms
proof (induction am arbitrary: base_map)
  case Nil
  then show ?case by (auto split: option.splits)
next
  case (Cons p am)
  obtain key v where p: "p = (key, v)" by (cases p)
  have "map_of am key = None" using Cons.prems p by (simp add: map_of_eq_None_iff)
  moreover have "distinct (map fst am)" using Cons.prems by simp
  ultimately show ?case using Cons.IH p by (auto simp: Let_def split: option.splits)
qed

lemma json_get_merge:
  assumes "json_ok additional" "is_object base" "is_object additional"
  shows "json_get (merge_json_values base additional) k =
     (case (json_get base k, json_get additional k) of
        (Some b, Some a) \<Rightarrow> Some (merge_json_values b a)
      | (None, Some a) \<Rightarrow> Some a
      | (b, None) \<Rightarrow> b)"
proof -
  obtain b a where "base = JObj b" "additional = JObj a"
    using assms(2,3) by (cases base; cases additional) auto
  then show ?thesis using assms(1) map_of_merge_fields [OF bt_ok_distinct, of a b k] by simp
qed

text \<open>Lookup along a path of keys, the way a reader of a nested context walks it.\<close>

fun json_path :: "json \<Rightarrow> string list \<Rightarrow> json option" where
  "json_path j [] = Some j"
| "json_path j (k # ks) = (case json_get j k of None \<Rightarrow> None | Some v \<Rightarrow> json_path v ks)"

lemma json_path_non_object: "\<not> is_object j \<Longrightarrow> ks \<noteq> [] \<Longrightarrow> json_path j ks = None"
  by (cases ks; cases j) auto

lemma json_get_ok: "json_ok j \<Longrightarrow> json_get j k = Some v \<Longrightarrow> json_ok v"
  by (cases j) (auto dest: map_of_SomeD)

lemma merge_path_additional_wins:
  assumes "json_ok base" "json_ok additional"
    and "json_path additional ks = Some v" "\<not> is_object v"
  shows "json_path (merge_json_values base additional) ks = Some v"
  using assms
proof (induction ks arbitrary: base additional)
  case Nil
  then show ?case by (simp add: merge_json_other)
next
  case (Cons k ks)
  obtain a where a: "json_get additional k = Some a" "json_path a ks = Some v"
    using Cons.prems(3) by (auto split: option.splits)
  have oa: "is_object additional" using a(1) by (cases additional) auto
  show ?case
  proof (cases "is_object base")
    case False
    then show ?thesis using Cons.prems(3) by (simp add: merge_json_other)
  next
    case True
    have ok_a: "json_ok a" by (rule json_get_ok [OF Cons.prems(2) a(1)])
    show ?thesis
    proof (cases "json_get base k")
      case None
      then show ?thesis using a json_get_merge [OF Cons.prems(2) True oa, of k] by simp
    next
      case (Some b)
      have "json_ok b" by (rule json_get_ok [OF Cons.prems(1) Some])
      from Cons.IH [OF this ok_a a(2) Cons.prems(4)] show ?thesis
        using Some a json_get_merge [OF Cons.prems(2) True oa, of k] by simp
    qed
  qed
qed

lemma merge_path_base_kept:
  assumes "json_ok base" "json_ok additional" "is_object base" "is_object additional"
    and "json_path base ks = Some v" "ks \<noteq> []"
    and "\<forall>n < length ks. \<forall>a. json_path additional (take (Suc n) ks) = Some a \<longrightarrow> is_object a \<and> Suc n < length ks"
  shows "json_path (merge_json_values base additional) ks = Some v"
  using assms
proof (induction ks arbitrary: base additional)
  case (Cons k ks)
  obtain b where b: "json_get base k = Some b" "json_path b ks = Some v"
    using Cons.prems(5) by (auto split: option.splits)
  note m = json_get_merge [OF Cons.prems(2-4), of k]
  show ?case
  proof (cases "json_get additional k")
    case None
    then show ?thesis using b m by simp
  next
    case (Some a)
    have "is_object a \<and> ks \<noteq> []" using Cons.prems(7) [rule_format, of 0 a] Some by auto
    moreover have "is_object b" using b(2) calculation json_path_non_object by force
    moreover have "\<forall>n < length ks. \<forall>x. json_path a (take (Suc n) ks) = Some x \<longrightarrow> is_object x \<and> Suc n < length ks"
    proof (intro allI impI)
      fix n x assume "n < length ks" "json_path a (take (Suc n) ks) = Some x"
      then show "is_object x \<and> Suc n < length ks"
        using Cons.prems(7) [rule_format, of "Suc n" x] Some by simp
    qed
    ultimately have "json_path (merge_json_values b a) ks = Some v"
      using Cons.IH [OF json_get_ok [OF Cons.prems(1) b(1)] json_get_ok [OF Cons.prems(2) Some]] b(2)
      by blast
    then show ?thesis using b Some m by simp
  qed
qed simp

lemma merge_fields_Nil [simp]: "merge_fields b [] = b"
  by simp

lemma merge_empty_right: "is_object b \<Longrightarrow> merge_json_values b (JObj []) = b"
  by (cases b) auto

lemma merge_empty_left:
  assumes "json_ok (JObj a)"
  shows "merge_json_values (JObj []) (JObj a) = JObj a"
proof -
  have "bt_ok (merge_fields [] a)" "bt_ok a"
    using merge_keep_ok(1) [of "JObj []" "JObj a"] assms by simp_all
  moreover have "map_of (merge_fields [] a) = map_of a"
    using map_of_merge_fields [OF bt_ok_distinct, of a "[]"] assms
    by (auto simp: fun_eq_iff split: option.splits)
  ultimately show ?thesis by (simp add: bt_ok_ext)
qed

end
