(* ===== verification/Domain.thy ===== *)
theory Domain
  imports Json_Value
begin

text \<open>
  \<open>domain/mod.rs\<close>, \<open>domain/key.rs\<close> and the data of \<open>storage/repository.rs\<close>: the identifier
  newtypes, contexts, trust records and their builder, the storage key and the sort key it
  renders to, queries and the errors of a repository, and the JSON form of a record that the
  derived \<open>Serialize\<close>/\<open>Deserialize\<close> give.  The lemmas: building a record (which error comes
  first), the round trip of the JSON form, and when two keys render to the same sort key.
\<close>

section \<open>Identifiers and contexts\<close>

datatype entity_id = EntityId (entity_str: string)
datatype authority_id = AuthorityId (authority_str: string)
datatype action = Action (action_str: string)
datatype resource = Resource (resource_str: string)

datatype record_context = Context (context_value: json)

definition context_empty :: record_context where
  "context_empty = Context (JObj [])"

definition context_merge :: "record_context \<Rightarrow> record_context \<Rightarrow> record_context" where
  "context_merge c additional = Context (merge_json_values (context_value c) (context_value additional))"

definition context_ok :: "record_context \<Rightarrow> bool" where
  "context_ok c = json_ok (context_value c)"

record trust_record_ids =
  ids_entity :: entity_id
  ids_authority :: authority_id
  ids_action :: action
  ids_resource :: resource

definition into_parts :: "trust_record_ids \<Rightarrow> entity_id \<times> authority_id \<times> action \<times> resource" where
  "into_parts ids = (ids_entity ids, ids_authority ids, ids_action ids, ids_resource ids)"

section \<open>Record types and errors\<close>

datatype record_type = Authorization | Recognition

datatype trust_record_error =
    MissingEntityId
  | MissingAuthorityId
  | MissingAction
  | MissingResource
  | MissingTimeRequested
  | MissingTimeEvaluated
  | MissingRecordType
  | InvalidRecordType

definition record_type_from_str :: "string \<Rightarrow> (record_type, trust_record_error) result" where
  "record_type_from_str s =
     (let l = to_lowercase s in
      if l = ''authorization'' then Ok Authorization
      else if l = ''recognition'' then Ok Recognition
      else Err InvalidRecordType)"

fun record_type_str :: "record_type \<Rightarrow> string" where
  "record_type_str Authorization = ''authorization''"
| "record_type_str Recognition = ''recognition''"

fun trust_record_error_str :: "trust_record_error \<Rightarrow> string" where
  "trust_record_error_str MissingEntityId = ''Entity ID is required''"
| "trust_record_error_str MissingAuthorityId = ''Authority ID is required''"
| "trust_record_error_str MissingAction = ''Action is required''"
| "trust_record_error_str MissingResource = ''Resource is required''"
| "trust_record_error_str MissingTimeRequested = ''Time requested is required''"
| "trust_record_error_str MissingTimeEvaluated = ''Time evaluated is required''"
| "trust_record_error_str MissingRecordType = ''Record type is required''"
| "trust_record_error_str InvalidRecordType = ''Record type is invalid''"

lemma record_type_str_lower: "to_lowercase (record_type_str t) = record_type_str t"
  by (cases t) (simp_all add: to_lowercase_def ascii_lower_def)

lemma record_type_roundtrip: "record_type_from_str (record_type_str t) = Ok t"
  using record_type_str_lower [of t] by (cases t) (simp_all add: record_type_from_str_def)

lemma record_type_from_str_Ok:
  "record_type_from_str s = Ok t \<longleftrightarrow> to_lowercase s = record_type_str t"
  by (cases t) (auto simp: record_type_from_str_def Let_def)

section \<open>Trust records\<close>

record trust_record =
  tr_entity :: entity_id
  tr_authority :: authority_id
  tr_action :: action
  tr_resource :: resource
  tr_recognized :: "bool option"
  tr_authorized :: "bool option"
  tr_context :: record_context
  tr_type :: record_type

definition trust_record_new ::
  "entity_id \<Rightarrow> authority_id \<Rightarrow> action \<Rightarrow> resource \<Rightarrow> bool \<Rightarrow> bool \<Rightarrow> record_context \<Rightarrow> record_type \<Rightarrow> trust_record" where
  "trust_record_new e a act r recognized authorized c t =
     \<lparr>tr_entity = e, tr_authority = a, tr_action = act, tr_resource = r,
      tr_recognized = Some recognized, tr_authorized = Some authorized, tr_context = c, tr_type = t\<rparr>"

definition is_recognized :: "trust_record \<Rightarrow> bool" where
  "is_recognized r = (case tr_recognized r of Some b \<Rightarrow> b | None \<Rightarrow> False)"

definition is_authorized :: "trust_record \<Rightarrow> bool" where
  "is_authorized r = (case tr_authorized r of Some b \<Rightarrow> b | None \<Rightarrow> False)"

definition merge_contexts :: "trust_record \<Rightarrow> record_context \<Rightarrow> trust_record" where
  "merge_contexts r additional = r\<lparr>tr_context := context_merge (tr_context r) additional\<rparr>"

definition none_authorized :: "trust_record \<Rightarrow> trust_record" where
  "none_authorized r = r\<lparr>tr_authorized := None\<rparr>"

definition none_recognized :: "trust_record \<Rightarrow> trust_record" where
  "none_recognized r = r\<lparr>tr_recognized := None\<rparr>"

definition trust_record_str :: "trust_record \<Rightarrow> string" where
  "trust_record_str r = entity_str (tr_entity r) @ ''|'' @ authority_str (tr_authority r) @ ''|'' @
     action_str (tr_action r) @ ''|'' @ resource_str (tr_resource r)"

section \<open>The builder\<close>

record trust_record_builder =
  tb_entity :: "entity_id option"
  tb_authority :: "authority_id option"
  tb_action :: "action option"
  tb_resource :: "resource option"
  tb_recognized :: "bool option"
  tb_context :: record_context
  tb_authorized :: "bool option"
  tb_type :: "record_type option"

definition builder_new :: trust_record_builder where
  "builder_new = \<lparr>tb_entity = None, tb_authority = None, tb_action = None, tb_resource = None,
     tb_recognized = None, tb_context = context_empty, tb_authorized = None, tb_type = None\<rparr>"

definition with_entity :: "entity_id \<Rightarrow> trust_record_builder \<Rightarrow> trust_record_builder" where
  "with_entity x b = b\<lparr>tb_entity := Some x\<rparr>"
definition with_authority :: "authority_id \<Rightarrow> trust_record_builder \<Rightarrow> trust_record_builder" where
  "with_authority x b = b\<lparr>tb_authority := Some x\<rparr>"
definition with_action :: "action \<Rightarrow> trust_record_builder \<Rightarrow> trust_record_builder" where
  "with_action x b = b\<lparr>tb_action := Some x\<rparr>"
definition with_resource :: "resource \<Rightarrow> trust_record_builder \<Rightarrow> trust_record_builder" where
  "with_resource x b = b\<lparr>tb_resource := Some x\<rparr>"
definition with_recognized :: "bool \<Rightarrow> trust_record_builder \<Rightarrow> trust_record_builder" where
  "with_recognized x b = b\<lparr>tb_recognized := Some x\<rparr>"
definition with_context :: "record_context \<Rightarrow> trust_record_builder \<Rightarrow> trust_record_builder" where
  "with_context x b = b\<lparr>tb_context := x\<rparr>"
definition with_authorized :: "bool \<Rightarrow> trust_record_builder \<Rightarrow> trust_record_builder" where
  "with_authorized x b = b\<lparr>tb_authorized := Some x\<rparr>"
definition with_type :: "record_type \<Rightarrow> trust_record_builder \<Rightarrow> trust_record_builder" where
  "with_type x b = b\<lparr>tb_type := Some x\<rparr>"

lemmas builder_defs = builder_new_def with_entity_def with_authority_def with_action_def
  with_resource_def with_recognized_def with_context_def with_authorized_def with_type_def

definition builder_build :: "trust_record_builder \<Rightarrow> (trust_record, trust_record_error) result" where
  "builder_build b =
     bind_ok (ok_or (tb_entity b) MissingEntityId) (\<lambda>e.
     bind_ok (ok_or (tb_authority b) MissingAuthorityId) (\<lambda>a.
     bind_ok (ok_or (tb_action b) MissingAction) (\<lambda>act.
     bind_ok (ok_or (tb_resource b) MissingResource) (\<lambda>r.
     bind_ok (ok_or (tb_type b) MissingRecordType) (\<lambda>t.
     Ok \<lparr>tr_entity = e, tr_authority = a, tr_action = act, tr_resource = r,
         tr_recognized = tb_recognized b, tr_authorized = tb_authorized b,
         tr_context = tb_context b, tr_type = t\<rparr>)))))"

lemma builder_build_Ok:
  "builder_build b = Ok r \<longleftrightarrow>
     tb_entity b = Some (tr_entity r) \<and> tb_authority b = Some (tr_authority r) \<and>
     tb_action b = Some (tr_action r) \<and> tb_resource b = Some (tr_resource r) \<and>
     tb_type b = Some (tr_type r) \<and> tb_recognized b = tr_recognized r \<and>
     tb_authorized b = tr_authorized r \<and> tb_context b = tr_context r"
  by (cases r) (auto simp: builder_build_def)

lemma builder_build_Err:
  "builder_build b = Err e \<longleftrightarrow>
     (if tb_entity b = None then e = MissingEntityId
      else if tb_authority b = None then e = MissingAuthorityId
      else if tb_action b = None then e = MissingAction
      else if tb_resource b = None then e = MissingResource
      else tb_type b = None \<and> e = MissingRecordType)"
  by (auto simp: builder_build_def bind_ok_eq_Err)

section \<open>Queries, keys and repository errors\<close>

record trust_record_query =
  q_entity :: entity_id
  q_authority :: authority_id
  q_action :: action
  q_resource :: resource

definition query_new :: "entity_id \<Rightarrow> authority_id \<Rightarrow> action \<Rightarrow> resource \<Rightarrow> trust_record_query" where
  "query_new e a act r = \<lparr>q_entity = e, q_authority = a, q_action = act, q_resource = r\<rparr>"

definition query_from_ids :: "trust_record_ids \<Rightarrow> trust_record_query" where
  "query_from_ids ids = (case into_parts ids of (e, a, act, r) \<Rightarrow> query_new e a act r)"

definition query_of_record :: "trust_record \<Rightarrow> trust_record_query" where
  "query_of_record r = query_new (tr_entity r) (tr_authority r) (tr_action r) (tr_resource r)"

record trust_record_key =
  k_authority :: authority_id
  k_action :: action
  k_resource :: resource
  k_entity :: entity_id

definition TR_PK :: string where
  "TR_PK = ''TR''"

definition TR_SK_PREFIX :: string where
  "TR_SK_PREFIX = ''TR#''"

definition key_body :: "authority_id \<Rightarrow> action \<Rightarrow> resource \<Rightarrow> entity_id \<Rightarrow> string" where
  "key_body a act r e = authority_str a @ ''#'' @ action_str act @ ''#'' @ resource_str r @ ''#'' @ entity_str e"

definition sk :: "trust_record_key \<Rightarrow> string" where
  "sk k = TR_SK_PREFIX @ key_body (k_authority k) (k_action k) (k_resource k) (k_entity k)"

definition key_from_record :: "trust_record \<Rightarrow> trust_record_key" where
  "key_from_record r = \<lparr>k_authority = tr_authority r, k_action = tr_action r,
     k_resource = tr_resource r, k_entity = tr_entity r\<rparr>"

definition key_from_query :: "trust_record_query \<Rightarrow> trust_record_key" where
  "key_from_query q = \<lparr>k_authority = q_authority q, k_action = q_action q,
     k_resource = q_resource q, k_entity = q_entity q\<rparr>"

definition matches_query :: "trust_record \<Rightarrow> trust_record_query \<Rightarrow> bool" where
  "matches_query r q \<longleftrightarrow> tr_entity r = q_entity q \<and> tr_authority r = q_authority q \<and>
     tr_action r = q_action q \<and> tr_resource r = q_resource q"

lemma matches_query_key: "matches_query r q \<longleftrightarrow> key_from_record r = key_from_query q"
  by (auto simp: matches_query_def key_from_record_def key_from_query_def)

lemma key_from_query_inj: "key_from_query q = key_from_query q' \<longleftrightarrow> q = q'"
  by (cases q; cases q') (auto simp: key_from_query_def)

lemma key_query_of_record [simp]: "key_from_query (query_of_record r) = key_from_record r"
  by (simp add: query_of_record_def query_new_def key_from_query_def key_from_record_def)

datatype repository_error =
    ConnectionFailed string
  | QueryFailed string
  | SerializationFailed string
  | RecordNotFound string
  | RecordAlreadyExists string
  | ValidationError string
  | LockPoisoned

fun repository_error_str :: "repository_error \<Rightarrow> string" where
  "repository_error_str (ConnectionFailed m) = ''Connection failed: '' @ m"
| "repository_error_str (QueryFailed m) = ''Query failed: '' @ m"
| "repository_error_str (SerializationFailed m) = ''Serialization failed: '' @ m"
| "repository_error_str (RecordNotFound m) = ''Record not found: '' @ m"
| "repository_error_str (RecordAlreadyExists m) = ''Record already exists: '' @ m"
| "repository_error_str (ValidationError m) = ''Validation error: '' @ m"
| "repository_error_str LockPoisoned = ''Lock poisoned''"

text \<open>
  The sort key joins its parts with \<open>#\<close>.  It determines the key when no part but the last (the
  entity) contains a \<open>#\<close>; without that, two keys can share a sort key.
\<close>

definition key_plain :: "trust_record_key \<Rightarrow> bool" where
  "key_plain k \<longleftrightarrow> CHR ''#'' \<notin> set (authority_str (k_authority k)) \<and>
     CHR ''#'' \<notin> set (action_str (k_action k)) \<and> CHR ''#'' \<notin> set (resource_str (k_resource k))"

lemma sk_inj:
  assumes "key_plain k" "key_plain k'" "sk k = sk k'"
  shows "k = k'"
proof -
  obtain a ac r e a' ac' r' e' where
    k: "k = \<lparr>k_authority = AuthorityId a, k_action = Action ac, k_resource = Resource r, k_entity = EntityId e\<rparr>"
    and k': "k' = \<lparr>k_authority = AuthorityId a', k_action = Action ac', k_resource = Resource r', k_entity = EntityId e'\<rparr>"
    by (metis action.exhaust authority_id.exhaust entity_id.exhaust resource.exhaust trust_record_key.cases)
  have eq: "a @ CHR ''#'' # ac @ CHR ''#'' # r @ CHR ''#'' # e =
            a' @ CHR ''#'' # ac' @ CHR ''#'' # r' @ CHR ''#'' # e'"
    using assms(3) k k' by (simp add: sk_def key_body_def)
  have n: "CHR ''#'' \<notin> set a" "CHR ''#'' \<notin> set ac" "CHR ''#'' \<notin> set r"
    "CHR ''#'' \<notin> set a'" "CHR ''#'' \<notin> set ac'" "CHR ''#'' \<notin> set r'"
    using assms(1,2) k k' by (simp_all add: key_plain_def)
  have "a = a'" "ac @ CHR ''#'' # r @ CHR ''#'' # e = ac' @ CHR ''#'' # r' @ CHR ''#'' # e'"
    using eq split_once_append [OF n(1)] split_once_append [OF n(4)] by (metis Pair_inject option.inject)+
  moreover from this have "ac = ac'" "r @ CHR ''#'' # e = r' @ CHR ''#'' # e'"
    using split_once_append [OF n(2)] split_once_append [OF n(5)] by (metis Pair_inject option.inject)+
  moreover from this have "r = r'" "e = e'"
    using split_once_append [OF n(3)] split_once_append [OF n(6)] by (metis Pair_inject option.inject)+
  ultimately show ?thesis using k k' by simp
qed

section \<open>The JSON form of a record\<close>

datatype de_error = MissingField string | InvalidType string | InvalidLength nat | CustomError string

definition opt_field :: "string \<Rightarrow> bool option \<Rightarrow> (string \<times> json) list" where
  "opt_field k b = (case b of Some x \<Rightarrow> [(k, JBool x)] | None \<Rightarrow> [])"

definition record_to_json :: "trust_record \<Rightarrow> json" where
  "record_to_json r = jobj (
     [(''entity_id'', JStr (entity_str (tr_entity r))),
      (''authority_id'', JStr (authority_str (tr_authority r))),
      (''action'', JStr (action_str (tr_action r))),
      (''resource'', JStr (resource_str (tr_resource r)))] @
     opt_field ''recognized'' (tr_recognized r) @
     opt_field ''authorized'' (tr_authorized r) @
     [(''context'', context_value (tr_context r)),
      (''record_type'', JStr (record_type_str (tr_type r)))])"

definition de_string :: "json \<Rightarrow> (string, de_error) result" where
  "de_string j = ok_or (as_str j) (InvalidType ''a string'')"

definition de_string_field :: "json \<Rightarrow> string \<Rightarrow> (string, de_error) result" where
  "de_string_field j k = bind_ok (ok_or (json_get j k) (MissingField k)) de_string"

fun de_opt_bool :: "json option \<Rightarrow> (bool option, de_error) result" where
  "de_opt_bool None = Ok None"
| "de_opt_bool (Some JNull) = Ok None"
| "de_opt_bool (Some (JBool b)) = Ok (Some b)"
| "de_opt_bool (Some _) = Err (InvalidType ''a boolean'')"

definition de_record_type :: "string \<Rightarrow> (record_type, de_error) result" where
  "de_record_type s = map_err (\<lambda>e. CustomError (trust_record_error_str e)) (record_type_from_str s)"

definition de_record_fields ::
  "json \<Rightarrow> (trust_record, de_error) result" where
  "de_record_fields j =
     bind_ok (de_string_field j ''entity_id'') (\<lambda>e.
     bind_ok (de_string_field j ''authority_id'') (\<lambda>a.
     bind_ok (de_string_field j ''action'') (\<lambda>act.
     bind_ok (de_string_field j ''resource'') (\<lambda>r.
     bind_ok (de_opt_bool (json_get j ''recognized'')) (\<lambda>rec.
     bind_ok (de_opt_bool (json_get j ''authorized'')) (\<lambda>auth.
     bind_ok (bind_ok (de_string_field j ''record_type'') de_record_type) (\<lambda>t.
     Ok \<lparr>tr_entity = EntityId e, tr_authority = AuthorityId a, tr_action = Action act,
         tr_resource = Resource r, tr_recognized = rec, tr_authorized = auth,
         tr_context = (case json_get j ''context'' of Some c \<Rightarrow> Context c | None \<Rightarrow> context_empty),
         tr_type = t\<rparr>)))))))"

text \<open>A derived \<open>Deserialize\<close> of a struct also takes a sequence of all its fields in order.\<close>

fun record_from_json :: "json \<Rightarrow> (trust_record, de_error) result" where
  "record_from_json (JObj m) = de_record_fields (JObj m)"
| "record_from_json (JArr [e, a, act, r, rec, auth, c, t]) =
     de_record_fields (jobj [(''entity_id'', e), (''authority_id'', a), (''action'', act),
       (''resource'', r), (''recognized'', rec), (''authorized'', auth), (''context'', c),
       (''record_type'', t)])"
| "record_from_json (JArr xs) = Err (InvalidLength (length xs))"
| "record_from_json _ = Err (InvalidType ''struct TrustRecord'')"

lemma record_to_json_get:
  "json_get (record_to_json r) ''entity_id'' = Some (JStr (entity_str (tr_entity r)))"
  "json_get (record_to_json r) ''authority_id'' = Some (JStr (authority_str (tr_authority r)))"
  "json_get (record_to_json r) ''action'' = Some (JStr (action_str (tr_action r)))"
  "json_get (record_to_json r) ''resource'' = Some (JStr (resource_str (tr_resource r)))"
  "json_get (record_to_json r) ''recognized'' = map_option JBool (tr_recognized r)"
  "json_get (record_to_json r) ''authorized'' = map_option JBool (tr_authorized r)"
  "json_get (record_to_json r) ''context'' = Some (context_value (tr_context r))"
  "json_get (record_to_json r) ''record_type'' = Some (JStr (record_type_str (tr_type r)))"
  by (simp_all add: record_to_json_def json_get_jobj opt_field_def split: option.splits)

lemma record_to_json_obj: "\<exists>m. record_to_json r = JObj m"
  by (simp add: record_to_json_def jobj_def)

lemma de_opt_bool_map [simp]: "de_opt_bool (map_option JBool b) = Ok b"
  by (cases b) auto

lemma record_json_roundtrip: "record_from_json (record_to_json r) = Ok r"
proof -
  obtain m where m: "record_to_json r = JObj m" using record_to_json_obj by blast
  show ?thesis
    using record_to_json_get [of r]
    by (simp add: m de_record_fields_def de_string_field_def de_string_def de_record_type_def
        record_type_roundtrip)
qed

lemma record_to_json_ok: "context_ok (tr_context r) \<Longrightarrow> json_ok (record_to_json r)"
  unfolding record_to_json_def
  by (rule json_ok_jobj) (auto simp: opt_field_def context_ok_def split: option.splits)

end
