(* ===== verification/Repository_Spec.thy ===== *)
theory Repository_Spec
  imports Domain
begin

text \<open>
  The traits \<open>TrustRecordRepository\<close> and \<open>TrustRecordAdminRepository\<close> of
  \<open>storage/repository.rs\<close>: a record of the six operations, each passing the state of the backend,
  and the abstract specification every backend implements, a finite map from keys to records.
  A command that fails with \<open>RecordAlreadyExists\<close> or \<open>RecordNotFound\<close> tells the truth and changes
  nothing; any other failure of a write leaves the map as it was, or (when \<open>atomic\<close> is false) as
  the write would have left it.  The locale \<open>trust_repository\<close> is the contract, its lemmas are
  what the handlers rely on, and each backend interprets it.
\<close>

type_synonym ('s, 'a) repo_op = "'s \<Rightarrow> ('a, repository_error) result \<times> 's"

record 's trust_repo =
  repo_find :: "trust_record_query \<Rightarrow> ('s, trust_record option) repo_op"
  repo_create :: "trust_record \<Rightarrow> ('s, unit) repo_op"
  repo_update :: "trust_record \<Rightarrow> ('s, unit) repo_op"
  repo_delete :: "trust_record_query \<Rightarrow> ('s, unit) repo_op"
  repo_list :: "('s, trust_record list) repo_op"
  repo_read :: "trust_record_query \<Rightarrow> ('s, trust_record) repo_op"

datatype repo_cmd =
    CFind trust_record_query
  | CCreate trust_record
  | CUpdate trust_record
  | CDelete trust_record_query
  | CList
  | CRead trust_record_query

datatype repo_out =
    OFound "trust_record option"
  | ODone
  | ORecords "trust_record list"
  | ORecord trust_record
  | OFailed repository_error

definition out_of :: "('a \<Rightarrow> repo_out) \<Rightarrow> ('a, repository_error) result \<times> 's \<Rightarrow> repo_out \<times> 's" where
  "out_of f rs = (case rs of (Ok a, s) \<Rightarrow> (f a, s) | (Err e, s) \<Rightarrow> (OFailed e, s))"

fun exec_cmd :: "'s trust_repo \<Rightarrow> repo_cmd \<Rightarrow> 's \<Rightarrow> repo_out \<times> 's" where
  "exec_cmd repo (CFind q) s = out_of OFound (repo_find repo q s)"
| "exec_cmd repo (CCreate r) s = out_of (\<lambda>_. ODone) (repo_create repo r s)"
| "exec_cmd repo (CUpdate r) s = out_of (\<lambda>_. ODone) (repo_update repo r s)"
| "exec_cmd repo (CDelete q) s = out_of (\<lambda>_. ODone) (repo_delete repo q s)"
| "exec_cmd repo CList s = out_of ORecords (repo_list repo s)"
| "exec_cmd repo (CRead q) s = out_of ORecord (repo_read repo q s)"

fun exec_cmds :: "'s trust_repo \<Rightarrow> repo_cmd list \<Rightarrow> 's \<Rightarrow> repo_out list \<times> 's" where
  "exec_cmds repo [] s = ([], s)"
| "exec_cmds repo (c # cs) s =
     (let (x, s1) = exec_cmd repo c s; (xs, s2) = exec_cmds repo cs s1 in (x # xs, s2))"

fun says_exists :: "repository_error \<Rightarrow> bool" where
  "says_exists (RecordAlreadyExists m) = True"
| "says_exists _ = False"

fun says_missing :: "repository_error \<Rightarrow> bool" where
  "says_missing (RecordNotFound m) = True"
| "says_missing _ = False"

text \<open>The abstract machine: what a command may answer on a map \<open>m\<close> and which map it leaves.\<close>

fun abs_cmd ::
  "bool \<Rightarrow> (trust_record \<Rightarrow> 'k) \<Rightarrow> (trust_record_query \<Rightarrow> 'k) \<Rightarrow>
   repo_cmd \<Rightarrow> repo_out \<Rightarrow> ('k \<rightharpoonup> trust_record) \<Rightarrow> ('k \<rightharpoonup> trust_record) \<Rightarrow> bool" where
  "abs_cmd atomic kr kq (CFind q) (OFound x) m m' \<longleftrightarrow> m' = m \<and> x = m (kq q)"
| "abs_cmd atomic kr kq (CFind q) (OFailed e) m m' \<longleftrightarrow> m' = m"
| "abs_cmd atomic kr kq (CRead q) (ORecord x) m m' \<longleftrightarrow> m' = m \<and> m (kq q) = Some x"
| "abs_cmd atomic kr kq (CRead q) (OFailed e) m m' \<longleftrightarrow> m' = m \<and> (says_missing e \<longrightarrow> m (kq q) = None)"
| "abs_cmd atomic kr kq CList (ORecords xs) m m' \<longleftrightarrow> m' = m \<and> set xs = ran m"
| "abs_cmd atomic kr kq CList (OFailed e) m m' \<longleftrightarrow> m' = m"
| "abs_cmd atomic kr kq (CCreate r) ODone m m' \<longleftrightarrow> m (kr r) = None \<and> m' = m(kr r \<mapsto> r)"
| "abs_cmd atomic kr kq (CCreate r) (OFailed e) m m' \<longleftrightarrow>
     (if says_exists e then m (kr r) \<noteq> None \<and> m' = m
      else m' = m \<or> \<not> atomic \<and> m (kr r) = None \<and> m' = m(kr r \<mapsto> r))"
| "abs_cmd atomic kr kq (CUpdate r) ODone m m' \<longleftrightarrow> m (kr r) \<noteq> None \<and> m' = m(kr r \<mapsto> r)"
| "abs_cmd atomic kr kq (CUpdate r) (OFailed e) m m' \<longleftrightarrow>
     (if says_missing e then m (kr r) = None \<and> m' = m
      else m' = m \<or> \<not> atomic \<and> m (kr r) \<noteq> None \<and> m' = m(kr r \<mapsto> r))"
| "abs_cmd atomic kr kq (CDelete q) ODone m m' \<longleftrightarrow> m (kq q) \<noteq> None \<and> m' = m(kq q := None)"
| "abs_cmd atomic kr kq (CDelete q) (OFailed e) m m' \<longleftrightarrow>
     (if says_missing e then m (kq q) = None \<and> m' = m
      else m' = m \<or> \<not> atomic \<and> m (kq q) \<noteq> None \<and> m' = m(kq q := None))"
| "abs_cmd atomic kr kq _ _ m m' \<longleftrightarrow> False"

fun abs_run ::
  "bool \<Rightarrow> (trust_record \<Rightarrow> 'k) \<Rightarrow> (trust_record_query \<Rightarrow> 'k) \<Rightarrow>
   repo_cmd list \<Rightarrow> repo_out list \<Rightarrow> ('k \<rightharpoonup> trust_record) \<Rightarrow> ('k \<rightharpoonup> trust_record) \<Rightarrow> bool" where
  "abs_run atomic kr kq [] [] m m' \<longleftrightarrow> m' = m"
| "abs_run atomic kr kq (c # cs) (x # xs) m m' \<longleftrightarrow>
     (\<exists>m1. abs_cmd atomic kr kq c x m m1 \<and> abs_run atomic kr kq cs xs m1 m')"
| "abs_run atomic kr kq _ _ m m' \<longleftrightarrow> False"

lemma abs_cmd_atomic_weak: "abs_cmd True kr kq c x m m' \<Longrightarrow> abs_cmd atomic kr kq c x m m'"
  by (cases c; cases x) (auto split: if_splits)

lemma abs_cmd_keyed:
  assumes "abs_cmd atomic kr kq c x m m'" "\<forall>k r. m k = Some r \<longrightarrow> kr r = k"
  shows "\<forall>k r. m' k = Some r \<longrightarrow> kr r = k"
  using assms by (cases c; cases x) (auto split: if_splits)

text \<open>What a command that is not a write, or a write of another key, cannot change.\<close>

fun cmd_key :: "(trust_record \<Rightarrow> 'k) \<Rightarrow> (trust_record_query \<Rightarrow> 'k) \<Rightarrow> repo_cmd \<Rightarrow> 'k option" where
  "cmd_key kr kq (CCreate r) = Some (kr r)"
| "cmd_key kr kq (CUpdate r) = Some (kr r)"
| "cmd_key kr kq (CDelete q) = Some (kq q)"
| "cmd_key kr kq _ = None"

lemma abs_cmd_frame:
  "abs_cmd atomic kr kq c x m m' \<Longrightarrow> cmd_key kr kq c \<noteq> Some k \<Longrightarrow> m' k = m k"
  by (cases c; cases x) (auto split: if_splits)

lemma abs_run_frame:
  "abs_run atomic kr kq cs xs m m' \<Longrightarrow> \<forall>c \<in> set cs. cmd_key kr kq c \<noteq> Some k \<Longrightarrow> m' k = m k"
proof (induction atomic kr kq cs xs m m' rule: abs_run.induct)
  case (2 atomic kr kq c cs x xs m m')
  then obtain m1 where "abs_cmd atomic kr kq c x m m1" "abs_run atomic kr kq cs xs m1 m'" by auto
  then show ?case using 2 abs_cmd_frame by fastforce
qed auto

section \<open>The contract\<close>

locale trust_repository =
  fixes repo :: "'s trust_repo"
    and atomic :: bool
    and kr :: "trust_record \<Rightarrow> 'k"
    and kq :: "trust_record_query \<Rightarrow> 'k"
    and view :: "'s \<Rightarrow> 'k \<rightharpoonup> trust_record"
    and inv :: "'s \<Rightarrow> bool"
  assumes key_agree: "kq (query_of_record r) = kr r"
    and view_keyed: "inv s \<Longrightarrow> view s k = Some r \<Longrightarrow> kr r = k"
    and simulates: "inv s \<Longrightarrow> exec_cmd repo c s = (x, s') \<Longrightarrow>
          inv s' \<and> abs_cmd atomic kr kq c x (view s) (view s')"
begin

lemma run_simulates:
  "inv s \<Longrightarrow> exec_cmds repo cs s = (xs, s') \<Longrightarrow>
   inv s' \<and> abs_run atomic kr kq cs xs (view s) (view s')"
proof (induction cs arbitrary: s xs)
  case (Cons c cs)
  obtain x s1 where x: "exec_cmd repo c s = (x, s1)" by fastforce
  obtain ys s2 where y: "exec_cmds repo cs s1 = (ys, s2)" by fastforce
  have r: "xs = x # ys" "s' = s2" using Cons.prems(2) x y by auto
  note sx = simulates [OF Cons.prems(1) x]
  from Cons.IH [of s1 ys] sx y r have "inv s'" "abs_run atomic kr kq cs ys (view s1) (view s')" by auto
  then show ?case using r(1) sx by auto
qed simp

lemma find_law:
  assumes "inv s" "repo_find repo q s = (res, s')"
  shows "inv s'" "view s' = view s" "res = Ok x \<Longrightarrow> x = view s (kq q)"
  using simulates [of s "CFind q"] assms by (cases res; force simp: out_of_def)+

lemma read_law:
  assumes "inv s" "repo_read repo q s = (res, s')"
  shows "inv s'" "view s' = view s" "res = Ok x \<Longrightarrow> view s (kq q) = Some x"
    "res = Err e \<Longrightarrow> says_missing e \<Longrightarrow> view s (kq q) = None"
  using simulates [of s "CRead q"] assms by (cases res; force simp: out_of_def)+

lemma list_law:
  assumes "inv s" "repo_list repo s = (res, s')"
  shows "inv s'" "view s' = view s" "res = Ok xs \<Longrightarrow> set xs = ran (view s)"
  using simulates [of s CList] assms by (cases res; force simp: out_of_def)+

lemma create_law:
  assumes "inv s" "repo_create repo r s = (res, s')"
  shows "inv s'"
    "res = Ok () \<Longrightarrow> view s (kr r) = None \<and> view s' = (view s)(kr r \<mapsto> r)"
    "res = Err e \<Longrightarrow> says_exists e \<Longrightarrow> view s (kr r) \<noteq> None \<and> view s' = view s"
    "res = Err e \<Longrightarrow> view s' = view s \<or> \<not> atomic \<and> view s (kr r) = None \<and> view s' = (view s)(kr r \<mapsto> r)"
  using simulates [of s "CCreate r"] assms by (cases res; force simp: out_of_def split: if_splits)+

lemma update_law:
  assumes "inv s" "repo_update repo r s = (res, s')"
  shows "inv s'"
    "res = Ok () \<Longrightarrow> view s (kr r) \<noteq> None \<and> view s' = (view s)(kr r \<mapsto> r)"
    "res = Err e \<Longrightarrow> says_missing e \<Longrightarrow> view s (kr r) = None \<and> view s' = view s"
    "res = Err e \<Longrightarrow> view s' = view s \<or> \<not> atomic \<and> view s (kr r) \<noteq> None \<and> view s' = (view s)(kr r \<mapsto> r)"
  using simulates [of s "CUpdate r"] assms by (cases res; force simp: out_of_def split: if_splits)+

lemma delete_law:
  assumes "inv s" "repo_delete repo q s = (res, s')"
  shows "inv s'"
    "res = Ok () \<Longrightarrow> view s (kq q) \<noteq> None \<and> view s' = (view s)(kq q := None)"
    "res = Err e \<Longrightarrow> says_missing e \<Longrightarrow> view s (kq q) = None \<and> view s' = view s"
    "res = Err e \<Longrightarrow> view s' = view s \<or> \<not> atomic \<and> view s (kq q) \<noteq> None \<and> view s' = (view s)(kq q := None)"
  using simulates [of s "CDelete q"] assms by (cases res; force simp: out_of_def split: if_splits)+

lemma read_after_create:
  assumes "inv s" "repo_create repo r s = (Ok (), s1)"
    and "exec_cmds repo cs s1 = (xs, s2)" "\<forall>c \<in> set cs. cmd_key kr kq c \<noteq> Some (kr r)"
    and "repo_read repo q s2 = (Ok x, s3)" "kq q = kr r"
  shows "x = r"
proof -
  note c = create_law [OF assms(1,2)]
  note rn = run_simulates [OF c(1) assms(3)]
  have "view s2 (kr r) = Some r"
    using abs_run_frame [of atomic kr kq cs xs "view s1" "view s2" "kr r"] rn assms(4) c(2) by simp
  then show ?thesis using read_law(3) [of s2 q _ s3 x] rn assms(5,6) by simp
qed

lemma second_create_refused:
  assumes "inv s" "repo_create repo r s = (Ok (), s1)"
    and "exec_cmds repo cs s1 = (xs, s2)"
    and "\<forall>c \<in> set cs. cmd_key kr kq c = Some (kr r) \<longrightarrow> (\<exists>r'. c = CUpdate r' \<or> c = CCreate r')"
    and "repo_create repo r' s2 = (res, s3)" "kr r' = kr r"
  shows "res \<noteq> Ok ()"
proof -
  note c = create_law [OF assms(1,2)]
  have "view s' (kr r) \<noteq> None \<Longrightarrow> inv s' \<Longrightarrow> exec_cmds repo ds s' = (ys, s2) \<Longrightarrow> set ds \<subseteq> set cs \<Longrightarrow>
      inv s2 \<and> view s2 (kr r) \<noteq> None" for s' ds ys
  proof (induction ds arbitrary: s' ys)
    case (Cons d ds)
    obtain x t where x: "exec_cmd repo d s' = (x, t)" by fastforce
    obtain zs u where z: "exec_cmds repo ds t = (zs, u)" by fastforce
    have u: "u = s2" using Cons.prems(3) x z by auto
    note sx = simulates [OF Cons.prems(2) x]
    have "view t (kr r) \<noteq> None"
    proof (cases "cmd_key kr kq d = Some (kr r)")
      case True
      then obtain r' where d: "d = CUpdate r' \<or> d = CCreate r'" using assms(4) Cons.prems(4) by auto
      from sx have "abs_cmd atomic kr kq d x (view s') (view t)" by simp
      then show ?thesis using d Cons.prems(1) by (cases x) (auto split: if_splits)
    next
      case False
      then show ?thesis using abs_cmd_frame sx Cons.prems(1) by metis
    qed
    then show ?case using Cons.IH [of t zs] sx z u Cons.prems(4) by auto
  qed auto
  from this [of s1 cs xs] c assms(3) have "inv s2" "view s2 (kr r) \<noteq> None" by auto
  then show ?thesis using create_law(2) [of s2 r' res s3] assms(5,6) by auto
qed

lemma gone_after_delete:
  assumes "inv s" "repo_delete repo q s = (Ok (), s1)"
    and "exec_cmds repo cs s1 = (xs, s2)" "\<forall>c \<in> set cs. cmd_key kr kq c \<noteq> Some (kq q)"
    and "repo_find repo q s2 = (Ok x, s3)"
  shows "x = None"
proof -
  note d = delete_law [OF assms(1,2)]
  note rn = run_simulates [OF d(1) assms(3)]
  have "view s2 (kq q) = None"
    using abs_run_frame [of atomic kr kq cs xs "view s1" "view s2" "kq q"] rn assms(4) d(2) by simp
  then show ?thesis using find_law(3) [of s2 q _ s3 x] rn assms(5) by simp
qed

end

locale atomic_repository = trust_repository repo True kr kq view inv
  for repo :: "'s trust_repo"
    and kr :: "trust_record \<Rightarrow> 'k"
    and kq :: "trust_record_query \<Rightarrow> 'k"
    and view :: "'s \<Rightarrow> 'k \<rightharpoonup> trust_record"
    and inv :: "'s \<Rightarrow> bool"
begin

lemma failed_write_no_effect:
  assumes "inv s" "exec_cmd repo c s = (OFailed e, s')"
  shows "view s' = view s"
  using simulates [OF assms] by (cases c) (auto split: if_splits)

end

end
