(* ===== verification/Trust_Task.thy ===== *)
theory Trust_Task
  imports Repository_Spec
begin

text \<open>
  Trust Task documents and what the crate uses of the framework crates (\<open>trust_tasks_rs\<close> and the
  transport bindings), which are not in this repository: routing, reply construction, the typed
  payloads, party resolution, freshness checks and proof verification are the fields of a record
  \<open>framework\<close>, and \<open>framework_ok\<close> states what the code relies on.  Then \<open>trust_tasks/payloads.rs\<close>
  and \<open>trust_tasks/proof.rs\<close>: the type URIs, the write slugs and the two checks on a write.
\<close>

section \<open>Documents\<close>

record 'p task =
  tk_id :: string
  tk_type :: string
  tk_thread :: "string option"
  tk_issuer :: "string option"
  tk_recipient :: "string option"
  tk_payload :: 'p
  tk_proof :: "json option"
  tk_issued :: "int option"

type_synonym document = "json task"

datatype reject_reason =
    MalformedRequest string
  | TaskFailed string
  | InternalError string
  | ProofRequired
  | ProofInvalid string
  | PermissionDenied string
  | UnsupportedType string
  | FrameworkReason string

record error_response =
  er_id :: string
  er_thread :: "string option"
  er_recipient :: "string option"
  er_reason :: reject_reason
  er_retryable :: bool

type_synonym outcome = "(document, error_response) result"

section \<open>Payloads\<close>

record query_payload =
  qp_entity :: string
  qp_authority :: string
  qp_action :: string
  qp_resource :: string
  qp_time :: "string option"

definition query_of :: "string \<Rightarrow> string \<Rightarrow> string \<Rightarrow> string \<Rightarrow> trust_record_query" where
  "query_of e a act r = query_new (EntityId e) (AuthorityId a) (Action act) (Resource r)"

definition payload_query :: "query_payload \<Rightarrow> trust_record_query" where
  "payload_query p = query_of (qp_entity p) (qp_authority p) (qp_action p) (qp_resource p)"

record query_response =
  qr_entity :: string
  qr_authority :: string
  qr_action :: string
  qr_resource :: string
  qr_answer :: bool
  qr_evaluated :: int
  qr_requested :: "string option"
  qr_message :: "string option"

record enable_payload =
  ep_capability :: string
  ep_version :: string
  ep_config :: "(string \<times> json) list"
  ep_delegate :: "string option"

text \<open>
  The spec's listing filter is an optional enum; the code reads it through its lower-cased
  \<open>Debug\<close> name, here the string itself.
\<close>

record list_payload =
  lp_status :: "string option"

datatype response =
    R_Recognition query_response
  | R_Authorization query_response
  | R_Created
  | R_Updated
  | R_Deleted
  | R_Record json
  | R_Records json
  | R_Json json

section \<open>The framework\<close>

record framework =
  fw_slug :: "string \<Rightarrow> string"
  fw_route :: "string list \<Rightarrow> document \<Rightarrow> (string, reject_reason) result"
  fw_reject_with :: "document \<Rightarrow> string \<Rightarrow> reject_reason \<Rightarrow> error_response"
  fw_reject_to :: "document \<Rightarrow> string \<Rightarrow> reject_reason \<Rightarrow> string option \<Rightarrow> error_response"
  fw_respond_with :: "document \<Rightarrow> string \<Rightarrow> json \<Rightarrow> document"
  fw_query_payload :: "document \<Rightarrow> (query_payload, reject_reason) result"
  fw_record_payload :: "document \<Rightarrow> (json, reject_reason) result"
  fw_no_payload :: "document \<Rightarrow> (unit, reject_reason) result"
  fw_grant_payload :: "document \<Rightarrow> (string \<times> string, reject_reason) result"
  fw_enable_payload :: "document \<Rightarrow> (enable_payload, reject_reason) result"
  fw_disable_payload :: "document \<Rightarrow> (string, reject_reason) result"
  fw_list_payload :: "document \<Rightarrow> (list_payload, reject_reason) result"
  fw_to_value :: "response \<Rightarrow> (json, string) result"
  fw_read_response :: "json \<Rightarrow> (json, string) result"
  fw_list_response :: "json \<Rightarrow> (json, string) result"
  fw_de_error :: "de_error \<Rightarrow> string"
  fw_resolve_parties :: "string option \<Rightarrow> string option \<Rightarrow> document \<Rightarrow> (unit, reject_reason) result"
  fw_validate_basic :: "int \<Rightarrow> string \<Rightarrow> document \<Rightarrow> (unit, reject_reason) result"
  fw_verify :: "document \<Rightarrow> (unit, string) result"
  fw_time_json :: "int \<Rightarrow> json"

text \<open>SPEC 8.4: only \<open>unavailable\<close> and \<open>internalError\<close> are retryable by default.\<close>

fun default_retryable :: "reject_reason \<Rightarrow> bool" where
  "default_retryable (InternalError m) = True"
| "default_retryable _ = False"

definition spec_uri :: "string \<Rightarrow> string" where
  "spec_uri slug = ''https://trusttasks.org/spec/'' @ slug @ ''/0.1''"

definition reply_thread :: "document \<Rightarrow> string" where
  "reply_thread doc = (case tk_thread doc of Some t \<Rightarrow> t | None \<Rightarrow> tk_id doc)"

definition framework_ok :: "framework \<Rightarrow> bool" where
  "framework_ok fw \<longleftrightarrow>
     (\<forall>s. fw_slug fw (spec_uri s) = s) \<and>
     (\<forall>uris doc u. fw_route fw uris doc = Ok u \<longrightarrow> u = tk_type doc \<and> u \<in> set uris) \<and>
     (\<forall>uris doc. tk_type doc \<notin> set uris \<longrightarrow> fw_route fw uris doc = Err (UnsupportedType (tk_type doc))) \<and>
     (\<forall>doc i r. er_reason (fw_reject_with fw doc i r) = r \<and>
        er_retryable (fw_reject_with fw doc i r) = default_retryable r \<and>
        er_thread (fw_reject_with fw doc i r) = Some (reply_thread doc)) \<and>
     (\<forall>doc i r t. er_reason (fw_reject_to fw doc i r t) = r \<and> er_recipient (fw_reject_to fw doc i r t) = t) \<and>
     (\<forall>doc i v. tk_payload (fw_respond_with fw doc i v) = v \<and>
        tk_type (fw_respond_with fw doc i v) = tk_type doc @ ''#response'' \<and>
        tk_thread (fw_respond_with fw doc i v) = Some (reply_thread doc))"

lemma framework_okD:
  assumes "framework_ok fw"
  shows fw_slug_uri: "fw_slug fw (spec_uri s) = s"
    and fw_route_Ok: "fw_route fw uris doc = Ok u \<Longrightarrow> u = tk_type doc \<and> u \<in> set uris"
    and fw_route_unknown: "tk_type doc \<notin> set uris \<Longrightarrow> fw_route fw uris doc = Err (UnsupportedType (tk_type doc))"
    and fw_reason: "er_reason (fw_reject_with fw doc i r) = r"
    and fw_retryable: "er_retryable (fw_reject_with fw doc i r) = default_retryable r"
    and fw_error_thread: "er_thread (fw_reject_with fw doc i r) = Some (reply_thread doc)"
    and fw_to_reason: "er_reason (fw_reject_to fw doc i r t) = r"
    and fw_payload: "tk_payload (fw_respond_with fw doc i v) = v"
    and fw_type: "tk_type (fw_respond_with fw doc i v) = tk_type doc @ ''#response''"
    and fw_thread: "tk_thread (fw_respond_with fw doc i v) = Some (reply_thread doc)"
  using assms unfolding framework_ok_def by blast+

section \<open>Type URIs, write slugs\<close>

definition RECOGNITION :: string where "RECOGNITION = spec_uri ''registry/recognition''"
definition AUTHORIZATION :: string where "AUTHORIZATION = spec_uri ''registry/authorization''"
definition RECORD_CREATE :: string where "RECORD_CREATE = spec_uri ''registry/record/create''"
definition RECORD_UPDATE :: string where "RECORD_UPDATE = spec_uri ''registry/record/update''"
definition RECORD_DELETE :: string where "RECORD_DELETE = spec_uri ''registry/record/delete''"
definition RECORD_READ :: string where "RECORD_READ = spec_uri ''registry/record/read''"
definition RECORD_LIST :: string where "RECORD_LIST = spec_uri ''registry/record/list''"
definition DID_ROTATE :: string where "DID_ROTATE = spec_uri ''registry/did/rotate''"
definition CAP_LIST :: string where "CAP_LIST = spec_uri ''governance/capability/list''"
definition CAP_ENABLE :: string where "CAP_ENABLE = spec_uri ''governance/capability/enable''"
definition CAP_DISABLE :: string where "CAP_DISABLE = spec_uri ''governance/capability/disable''"
definition GIT_GRANT :: string where "GIT_GRANT = spec_uri ''git-trust/grant''"
definition GIT_REVOKE :: string where "GIT_REVOKE = spec_uri ''git-trust/revoke''"

lemmas type_uris = RECOGNITION_def AUTHORIZATION_def RECORD_CREATE_def RECORD_UPDATE_def
  RECORD_DELETE_def RECORD_READ_def RECORD_LIST_def DID_ROTATE_def CAP_LIST_def CAP_ENABLE_def
  CAP_DISABLE_def GIT_GRANT_def GIT_REVOKE_def

lemma spec_uri_inj [simp]: "spec_uri s = spec_uri t \<longleftrightarrow> s = t"
  by (simp add: spec_uri_def)

definition is_write_slug :: "string \<Rightarrow> bool" where
  "is_write_slug slug = (slug \<in> {
     ''registry/record/create'', ''registry/record/update'', ''registry/record/delete'',
     ''registry/did/rotate'', ''governance/capability/enable'', ''governance/capability/disable'',
     ''git-trust/grant'', ''git-trust/revoke''})"

definition is_write :: "framework \<Rightarrow> document \<Rightarrow> bool" where
  "is_write fw doc = is_write_slug (fw_slug fw (tk_type doc))"

lemma is_write_uri:
  assumes "framework_ok fw" "tk_type doc = spec_uri s"
  shows "is_write fw doc = is_write_slug s"
  using assms by (simp add: is_write_def fw_slug_uri)

section \<open>Checks on a write\<close>

text \<open>\<open>authorize_write\<close>, the same function in the DIDComm and the TSP binding.\<close>

definition authorize_write ::
  "framework \<Rightarrow> document \<Rightarrow> string \<Rightarrow> string list \<Rightarrow> (unit, reject_reason) result" where
  "authorize_write fw doc sender_did admin_dids =
     (if \<not> is_write fw doc then Ok ()
      else if tk_proof doc = None then Err ProofRequired
      else if sender_did \<notin> set admin_dids
        then Err (PermissionDenied (''DID '' @ sender_did @ '' is not authorised to modify the registry''))
      else Ok ())"

definition verify_write_proof :: "framework \<Rightarrow> document \<Rightarrow> (unit, reject_reason) result" where
  "verify_write_proof fw doc =
     (if \<not> is_write fw doc \<or> tk_proof doc = None then Ok ()
      else map_err ProofInvalid (fw_verify fw doc))"

lemma write_gate:
  assumes "authorize_write fw doc sender admins = Ok ()" "verify_write_proof fw doc = Ok ()" "is_write fw doc"
  shows "sender \<in> set admins" "tk_proof doc \<noteq> None" "fw_verify fw doc = Ok ()"
  using assms by (auto simp: authorize_write_def verify_write_proof_def split: if_splits)

section \<open>Dispatchers\<close>

text \<open>
  The registered handlers, one constructor per closure the code registers; the git-trust handlers
  are registered with the authority they were enabled with.
\<close>

datatype handler =
    H_Recognition
  | H_Authorization
  | H_Create
  | H_Update
  | H_Delete
  | H_Read
  | H_List
  | H_CapList
  | H_CapEnable
  | H_CapDisable
  | H_Grant "string option"
  | H_Revoke "string option"

type_synonym dispatcher = "(string \<times> handler) list"

definition disp_on :: "string \<Rightarrow> handler \<Rightarrow> dispatcher \<Rightarrow> dispatcher" where
  "disp_on uri h d = AList.update uri h d"

definition dispatch_or_reject ::
  "framework \<Rightarrow> dispatcher \<Rightarrow> document \<Rightarrow> string \<Rightarrow> (handler, error_response) result" where
  "dispatch_or_reject fw d doc nid =
     (case fw_route fw (map fst d) doc of
        Err r \<Rightarrow> Err (fw_reject_with fw doc nid r)
      | Ok uri \<Rightarrow>
          (case map_of d uri of
             Some h \<Rightarrow> Ok h
           | None \<Rightarrow> Err (fw_reject_with fw doc nid (UnsupportedType uri))))"

lemma dispatch_or_reject_Ok:
  assumes "framework_ok fw" "dispatch_or_reject fw d doc nid = Ok h"
  shows "map_of d (tk_type doc) = Some h"
  using assms fw_route_Ok [OF assms(1), of "map fst d" doc]
  by (auto simp: dispatch_or_reject_def split: result.splits option.splits)

lemma dispatch_or_reject_unknown:
  assumes "framework_ok fw" "map_of d (tk_type doc) = None"
  shows "dispatch_or_reject fw d doc nid = Err (fw_reject_with fw doc nid (UnsupportedType (tk_type doc)))"
  using fw_route_unknown [OF assms(1), of doc "map fst d"] assms(2)
  by (simp add: dispatch_or_reject_def map_of_eq_None_iff)

text \<open>The methods of a typed document: reply with a value, or with a rejection.\<close>

definition reject :: "framework \<Rightarrow> document \<Rightarrow> string \<Rightarrow> reject_reason \<Rightarrow> outcome" where
  "reject fw doc nid r = Err (fw_reject_with fw doc nid r)"

definition respond :: "framework \<Rightarrow> document \<Rightarrow> string \<Rightarrow> response \<Rightarrow> outcome" where
  "respond fw doc nid payload =
     (case fw_to_value fw payload of
        Ok v \<Rightarrow> Ok (fw_respond_with fw doc nid v)
      | Err e \<Rightarrow> reject fw doc nid (InternalError e))"

lemma respond_Ok:
  "respond fw doc nid p = Ok d \<longleftrightarrow> (\<exists>v. fw_to_value fw p = Ok v \<and> d = fw_respond_with fw doc nid v)"
  by (auto simp: respond_def reject_def split: result.splits)

lemma reject_not_Ok [simp]: "reject fw doc nid r \<noteq> Ok d"
  by (simp add: reject_def)

section \<open>A concrete framework\<close>

text \<open>
  Slugs between the fixed prefix and the version, typed payloads read from the JSON members.
\<close>

definition sample_slug :: "string \<Rightarrow> string" where
  "sample_slug u = (case strip_prefix ''https://trusttasks.org/spec/'' u of
     Some s \<Rightarrow> take (length s - 4) s | None \<Rightarrow> u)"

definition need :: "json \<Rightarrow> string \<Rightarrow> (string, reject_reason) result" where
  "need j k = ok_or (get_str j k) (MalformedRequest k)"

definition sample_query :: "document \<Rightarrow> (query_payload, reject_reason) result" where
  "sample_query doc =
     (let j = tk_payload doc in
      bind_ok (need j ''entity_id'') (\<lambda>e. bind_ok (need j ''authority_id'') (\<lambda>a.
      bind_ok (need j ''action'') (\<lambda>act. bind_ok (need j ''resource'') (\<lambda>r.
      Ok \<lparr>qp_entity = e, qp_authority = a, qp_action = act, qp_resource = r, qp_time = None\<rparr>)))))"

fun sample_value :: "response \<Rightarrow> json" where
  "sample_value (R_Recognition q) = JObj [(''recognized'', JBool (qr_answer q))]"
| "sample_value (R_Authorization q) = JObj [(''authorized'', JBool (qr_answer q))]"
| "sample_value (R_Record j) = j"
| "sample_value (R_Records j) = j"
| "sample_value (R_Json j) = j"
| "sample_value _ = JObj [(''ok'', JBool True)]"

definition sample_framework :: framework where
  "sample_framework = \<lparr>
     fw_slug = sample_slug,
     fw_route = (\<lambda>uris doc. if tk_type doc \<in> set uris then Ok (tk_type doc)
                   else Err (UnsupportedType (tk_type doc))),
     fw_reject_with = (\<lambda>doc i r. \<lparr>er_id = i, er_thread = Some (reply_thread doc),
                   er_recipient = tk_issuer doc, er_reason = r, er_retryable = default_retryable r\<rparr>),
     fw_reject_to = (\<lambda>doc i r t. \<lparr>er_id = i, er_thread = Some (reply_thread doc),
                   er_recipient = t, er_reason = r, er_retryable = default_retryable r\<rparr>),
     fw_respond_with = (\<lambda>doc i v. \<lparr>tk_id = i, tk_type = tk_type doc @ ''#response'',
                   tk_thread = Some (reply_thread doc), tk_issuer = tk_recipient doc,
                   tk_recipient = tk_issuer doc, tk_payload = v, tk_proof = None, tk_issued = None\<rparr>),
     fw_query_payload = sample_query,
     fw_record_payload = (\<lambda>doc. ok_or (json_get (tk_payload doc) ''record'') (MalformedRequest ''record'')),
     fw_no_payload = (\<lambda>doc. Ok ()),
     fw_grant_payload = (\<lambda>doc. bind_ok (need (tk_payload doc) ''subject'') (\<lambda>s.
                   bind_ok (need (tk_payload doc) ''resource'') (\<lambda>r. Ok (s, r)))),
     fw_enable_payload = (\<lambda>doc. bind_ok (need (tk_payload doc) ''capability'') (\<lambda>c.
                   bind_ok (need (tk_payload doc) ''version'') (\<lambda>v.
                   Ok \<lparr>ep_capability = c, ep_version = v,
                       ep_config = (case json_get (tk_payload doc) ''config'' of Some (JObj m) \<Rightarrow> m | _ \<Rightarrow> []),
                       ep_delegate = get_str (tk_payload doc) ''delegate''\<rparr>))),
     fw_disable_payload = (\<lambda>doc. need (tk_payload doc) ''capability''),
     fw_list_payload = (\<lambda>doc. Ok \<lparr>lp_status = get_str (tk_payload doc) ''status''\<rparr>),
     fw_to_value = (\<lambda>r. Ok (sample_value r)),
     fw_read_response = Ok,
     fw_list_response = Ok,
     fw_de_error = (\<lambda>e. ''invalid record''),
     fw_resolve_parties = (\<lambda>me peer doc. if tk_issuer doc = None \<or> peer = None \<or> tk_issuer doc = peer
                   then Ok () else Err (FrameworkReason ''identityMismatch'')),
     fw_validate_basic = (\<lambda>now me doc. Ok ()),
     fw_verify = (\<lambda>doc. if tk_proof doc = Some (JStr ''valid'') then Ok () else Err ''bad signature''),
     fw_time_json = (\<lambda>t. JNum (NInt t))\<rparr>"

lemma sample_slug_uri: "sample_slug (spec_uri s) = s"
  by (simp add: sample_slug_def spec_uri_def strip_prefix_def starts_with_def)

lemma sample_framework_ok: "framework_ok sample_framework"
  unfolding framework_ok_def
  by (auto simp: sample_framework_def sample_slug_uri split: if_splits)

end
