(* ===== verification/Local_Store.thy ===== *)
theory Local_Store
  imports Repository_Spec
begin

text \<open>
  \<open>storage/adapters/local_storage.rs\<close>: the in-memory backend, a hash map behind an \<open>RwLock\<close>.  The
  state keeps whether the lock is poisoned, the one way an operation can fail besides a conflict.
  The backend implements the abstract map atomically; on a lock that is not poisoned its answers
  are determined by the map.
\<close>

record local_storage =
  ls_records :: "(trust_record_key, trust_record) hmap"
  ls_poisoned :: bool

definition local_new :: local_storage where
  "local_new = \<lparr>ls_records = [], ls_poisoned = False\<rparr>"

definition local_save :: "trust_record \<Rightarrow> (local_storage, unit) repo_op" where
  "local_save r s =
     (let key = key_from_record r in
      if ls_poisoned s then (Err LockPoisoned, s)
      else if hm_contains (ls_records s) key then (Err (RecordAlreadyExists (sk key)), s)
      else (Ok (), s\<lparr>ls_records := AList.update key r (ls_records s)\<rparr>))"

definition local_with_records :: "trust_record list \<Rightarrow> local_storage" where
  "local_with_records rs =
     fold (\<lambda>r s. s\<lparr>ls_records := AList.update (key_from_record r) r (ls_records s)\<rparr>) rs local_new"

definition local_clear :: "(local_storage, unit) repo_op" where
  "local_clear s =
     (if ls_poisoned s then (Err LockPoisoned, s) else (Ok (), s\<lparr>ls_records := []\<rparr>))"

definition record_body :: "trust_record \<Rightarrow> string" where
  "record_body r = key_body (tr_authority r) (tr_action r) (tr_resource r) (tr_entity r)"

definition query_body :: "trust_record_query \<Rightarrow> string" where
  "query_body q = key_body (q_authority q) (q_action q) (q_resource q) (q_entity q)"

definition exists_error :: "trust_record \<Rightarrow> repository_error" where
  "exists_error r = RecordAlreadyExists (''Record already exists: '' @ record_body r)"

definition missing_error :: "trust_record_query \<Rightarrow> repository_error" where
  "missing_error q = RecordNotFound (''Record not found: '' @ query_body q)"

definition local_find :: "trust_record_query \<Rightarrow> (local_storage, trust_record option) repo_op" where
  "local_find q s =
     (if ls_poisoned s then (Err LockPoisoned, s)
      else (Ok (List.find (\<lambda>r. matches_query r q) (hm_values (ls_records s))), s))"

definition local_create :: "trust_record \<Rightarrow> (local_storage, unit) repo_op" where
  "local_create r s =
     (let key = key_from_record r in
      if ls_poisoned s then (Err LockPoisoned, s)
      else if hm_contains (ls_records s) key then (Err (exists_error r), s)
      else (Ok (), s\<lparr>ls_records := AList.update key r (ls_records s)\<rparr>))"

definition local_update :: "trust_record \<Rightarrow> (local_storage, unit) repo_op" where
  "local_update r s =
     (let key = key_from_record r in
      if ls_poisoned s then (Err LockPoisoned, s)
      else if \<not> hm_contains (ls_records s) key then (Err (missing_error (query_of_record r)), s)
      else (Ok (), s\<lparr>ls_records := AList.update key r (ls_records s)\<rparr>))"

definition local_delete :: "trust_record_query \<Rightarrow> (local_storage, unit) repo_op" where
  "local_delete q s =
     (let key = key_from_query q in
      if ls_poisoned s then (Err LockPoisoned, s)
      else if \<not> hm_contains (ls_records s) key then (Err (missing_error q), s)
      else (Ok (), s\<lparr>ls_records := AList.delete key (ls_records s)\<rparr>))"

definition local_list :: "(local_storage, trust_record list) repo_op" where
  "local_list s =
     (if ls_poisoned s then (Err LockPoisoned, s) else (Ok (hm_values (ls_records s)), s))"

definition local_read :: "trust_record_query \<Rightarrow> (local_storage, trust_record) repo_op" where
  "local_read q s =
     (if ls_poisoned s then (Err LockPoisoned, s)
      else (ok_or (List.find (\<lambda>r. matches_query r q) (hm_values (ls_records s))) (missing_error q), s))"

definition local_repo :: "local_storage trust_repo" where
  "local_repo = \<lparr>repo_find = local_find, repo_create = local_create, repo_update = local_update,
     repo_delete = local_delete, repo_list = local_list, repo_read = local_read\<rparr>"

lemmas local_defs = local_find_def local_create_def local_update_def local_delete_def
  local_list_def local_read_def

declare local_defs [handler_defs]

definition local_view :: "local_storage \<Rightarrow> trust_record_key \<rightharpoonup> trust_record" where
  "local_view s = map_of (ls_records s)"

definition map_inv :: "(trust_record_key, trust_record) hmap \<Rightarrow> bool" where
  "map_inv m \<longleftrightarrow> hm_ok m \<and> keyed key_from_record m"

definition local_inv :: "local_storage \<Rightarrow> bool" where
  "local_inv s \<longleftrightarrow> map_inv (ls_records s)"

lemma map_inv_Nil [simp]: "map_inv []"
  by (simp add: map_inv_def)

lemma map_inv_update [simp]: "map_inv m \<Longrightarrow> map_inv (AList.update (key_from_record r) r m)"
  by (simp add: map_inv_def keyed_update)

lemma map_inv_delete [simp]: "map_inv m \<Longrightarrow> map_inv (AList.delete k m)"
  by (simp add: map_inv_def)

lemma find_matches [store_laws]:
  "map_inv m \<Longrightarrow> List.find (\<lambda>r. matches_query r q) (hm_values m) = map_of m (key_from_query q)"
  by (simp add: map_inv_def matches_query_key find_keyed)

lemma values_ran [store_laws]: "map_inv m \<Longrightarrow> set (hm_values m) = ran (map_of m)"
  by (simp add: map_inv_def hm_values_set)

lemma map_inv_keyed: "map_inv m \<Longrightarrow> map_of m k = Some r \<Longrightarrow> key_from_record r = k"
  by (auto simp: map_inv_def dest: keyed_map_of)

lemma says_simps [simp]:
  "says_missing (missing_error q)" "\<not> says_exists (missing_error q)"
  "says_exists (exists_error r)" "\<not> says_missing (exists_error r)"
  by (simp_all add: missing_error_def exists_error_def)

interpretation local: atomic_repository local_repo key_from_record key_from_query local_view local_inv
proof unfold_locales
  fix s c x s'
  assume inv: "local_inv s" and run: "exec_cmd local_repo c s = (x, s')"
  show "local_inv s' \<and> abs_cmd True key_from_record key_from_query c x (local_view s) (local_view s')"
  proof (cases "ls_poisoned s")
    case True
    then show ?thesis using inv run
      by (cases c) (auto simp: local_repo_def local_defs out_of_def)
  next
    case False
    then show ?thesis using inv run
      by (cases c) (auto simp: local_repo_def local_defs out_of_def local_inv_def local_view_def
          hm_contains_def store_laws Let_def split: if_splits option.splits result.splits)
  qed
qed (auto simp: local_inv_def local_view_def dest: map_inv_keyed)

lemma local_new_inv [simp]: "local_inv local_new" "local_view local_new = Map.empty"
  by (simp_all add: local_new_def local_inv_def local_view_def fun_eq_iff)

lemma local_with_records_fold:
  "local_inv s \<Longrightarrow>
   let s' = fold (\<lambda>r s. s\<lparr>ls_records := AList.update (key_from_record r) r (ls_records s)\<rparr>) rs s in
   local_inv s' \<and> ls_poisoned s' = ls_poisoned s \<and>
   local_view s' = local_view s ++ map_of (rev (map (\<lambda>r. (key_from_record r, r)) rs))"
  by (induction rs arbitrary: s)
    (auto simp: Let_def local_inv_def local_view_def fun_eq_iff map_add_def split: option.splits)

lemma local_save_spec:
  "local_inv s \<Longrightarrow> local_save r s = (x, s') \<Longrightarrow>
   local_inv s' \<and> (x = Ok () \<longleftrightarrow> \<not> ls_poisoned s \<and> local_view s (key_from_record r) = None) \<and>
   local_view s' = (if x = Ok () then (local_view s)(key_from_record r \<mapsto> r) else local_view s)"
  by (auto simp: local_save_def local_inv_def local_view_def hm_contains_def Let_def split: if_splits)

lemma local_healthy:
  assumes "local_inv s" "\<not> ls_poisoned s"
  shows "fst (local_find q s) = Ok (local_view s (key_from_query q))"
    and "fst (local_read q s) = ok_or (local_view s (key_from_query q)) (missing_error q)"
    and "fst (local_create r s) =
          (if local_view s (key_from_record r) = None then Ok () else Err (exists_error r))"
    and "fst (local_update r s) =
          (if local_view s (key_from_record r) = None then Err (missing_error (query_of_record r)) else Ok ())"
    and "fst (local_delete q s) =
          (if local_view s (key_from_query q) = None then Err (missing_error q) else Ok ())"
  using assms by (auto simp: local_defs local_inv_def local_view_def hm_contains_def store_laws Let_def)

lemma local_unpoisoned:
  "\<not> ls_poisoned s \<Longrightarrow> exec_cmd local_repo c s = (x, s') \<Longrightarrow> \<not> ls_poisoned s'"
  by (cases c) (auto simp: local_repo_def local_defs out_of_def Let_def split: if_splits result.splits)

end
