(* ===== verification/Router.thy ===== *)
theory Router
  imports Trust_Task Local_Store
begin

text \<open>
  \<open>trust_tasks/router.rs\<close>: the handlers of the \<open>registry/*\<close> tasks over any repository, the two
  dispatchers built from them and the routing of one document.  The id of the reply and the time
  are arguments.  The lemmas relate every handler to the abstract map of the repository it runs
  on: a query answers from the map and changes nothing, a write that answers success has changed
  the map as asked, and a rejection says whether a retry makes sense.
\<close>

fun map_repo_err :: "repository_error \<Rightarrow> reject_reason" where
  "map_repo_err (ValidationError r) = MalformedRequest r"
| "map_repo_err (RecordNotFound r) = TaskFailed r"
| "map_repo_err (RecordAlreadyExists r) = TaskFailed r"
| "map_repo_err (ConnectionFailed r) = InternalError r"
| "map_repo_err (QueryFailed r) = InternalError r"
| "map_repo_err (SerializationFailed r) = InternalError r"
| "map_repo_err LockPoisoned = InternalError ''lock poisoned''"

section \<open>Queries\<close>

definition recognition_response :: "query_payload \<Rightarrow> int \<Rightarrow> trust_record option \<Rightarrow> query_response" where
  "recognition_response p now record =
     \<lparr>qr_entity = qp_entity p, qr_authority = qp_authority p, qr_action = qp_action p,
      qr_resource = qp_resource p,
      qr_answer = (case record of Some tr \<Rightarrow> is_recognized tr | None \<Rightarrow> False),
      qr_evaluated = now, qr_requested = qp_time p,
      qr_message = map_option (\<lambda>tr. entity_str (tr_entity tr) @ '' recognized by '' @
        authority_str (tr_authority tr)) record\<rparr>"

definition authorization_response :: "query_payload \<Rightarrow> int \<Rightarrow> trust_record option \<Rightarrow> query_response" where
  "authorization_response p now record =
     \<lparr>qr_entity = qp_entity p, qr_authority = qp_authority p, qr_action = qp_action p,
      qr_resource = qp_resource p,
      qr_answer = (case record of Some tr \<Rightarrow> is_authorized tr | None \<Rightarrow> False),
      qr_evaluated = now, qr_requested = qp_time p,
      qr_message = map_option (\<lambda>tr. entity_str (tr_entity tr) @ '' authorized to '' @
        action_str (tr_action tr) @ ''+'' @ resource_str (tr_resource tr) @ '' by '' @
        authority_str (tr_authority tr)) record\<rparr>"

definition handle_recognition ::
  "framework \<Rightarrow> 's trust_repo \<Rightarrow> string \<Rightarrow> int \<Rightarrow> document \<Rightarrow> 's \<Rightarrow> outcome \<times> 's" where
  "handle_recognition fw repo nid now doc s =
     (case fw_query_payload fw doc of
        Err r \<Rightarrow> (reject fw doc nid r, s)
      | Ok p \<Rightarrow>
          (case repo_find repo (payload_query p) s of
             (Err e, s1) \<Rightarrow> (reject fw doc nid (map_repo_err e), s1)
           | (Ok record, s1) \<Rightarrow>
               (respond fw doc nid (R_Recognition (recognition_response p now record)), s1)))"

definition handle_authorization ::
  "framework \<Rightarrow> 's trust_repo \<Rightarrow> string \<Rightarrow> int \<Rightarrow> document \<Rightarrow> 's \<Rightarrow> outcome \<times> 's" where
  "handle_authorization fw repo nid now doc s =
     (case fw_query_payload fw doc of
        Err r \<Rightarrow> (reject fw doc nid r, s)
      | Ok p \<Rightarrow>
          (case repo_find repo (payload_query p) s of
             (Err e, s1) \<Rightarrow> (reject fw doc nid (map_repo_err e), s1)
           | (Ok record, s1) \<Rightarrow>
               (respond fw doc nid (R_Authorization (authorization_response p now record)), s1)))"

section \<open>Record administration\<close>

definition record_from_payload ::
  "framework \<Rightarrow> document \<Rightarrow> string \<Rightarrow> json \<Rightarrow> (trust_record, error_response) result" where
  "record_from_payload fw doc nid spec =
     map_err (\<lambda>e. fw_reject_with fw doc nid (MalformedRequest (fw_de_error fw e))) (record_from_json spec)"

definition handle_create ::
  "framework \<Rightarrow> 's trust_repo \<Rightarrow> string \<Rightarrow> document \<Rightarrow> 's \<Rightarrow> outcome \<times> 's" where
  "handle_create fw repo nid doc s =
     (case fw_record_payload fw doc of
        Err r \<Rightarrow> (reject fw doc nid r, s)
      | Ok spec \<Rightarrow>
          (case record_from_payload fw doc nid spec of
             Err e \<Rightarrow> (Err e, s)
           | Ok record \<Rightarrow>
               (case repo_create repo record s of
                  (Ok _, s1) \<Rightarrow> (respond fw doc nid R_Created, s1)
                | (Err e, s1) \<Rightarrow> (reject fw doc nid (map_repo_err e), s1))))"

definition handle_update ::
  "framework \<Rightarrow> 's trust_repo \<Rightarrow> string \<Rightarrow> document \<Rightarrow> 's \<Rightarrow> outcome \<times> 's" where
  "handle_update fw repo nid doc s =
     (case fw_record_payload fw doc of
        Err r \<Rightarrow> (reject fw doc nid r, s)
      | Ok spec \<Rightarrow>
          (case record_from_payload fw doc nid spec of
             Err e \<Rightarrow> (Err e, s)
           | Ok record \<Rightarrow>
               (case repo_update repo record s of
                  (Ok _, s1) \<Rightarrow> (respond fw doc nid R_Updated, s1)
                | (Err e, s1) \<Rightarrow> (reject fw doc nid (map_repo_err e), s1))))"

definition handle_delete ::
  "framework \<Rightarrow> 's trust_repo \<Rightarrow> string \<Rightarrow> document \<Rightarrow> 's \<Rightarrow> outcome \<times> 's" where
  "handle_delete fw repo nid doc s =
     (case fw_query_payload fw doc of
        Err r \<Rightarrow> (reject fw doc nid r, s)
      | Ok p \<Rightarrow>
          (case repo_delete repo (payload_query p) s of
             (Ok _, s1) \<Rightarrow> (respond fw doc nid R_Deleted, s1)
           | (Err e, s1) \<Rightarrow> (reject fw doc nid (map_repo_err e), s1)))"

definition handle_read ::
  "framework \<Rightarrow> 's trust_repo \<Rightarrow> string \<Rightarrow> document \<Rightarrow> 's \<Rightarrow> outcome \<times> 's" where
  "handle_read fw repo nid doc s =
     (case fw_query_payload fw doc of
        Err r \<Rightarrow> (reject fw doc nid r, s)
      | Ok p \<Rightarrow>
          (case repo_read repo (payload_query p) s of
             (Ok record, s1) \<Rightarrow>
               (case fw_read_response fw (record_to_json record) of
                  Ok response \<Rightarrow> (respond fw doc nid (R_Record response), s1)
                | Err reason \<Rightarrow> (reject fw doc nid (InternalError reason), s1))
           | (Err e, s1) \<Rightarrow> (reject fw doc nid (map_repo_err e), s1)))"

definition record_list_json :: "trust_record list \<Rightarrow> json" where
  "record_list_json rs = jobj [(''records'', JArr (map record_to_json rs))]"

definition handle_list ::
  "framework \<Rightarrow> 's trust_repo \<Rightarrow> string \<Rightarrow> document \<Rightarrow> 's \<Rightarrow> outcome \<times> 's" where
  "handle_list fw repo nid doc s =
     (case fw_no_payload fw doc of
        Err r \<Rightarrow> (reject fw doc nid r, s)
      | Ok _ \<Rightarrow>
          (case repo_list repo s of
             (Ok rs, s1) \<Rightarrow>
               (case fw_list_response fw (record_list_json rs) of
                  Ok response \<Rightarrow> (respond fw doc nid (R_Records response), s1)
                | Err reason \<Rightarrow> (reject fw doc nid (InternalError reason), s1))
           | (Err e, s1) \<Rightarrow> (reject fw doc nid (map_repo_err e), s1)))"

section \<open>The dispatchers\<close>

definition build_dispatcher :: dispatcher where
  "build_dispatcher =
     disp_on RECORD_LIST H_List (disp_on RECORD_READ H_Read (disp_on RECORD_DELETE H_Delete
       (disp_on RECORD_UPDATE H_Update (disp_on RECORD_CREATE H_Create
         (disp_on AUTHORIZATION H_Authorization (disp_on RECOGNITION H_Recognition []))))))"

definition build_query_dispatcher :: dispatcher where
  "build_query_dispatcher = disp_on AUTHORIZATION H_Authorization (disp_on RECOGNITION H_Recognition [])"

definition handle_document ::
  "framework \<Rightarrow> (handler \<Rightarrow> document \<Rightarrow> 'w \<Rightarrow> outcome \<times> 'w) \<Rightarrow> dispatcher \<Rightarrow> string \<Rightarrow>
   document \<Rightarrow> 'w \<Rightarrow> outcome \<times> 'w" where
  "handle_document fw run d nid doc w =
     (case dispatch_or_reject fw d doc nid of
        Ok h \<Rightarrow> run h doc w
      | Err error_response \<Rightarrow> (Err error_response, w))"

lemma map_of_disp_on [simp]: "map_of (disp_on uri h d) = (map_of d)(uri \<mapsto> h)"
  by (simp add: disp_on_def)

lemma query_dispatcher_entries:
  "map_of build_query_dispatcher u = Some h \<longleftrightarrow>
     u = RECOGNITION \<and> h = H_Recognition \<or> u = AUTHORIZATION \<and> h = H_Authorization"
  by (auto simp: build_query_dispatcher_def type_uris)

lemma dispatcher_entries:
  "map_of build_dispatcher u = Some h \<longleftrightarrow>
     (u, h) \<in> {(RECOGNITION, H_Recognition), (AUTHORIZATION, H_Authorization), (RECORD_CREATE, H_Create),
       (RECORD_UPDATE, H_Update), (RECORD_DELETE, H_Delete), (RECORD_READ, H_Read), (RECORD_LIST, H_List)}"
  by (auto simp: build_dispatcher_def type_uris)

section \<open>Handlers against the map\<close>

definition answer :: "(trust_record \<Rightarrow> bool) \<Rightarrow> trust_record option \<Rightarrow> bool" where
  "answer f r = (case r of Some tr \<Rightarrow> f tr | None \<Rightarrow> False)"

lemma response_answer [simp]:
  "qr_answer (recognition_response p now r) = answer is_recognized r"
  "qr_answer (authorization_response p now r) = answer is_authorized r"
  by (simp_all add: recognition_response_def authorization_response_def answer_def)

lemma record_from_payload_Ok:
  "record_from_json spec = Ok r \<Longrightarrow> record_from_payload fw doc nid spec = Ok r"
  by (simp add: record_from_payload_def)

text \<open>A conflict is final, a fault of the backend is worth a retry.\<close>

lemma map_repo_err_retryable:
  "default_retryable (map_repo_err e) \<longleftrightarrow>
     \<not> says_exists e \<and> \<not> says_missing e \<and> (\<forall>m. e \<noteq> ValidationError m)"
  by (cases e) auto

context trust_repository
begin

lemma recognition_law:
  assumes "inv s" "handle_recognition fw repo nid now doc s = (out, s')"
  shows "inv s'" "view s' = view s"
    "out = Ok d \<Longrightarrow> \<exists>p. fw_query_payload fw doc = Ok p \<and>
       respond fw doc nid (R_Recognition (recognition_response p now (view s (kq (payload_query p))))) = Ok d"
proof -
  have *: "inv s' \<and> view s' = view s \<and> (out = Ok d \<longrightarrow> (\<exists>p. fw_query_payload fw doc = Ok p \<and>
      respond fw doc nid (R_Recognition (recognition_response p now (view s (kq (payload_query p))))) = Ok d))"
  proof (cases "fw_query_payload fw doc")
    case (Ok p)
    obtain res s1 where f: "repo_find repo (payload_query p) s = (res, s1)" by fastforce
    note l = find_law [OF assms(1) f]
    show ?thesis using assms(2) Ok f l by (cases res) (auto simp: handle_recognition_def)
  qed (use assms in \<open>auto simp: handle_recognition_def\<close>)
  then show "inv s'" "view s' = view s"
    "out = Ok d \<Longrightarrow> \<exists>p. fw_query_payload fw doc = Ok p \<and>
       respond fw doc nid (R_Recognition (recognition_response p now (view s (kq (payload_query p))))) = Ok d"
    by blast+
qed

lemma authorization_law:
  assumes "inv s" "handle_authorization fw repo nid now doc s = (out, s')"
  shows "inv s'" "view s' = view s"
    "out = Ok d \<Longrightarrow> \<exists>p. fw_query_payload fw doc = Ok p \<and>
       respond fw doc nid (R_Authorization (authorization_response p now (view s (kq (payload_query p))))) = Ok d"
proof -
  have *: "inv s' \<and> view s' = view s \<and> (out = Ok d \<longrightarrow> (\<exists>p. fw_query_payload fw doc = Ok p \<and>
      respond fw doc nid (R_Authorization (authorization_response p now (view s (kq (payload_query p))))) = Ok d))"
  proof (cases "fw_query_payload fw doc")
    case (Ok p)
    obtain res s1 where f: "repo_find repo (payload_query p) s = (res, s1)" by fastforce
    note l = find_law [OF assms(1) f]
    show ?thesis using assms(2) Ok f l by (cases res) (auto simp: handle_authorization_def)
  qed (use assms in \<open>auto simp: handle_authorization_def\<close>)
  then show "inv s'" "view s' = view s"
    "out = Ok d \<Longrightarrow> \<exists>p. fw_query_payload fw doc = Ok p \<and>
       respond fw doc nid (R_Authorization (authorization_response p now (view s (kq (payload_query p))))) = Ok d"
    by blast+
qed

lemma create_handler_law:
  assumes "inv s" "handle_create fw repo nid doc s = (out, s')"
  shows "inv s' \<and>
    (case out of
       Ok d \<Rightarrow> (\<exists>spec r. fw_record_payload fw doc = Ok spec \<and> record_from_json spec = Ok r \<and>
                 view s (kr r) = None \<and> view s' = (view s)(kr r \<mapsto> r))
     | Err e \<Rightarrow> view s' = view s \<or> (\<exists>spec r. fw_record_payload fw doc = Ok spec \<and>
                 record_from_json spec = Ok r \<and> view s (kr r) = None \<and> view s' = (view s)(kr r \<mapsto> r)))"
proof (cases "fw_record_payload fw doc")
  case (Ok spec)
  show ?thesis
  proof (cases "record_from_json spec")
    case r: (Ok r)
    obtain res s1 where c: "repo_create repo r s = (res, s1)" by fastforce
    note l = create_law [OF assms(1) c]
    have "record_from_payload fw doc nid spec = Ok r" using r by (rule record_from_payload_Ok)
    then have "out = (case res of Ok _ \<Rightarrow> respond fw doc nid R_Created | Err e \<Rightarrow> reject fw doc nid (map_repo_err e))"
      "s' = s1"
      using assms(2) Ok c by (auto simp: handle_create_def split: result.splits)
    then show ?thesis using l Ok r
      by (cases res) (auto simp: reject_def split: result.split)
  next
    case (Err e)
    then have "out = Err (fw_reject_with fw doc nid (MalformedRequest (fw_de_error fw e)))" "s' = s"
      using assms(2) Ok by (simp_all add: handle_create_def record_from_payload_def)
    then show ?thesis using assms(1) by simp
  qed
qed (use assms in \<open>auto simp: handle_create_def reject_def\<close>)

lemma update_handler_law:
  assumes "inv s" "handle_update fw repo nid doc s = (out, s')"
  shows "inv s' \<and>
    (case out of
       Ok d \<Rightarrow> (\<exists>spec r. fw_record_payload fw doc = Ok spec \<and> record_from_json spec = Ok r \<and>
                 view s (kr r) \<noteq> None \<and> view s' = (view s)(kr r \<mapsto> r))
     | Err e \<Rightarrow> view s' = view s \<or> (\<exists>spec r. fw_record_payload fw doc = Ok spec \<and>
                 record_from_json spec = Ok r \<and> view s (kr r) \<noteq> None \<and> view s' = (view s)(kr r \<mapsto> r)))"
proof (cases "fw_record_payload fw doc")
  case (Ok spec)
  show ?thesis
  proof (cases "record_from_json spec")
    case r: (Ok r)
    obtain res s1 where c: "repo_update repo r s = (res, s1)" by fastforce
    note l = update_law [OF assms(1) c]
    have "record_from_payload fw doc nid spec = Ok r" using r by (rule record_from_payload_Ok)
    then have "out = (case res of Ok _ \<Rightarrow> respond fw doc nid R_Updated | Err e \<Rightarrow> reject fw doc nid (map_repo_err e))"
      "s' = s1"
      using assms(2) Ok c by (auto simp: handle_update_def split: result.splits)
    then show ?thesis using l Ok r
      by (cases res) (auto simp: reject_def split: result.split)
  next
    case (Err e)
    then have "out = Err (fw_reject_with fw doc nid (MalformedRequest (fw_de_error fw e)))" "s' = s"
      using assms(2) Ok by (simp_all add: handle_update_def record_from_payload_def)
    then show ?thesis using assms(1) by simp
  qed
qed (use assms in \<open>auto simp: handle_update_def reject_def\<close>)

lemma delete_handler_law:
  assumes "inv s" "handle_delete fw repo nid doc s = (out, s')"
  shows "inv s' \<and>
    (case out of
       Ok d \<Rightarrow> (\<exists>p. fw_query_payload fw doc = Ok p \<and> view s (kq (payload_query p)) \<noteq> None \<and>
                 view s' = (view s)(kq (payload_query p) := None))
     | Err e \<Rightarrow> view s' = view s \<or> (\<exists>p. fw_query_payload fw doc = Ok p \<and>
                 view s (kq (payload_query p)) \<noteq> None \<and> view s' = (view s)(kq (payload_query p) := None)))"
proof (cases "fw_query_payload fw doc")
  case (Ok p)
  obtain res s1 where c: "repo_delete repo (payload_query p) s = (res, s1)" by fastforce
  note l = delete_law [OF assms(1) c]
  have "out = (case res of Ok _ \<Rightarrow> respond fw doc nid R_Deleted | Err e \<Rightarrow> reject fw doc nid (map_repo_err e))"
    "s' = s1"
    using assms(2) Ok c by (auto simp: handle_delete_def split: result.splits)
  then show ?thesis using l Ok by (cases res) (auto simp: reject_def split: result.split)
qed (use assms in \<open>auto simp: handle_delete_def reject_def\<close>)

lemma read_handler_law:
  assumes "inv s" "handle_read fw repo nid doc s = (out, s')"
  shows "inv s' \<and> view s' = view s \<and>
    (\<forall>d. out = Ok d \<longrightarrow> (\<exists>p r j. fw_query_payload fw doc = Ok p \<and> view s (kq (payload_query p)) = Some r \<and>
       fw_read_response fw (record_to_json r) = Ok j \<and> respond fw doc nid (R_Record j) = Ok d))"
proof (cases "fw_query_payload fw doc")
  case (Ok p)
  obtain res s1 where c: "repo_read repo (payload_query p) s = (res, s1)" by fastforce
  note l = read_law [OF assms(1) c]
  show ?thesis using assms(2) Ok c l
    by (cases res) (auto simp: handle_read_def split: result.splits)
qed (use assms in \<open>auto simp: handle_read_def\<close>)

lemma list_handler_law:
  assumes "inv s" "handle_list fw repo nid doc s = (out, s')"
  shows "inv s' \<and> view s' = view s \<and>
    (\<forall>d. out = Ok d \<longrightarrow> (\<exists>rs j. set rs = ran (view s) \<and>
       fw_list_response fw (record_list_json rs) = Ok j \<and> respond fw doc nid (R_Records j) = Ok d))"
proof (cases "fw_no_payload fw doc")
  case (Ok u)
  obtain res s1 where c: "repo_list repo s = (res, s1)" by fastforce
  note l = list_law [OF assms(1) c]
  show ?thesis using assms(2) Ok c l
    by (cases res) (auto simp: handle_list_def split: result.splits)
qed (use assms in \<open>auto simp: handle_list_def\<close>)

end

end
