(* ===== verification/Capability_Store.thy ===== *)
theory Capability_Store
  imports Json_Value
begin

text \<open>
  \<open>capabilities/mod.rs\<close>, persistence: the per-capability enablement state, the trait
  \<open>CapabilityStateStore\<close> as a record of its two operations, and its two implementations, a JSON
  file replaced by renaming a temporary file and a map in memory.  The locale
  \<open>capability_state_store\<close> is the contract the capability set relies on: a successful save is what
  the next load returns, a failed one leaves what was stored.
\<close>

record cap_state =
  cst_version :: string
  cst_enabled :: bool
  cst_config :: "json option"
  cst_enabled_at :: int
  cst_delegate :: "string option"

type_synonym cap_states = "(string \<times> cap_state) list"

record 'c cap_store =
  st_load :: "'c \<Rightarrow> (cap_states, string) result \<times> 'c"
  st_save :: "cap_states \<Rightarrow> 'c \<Rightarrow> (unit, string) result \<times> 'c"

locale capability_state_store =
  fixes store :: "'c cap_store"
    and stored :: "'c \<Rightarrow> cap_states option"
  assumes load_stored: "st_load store c = (Ok m, c') \<Longrightarrow> stored c = Some m"
    and load_keeps: "st_load store c = (res, c') \<Longrightarrow> stored c' = stored c"
    and save_stored: "st_save store m c = (Ok u, c') \<Longrightarrow> stored c' = Some m"
    and save_failed: "st_save store m c = (Err e, c') \<Longrightarrow> stored c' = stored c"
begin

lemma load_after_save:
  assumes "st_save store m c = (Ok u, c1)" "st_load store c1 = (Ok m', c2)"
  shows "m' = m"
  using save_stored [OF assms(1)] load_stored [OF assms(2)] by simp

lemma load_after_failed_save:
  assumes "stored c = Some m0" "st_save store m c = (Err e, c1)" "st_load store c1 = (Ok m', c2)"
  shows "m' = m0"
  using save_failed [OF assms(2)] load_stored [OF assms(3)] assms(1) by simp

end

section \<open>The in-memory store\<close>

definition memory_cap_store :: "cap_states cap_store" where
  "memory_cap_store = \<lparr>st_load = (\<lambda>c. (Ok c, c)), st_save = (\<lambda>m c. (Ok (), m))\<rparr>"

interpretation mem_caps: capability_state_store memory_cap_store Some
  by unfold_locales (auto simp: memory_cap_store_def)

section \<open>The file store\<close>

text \<open>The JSON text of the states is \<open>serde_json\<close>'s; the two files are the store and its temporary file.\<close>

record cap_codec =
  cc_print :: "cap_states \<Rightarrow> (string, string) result"
  cc_parse :: "string \<Rightarrow> (cap_states, string) result"
  cc_path :: string
  cc_has_parent :: bool

record cap_files =
  cf_file :: "string option"
  cf_tmp :: "string option"
  cf_script :: "io_outcome list"

definition cf_next :: "cap_files \<Rightarrow> io_outcome \<times> cap_files" where
  "cf_next c = (case cf_script c of [] \<Rightarrow> (IoOk, c) | x # xs \<Rightarrow> (x, c\<lparr>cf_script := xs\<rparr>))"

definition file_load :: "cap_codec \<Rightarrow> cap_files \<Rightarrow> (cap_states, string) result \<times> cap_files" where
  "file_load cc c =
     (case cf_next c of
        (IoOk, c1) \<Rightarrow>
          (case cf_file c1 of
             Some text \<Rightarrow>
               (map_err (\<lambda>e. ''capability state '' @ cc_path cc @ '' is corrupt: '' @ e) (cc_parse cc text), c1)
           | None \<Rightarrow> (Ok [], c1))
      | (IoFails e, c1) \<Rightarrow> (Err (''cannot read capability state '' @ cc_path cc @ '': '' @ e), c1)
      | (IoFailsLeaving e _, c1) \<Rightarrow> (Err (''cannot read capability state '' @ cc_path cc @ '': '' @ e), c1))"

definition io_step :: "cap_files \<Rightarrow> (cap_files \<Rightarrow> cap_files) \<Rightarrow> (string \<Rightarrow> cap_files \<Rightarrow> cap_files) \<Rightarrow>
    (unit, string) result \<times> cap_files" where
  "io_step c done partial =
     (case cf_next c of
        (IoOk, c1) \<Rightarrow> (Ok (), done c1)
      | (IoFails e, c1) \<Rightarrow> (Err e, c1)
      | (IoFailsLeaving e x, c1) \<Rightarrow> (Err e, partial x c1))"

definition file_save :: "cap_codec \<Rightarrow> cap_states \<Rightarrow> cap_files \<Rightarrow> (unit, string) result \<times> cap_files" where
  "file_save cc m c =
     (case cc_print cc m of
        Err e \<Rightarrow> (Err e, c)
      | Ok json \<Rightarrow>
          (case (if cc_has_parent cc then io_step c (\<lambda>c. c) (\<lambda>_ c. c) else (Ok (), c)) of
             (Err e, c1) \<Rightarrow> (Err e, c1)
           | (Ok _, c1) \<Rightarrow>
               (case io_step c1 (\<lambda>c. c\<lparr>cf_tmp := Some json\<rparr>) (\<lambda>x c. c\<lparr>cf_tmp := Some x\<rparr>) of
                  (Err e, c2) \<Rightarrow> (Err e, c2)
                | (Ok _, c2) \<Rightarrow>
                    io_step c2 (\<lambda>c. c\<lparr>cf_file := cf_tmp c, cf_tmp := None\<rparr>) (\<lambda>_ c. c))))"

definition file_cap_store :: "cap_codec \<Rightarrow> cap_files cap_store" where
  "file_cap_store cc = \<lparr>st_load = file_load cc, st_save = file_save cc\<rparr>"

definition cap_codec_law :: "cap_codec \<Rightarrow> bool" where
  "cap_codec_law cc \<longleftrightarrow> (\<forall>m t. cc_print cc m = Ok t \<longrightarrow> cc_parse cc t = Ok m)"

definition file_stored :: "cap_codec \<Rightarrow> cap_files \<Rightarrow> cap_states option" where
  "file_stored cc c = (case cf_file c of Some text \<Rightarrow> ok_opt (cc_parse cc text) | None \<Rightarrow> Some [])"

lemma cf_next_files [simp]:
  "cf_next c = (x, c1) \<Longrightarrow> cf_file c1 = cf_file c \<and> cf_tmp c1 = cf_tmp c"
  by (auto simp: cf_next_def split: list.splits)

lemma io_step_fails:
  assumes "io_step c done partial = (Err e, c')" "\<And>x c. cf_file (partial x c) = cf_file c"
  shows "cf_file c' = cf_file c"
  using assms by (auto simp: io_step_def split: prod.splits io_outcome.splits)

lemma io_step_done:
  assumes "io_step c done partial = (Ok u, c')"
  obtains c1 where "c' = done c1" "cf_file c1 = cf_file c" "cf_tmp c1 = cf_tmp c"
  using assms by (auto simp: io_step_def split: prod.splits io_outcome.splits)

lemma file_save_failed:
  assumes "file_save cc m c = (Err e, c')"
  shows "cf_file c' = cf_file c"
proof (cases "cc_print cc m")
  case (Ok json)
  obtain r1 c1 where s1: "(if cc_has_parent cc then io_step c (\<lambda>c. c) (\<lambda>_ c. c) else (Ok (), c)) = (r1, c1)"
    by fastforce
  have f1: "cf_file c1 = cf_file c"
    using s1 by (cases r1) (auto split: if_splits dest: io_step_fails elim: io_step_done)
  obtain r2 c2 where s2: "io_step c1 (\<lambda>c. c\<lparr>cf_tmp := Some json\<rparr>) (\<lambda>x c. c\<lparr>cf_tmp := Some x\<rparr>) = (r2, c2)"
    by fastforce
  have f2: "cf_file c2 = cf_file c1"
    using s2 by (cases r2) (auto dest: io_step_fails elim: io_step_done)
  show ?thesis using assms Ok s1 s2 f1 f2
    by (cases r1; cases r2) (auto simp: file_save_def dest: io_step_fails)
qed (use assms in \<open>auto simp: file_save_def\<close>)

lemma file_save_done:
  assumes "file_save cc m c = (Ok u, c')"
  shows "\<exists>t. cc_print cc m = Ok t \<and> cf_file c' = Some t"
proof -
  obtain json where Ok: "cc_print cc m = Ok json"
    using assms by (cases "cc_print cc m") (auto simp: file_save_def)
  obtain r1 c1 where s1: "(if cc_has_parent cc then io_step c (\<lambda>c. c) (\<lambda>_ c. c) else (Ok (), c)) = (r1, c1)"
    by fastforce
  obtain r2 c2 where s2: "io_step c1 (\<lambda>c. c\<lparr>cf_tmp := Some json\<rparr>) (\<lambda>x c. c\<lparr>cf_tmp := Some x\<rparr>) = (r2, c2)"
    by fastforce
  have r: "r1 = Ok ()" "r2 = Ok ()"
    using assms Ok s1 s2 by (cases r1; cases r2; auto simp: file_save_def)+
  have "cf_tmp c2 = Some json" using s2 r(2) by (auto elim: io_step_done)
  then show ?thesis using assms Ok s1 s2 r
    by (auto simp: file_save_def elim!: io_step_done)
qed

lemma file_store_contract:
  assumes "cap_codec_law cc"
  shows "capability_state_store (file_cap_store cc) (file_stored cc)"
proof
  fix c m c' assume "st_load (file_cap_store cc) c = (Ok m, c')"
  then show "file_stored cc c = Some m"
    by (auto simp: file_cap_store_def file_load_def file_stored_def
        split: prod.splits io_outcome.splits option.splits)
next
  fix c and res :: "(cap_states, string) result" and c'
  assume "st_load (file_cap_store cc) c = (res, c')"
  then have "cf_file c' = cf_file c"
    by (auto simp: file_cap_store_def file_load_def split: prod.splits io_outcome.splits option.splits)
  then show "file_stored cc c' = file_stored cc c" by (simp add: file_stored_def)
next
  fix m c u c' assume "st_save (file_cap_store cc) m c = (Ok u, c')"
  then show "file_stored cc c' = Some m"
    using file_save_done [of cc m c u c'] assms
    by (auto simp: file_cap_store_def file_stored_def cap_codec_law_def)
next
  fix m c e c' assume "st_save (file_cap_store cc) m c = (Err e, c')"
  then show "file_stored cc c' = file_stored cc c"
    using file_save_failed [of cc m c e c'] by (simp add: file_cap_store_def file_stored_def)
qed

definition cap_tuple :: "cap_state \<Rightarrow> string \<times> bool \<times> json option \<times> int \<times> string option" where
  "cap_tuple s = (cst_version s, cst_enabled s, cst_config s, cst_enabled_at s, cst_delegate s)"

definition tuple_cap :: "string \<times> bool \<times> json option \<times> int \<times> string option \<Rightarrow> cap_state" where
  "tuple_cap = (\<lambda>(v, e, c, t, d). \<lparr>cst_version = v, cst_enabled = e, cst_config = c,
     cst_enabled_at = t, cst_delegate = d\<rparr>)"

lemma tuple_cap_inverse [simp]: "tuple_cap (cap_tuple s) = s"
  by (simp add: tuple_cap_def cap_tuple_def)

definition unary_caps :: cap_codec where
  "unary_caps = \<lparr>cc_print = (\<lambda>m. Ok (unary_enc (map (map_prod id cap_tuple) m))),
     cc_parse = (\<lambda>s. Ok (map (map_prod id tuple_cap) (unary_dec s))),
     cc_path = ''capabilities.json'', cc_has_parent = True\<rparr>"

lemma unary_caps_law: "cap_codec_law unary_caps"
  by (auto simp: cap_codec_law_def unary_caps_def comp_def map_prod_def case_prod_unfold)

interpretation file_caps: capability_state_store "file_cap_store unary_caps" "file_stored unary_caps"
  by (rule file_store_contract [OF unary_caps_law])

end
