(* ===== verification/Git_Trust.thy ===== *)
theory Git_Trust
  imports Router Capability_Store
begin

text \<open>
  \<open>capabilities/git_trust.rs\<close>: the git-trust capability, its configuration check, and the two
  handlers that grant and revoke a commit-signing authorisation as trust records.
\<close>

definition ACTION :: string where
  "ACTION = ''git.commit.sign''"

definition git_validate_config :: "json \<Rightarrow> (unit, string) result" where
  "git_validate_config config =
     (case json_get config ''authority'' of
        Some (JStr did) \<Rightarrow> if starts_with ''did:'' did then Ok () else Err ''`authority` must be a DID string''
      | Some _ \<Rightarrow> Err ''`authority` must be a DID string''
      | None \<Rightarrow> Err ''git-trust config requires `authority` (the community's authority DID)'')"

definition authority_of :: "cap_state \<Rightarrow> string option" where
  "authority_of st =
     (case cst_config st of
        Some c \<Rightarrow>
          (case get_str c ''authority'' of
             Some did \<Rightarrow> if starts_with ''did:'' did then Some did else None
           | None \<Rightarrow> None)
      | None \<Rightarrow> None)"

definition require_authority ::
  "framework \<Rightarrow> string option \<Rightarrow> document \<Rightarrow> string \<Rightarrow> (string, error_response) result" where
  "require_authority fw authority doc nid =
     ok_or authority (fw_reject_with fw doc nid
       (InternalError ''git-trust is enabled without an authority DID in its config''))"

definition grant_record :: "string \<Rightarrow> string \<Rightarrow> string \<Rightarrow> trust_record" where
  "grant_record authority subject rsc =
     trust_record_new (EntityId subject) (AuthorityId authority) (Action ACTION) (Resource rsc)
       True True context_empty Authorization"

definition grant_query :: "string \<Rightarrow> string \<Rightarrow> string \<Rightarrow> trust_record_query" where
  "grant_query authority subject rsc =
     query_new (EntityId subject) (AuthorityId authority) (Action ACTION) (Resource rsc)"

definition revoked_record :: "string \<Rightarrow> string \<Rightarrow> string \<Rightarrow> trust_record \<Rightarrow> trust_record" where
  "revoked_record authority subject rsc existing =
     trust_record_new (EntityId subject) (AuthorityId authority) (Action ACTION) (Resource rsc)
       (is_recognized existing) False (tr_context existing) Authorization"

abbreviation ALREADY_GRANTED :: string where
  "ALREADY_GRANTED \<equiv> ''already_granted: an active grant exists for this subject and resource''"

definition handle_grant ::
  "framework \<Rightarrow> 's trust_repo \<Rightarrow> string option \<Rightarrow> string \<Rightarrow> document \<Rightarrow> 's \<Rightarrow> outcome \<times> 's" where
  "handle_grant fw repo authority nid doc s =
     (case fw_grant_payload fw doc of
        Err r \<Rightarrow> (reject fw doc nid r, s)
      | Ok (subject, rsc) \<Rightarrow>
          (case require_authority fw authority doc nid of
             Err e \<Rightarrow> (Err e, s)
           | Ok auth \<Rightarrow>
               (case repo_create repo (grant_record auth subject rsc) s of
                  (Ok _, s1) \<Rightarrow>
                    (Ok (fw_respond_with fw doc nid (jobj [(''subject'', JStr subject),
                       (''resource'', JStr rsc), (''granted'', JBool True)])), s1)
                | (Err (RecordAlreadyExists m), s1) \<Rightarrow>
                    (reject fw doc nid (TaskFailed ALREADY_GRANTED), s1)
                | (Err e, s1) \<Rightarrow> (reject fw doc nid (InternalError (repository_error_str e)), s1))))"

definition handle_revoke ::
  "framework \<Rightarrow> 's trust_repo \<Rightarrow> string option \<Rightarrow> string \<Rightarrow> document \<Rightarrow> 's \<Rightarrow> outcome \<times> 's" where
  "handle_revoke fw repo authority nid doc s =
     (case fw_grant_payload fw doc of
        Err r \<Rightarrow> (reject fw doc nid r, s)
      | Ok (subject, rsc) \<Rightarrow>
          (case require_authority fw authority doc nid of
             Err e \<Rightarrow> (Err e, s)
           | Ok auth \<Rightarrow>
               (case repo_read repo (grant_query auth subject rsc) s of
                  (Err (RecordNotFound m), s1) \<Rightarrow>
                    (reject fw doc nid (TaskFailed
                       ''not_granted: no active grant exists for this subject and resource''), s1)
                | (Err e, s1) \<Rightarrow> (reject fw doc nid (InternalError (repository_error_str e)), s1)
                | (Ok existing, s1) \<Rightarrow>
                    (case repo_update repo (revoked_record auth subject rsc existing) s1 of
                       (Ok _, s2) \<Rightarrow>
                         (Ok (fw_respond_with fw doc nid (jobj [(''subject'', JStr subject),
                            (''resource'', JStr rsc), (''revoked'', JBool True)])), s2)
                     | (Err e, s2) \<Rightarrow> (reject fw doc nid (InternalError (repository_error_str e)), s2)))))"

lemma grant_record_key [simp]:
  "query_of_record (grant_record a s r) = grant_query a s r"
  "query_of_record (revoked_record a s r x) = grant_query a s r"
  by (simp_all add: query_of_record_def grant_record_def revoked_record_def grant_query_def trust_record_new_def)

lemma grant_record_flags [simp]:
  "is_authorized (grant_record a s r)" "\<not> is_authorized (revoked_record a s r x)"
  "is_recognized (revoked_record a s r x) = is_recognized x"
  "tr_context (revoked_record a s r x) = tr_context x"
  by (simp_all add: grant_record_def revoked_record_def trust_record_new_def is_authorized_def is_recognized_def)

lemma git_validate_authority:
  "git_validate_config c = Ok () \<longleftrightarrow>
     (\<exists>did. json_get c ''authority'' = Some (JStr did) \<and> starts_with ''did:'' did)"
  by (auto simp: git_validate_config_def split: option.splits json.splits if_splits)

lemma validated_authority:
  "git_validate_config c = Ok () \<Longrightarrow> cst_config st = Some c \<Longrightarrow> \<exists>did. authority_of st = Some did"
  by (auto simp: git_validate_authority authority_of_def get_str_def)

context trust_repository
begin

lemma grant_key: "kr (grant_record a su rs) = kq (grant_query a su rs)"
  using key_agree [of "grant_record a su rs"] by simp

lemma revoke_key: "kr (revoked_record a su rs x) = kq (grant_query a su rs)"
  using key_agree [of "revoked_record a su rs x"] by simp

lemma grant_law:
  assumes "inv s" "handle_grant fw repo authority nid doc s = (Ok d, s')"
  obtains auth su rs where "fw_grant_payload fw doc = Ok (su, rs)" "authority = Some auth"
    "view s (kq (grant_query auth su rs)) = None" "inv s'"
    "view s' = (view s)(kq (grant_query auth su rs) \<mapsto> grant_record auth su rs)"
proof -
  obtain su rs where p: "fw_grant_payload fw doc = Ok (su, rs)"
    using assms(2) by (cases "fw_grant_payload fw doc") (auto simp: handle_grant_def)
  obtain auth where a: "authority = Some auth"
    using assms(2) p by (cases authority) (auto simp: handle_grant_def require_authority_def)
  obtain res s1 where c: "repo_create repo (grant_record auth su rs) s = (res, s1)" by fastforce
  have r: "res = Ok ()" "s1 = s'"
    using assms(2) p a c
    by (cases res; auto simp: handle_grant_def require_authority_def split: repository_error.splits)+
  note l = create_law [OF assms(1) c]
  show thesis using that [OF p a] l r by (simp add: grant_key)
qed

lemma grant_keeps:
  assumes "inv s" "handle_grant fw repo authority nid doc s = (out, s')"
  shows "inv s'"
proof (cases "fw_grant_payload fw doc")
  case (Ok p)
  obtain su rs where p: "p = (su, rs)" by fastforce
  show ?thesis
  proof (cases authority)
    case (Some auth)
    obtain res s1 where c: "repo_create repo (grant_record auth su rs) s = (res, s1)" by fastforce
    have "s1 = s'" using assms(2) Ok p Some c
      by (cases res) (auto simp: handle_grant_def require_authority_def split: repository_error.splits)
    then show ?thesis using create_law(1) [OF assms(1) c] by simp
  qed (use assms Ok p in \<open>auto simp: handle_grant_def require_authority_def\<close>)
qed (use assms in \<open>auto simp: handle_grant_def\<close>)

lemma revoke_law:
  assumes "inv s" "handle_revoke fw repo authority nid doc s = (Ok d, s')"
  obtains auth su rs x where "fw_grant_payload fw doc = Ok (su, rs)" "authority = Some auth"
    "view s (kq (grant_query auth su rs)) = Some x" "inv s'"
    "view s' = (view s)(kq (grant_query auth su rs) \<mapsto> revoked_record auth su rs x)"
proof -
  obtain su rs where p: "fw_grant_payload fw doc = Ok (su, rs)"
    using assms(2) by (cases "fw_grant_payload fw doc") (auto simp: handle_revoke_def)
  obtain auth where a: "authority = Some auth"
    using assms(2) p by (cases authority) (auto simp: handle_revoke_def require_authority_def)
  obtain res s1 where c: "repo_read repo (grant_query auth su rs) s = (res, s1)" by fastforce
  obtain x where x: "res = Ok x"
    using assms(2) p a c
    by (cases res) (auto simp: handle_revoke_def require_authority_def split: repository_error.splits)
  obtain res2 s2 where u: "repo_update repo (revoked_record auth su rs x) s1 = (res2, s2)" by fastforce
  have r: "res2 = Ok ()" "s2 = s'"
    using assms(2) p a c x u by (cases res2; auto simp: handle_revoke_def require_authority_def)+
  note lr = read_law [OF assms(1) c]
  note lu = update_law [OF lr(1) u]
  show thesis using that [OF p a] lr x lu r by (simp add: revoke_key)
qed

text \<open>The record a revocation leaves behind blocks every later grant.\<close>

lemma grant_when_recorded:
  assumes "inv s" "fw_grant_payload fw doc = Ok (su, rs)" "view s (kq (grant_query auth su rs)) \<noteq> None"
    and "handle_grant fw repo (Some auth) nid doc s = (out, s')"
  shows "inv s' \<and> view s' = view s \<and> (\<exists>e. fst (repo_create repo (grant_record auth su rs) s) = Err e \<and>
    out = reject fw doc nid (if says_exists e then TaskFailed ALREADY_GRANTED
                             else InternalError (repository_error_str e)))"
proof -
  obtain res s1 where c: "repo_create repo (grant_record auth su rs) s = (res, s1)" by fastforce
  note l = create_law [OF assms(1) c]
  have "res \<noteq> Ok ()" using l(2) assms(3) by (auto simp: grant_key)
  then obtain e where e: "res = Err e" by (cases res) auto
  have "out = reject fw doc nid (if says_exists e then TaskFailed ALREADY_GRANTED
      else InternalError (repository_error_str e))" "s' = s1"
    using assms(2,4) c e by (cases e; simp add: handle_grant_def require_authority_def)+
  then show ?thesis using l(1) l(4) [OF e] e c assms(3) by (auto simp: grant_key)
qed

end

end
