(* ===== verification/Capabilities.thy ===== *)
theory Capabilities
  imports Git_Trust
begin

text \<open>
  \<open>capabilities/mod.rs\<close>: the set of capabilities a registry can serve, their enablement, the
  dispatchers composed from the base registrations and the enabled capabilities, the governance
  handlers, and the execution of any registered handler on the whole registry state (the
  repository and the capability set).  The lemmas: composition, the invariant that the live
  dispatchers are the composition of the enabled capabilities, what enable and disable leave on
  every branch, and that a restart composes the same dispatchers.
\<close>

section \<open>Definitions and the set\<close>

record cap_definition =
  cd_capability :: string
  cd_manifest :: json
  cd_register :: "dispatcher \<Rightarrow> cap_state \<Rightarrow> dispatcher"
  cd_validate :: "(json \<Rightarrow> (unit, string) result) option"

datatype capability_error =
    UnknownCapability
  | AlreadyEnabled
  | NotEnabled
  | ConfigInvalid string
  | Storage string

record 'c cap_set =
  cap_available :: "(string \<times> cap_definition) list"
  cap_state_map :: cap_states
  cap_stored :: 'c
  cap_base :: dispatcher
  cap_base_query :: dispatcher
  cap_dispatcher :: dispatcher
  cap_query_dispatcher :: dispatcher

definition register_enabled ::
  "cap_states \<Rightarrow> (string \<times> cap_definition) list \<Rightarrow> dispatcher \<Rightarrow> dispatcher" where
  "register_enabled state available d =
     fold (\<lambda>(slug, def) d.
        case map_of state slug of
          Some entry \<Rightarrow> if cst_enabled entry then cd_register def d entry else d
        | None \<Rightarrow> d) available d"

definition compose ::
  "dispatcher \<Rightarrow> (string \<times> cap_definition) list \<Rightarrow> cap_states \<Rightarrow> bool \<Rightarrow> dispatcher" where
  "compose base available state admin =
     (let d1 = disp_on CAP_LIST H_CapList base;
          d2 = (if admin then disp_on CAP_DISABLE H_CapDisable (disp_on CAP_ENABLE H_CapEnable d1) else d1)
      in register_enabled state available d2)"

definition cap_rebuild :: "'c cap_set \<Rightarrow> 'c cap_set" where
  "cap_rebuild s = s\<lparr>
     cap_dispatcher := compose (cap_base s) (cap_available s) (cap_state_map s) True,
     cap_query_dispatcher := compose (cap_base_query s) (cap_available s) (cap_state_map s) False\<rparr>"

definition cap_new ::
  "'c cap_store \<Rightarrow> cap_definition list \<Rightarrow> dispatcher \<Rightarrow> dispatcher \<Rightarrow> 'c \<Rightarrow> ('c cap_set, string) result" where
  "cap_new store available base base_query c =
     (case st_load store c of
        (Err e, c1) \<Rightarrow> Err e
      | (Ok state, c1) \<Rightarrow>
          (let av = bt_of (map (\<lambda>d. (cd_capability d, d)) available) in
           Ok \<lparr>cap_available = av, cap_state_map = state, cap_stored = c1, cap_base = base,
               cap_base_query = base_query,
               cap_dispatcher = compose base av state True,
               cap_query_dispatcher = compose base_query av state False\<rparr>))"

text \<open>
  The end of enable and of disable: the new state replaces the old one in memory, is saved, and
  only if the save succeeds are the dispatchers rebuilt.
\<close>

definition cap_commit ::
  "'c cap_store \<Rightarrow> cap_states \<Rightarrow> 'c cap_set \<Rightarrow> (unit, capability_error) result \<times> 'c cap_set" where
  "cap_commit store state s =
     (case st_save store state (cap_stored s) of
        (Err e, c1) \<Rightarrow> (Err (Storage e), s\<lparr>cap_state_map := state, cap_stored := c1\<rparr>)
      | (Ok _, c1) \<Rightarrow> (Ok (), cap_rebuild (s\<lparr>cap_state_map := state, cap_stored := c1\<rparr>)))"

definition cap_config_ok :: "cap_definition \<Rightarrow> json option \<Rightarrow> (unit, string) result" where
  "cap_config_ok def config =
     (case cd_validate def of
        Some validate \<Rightarrow> validate (case config of Some c \<Rightarrow> c | None \<Rightarrow> JObj [])
      | None \<Rightarrow> Ok ())"

definition cap_is_enabled :: "cap_state option \<Rightarrow> bool" where
  "cap_is_enabled st = (case st of Some e \<Rightarrow> cst_enabled e | None \<Rightarrow> False)"

definition cap_entry :: "int \<Rightarrow> string \<Rightarrow> json option \<Rightarrow> string option \<Rightarrow> cap_state" where
  "cap_entry now version config delegate = \<lparr>cst_version = version, cst_enabled = True,
     cst_config = config, cst_enabled_at = now, cst_delegate = delegate\<rparr>"

definition cap_enable ::
  "'c cap_store \<Rightarrow> int \<Rightarrow> string \<Rightarrow> string \<Rightarrow> json option \<Rightarrow> string option \<Rightarrow> 'c cap_set \<Rightarrow>
   (cap_state, capability_error) result \<times> 'c cap_set" where
  "cap_enable store now capability version config delegate s =
     (case map_of (cap_available s) capability of
        None \<Rightarrow> (Err UnknownCapability, s)
      | Some def \<Rightarrow>
          (case cap_config_ok def config of
             Err e \<Rightarrow> (Err (ConfigInvalid e), s)
           | Ok _ \<Rightarrow>
               if cap_is_enabled (map_of (cap_state_map s) capability) then (Err AlreadyEnabled, s)
               else
                 (let entry = cap_entry now version config delegate in
                  case cap_commit store (bt_insert capability entry (cap_state_map s)) s of
                    (Err e, s1) \<Rightarrow> (Err e, s1)
                  | (Ok _, s1) \<Rightarrow> (Ok entry, s1))))"

definition cap_disable ::
  "'c cap_store \<Rightarrow> string \<Rightarrow> 'c cap_set \<Rightarrow> (unit, capability_error) result \<times> 'c cap_set" where
  "cap_disable store capability s =
     (case map_of (cap_state_map s) capability of
        Some entry \<Rightarrow>
          if cst_enabled entry
          then cap_commit store (bt_insert capability (entry\<lparr>cst_enabled := False\<rparr>) (cap_state_map s)) s
          else (Err NotEnabled, s)
      | None \<Rightarrow> (Err NotEnabled, s))"

definition cap_list :: "bool \<Rightarrow> 'c cap_set \<Rightarrow> (json \<times> cap_state option) list" where
  "cap_list include_available s =
     List.map_filter (\<lambda>(slug, d).
        let st = map_of (cap_state_map s) (cd_capability d);
            enabled = cap_is_enabled st
        in if enabled \<or> include_available then Some (cd_manifest d, st) else None) (cap_available s)"

section \<open>Governance handlers\<close>

definition upgraded :: "bool \<Rightarrow> (unit, reject_reason) result" where
  "upgraded alive = (if alive then Ok () else Err (InternalError ''capability set is shutting down''))"

fun reject_of :: "capability_error \<Rightarrow> reject_reason" where
  "reject_of UnknownCapability =
     TaskFailed ''unknown_capability: not built into this host and no manifest supplied''"
| "reject_of AlreadyEnabled =
     TaskFailed ''already_enabled: the capability is already enabled for this community''"
| "reject_of NotEnabled = TaskFailed ''not_enabled: the capability is not currently enabled''"
| "reject_of (ConfigInvalid detail) = MalformedRequest (''config_invalid: '' @ detail)"
| "reject_of (Storage detail) = InternalError detail"

definition handle_enable ::
  "framework \<Rightarrow> 'c cap_store \<Rightarrow> bool \<Rightarrow> int \<Rightarrow> string \<Rightarrow> document \<Rightarrow> 'c cap_set \<Rightarrow> outcome \<times> 'c cap_set" where
  "handle_enable fw store alive now nid doc s =
     (case fw_enable_payload fw doc of
        Err r \<Rightarrow> (reject fw doc nid r, s)
      | Ok p \<Rightarrow>
          (case upgraded alive of
             Err r \<Rightarrow> (reject fw doc nid r, s)
           | Ok _ \<Rightarrow>
               (let config = (if ep_config p = [] then None else Some (jobj (ep_config p))) in
                case cap_enable store now (ep_capability p) (ep_version p) config (ep_delegate p) s of
                  (Ok entry, s1) \<Rightarrow>
                    (respond fw doc nid (R_Json (jobj [(''capability'', JStr (ep_capability p)),
                       (''version'', JStr (cst_version entry)), (''enabled'', JBool True),
                       (''enabledAt'', fw_time_json fw (cst_enabled_at entry))])), s1)
                | (Err e, s1) \<Rightarrow> (reject fw doc nid (reject_of e), s1))))"

definition handle_disable ::
  "framework \<Rightarrow> 'c cap_store \<Rightarrow> bool \<Rightarrow> string \<Rightarrow> document \<Rightarrow> 'c cap_set \<Rightarrow> outcome \<times> 'c cap_set" where
  "handle_disable fw store alive nid doc s =
     (case fw_disable_payload fw doc of
        Err r \<Rightarrow> (reject fw doc nid r, s)
      | Ok capability \<Rightarrow>
          (case upgraded alive of
             Err r \<Rightarrow> (reject fw doc nid r, s)
           | Ok _ \<Rightarrow>
               (case cap_disable store capability s of
                  (Ok _, s1) \<Rightarrow>
                    (respond fw doc nid (R_Json (jobj [(''capability'', JStr capability),
                       (''enabled'', JBool False)])), s1)
                | (Err e, s1) \<Rightarrow> (reject fw doc nid (reject_of e), s1))))"

definition cap_list_entry :: "framework \<Rightarrow> json \<times> cap_state option \<Rightarrow> json" where
  "cap_list_entry fw entry =
     (case entry of (manifest, st) \<Rightarrow>
        jobj ([(''manifest'', manifest), (''enabled'', JBool (cap_is_enabled st))] @
          (case st of
             None \<Rightarrow> []
           | Some e \<Rightarrow>
               (if cap_is_enabled st then [(''enabledAt'', fw_time_json fw (cst_enabled_at e))] else []) @
               (case cst_delegate e of Some d \<Rightarrow> [(''delegate'', JStr d)] | None \<Rightarrow> []))))"

definition handle_cap_list ::
  "framework \<Rightarrow> bool \<Rightarrow> string \<Rightarrow> document \<Rightarrow> 'c cap_set \<Rightarrow> outcome \<times> 'c cap_set" where
  "handle_cap_list fw alive nid doc s =
     (case fw_list_payload fw doc of
        Err r \<Rightarrow> (reject fw doc nid r, s)
      | Ok p \<Rightarrow>
          (case upgraded alive of
             Err r \<Rightarrow> (reject fw doc nid r, s)
           | Ok _ \<Rightarrow>
               (let status = (case lp_status p of Some x \<Rightarrow> to_lowercase x | None \<Rightarrow> ''enabled'');
                    entries = map (cap_list_entry fw)
                      (filter (\<lambda>(m, st). if status = ''available'' then \<not> cap_is_enabled st else True)
                        (cap_list (status \<noteq> ''enabled'') s))
                in (respond fw doc nid (R_Json (jobj [(''capabilities'', JArr entries)])), s))))"

section \<open>Git-trust as a capability\<close>

definition git_register :: "dispatcher \<Rightarrow> cap_state \<Rightarrow> dispatcher" where
  "git_register d st =
     (let authority = authority_of st in
      disp_on GIT_REVOKE (H_Revoke authority) (disp_on GIT_GRANT (H_Grant authority) d))"

definition git_manifest :: json where
  "git_manifest = jobj [
     (''capability'', JStr ''git-trust''), (''version'', JStr ''0.1''), (''title'', JStr ''Git Commit Trust''),
     (''description'', JStr ''Grant and revoke members' commit-signing authority; CI verifies each PR commit's signer DID against this community's registry.''),
     (''specs'', JArr [JStr ''git-trust/*'']),
     (''vocabulary'', jobj [(''actions'', JArr [JStr ACTION]), (''resourcePattern'', JStr ''<org>[/<repo>]'')]),
     (''roles'', jobj [(''grant'', JArr [JStr ''operator'']), (''view'', JArr [JStr ''member''])]),
     (''externalAdapters'', JArr [jobj [(''kind'', JStr ''github-action''),
        (''ref'', JStr ''OpenVTC/openvtc/.github/actions/verify-trust'')]])]"

definition git_definition :: cap_definition where
  "git_definition = \<lparr>cd_capability = ''git-trust'', cd_manifest = git_manifest,
     cd_register = git_register, cd_validate = Some git_validate_config\<rparr>"

section \<open>Running a registered handler\<close>

type_synonym ('s, 'c) registry = "'s \<times> 'c cap_set"

record call_env =
  ce_nid :: string
  ce_now :: int
  ce_alive :: bool

fun run_handler ::
  "framework \<Rightarrow> 's trust_repo \<Rightarrow> 'c cap_store \<Rightarrow> call_env \<Rightarrow> handler \<Rightarrow> document \<Rightarrow>
   ('s, 'c) registry \<Rightarrow> outcome \<times> ('s, 'c) registry" where
  "run_handler fw repo store ce H_Recognition doc (s, cs) =
     (case handle_recognition fw repo (ce_nid ce) (ce_now ce) doc s of (out, s1) \<Rightarrow> (out, s1, cs))"
| "run_handler fw repo store ce H_Authorization doc (s, cs) =
     (case handle_authorization fw repo (ce_nid ce) (ce_now ce) doc s of (out, s1) \<Rightarrow> (out, s1, cs))"
| "run_handler fw repo store ce H_Create doc (s, cs) =
     (case handle_create fw repo (ce_nid ce) doc s of (out, s1) \<Rightarrow> (out, s1, cs))"
| "run_handler fw repo store ce H_Update doc (s, cs) =
     (case handle_update fw repo (ce_nid ce) doc s of (out, s1) \<Rightarrow> (out, s1, cs))"
| "run_handler fw repo store ce H_Delete doc (s, cs) =
     (case handle_delete fw repo (ce_nid ce) doc s of (out, s1) \<Rightarrow> (out, s1, cs))"
| "run_handler fw repo store ce H_Read doc (s, cs) =
     (case handle_read fw repo (ce_nid ce) doc s of (out, s1) \<Rightarrow> (out, s1, cs))"
| "run_handler fw repo store ce H_List doc (s, cs) =
     (case handle_list fw repo (ce_nid ce) doc s of (out, s1) \<Rightarrow> (out, s1, cs))"
| "run_handler fw repo store ce H_CapList doc (s, cs) =
     (case handle_cap_list fw (ce_alive ce) (ce_nid ce) doc cs of (out, cs1) \<Rightarrow> (out, s, cs1))"
| "run_handler fw repo store ce H_CapEnable doc (s, cs) =
     (case handle_enable fw store (ce_alive ce) (ce_now ce) (ce_nid ce) doc cs of (out, cs1) \<Rightarrow> (out, s, cs1))"
| "run_handler fw repo store ce H_CapDisable doc (s, cs) =
     (case handle_disable fw store (ce_alive ce) (ce_nid ce) doc cs of (out, cs1) \<Rightarrow> (out, s, cs1))"
| "run_handler fw repo store ce (H_Grant a) doc (s, cs) =
     (case handle_grant fw repo a (ce_nid ce) doc s of (out, s1) \<Rightarrow> (out, s1, cs))"
| "run_handler fw repo store ce (H_Revoke a) doc (s, cs) =
     (case handle_revoke fw repo a (ce_nid ce) doc s of (out, s1) \<Rightarrow> (out, s1, cs))"

definition serve_document ::
  "framework \<Rightarrow> 's trust_repo \<Rightarrow> 'c cap_store \<Rightarrow> call_env \<Rightarrow> dispatcher \<Rightarrow> document \<Rightarrow>
   ('s, 'c) registry \<Rightarrow> outcome \<times> ('s, 'c) registry" where
  "serve_document fw repo store ce d doc w =
     handle_document fw (run_handler fw repo store ce) d (ce_nid ce) doc w"

section \<open>Lemmas on the set\<close>

definition cap_composed :: "'c cap_set \<Rightarrow> bool" where
  "cap_composed s \<longleftrightarrow>
     cap_dispatcher s = compose (cap_base s) (cap_available s) (cap_state_map s) True \<and>
     cap_query_dispatcher s = compose (cap_base_query s) (cap_available s) (cap_state_map s) False"

text \<open>
  The dispatchers in force, composed from the states \<open>sts\<close>.  They need not be the states the set
  keeps: when a save fails, the kept states have changed and the dispatchers have not.
\<close>

definition cap_in_force :: "cap_states \<Rightarrow> 'c cap_set \<Rightarrow> bool" where
  "cap_in_force sts s \<longleftrightarrow>
     cap_dispatcher s = compose (cap_base s) (cap_available s) sts True \<and>
     cap_query_dispatcher s = compose (cap_base_query s) (cap_available s) sts False"

lemma composed_in_force: "cap_composed s \<longleftrightarrow> cap_in_force (cap_state_map s) s"
  by (simp add: cap_composed_def cap_in_force_def)

definition cap_persisted :: "('c \<Rightarrow> cap_states option) \<Rightarrow> 'c cap_set \<Rightarrow> bool" where
  "cap_persisted stored s \<longleftrightarrow> stored (cap_stored s) = Some (cap_state_map s)"

definition cap_wf :: "'c cap_set \<Rightarrow> bool" where
  "cap_wf s \<longleftrightarrow> bt_ok (cap_available s) \<and> bt_ok (cap_state_map s) \<and>
     (\<forall>(slug, d) \<in> set (cap_available s). cd_capability d = slug)"

lemma cap_rebuild_composed [simp]: "cap_composed (cap_rebuild s)"
  by (simp add: cap_composed_def cap_rebuild_def)

lemma cap_rebuild_in_force [simp]: "cap_in_force (cap_state_map s) (cap_rebuild s)"
  by (simp add: cap_in_force_def cap_rebuild_def)

text \<open>After a start the dispatchers are composed from the states that were loaded.\<close>

lemma cap_new_in_force:
  "cap_new store available base base_query c = Ok s \<Longrightarrow> cap_in_force (cap_state_map s) s"
  by (auto simp: cap_new_def cap_in_force_def Let_def split: prod.splits result.splits)

lemma cap_rebuild_fields [simp]:
  "cap_available (cap_rebuild s) = cap_available s" "cap_state_map (cap_rebuild s) = cap_state_map s"
  "cap_stored (cap_rebuild s) = cap_stored s" "cap_base (cap_rebuild s) = cap_base s"
  "cap_base_query (cap_rebuild s) = cap_base_query s"
  by (simp_all add: cap_rebuild_def)

lemma cap_commit_Ok:
  assumes "cap_commit store state s = (Ok u, s')"
  obtains c1 where "st_save store state (cap_stored s) = (Ok (), c1)"
    "s' = cap_rebuild (s\<lparr>cap_state_map := state, cap_stored := c1\<rparr>)"
  using assms by (auto simp: cap_commit_def split: result.splits prod.splits)

lemma cap_commit_Err:
  assumes "cap_commit store state s = (Err e, s')"
  obtains msg c1 where "e = Storage msg" "st_save store state (cap_stored s) = (Err msg, c1)"
    "s' = s\<lparr>cap_state_map := state, cap_stored := c1\<rparr>"
  using assms by (auto simp: cap_commit_def split: result.splits prod.splits)

lemma cap_entry_fields [simp]:
  "cst_enabled (cap_entry now version config delegate)" "cst_config (cap_entry now version config delegate) = config"
  "cst_version (cap_entry now version config delegate) = version"
  "cst_enabled_at (cap_entry now version config delegate) = now"
  "cst_delegate (cap_entry now version config delegate) = delegate"
  by (simp_all add: cap_entry_def)

text \<open>Every way out of enable.\<close>

lemma cap_enable_cases:
  assumes "cap_enable store now cap version config delegate s = (res, s')"
  obtains (unknown) "map_of (cap_available s) cap = None" "res = Err UnknownCapability" "s' = s"
  | (invalid) def m where "map_of (cap_available s) cap = Some def" "cap_config_ok def config = Err m"
      "res = Err (ConfigInvalid m)" "s' = s"
  | (already) "cap_is_enabled (map_of (cap_state_map s) cap)" "res = Err AlreadyEnabled" "s' = s"
  | (commit) def cres where "map_of (cap_available s) cap = Some def" "cap_config_ok def config = Ok ()"
      "\<not> cap_is_enabled (map_of (cap_state_map s) cap)"
      "cap_commit store (bt_insert cap (cap_entry now version config delegate) (cap_state_map s)) s = (cres, s')"
      "res = (case cres of Ok _ \<Rightarrow> Ok (cap_entry now version config delegate) | Err e \<Rightarrow> Err e)"
proof (cases "map_of (cap_available s) cap")
  case None
  then have "res = Err UnknownCapability" "s' = s" using assms by (simp_all add: cap_enable_def)
  with None show thesis by (rule unknown)
next
  case (Some def)
  show thesis
  proof (cases "cap_config_ok def config")
    case (Err m)
    then have "res = Err (ConfigInvalid m)" "s' = s" using assms Some by (simp_all add: cap_enable_def)
    with Some Err show thesis by (rule invalid)
  next
    case (Ok u)
    show thesis
    proof (cases "cap_is_enabled (map_of (cap_state_map s) cap)")
      case True
      then have "res = Err AlreadyEnabled" "s' = s" using assms Some Ok by (simp_all add: cap_enable_def)
      with True show thesis by (rule already)
    next
      case False
      obtain cres s1 where c: "cap_commit store
          (bt_insert cap (cap_entry now version config delegate) (cap_state_map s)) s = (cres, s1)"
        by fastforce
      then have "s1 = s'" "res = (case cres of Ok _ \<Rightarrow> Ok (cap_entry now version config delegate) | Err e \<Rightarrow> Err e)"
        using assms Some Ok False by (auto simp: cap_enable_def Let_def split: result.splits)
      moreover have "cap_config_ok def config = Ok ()" using Ok by simp
      ultimately show thesis using commit [OF Some _ False] c by metis
    qed
  qed
qed

lemma cap_enable_Ok:
  assumes "cap_enable store now cap version config delegate s = (Ok entry, s')"
  obtains def c1 where "map_of (cap_available s) cap = Some def" "cap_config_ok def config = Ok ()"
    "cst_enabled entry" "cst_config entry = config"
    "st_save store (bt_insert cap entry (cap_state_map s)) (cap_stored s) = (Ok (), c1)"
    "s' = cap_rebuild (s\<lparr>cap_state_map := bt_insert cap entry (cap_state_map s), cap_stored := c1\<rparr>)"
  using assms
proof (cases rule: cap_enable_cases)
  case (commit def cres)
  then obtain u where u: "cres = Ok u" "entry = cap_entry now version config delegate"
    by (cases cres) auto
  obtain c1 where "st_save store (bt_insert cap entry (cap_state_map s)) (cap_stored s) = (Ok (), c1)"
    "s' = cap_rebuild (s\<lparr>cap_state_map := bt_insert cap entry (cap_state_map s), cap_stored := c1\<rparr>)"
    using commit(4) u by (auto elim: cap_commit_Ok)
  then show thesis using that commit(1,2) u by simp
qed simp_all

lemma cap_enable_Err:
  assumes "cap_enable store now cap version config delegate s = (Err e, s')"
  shows "s' = s \<or> (\<exists>msg c1. e = Storage msg \<and> \<not> cap_is_enabled (map_of (cap_state_map s) cap) \<and>
     st_save store (bt_insert cap (cap_entry now version config delegate) (cap_state_map s)) (cap_stored s) = (Err msg, c1) \<and>
     s' = s\<lparr>cap_state_map := bt_insert cap (cap_entry now version config delegate) (cap_state_map s),
            cap_stored := c1\<rparr>)"
  using assms
proof (cases rule: cap_enable_cases)
  case (commit def cres)
  then have "cres = Err e" by (cases cres) auto
  then show ?thesis using commit(3,4) by (auto elim!: cap_commit_Err)
qed simp_all

lemma cap_disable_Ok:
  assumes "cap_disable store cap s = (Ok u, s')"
  obtains entry c1 where "map_of (cap_state_map s) cap = Some entry" "cst_enabled entry"
    "st_save store (bt_insert cap (entry\<lparr>cst_enabled := False\<rparr>) (cap_state_map s)) (cap_stored s) = (Ok (), c1)"
    "s' = cap_rebuild (s\<lparr>cap_state_map := bt_insert cap (entry\<lparr>cst_enabled := False\<rparr>) (cap_state_map s),
            cap_stored := c1\<rparr>)"
proof -
  obtain entry where e: "map_of (cap_state_map s) cap = Some entry" "cst_enabled entry"
    "cap_commit store (bt_insert cap (entry\<lparr>cst_enabled := False\<rparr>) (cap_state_map s)) s = (Ok u, s')"
    using assms by (auto simp: cap_disable_def split: option.splits if_splits)
  show thesis using cap_commit_Ok [OF e(3)] that [OF e(1,2)] by blast
qed

text \<open>
  A disable whose save fails takes the capability out of the kept states only: the dispatchers in
  force go on serving it, and a second disable finds nothing to do.
\<close>

lemma failed_disable_diverges:
  assumes "cap_disable store cap s = (Err (Storage msg), s')" "cap_in_force sts s"
  shows "cap_in_force sts s' \<and> \<not> cap_is_enabled (map_of (cap_state_map s') cap) \<and>
    cap_disable store cap s' = (Err NotEnabled, s')"
proof -
  obtain entry where e: "map_of (cap_state_map s) cap = Some entry" "cst_enabled entry"
    "cap_commit store (bt_insert cap (entry\<lparr>cst_enabled := False\<rparr>) (cap_state_map s)) s = (Err (Storage msg), s')"
    using assms(1) by (auto simp: cap_disable_def split: option.splits if_splits)
  obtain c1 where s': "s' = s\<lparr>cap_state_map := bt_insert cap (entry\<lparr>cst_enabled := False\<rparr>) (cap_state_map s),
      cap_stored := c1\<rparr>"
    using cap_commit_Err [OF e(3)] by blast
  then show ?thesis using assms(2) by (simp add: cap_in_force_def cap_is_enabled_def cap_disable_def)
qed

lemma register_enabled_other:
  assumes "\<forall>(slug, def) \<in> set available. \<forall>e d u. u \<notin> cap_uris slug \<longrightarrow>
      map_of (cd_register def d e) u = map_of d u"
    and "\<forall>(slug, def) \<in> set available. (\<exists>e. map_of state slug = Some e \<and> cst_enabled e) \<longrightarrow> u \<notin> cap_uris slug"
  shows "map_of (register_enabled state available d) u = map_of d u"
  using assms
  by (induction available arbitrary: d)
    (auto simp: register_enabled_def split: option.splits)

lemma git_register_entries:
  "map_of (git_register d st) u =
     (if u = GIT_REVOKE then Some (H_Revoke (authority_of st))
      else if u = GIT_GRANT then Some (H_Grant (authority_of st)) else map_of d u)"
  by (simp add: git_register_def Let_def type_uris)

definition git_only :: "'c cap_set \<Rightarrow> bool" where
  "git_only s \<longleftrightarrow> cap_available s = [(''git-trust'', git_definition)] \<and>
     cap_base s = build_dispatcher \<and> cap_base_query s = build_query_dispatcher"

definition git_enabled :: "cap_states \<Rightarrow> cap_state option" where
  "git_enabled state = (case map_of state ''git-trust'' of
     Some e \<Rightarrow> if cst_enabled e then Some e else None | None \<Rightarrow> None)"

lemma compose_git_eq:
  "compose base [(''git-trust'', git_definition)] state admin =
     (case git_enabled state of
        Some e \<Rightarrow> git_register (compose base [] state admin) e
      | None \<Rightarrow> compose base [] state admin)"
  unfolding compose_def register_enabled_def git_enabled_def Let_def
  by (simp add: git_definition_def split: option.split)

lemma compose_git:
  "map_of (compose base [(''git-trust'', git_definition)] state admin) u =
     (case git_enabled state of
        Some e \<Rightarrow>
          if u = GIT_REVOKE then Some (H_Revoke (authority_of e))
          else if u = GIT_GRANT then Some (H_Grant (authority_of e))
          else map_of (compose base [] state admin) u
      | None \<Rightarrow> map_of (compose base [] state admin) u)"
  by (simp add: compose_git_eq git_register_entries split: option.split)

lemma compose_base:
  "map_of (compose base [] state admin) u =
     (if admin \<and> u = CAP_DISABLE then Some H_CapDisable
      else if admin \<and> u = CAP_ENABLE then Some H_CapEnable
      else if u = CAP_LIST then Some H_CapList else map_of base u)"
  by (auto simp: compose_def register_enabled_def Let_def)

context capability_state_store
begin

lemma enable_persists:
  assumes "cap_enable store now cap version config delegate s = (Ok entry, s')"
  shows "stored (cap_stored s') = Some (cap_state_map s')" "cap_composed s'"
    "map_of (cap_state_map s') cap = Some entry" "cst_enabled entry"
proof -
  obtain def c1 where *: "cst_enabled entry"
    "st_save store (bt_insert cap entry (cap_state_map s)) (cap_stored s) = (Ok (), c1)"
    "s' = cap_rebuild (s\<lparr>cap_state_map := bt_insert cap entry (cap_state_map s), cap_stored := c1\<rparr>)"
    using assms by (rule cap_enable_Ok)
  then show "stored (cap_stored s') = Some (cap_state_map s')" "cap_composed s'"
    "map_of (cap_state_map s') cap = Some entry" "cst_enabled entry"
    using save_stored by auto
qed

lemma disable_persists:
  assumes "cap_disable store cap s = (Ok u, s')"
  shows "stored (cap_stored s') = Some (cap_state_map s')" "cap_composed s'"
    "\<exists>e. map_of (cap_state_map s) cap = Some e \<and> cst_enabled e \<and>
       map_of (cap_state_map s') cap = Some (e\<lparr>cst_enabled := False\<rparr>)"
proof -
  obtain entry c1 where *: "map_of (cap_state_map s) cap = Some entry" "cst_enabled entry"
    "st_save store (bt_insert cap (entry\<lparr>cst_enabled := False\<rparr>) (cap_state_map s)) (cap_stored s) = (Ok (), c1)"
    "s' = cap_rebuild (s\<lparr>cap_state_map := bt_insert cap (entry\<lparr>cst_enabled := False\<rparr>) (cap_state_map s),
            cap_stored := c1\<rparr>)"
    using assms by (rule cap_disable_Ok)
  then show "stored (cap_stored s') = Some (cap_state_map s')" "cap_composed s'"
    "\<exists>e. map_of (cap_state_map s) cap = Some e \<and> cst_enabled e \<and>
       map_of (cap_state_map s') cap = Some (e\<lparr>cst_enabled := False\<rparr>)"
    using save_stored [OF *(3)] by auto
qed

lemma restart_same:
  assumes "stored (cap_stored s) = Some (cap_state_map s)" "cap_composed s"
    and "bt_of (map (\<lambda>d. (cd_capability d, d)) available) = cap_available s"
    and "cap_new store available (cap_base s) (cap_base_query s) (cap_stored s) = Ok n"
  shows "cap_dispatcher n = cap_dispatcher s" "cap_query_dispatcher n = cap_query_dispatcher s"
    "cap_state_map n = cap_state_map s"
proof -
  obtain m c1 where l: "st_load store (cap_stored s) = (Ok m, c1)"
    using assms(4) by (auto simp: cap_new_def split: prod.splits result.splits)
  have "m = cap_state_map s" using load_stored [OF l] assms(1) by simp
  then show "cap_dispatcher n = cap_dispatcher s" "cap_query_dispatcher n = cap_query_dispatcher s"
    "cap_state_map n = cap_state_map s"
    using assms(2-4) l by (auto simp: cap_new_def cap_composed_def Let_def)
qed

text \<open>The in-memory state runs ahead of the store when a save fails.\<close>

lemma failed_enable_diverges:
  assumes "cap_enable store now cap version config delegate s = (Err (Storage msg), s')"
  shows "stored (cap_stored s') = stored (cap_stored s)" "cap_dispatcher s' = cap_dispatcher s"
    "cap_query_dispatcher s' = cap_query_dispatcher s"
    "cap_is_enabled (map_of (cap_state_map s') cap)"
proof -
  from cap_enable_Err [OF assms] consider "s' = s" | c1 where
    "st_save store (bt_insert cap (cap_entry now version config delegate) (cap_state_map s)) (cap_stored s) = (Err msg, c1)"
    "s' = s\<lparr>cap_state_map := bt_insert cap (cap_entry now version config delegate) (cap_state_map s), cap_stored := c1\<rparr>"
    by auto
  then have *: "stored (cap_stored s') = stored (cap_stored s) \<and> cap_dispatcher s' = cap_dispatcher s \<and>
    cap_query_dispatcher s' = cap_query_dispatcher s \<and> cap_is_enabled (map_of (cap_state_map s') cap)"
  proof cases
    case 1
    from assms show ?thesis
    proof (cases rule: cap_enable_cases)
      case (commit def cres)
      then have "cres = Err (Storage msg)" by (cases cres) auto
      then show ?thesis using commit(4) save_failed by (auto simp: cap_is_enabled_def elim!: cap_commit_Err)
    qed simp_all
  next
    case 2
    then show ?thesis using save_failed by (auto simp: cap_is_enabled_def)
  qed
  then show "stored (cap_stored s') = stored (cap_stored s)" "cap_dispatcher s' = cap_dispatcher s"
    "cap_query_dispatcher s' = cap_query_dispatcher s" "cap_is_enabled (map_of (cap_state_map s') cap)"
    by auto
qed

end

text \<open>Which handlers can change the repository, and what a query handler leaves alone.\<close>

fun reads_only :: "handler \<Rightarrow> bool" where
  "reads_only H_Recognition = True"
| "reads_only H_Authorization = True"
| "reads_only H_Read = True"
| "reads_only H_List = True"
| "reads_only H_CapList = True"
| "reads_only _ = False"

lemma handle_cap_list_keeps: "snd (handle_cap_list fw alive nid doc s) = s"
  by (simp add: handle_cap_list_def Let_def split: result.split)

lemma reads_only_caps:
  assumes "reads_only h"
  shows "snd (snd (run_handler fw repo store ce h doc (s, cs))) = cs"
  using assms handle_cap_list_keeps [of fw "ce_alive ce" "ce_nid ce" doc cs]
  by (cases h; simp add: case_prod_unfold)

context trust_repository
begin

lemma reads_only_view:
  assumes "reads_only h" "inv s" "run_handler fw repo store ce h doc (s, cs) = (out, s', cs')"
  shows "inv s' \<and> view s' = view s"
proof (cases h)
  case H_Recognition
  then show ?thesis using assms recognition_law(1,2) by (auto split: prod.splits)
next
  case H_Authorization
  then show ?thesis using assms authorization_law(1,2) by (auto split: prod.splits)
next
  case H_Read
  then show ?thesis using assms read_handler_law by (auto split: prod.splits)
next
  case H_List
  then show ?thesis using assms list_handler_law by (auto split: prod.splits)
next
  case H_CapList
  then show ?thesis using assms by (auto split: prod.splits)
qed (use assms in simp_all)

end

end
