(* ===== verification/Dedup.thy ===== *)
theory Dedup
  imports Router
begin

text \<open>
  \<open>dedup/mod.rs\<close>: message ids of writes.  A store of claims and outcomes (times in nanoseconds),
  its in-memory implementation, and \<open>dispatch_idempotent\<close> around the dispatch of a document.  The
  locale \<open>message_id_store\<close> is the contract of the trait; its lemmas show that redeliveries of a
  completed write replay the first answer and leave the registry alone, and the in-memory store
  interprets it.
\<close>

section \<open>Outcomes and claims\<close>

datatype dedup_error = Unavailable string

datatype stored_outcome = Completed document | Rejected error_response

fun from_outcome :: "outcome \<Rightarrow> stored_outcome" where
  "from_outcome (Ok response) = Completed response"
| "from_outcome (Err error) = Rejected error"

fun into_outcome :: "stored_outcome \<Rightarrow> outcome" where
  "into_outcome (Completed response) = Ok response"
| "into_outcome (Rejected error) = Err error"

lemma into_from_outcome [simp]: "into_outcome (from_outcome out) = out"
  by (cases out) auto

datatype claim = Acquired | Replay stored_outcome | InFlight

definition message_key :: "document \<Rightarrow> string" where
  "message_key doc =
     ''MID#'' @ (case tk_issuer doc of Some i \<Rightarrow> i | None \<Rightarrow> ''anonymous'') @ ''#'' @ tk_id doc"

record 'd message_store =
  ms_claim :: "string \<Rightarrow> int \<Rightarrow> 'd \<Rightarrow> (claim, dedup_error) result \<times> 'd"
  ms_complete :: "string \<Rightarrow> stored_outcome \<Rightarrow> int \<Rightarrow> 'd \<Rightarrow> (unit, dedup_error) result \<times> 'd"
  ms_release :: "string \<Rightarrow> int \<Rightarrow> 'd \<Rightarrow> (unit, dedup_error) result \<times> 'd"

section \<open>The in-memory store\<close>

datatype entry = EInFlight int | EDone stored_outcome int

record memory_store =
  mm_ttl :: int
  mm_in_flight_ttl :: int
  mm_entries :: "(string, entry) hmap"

definition NANOS :: int where "NANOS = 1000000000"
definition DEFAULT_TTL :: int where "DEFAULT_TTL = 24 * 60 * 60 * NANOS"
definition DEFAULT_IN_FLIGHT_TTL :: int where "DEFAULT_IN_FLIGHT_TTL = 5 * 60 * NANOS"

definition memory_new :: "int \<Rightarrow> int \<Rightarrow> memory_store" where
  "memory_new ttl in_flight = \<lparr>mm_ttl = ttl, mm_in_flight_ttl = in_flight, mm_entries = []\<rparr>"

definition memory_default :: memory_store where
  "memory_default = memory_new DEFAULT_TTL DEFAULT_IN_FLIGHT_TTL"

text \<open>\<open>chrono::Duration::from_std(d).unwrap_or(zero)\<close>: at most \<open>i64::MAX\<close> milliseconds.\<close>

definition from_std_or_zero :: "int \<Rightarrow> int" where
  "from_std_or_zero d = (if d \<le> (2 ^ 63 - 1) * 1000000 then d else 0)"

definition evict_expired :: "(string, entry) hmap \<Rightarrow> int \<Rightarrow> int \<Rightarrow> (string, entry) hmap" where
  "evict_expired entries now in_flight =
     filter (\<lambda>(k, e). case e of
        EDone out expires_at \<Rightarrow> expires_at > now
      | EInFlight claimed_at \<Rightarrow> now - claimed_at < from_std_or_zero in_flight) entries"

definition memory_claim :: "string \<Rightarrow> int \<Rightarrow> memory_store \<Rightarrow> (claim, dedup_error) result \<times> memory_store" where
  "memory_claim key now m =
     (let es = evict_expired (mm_entries m) now (mm_in_flight_ttl m) in
      case map_of es key of
        Some (EDone out _) \<Rightarrow> (Ok (Replay out), m\<lparr>mm_entries := es\<rparr>)
      | Some (EInFlight _) \<Rightarrow> (Ok InFlight, m\<lparr>mm_entries := es\<rparr>)
      | None \<Rightarrow> (Ok Acquired, m\<lparr>mm_entries := AList.update key (EInFlight now) es\<rparr>))"

definition memory_complete ::
  "string \<Rightarrow> stored_outcome \<Rightarrow> int \<Rightarrow> memory_store \<Rightarrow> (unit, dedup_error) result \<times> memory_store" where
  "memory_complete key out now m =
     (let expires_at = now + from_std_or_zero (mm_ttl m) in
      (Ok (), m\<lparr>mm_entries := AList.update key (EDone out expires_at) (mm_entries m)\<rparr>))"

definition memory_release :: "string \<Rightarrow> int \<Rightarrow> memory_store \<Rightarrow> (unit, dedup_error) result \<times> memory_store" where
  "memory_release key now m = (Ok (), m\<lparr>mm_entries := AList.delete key (mm_entries m)\<rparr>)"

definition memory_ids :: "memory_store message_store" where
  "memory_ids = \<lparr>ms_claim = memory_claim, ms_complete = memory_complete, ms_release = memory_release\<rparr>"

section \<open>Dispatch\<close>

fun is_cacheable :: "outcome \<Rightarrow> bool" where
  "is_cacheable (Ok _) = True"
| "is_cacheable (Err error) = (\<not> er_retryable error)"

definition in_flight_rejection :: "framework \<Rightarrow> document \<Rightarrow> string \<Rightarrow> error_response" where
  "in_flight_rejection fw doc nid =
     (fw_reject_with fw doc nid (TaskFailed ''an identical document is currently being processed''))
       \<lparr>er_retryable := True\<rparr>"

text \<open>\<open>handle\<close> routes and runs the document; \<open>t1\<close> is the time of the claim, \<open>t2\<close> of its resolution.\<close>

definition dispatch_idempotent ::
  "framework \<Rightarrow> 'd message_store \<Rightarrow> (document \<Rightarrow> 'w \<Rightarrow> outcome \<times> 'w) \<Rightarrow> string \<Rightarrow> int \<Rightarrow> int \<Rightarrow>
   document \<Rightarrow> 'd \<Rightarrow> 'w \<Rightarrow> outcome \<times> 'd \<times> 'w" where
  "dispatch_idempotent fw store handle nid t1 t2 doc d w =
     (if \<not> is_write fw doc then (case handle doc w of (out, w1) \<Rightarrow> (out, d, w1))
      else
        let key = message_key doc in
        case ms_claim store key t1 d of
          (Ok (Replay stored), d1) \<Rightarrow> (into_outcome stored, d1, w)
        | (Ok InFlight, d1) \<Rightarrow> (Err (in_flight_rejection fw doc nid), d1, w)
        | (Err e, d1) \<Rightarrow> (case handle doc w of (out, w1) \<Rightarrow> (out, d1, w1))
        | (Ok Acquired, d1) \<Rightarrow>
            (case handle doc w of (out, w1) \<Rightarrow>
               (out,
                snd (if is_cacheable out then ms_complete store key (from_outcome out) t2 d1
                     else ms_release store key t2 d1),
                w1)))"

lemma dispatch_read:
  "\<not> is_write fw doc \<Longrightarrow>
   dispatch_idempotent fw store handle nid t1 t2 doc d w = (fst (handle doc w), d, snd (handle doc w))"
  by (simp add: dispatch_idempotent_def split: prod.splits)

text \<open>Whatever the store says, the registry state is the one before or the one the handler leaves.\<close>

lemma dispatch_world:
  "snd (snd (dispatch_idempotent fw store handle nid t1 t2 doc d w)) \<in> {w, snd (handle doc w)}"
  by (auto simp: dispatch_idempotent_def Let_def split: prod.splits result.splits claim.splits)

section \<open>The contract of the store\<close>

text \<open>
  \<open>held d k t\<close> is the outcome the store replays for \<open>k\<close> at time \<open>t\<close>, \<open>busy d k t\<close> that the id is
  claimed; \<open>ttl\<close> is how long a completed outcome is held.
\<close>

locale message_id_store =
  fixes store :: "'d message_store"
    and held :: "'d \<Rightarrow> string \<Rightarrow> int \<Rightarrow> stored_outcome option"
    and busy :: "'d \<Rightarrow> string \<Rightarrow> int \<Rightarrow> bool"
    and ttl :: "'d \<Rightarrow> int"
    and ok :: "'d \<Rightarrow> bool"
  assumes claim_answer: "ok d \<Longrightarrow> ms_claim store k t d = (Ok c, d') \<Longrightarrow>
      c = (case held d k t of Some out \<Rightarrow> Replay out | None \<Rightarrow> if busy d k t then InFlight else Acquired)"
    and claim_keeps: "ok d \<Longrightarrow> ms_claim store k t d = (cres, d') \<Longrightarrow>
      ok d' \<and> ttl d' = ttl d \<and> (\<forall>k' t'. t \<le> t' \<longrightarrow> held d' k' t' = held d k' t')"
    and claim_takes: "ok d \<Longrightarrow> ms_claim store k t d = (Ok Acquired, d') \<Longrightarrow> 0 < ttl d \<Longrightarrow> busy d' k t"
    and complete_holds: "ok d \<Longrightarrow> ms_complete store k out t d = (Ok u, d') \<Longrightarrow>
      (\<forall>t'. t' < t + ttl d \<longrightarrow> held d' k t' = Some out)"
    and complete_keeps: "ok d \<Longrightarrow> ms_complete store k out t d = (res, d') \<Longrightarrow>
      ok d' \<and> ttl d' = ttl d \<and> (\<forall>k' t'. k' \<noteq> k \<longrightarrow> held d' k' t' = held d k' t')"
    and release_keeps: "ok d \<Longrightarrow> ms_release store k t d = (res, d') \<Longrightarrow>
      ok d' \<and> ttl d' = ttl d \<and> (\<forall>k' t'. k' \<noteq> k \<longrightarrow> held d' k' t' = held d k' t')"
    and release_frees: "ok d \<Longrightarrow> ms_release store k t d = (res, d') \<Longrightarrow> held d' k t' = None \<and> \<not> busy d' k t'"
    and total: "\<exists>u d'. ms_complete store k out t d = (Ok u, d')" "\<exists>c d'. ms_claim store k t d = (Ok c, d')"
begin

lemma replay:
  assumes "ok d" "is_write fw doc" "held d (message_key doc) t1 = Some stored"
  shows "\<exists>d'. dispatch_idempotent fw store handle nid t1 t2 doc d w = (into_outcome stored, d', w) \<and>
    ok d' \<and> ttl d' = ttl d \<and> (\<forall>k t'. t1 \<le> t' \<longrightarrow> held d' k t' = held d k t')"
proof -
  obtain c d' where c: "ms_claim store (message_key doc) t1 d = (Ok c, d')" using total(2) by blast
  have "c = Replay stored" using claim_answer [OF assms(1) c] assms(3) by simp
  then show ?thesis using c claim_keeps [OF assms(1) c] assms(2)
    by (simp add: dispatch_idempotent_def)
qed

lemma completed_is_held:
  assumes "ok d" "is_write fw doc" "held d (message_key doc) t1 = None" "\<not> busy d (message_key doc) t1"
    and "handle doc w = (out, w1)" "is_cacheable out"
  shows "\<exists>d'. dispatch_idempotent fw store handle nid t1 t2 doc d w = (out, d', w1) \<and> ok d' \<and>
    ttl d' = ttl d \<and> (\<forall>t'. t' < t2 + ttl d \<longrightarrow> held d' (message_key doc) t' = Some (from_outcome out))"
proof -
  obtain c d1 where c: "ms_claim store (message_key doc) t1 d = (Ok c, d1)" using total(2) by blast
  have a: "c = Acquired" using claim_answer [OF assms(1) c] assms(3,4) by simp
  note k = claim_keeps [OF assms(1) c]
  obtain u d2 where d2: "ms_complete store (message_key doc) (from_outcome out) t2 d1 = (Ok u, d2)"
    using total(1) by blast
  have "ok d1" "ttl d1 = ttl d" using k by auto
  then show ?thesis
    using complete_holds [OF \<open>ok d1\<close> d2] complete_keeps [OF \<open>ok d1\<close> d2] c a d2 assms(2,5,6)
    by (simp add: dispatch_idempotent_def)
qed

lemma retryable_is_free:
  assumes "ok d" "is_write fw doc" "held d (message_key doc) t1 = None" "\<not> busy d (message_key doc) t1"
    and "handle doc w = (out, w1)" "\<not> is_cacheable out"
  shows "\<exists>d'. dispatch_idempotent fw store handle nid t1 t2 doc d w = (out, d', w1) \<and> ok d' \<and>
    ttl d' = ttl d \<and> (\<forall>t'. held d' (message_key doc) t' = None \<and> \<not> busy d' (message_key doc) t')"
proof -
  obtain c d1 where c: "ms_claim store (message_key doc) t1 d = (Ok c, d1)" using total(2) by blast
  have a: "c = Acquired" using claim_answer [OF assms(1) c] assms(3,4) by simp
  note k = claim_keeps [OF assms(1) c]
  obtain u d2 where d2: "ms_release store (message_key doc) t2 d1 = (u, d2)" by fastforce
  have "ok d1" "ttl d1 = ttl d" using k by auto
  then show ?thesis
    using release_frees [OF \<open>ok d1\<close> d2] release_keeps [OF \<open>ok d1\<close> d2] c a d2 assms(2,5,6)
    by (simp add: dispatch_idempotent_def)
qed

end

text \<open>
  What a write that arrives \<open>n\<close> times should do: it runs until an outcome is final, which every later
  arrival gets again.
\<close>

fun run_until_final :: "(document \<Rightarrow> 'w \<Rightarrow> outcome \<times> 'w) \<Rightarrow> document \<Rightarrow> nat \<Rightarrow> 'w \<Rightarrow> outcome list \<times> 'w" where
  "run_until_final handle doc 0 w = ([], w)"
| "run_until_final handle doc (Suc n) w =
     (case handle doc w of (out, w1) \<Rightarrow>
        if is_cacheable out then (replicate (Suc n) out, w1)
        else (case run_until_final handle doc n w1 of (outs, w2) \<Rightarrow> (out # outs, w2)))"

text \<open>A sequence of deliveries, each with its document, reply id and the times of claim and resolution.\<close>

fun deliver ::
  "framework \<Rightarrow> 'd message_store \<Rightarrow> (document \<Rightarrow> 'w \<Rightarrow> outcome \<times> 'w) \<Rightarrow>
   (document \<times> string \<times> int \<times> int) list \<Rightarrow> 'd \<Rightarrow> 'w \<Rightarrow> outcome list \<times> 'd \<times> 'w" where
  "deliver fw store handle [] d w = ([], d, w)"
| "deliver fw store handle ((doc, nid, t1, t2) # ms) d w =
     (case dispatch_idempotent fw store handle nid t1 t2 doc d w of (out, d1, w1) \<Rightarrow>
        (case deliver fw store handle ms d1 w1 of (outs, d2, w2) \<Rightarrow> (out # outs, d2, w2)))"

fun times_from :: "int \<Rightarrow> (document \<times> string \<times> int \<times> int) list \<Rightarrow> bool" where
  "times_from t [] = True"
| "times_from t ((doc, nid, t1, t2) # ms) = (t \<le> t1 \<and> t1 \<le> t2 \<and> times_from t1 ms)"

context message_id_store
begin

lemma redeliveries_replay:
  assumes "ok d" "is_write fw doc" "\<forall>t'. t \<le> t' \<and> t' < limit \<longrightarrow> held d (message_key doc) t' = Some stored"
    and "\<forall>(doc', nid, t1, t2) \<in> set ms. doc' = doc \<and> t1 < limit" "times_from t ms"
  shows "\<exists>d'. deliver fw store handle ms d w = (replicate (length ms) (into_outcome stored), d', w)"
  using assms
proof (induction ms arbitrary: d t)
  case (Cons m ms)
  obtain nid t1 t2 where m: "m = (doc, nid, t1, t2)" using Cons.prems(4) by (cases m) auto
  have t: "t \<le> t1" "t1 < limit" "times_from t1 ms" using Cons.prems(4,5) m by auto
  then have h: "held d (message_key doc) t1 = Some stored" using Cons.prems(3) by blast
  from replay [where handle = handle and nid = nid and w = w and ?t2.0 = t2, OF Cons.prems(1,2) h] obtain d1 where
    d1: "dispatch_idempotent fw store handle nid t1 t2 doc d w = (into_outcome stored, d1, w)" "ok d1"
    "\<forall>k t'. t1 \<le> t' \<longrightarrow> held d1 k t' = held d k t'" by blast
  have "\<forall>t'. t1 \<le> t' \<and> t' < limit \<longrightarrow> held d1 (message_key doc) t' = Some stored"
    using d1(3) Cons.prems(3) t(1) by auto
  from Cons.IH [OF d1(2) Cons.prems(2) this _ t(3)] obtain d2 where
    "deliver fw store handle ms d1 w = (replicate (length ms) (into_outcome stored), d2, w)"
    using Cons.prems(4) by auto
  then show ?case using d1(1) m by simp
qed simp

lemma deliveries_run_until_final:
  assumes "is_write fw doc"
  shows "ok d \<Longrightarrow> times_from t ms \<Longrightarrow> \<forall>(doc', nid, u1, u2) \<in> set ms. doc' = doc \<and> u1 < limit \<Longrightarrow>
    limit \<le> t + ttl d \<Longrightarrow>
    (\<And>doc' nid u1 u2 ms'. ms = (doc', nid, u1, u2) # ms' \<Longrightarrow>
       held d (message_key doc) u1 = None \<and> \<not> busy d (message_key doc) u1) \<Longrightarrow>
    \<exists>d'. deliver fw store handle ms d w =
      (fst (run_until_final handle doc (length ms) w), d', snd (run_until_final handle doc (length ms) w))"
proof (induction ms arbitrary: d t w)
  case (Cons m ms)
  obtain nid t1 t2 where m: "m = (doc, nid, t1, t2)" using Cons.prems(3) by (cases m) auto
  have t: "t \<le> t1" "t1 \<le> t2" "times_from t1 ms" using Cons.prems(2) m by auto
  have free: "held d (message_key doc) t1 = None" "\<not> busy d (message_key doc) t1"
    using Cons.prems(5) m by blast+
  obtain out w1 where h: "handle doc w = (out, w1)" by fastforce
  show ?case
  proof (cases "is_cacheable out")
    case True
    from completed_is_held [of d fw doc t1 handle w out w1 nid t2, OF Cons.prems(1) assms free h True] obtain d1 where
      d1: "dispatch_idempotent fw store handle nid t1 t2 doc d w = (out, d1, w1)" "ok d1"
      "\<forall>t'. t' < t2 + ttl d \<longrightarrow> held d1 (message_key doc) t' = Some (from_outcome out)" by blast
    have "\<exists>d'. deliver fw store handle ms d1 w1 =
        (replicate (length ms) (into_outcome (from_outcome out)), d', w1)"
      by (rule redeliveries_replay [OF d1(2) assms, of t1 limit]) (use d1(3) t Cons.prems(3,4) in auto)
    then show ?thesis using d1(1) m h True by auto
  next
    case False
    from retryable_is_free [of d fw doc t1 handle w out w1 nid t2, OF Cons.prems(1) assms free h False] obtain d1 where
      d1: "dispatch_idempotent fw store handle nid t1 t2 doc d w = (out, d1, w1)" "ok d1" "ttl d1 = ttl d"
      "\<forall>t'. held d1 (message_key doc) t' = None \<and> \<not> busy d1 (message_key doc) t'" by blast
    have "\<exists>d'. deliver fw store handle ms d1 w1 = (fst (run_until_final handle doc (length ms) w1), d',
        snd (run_until_final handle doc (length ms) w1))"
      by (rule Cons.IH [OF d1(2) t(3)]) (use Cons.prems(3,4) t(1) d1(3,4) in auto)
    then show ?thesis using d1(1) m h False by (auto split: prod.splits)
  qed
qed simp

end

section \<open>The in-memory store meets it\<close>

definition live :: "memory_store \<Rightarrow> int \<Rightarrow> entry \<Rightarrow> bool" where
  "live m t e = (case e of
     EDone out expires_at \<Rightarrow> expires_at > t
   | EInFlight claimed_at \<Rightarrow> t - claimed_at < from_std_or_zero (mm_in_flight_ttl m))"

definition memory_held :: "memory_store \<Rightarrow> string \<Rightarrow> int \<Rightarrow> stored_outcome option" where
  "memory_held m k t = (case map_of (mm_entries m) k of
     Some (EDone out expires_at) \<Rightarrow> (if expires_at > t then Some out else None) | _ \<Rightarrow> None)"

definition memory_busy :: "memory_store \<Rightarrow> string \<Rightarrow> int \<Rightarrow> bool" where
  "memory_busy m k t = (case map_of (mm_entries m) k of
     Some (EInFlight c) \<Rightarrow> t - c < from_std_or_zero (mm_in_flight_ttl m) | _ \<Rightarrow> False)"

definition memory_ok :: "memory_store \<Rightarrow> bool" where
  "memory_ok m \<longleftrightarrow> hm_ok (mm_entries m) \<and> 0 < from_std_or_zero (mm_in_flight_ttl m)"

definition memory_ttl :: "memory_store \<Rightarrow> int" where
  "memory_ttl m = from_std_or_zero (mm_ttl m)"

lemma evict_live:
  "evict_expired (mm_entries m) t (mm_in_flight_ttl m) = filter (\<lambda>(k, e). live m t e) (mm_entries m)"
  by (simp add: evict_expired_def live_def)

lemma map_of_filter_value:
  "distinct (map fst m) \<Longrightarrow>
   map_of (filter (\<lambda>(k, e). P e) m) k = (case map_of m k of Some e \<Rightarrow> if P e then Some e else None | None \<Rightarrow> None)"
proof (induction m)
  case (Cons x m)
  then show ?case
    by (cases x) (auto split: option.splits simp: map_of_eq_None_iff dest: map_of_SomeD)
qed simp

lemma map_of_evict:
  "memory_ok m \<Longrightarrow> map_of (evict_expired (mm_entries m) t (mm_in_flight_ttl m)) k =
     (case map_of (mm_entries m) k of Some e \<Rightarrow> if live m t e then Some e else None | None \<Rightarrow> None)"
  by (simp add: evict_live map_of_filter_value memory_ok_def hm_ok_def)

lemma hm_ok_filter: "hm_ok m \<Longrightarrow> hm_ok (filter P m)"
  by (auto simp: hm_ok_def intro: distinct_map_filter)

lemma memory_claim_entries:
  assumes "memory_ok m" "memory_claim k t m = (res, m')"
  shows "memory_ok m' \<and> mm_ttl m' = mm_ttl m \<and> mm_in_flight_ttl m' = mm_in_flight_ttl m \<and>
    (\<forall>k'. map_of (mm_entries m') k' =
       (case map_of (mm_entries m) k' of
          Some e \<Rightarrow> if live m t e then Some e else if k' = k then Some (EInFlight t) else None
        | None \<Rightarrow> if k' = k then Some (EInFlight t) else None))"
proof -
  have "hm_ok (evict_expired (mm_entries m) t (mm_in_flight_ttl m))"
    using assms(1) by (simp add: evict_live hm_ok_filter memory_ok_def)
  then show ?thesis using assms map_of_evict [OF assms(1), of t]
    by (auto simp: memory_claim_def Let_def memory_ok_def split: option.splits entry.splits if_splits)
qed

lemma memory_claim_answer:
  assumes "memory_ok m" "memory_claim k t m = (Ok c, m')"
  shows "c = (case memory_held m k t of Some out \<Rightarrow> Replay out
    | None \<Rightarrow> if memory_busy m k t then InFlight else Acquired)"
  using assms map_of_evict [OF assms(1), of t k]
  by (auto simp: memory_claim_def memory_held_def memory_busy_def live_def Let_def
      split: option.splits entry.splits if_splits)

lemma memory_claim_held:
  assumes "memory_ok m" "memory_claim k t m = (res, m')" "t \<le> t'"
  shows "memory_held m' k' t' = memory_held m k' t'"
  using memory_claim_entries [OF assms(1,2)] assms(3)
  by (auto simp: memory_held_def live_def split: option.splits entry.splits)

interpretation mem_ids: message_id_store memory_ids memory_held memory_busy memory_ttl memory_ok
proof
  fix d k t c d' assume "memory_ok d" "ms_claim memory_ids k t d = (Ok c, d')"
  then show "c = (case memory_held d k t of Some out \<Rightarrow> Replay out
    | None \<Rightarrow> if memory_busy d k t then InFlight else Acquired)"
    by (intro memory_claim_answer) (simp_all add: memory_ids_def)
next
  fix d k t res d' assume a: "memory_ok d" "ms_claim memory_ids k t d = (res, d')"
  then have c: "memory_claim k t d = (res, d')" by (simp add: memory_ids_def)
  show "memory_ok d' \<and> memory_ttl d' = memory_ttl d \<and>
      (\<forall>k' t'. t \<le> t' \<longrightarrow> memory_held d' k' t' = memory_held d k' t')"
    using memory_claim_entries [OF a(1) c] memory_claim_held [OF a(1) c] by (simp add: memory_ttl_def)
next
  fix d k t d' assume a: "memory_ok d" "ms_claim memory_ids k t d = (Ok Acquired, d')" "0 < memory_ttl d"
  then have c: "memory_claim k t d = (Ok Acquired, d')" by (simp add: memory_ids_def)
  have "map_of (mm_entries d') k = Some (EInFlight t)"
    using c a(1) by (auto simp: memory_claim_def Let_def split: option.splits entry.splits)
  then show "memory_busy d' k t"
    using memory_claim_entries [OF a(1) c] a(1) by (simp add: memory_busy_def memory_ok_def)
qed (auto simp: memory_ids_def memory_complete_def memory_release_def memory_held_def memory_busy_def memory_ttl_def
    memory_ok_def memory_claim_def Let_def split: option.splits entry.splits)

lemma memory_default_ok [simp]:
  "memory_ok memory_default" "memory_held memory_default k t = None" "\<not> memory_busy memory_default k t"
  "memory_ttl memory_default = 86400000000000"
  by (simp_all add: memory_default_def memory_new_def memory_ok_def memory_held_def memory_busy_def
      memory_ttl_def from_std_or_zero_def DEFAULT_TTL_def DEFAULT_IN_FLIGHT_TTL_def NANOS_def)

end
