(* ===== verification/Bindings.thy ===== *)
theory Bindings
  imports Capabilities Dedup
begin

text \<open>
  The three transport bindings of the Trust Tasks: \<open>http/handlers/trust_tasks/mod.rs\<close> (no
  caller identity, the read-only dispatcher), \<open>didcomm/handlers/trust_tasks/mod.rs\<close> and
  \<open>tsp/mod.rs\<close> (authenticated sender, write gate, deduplicated dispatch).  A request runs on the
  registry (repository and capability set) and the store of message ids.  The lemmas are the
  gate: over DIDComm and TSP nothing changes unless the sender is an administrator and the proof
  verifies; over HTTP nothing changes as long as no capability is enabled.
\<close>

section \<open>Parsing\<close>

record wire =
  wi_parse_bytes :: "string \<Rightarrow> (document, string) result"
  wi_parse_value :: "json \<Rightarrow> (document, string) result"
  wi_json :: "string \<Rightarrow> (json, string) result"
  wi_status :: "error_response \<Rightarrow> nat"
  wi_document_json :: "document \<Rightarrow> (json, string) result"
  wi_error_json :: "error_response \<Rightarrow> (json, string) result"
  wi_json_text :: "json \<Rightarrow> (string, string) result"
  wi_debug :: "string option \<Rightarrow> string"
  wi_envelope_type :: string

section \<open>HTTP\<close>

record http_response =
  hr_status :: nat
  hr_body :: json

definition unwrap_or :: "'a \<Rightarrow> ('a, 'e) result \<Rightarrow> 'a" where
  "unwrap_or d r = (case r of Ok a \<Rightarrow> a | Err e \<Rightarrow> d)"

definition http_error_response :: "wire \<Rightarrow> error_response \<Rightarrow> http_response" where
  "http_error_response wi err =
     (let code = wi_status wi err in
      \<lparr>hr_status = (if 100 \<le> code \<and> code < 1000 then code else 400),
       hr_body = unwrap_or (JObj []) (wi_error_json wi err)\<rparr>)"

definition http_trust_task ::
  "framework \<Rightarrow> wire \<Rightarrow> 's trust_repo \<Rightarrow> 'c cap_store \<Rightarrow> call_env \<Rightarrow> string \<Rightarrow> string \<Rightarrow>
   ('s, 'c) registry \<Rightarrow> http_response \<times> ('s, 'c) registry" where
  "http_trust_task fw wi repo store ce my_vid body w =
     (case wi_parse_bytes wi body of
        Err e \<Rightarrow>
          (\<lparr>hr_status = 400, hr_body = jobj [(''code'', JStr ''malformedRequest''),
              (''message'', JStr (''invalid Trust Task document: '' @ e))]\<rparr>, w)
      | Ok doc \<Rightarrow>
          (case fw_resolve_parties fw (Some my_vid) None doc of
             Err r \<Rightarrow> (http_error_response wi (fw_reject_with fw doc (ce_nid ce) r), w)
           | Ok _ \<Rightarrow>
               (case fw_validate_basic fw (ce_now ce) my_vid doc of
                  Err r \<Rightarrow> (http_error_response wi (fw_reject_with fw doc (ce_nid ce) r), w)
                | Ok _ \<Rightarrow>
                    (case serve_document fw repo store ce (cap_query_dispatcher (snd w)) doc w of
                       (Ok response, w1) \<Rightarrow>
                         (\<lparr>hr_status = 200, hr_body = unwrap_or (JObj []) (wi_document_json wi response)\<rparr>, w1)
                     | (Err err, w1) \<Rightarrow> (http_error_response wi err, w1)))))"

section \<open>DIDComm\<close>

text \<open>A deployment: our DID, the administrators, and what a rotation through the VTA answers.\<close>

record deployment =
  dp_my_did :: string
  dp_admins :: "string list"
  dp_vta :: "(string \<Rightarrow> nat option \<Rightarrow> string option \<Rightarrow> (string \<times> string \<times> string, string) result) option"

datatype reply = ReplyDoc document | ReplyErr error_response

fun reply_of :: "outcome \<Rightarrow> reply" where
  "reply_of (Ok d) = ReplyDoc d"
| "reply_of (Err e) = ReplyErr e"

fun de_u32 :: "json option \<Rightarrow> (nat option, de_error) result" where
  "de_u32 None = Ok None"
| "de_u32 (Some JNull) = Ok None"
| "de_u32 (Some (JNum (NInt n))) =
     (if 0 \<le> n \<and> n < 2 ^ 32 then Ok (Some (nat n)) else Err (InvalidType ''u32''))"
| "de_u32 (Some _) = Err (InvalidType ''u32'')"

fun de_opt_string :: "json option \<Rightarrow> (string option, de_error) result" where
  "de_opt_string None = Ok None"
| "de_opt_string (Some JNull) = Ok None"
| "de_opt_string (Some (JStr s)) = Ok (Some s)"
| "de_opt_string (Some _) = Err (InvalidType ''a string'')"

fun did_rotate_request :: "json \<Rightarrow> (nat option \<times> string option, de_error) result" where
  "did_rotate_request (JObj m) =
     bind_ok (de_u32 (map_of m ''pre_rotation_count'')) (\<lambda>n.
     bind_ok (de_opt_string (map_of m ''label'')) (\<lambda>l. Ok (n, l)))"
| "did_rotate_request (JArr xs) =
     (if length xs \<le> 2
      then bind_ok (de_u32 (if length xs = 0 then None else Some (xs ! 0))) (\<lambda>n.
           bind_ok (de_opt_string (if length xs < 2 then None else Some (xs ! 1))) (\<lambda>l. Ok (n, l)))
      else Err (InvalidLength (length xs)))"
| "did_rotate_request _ = Err (InvalidType ''struct DidRotateRequest'')"

definition handle_did_rotate :: "framework \<Rightarrow> deployment \<Rightarrow> string \<Rightarrow> document \<Rightarrow> outcome" where
  "handle_did_rotate fw dp nid doc =
     (case dp_vta dp of
        None \<Rightarrow> reject fw doc nid (TaskFailed
          ''DID rotation is unavailable: the Trust Registry was built without the `vta` feature'')
      | Some rotate_did \<Rightarrow>
          (case did_rotate_request (tk_payload doc) of
             Err e \<Rightarrow> reject fw doc nid (MalformedRequest (fw_de_error fw e))
           | Ok (count, label) \<Rightarrow>
               (case rotate_did (dp_my_did dp) count label of
                  Ok (did, scid, version) \<Rightarrow>
                    Ok (fw_respond_with fw doc nid (jobj [(''did'', JStr did), (''new_scid'', JStr scid),
                       (''new_version_id'', JStr version)]))
                | Err reason \<Rightarrow> reject fw doc nid (TaskFailed reason))))"

text \<open>The checks both authenticated bindings make before a document is dispatched.\<close>

definition admit ::
  "framework \<Rightarrow> deployment \<Rightarrow> call_env \<Rightarrow> string \<Rightarrow> document \<Rightarrow> (unit, error_response) result" where
  "admit fw dp ce sender doc =
     (case fw_resolve_parties fw (Some (dp_my_did dp)) (Some sender) doc of
        Err r \<Rightarrow> Err (fw_reject_to fw doc (ce_nid ce) r (Some sender))
      | Ok _ \<Rightarrow>
          (case fw_validate_basic fw (ce_now ce) (dp_my_did dp) doc of
             Err r \<Rightarrow> Err (fw_reject_with fw doc (ce_nid ce) r)
           | Ok _ \<Rightarrow>
               (case authorize_write fw doc sender (dp_admins dp) of
                  Err r \<Rightarrow> Err (fw_reject_with fw doc (ce_nid ce) r)
                | Ok _ \<Rightarrow>
                    (case verify_write_proof fw doc of
                       Err r \<Rightarrow> Err (fw_reject_with fw doc (ce_nid ce) r)
                     | Ok _ \<Rightarrow> Ok ()))))"

definition dispatch_admin ::
  "framework \<Rightarrow> 's trust_repo \<Rightarrow> 'c cap_store \<Rightarrow> 'd message_store \<Rightarrow> call_env \<Rightarrow> int \<Rightarrow> document \<Rightarrow>
   'd \<Rightarrow> ('s, 'c) registry \<Rightarrow> outcome \<times> 'd \<times> ('s, 'c) registry" where
  "dispatch_admin fw repo store ids ce t2 doc d w =
     dispatch_idempotent fw ids (serve_document fw repo store ce (cap_dispatcher (snd w)))
       (ce_nid ce) (ce_now ce) t2 doc d w"

definition didcomm_trust_task ::
  "framework \<Rightarrow> wire \<Rightarrow> 's trust_repo \<Rightarrow> 'c cap_store \<Rightarrow> 'd message_store \<Rightarrow> deployment \<Rightarrow> call_env \<Rightarrow> int \<Rightarrow>
   string \<Rightarrow> json \<Rightarrow> 'd \<Rightarrow> ('s, 'c) registry \<Rightarrow> reply option \<times> 'd \<times> ('s, 'c) registry" where
  "didcomm_trust_task fw wi repo store ids dp ce t2 sender body d w =
     (case wi_parse_value wi body of
        Err e \<Rightarrow> (None, d, w)
      | Ok doc \<Rightarrow>
          (case admit fw dp ce sender doc of
             Err err \<Rightarrow> (Some (ReplyErr err), d, w)
           | Ok _ \<Rightarrow>
               if fw_slug fw (tk_type doc) = ''registry/did/rotate''
               then (Some (reply_of (handle_did_rotate fw dp (ce_nid ce) doc)), d, w)
               else
                 (case dispatch_admin fw repo store ids ce t2 doc d w of
                    (out, d1, w1) \<Rightarrow> (Some (reply_of out), d1, w1))))"

section \<open>TSP\<close>

definition parse_envelope :: "wire \<Rightarrow> string \<Rightarrow> (document, string) result" where
  "parse_envelope wi payload =
     (case wi_json wi payload of
        Err e \<Rightarrow> Err (''invalid TSP envelope JSON: '' @ e)
      | Ok envelope \<Rightarrow>
          (let t = get_str envelope ''type'' in
           if t = Some (wi_envelope_type wi)
           then (case json_get envelope ''document'' of
                   None \<Rightarrow> Err ''TSP envelope missing `document`''
                 | Some document \<Rightarrow>
                     map_err (\<lambda>e. ''invalid Trust Task document: '' @ e) (wi_parse_value wi document))
           else Err (''unexpected TSP envelope type: '' @ wi_debug wi t)))"

definition build_envelope :: "wire \<Rightarrow> reply \<Rightarrow> string" where
  "build_envelope wi r =
     (let document = unwrap_or (JObj []) (case r of ReplyDoc d \<Rightarrow> wi_document_json wi d | ReplyErr e \<Rightarrow> wi_error_json wi e)
      in unwrap_or [] (wi_json_text wi (jobj [(''type'', JStr (wi_envelope_type wi)), (''document'', document)])))"

definition tsp_inbound ::
  "framework \<Rightarrow> 's trust_repo \<Rightarrow> 'c cap_store \<Rightarrow> 'd message_store \<Rightarrow> deployment \<Rightarrow> call_env \<Rightarrow> int \<Rightarrow>
   string \<Rightarrow> document \<Rightarrow> 'd \<Rightarrow> ('s, 'c) registry \<Rightarrow> reply \<times> 'd \<times> ('s, 'c) registry" where
  "tsp_inbound fw repo store ids dp ce t2 sender doc d w =
     (case admit fw dp ce sender doc of
        Err err \<Rightarrow> (ReplyErr err, d, w)
      | Ok _ \<Rightarrow>
          (case dispatch_admin fw repo store ids ce t2 doc d w of
             (out, d1, w1) \<Rightarrow> (reply_of out, d1, w1)))"

text \<open>Unpacking: the outcomes of the attempts are given by their number.\<close>

datatype atm_error =
    DIDError string
  | TransportError string
  | Disconnected string
  | TDKError string
  | MsgReceiveError string
  | SecretsError string
  | OtherAtmError string

fun is_transient_unpack_error :: "atm_error \<Rightarrow> bool" where
  "is_transient_unpack_error (DIDError _) = True"
| "is_transient_unpack_error (TransportError _) = True"
| "is_transient_unpack_error (Disconnected _) = True"
| "is_transient_unpack_error (TDKError _) = True"
| "is_transient_unpack_error _ = False"

text \<open>The result, the number of attempts made, and the sleeps between them in milliseconds.\<close>

function retry_loop ::
  "nat \<Rightarrow> nat \<Rightarrow> (nat \<Rightarrow> ('a, atm_error) result) \<Rightarrow> nat \<Rightarrow> nat \<Rightarrow> nat list \<Rightarrow>
   ('a, atm_error) result \<times> nat \<times> nat list" where
  "retry_loop attempts max_backoff attempt_result backoff attempt slept =
     (case attempt_result attempt of
        Ok v \<Rightarrow> (Ok v, attempt, slept)
      | Err e \<Rightarrow>
          if attempts \<le> attempt \<or> \<not> is_transient_unpack_error e then (Err e, attempt, slept)
          else retry_loop attempts max_backoff attempt_result (min (backoff * 2) max_backoff)
                 (attempt + 1) (slept @ [backoff]))"
  by pat_completeness auto
termination by (relation "measure (\<lambda>(n, m, f, b, i, s). n - i)") auto

declare retry_loop.simps [simp del]

definition retry_transient ::
  "nat \<Rightarrow> nat \<Rightarrow> nat \<Rightarrow> (nat \<Rightarrow> ('a, atm_error) result) \<Rightarrow> ('a, atm_error) result \<times> nat \<times> nat list" where
  "retry_transient attempts initial_backoff max_backoff op = retry_loop attempts max_backoff op initial_backoff 1 []"

definition UNPACK_MAX_ATTEMPTS :: nat where "UNPACK_MAX_ATTEMPTS = 3"
definition UNPACK_INITIAL_BACKOFF :: nat where "UNPACK_INITIAL_BACKOFF = 200"
definition UNPACK_MAX_BACKOFF :: nat where "UNPACK_MAX_BACKOFF = 1000"

definition process_tsp_frame ::
  "framework \<Rightarrow> wire \<Rightarrow> 's trust_repo \<Rightarrow> 'c cap_store \<Rightarrow> 'd message_store \<Rightarrow> deployment \<Rightarrow> call_env \<Rightarrow> int \<Rightarrow>
   (nat \<Rightarrow> (string \<times> string, atm_error) result) \<Rightarrow> 'd \<Rightarrow> ('s, 'c) registry \<Rightarrow>
   (string \<times> string) option \<times> 'd \<times> ('s, 'c) registry" where
  "process_tsp_frame fw wi repo store ids dp ce t2 unpack d w =
     (case retry_transient UNPACK_MAX_ATTEMPTS UNPACK_INITIAL_BACKOFF UNPACK_MAX_BACKOFF unpack of
        (Err e, _) \<Rightarrow> (None, d, w)
      | (Ok (payload, sender_did), _) \<Rightarrow>
          (case parse_envelope wi payload of
             Err e \<Rightarrow> (None, d, w)
           | Ok doc \<Rightarrow>
               (case tsp_inbound fw repo store ids dp ce t2 sender_did doc d w of
                  (reply, d1, w1) \<Rightarrow> (Some (sender_did, build_envelope wi reply), d1, w1))))"

section \<open>The retry loop\<close>

lemma retry_loop_spec:
  assumes "retry_loop n m f b i s = (res, k, slept)" "1 \<le> i" "i \<le> n" "b \<le> m"
  shows "res = f k \<and> i \<le> k \<and> k \<le> n \<and> length slept = length s + (k - i) \<and>
    (\<forall>j. i \<le> j \<and> j < k \<longrightarrow> (\<exists>e. f j = Err e \<and> is_transient_unpack_error e)) \<and>
    (\<forall>e. res = Err e \<longrightarrow> k = n \<or> \<not> is_transient_unpack_error e) \<and>
    (\<forall>x \<in> set slept. x \<in> set s \<or> x \<le> m)"
  using assms
proof (induction n m f b i s rule: retry_loop.induct)
  case (1 n m f b i s)
  show ?case
  proof (cases "f i")
    case (Ok v)
    then show ?thesis using "1.prems" by (subst (asm) retry_loop.simps) auto
  next
    case (Err e)
    show ?thesis
    proof (cases "n \<le> i \<or> \<not> is_transient_unpack_error e")
      case True
      then show ?thesis using "1.prems" Err by (subst (asm) retry_loop.simps) auto
    next
      case False
      then have r: "retry_loop n m f (min (b * 2) m) (i + 1) (s @ [b]) = (res, k, slept)"
        using "1.prems"(1) Err by (subst (asm) retry_loop.simps) simp
      have *: "res = f k \<and> i + 1 \<le> k \<and> k \<le> n \<and> length slept = length (s @ [b]) + (k - (i + 1)) \<and>
        (\<forall>j. i + 1 \<le> j \<and> j < k \<longrightarrow> (\<exists>e. f j = Err e \<and> is_transient_unpack_error e)) \<and>
        (\<forall>e. res = Err e \<longrightarrow> k = n \<or> \<not> is_transient_unpack_error e) \<and>
        (\<forall>x \<in> set slept. x \<in> set (s @ [b]) \<or> x \<le> m)"
        using "1.IH" [OF Err False r] "1.prems"(2) False by auto
      have "\<exists>e. f j = Err e \<and> is_transient_unpack_error e" if "i \<le> j" "j < k" for j
        using * that Err False by (cases "j = i") auto
      then show ?thesis using * "1.prems"(4) by auto
    qed
  qed
qed

section \<open>The gate\<close>

lemma admit_Ok:
  assumes "admit fw dp ce sender doc = Ok u" "is_write fw doc"
  shows "sender \<in> set (dp_admins dp)" "tk_proof doc \<noteq> None" "fw_verify fw doc = Ok ()"
proof -
  have "authorize_write fw doc sender (dp_admins dp) = Ok ()" "verify_write_proof fw doc = Ok ()"
    using assms(1) by (auto simp: admit_def split: result.splits)
  then show "sender \<in> set (dp_admins dp)" "tk_proof doc \<noteq> None" "fw_verify fw doc = Ok ()"
    using write_gate assms(2) by blast+
qed

lemma composed_entry:
  assumes "git_only s" "cap_in_force sts s"
  shows "map_of (cap_dispatcher s) u = Some h \<Longrightarrow> reads_only h \<or> (\<exists>g. u = spec_uri g \<and> is_write_slug g)"
    and "map_of (cap_query_dispatcher s) u = Some h \<Longrightarrow> reads_only h \<or> u \<in> {GIT_GRANT, GIT_REVOKE}"
    and "git_enabled sts = None \<Longrightarrow> map_of (cap_query_dispatcher s) u = Some h \<Longrightarrow> reads_only h"
proof -
  have d: "cap_dispatcher s = compose build_dispatcher [(''git-trust'', git_definition)] sts True"
    "cap_query_dispatcher s = compose build_query_dispatcher [(''git-trust'', git_definition)] sts False"
    using assms by (simp_all add: git_only_def cap_in_force_def)
  show "map_of (cap_dispatcher s) u = Some h \<Longrightarrow> reads_only h \<or> (\<exists>g. u = spec_uri g \<and> is_write_slug g)"
    unfolding d compose_git compose_base
    by (auto simp: dispatcher_entries type_uris is_write_slug_def split: option.splits if_splits)
  show "map_of (cap_query_dispatcher s) u = Some h \<Longrightarrow> reads_only h \<or> u \<in> {GIT_GRANT, GIT_REVOKE}"
    unfolding d compose_git compose_base
    by (auto simp: query_dispatcher_entries split: option.splits if_splits)
  show "git_enabled sts = None \<Longrightarrow> map_of (cap_query_dispatcher s) u = Some h \<Longrightarrow> reads_only h"
    unfolding d compose_git compose_base
    by (auto simp: query_dispatcher_entries split: option.splits if_splits)
qed

context trust_repository
begin

lemma serve_reads_only:
  assumes "inv s" "framework_ok fw" "\<And>h. map_of disp (tk_type doc) = Some h \<Longrightarrow> reads_only h"
    and "serve_document fw repo store ce disp doc (s, cs) = (out, s', cs')"
  shows "inv s' \<and> view s' = view s \<and> cs' = cs"
proof (cases "dispatch_or_reject fw disp doc (ce_nid ce)")
  case (Ok h)
  have r: "reads_only h" using dispatch_or_reject_Ok [OF assms(2) Ok] assms(3) by blast
  have run: "run_handler fw repo store ce h doc (s, cs) = (out, s', cs')"
    using assms(4) Ok by (simp add: serve_document_def handle_document_def)
  show ?thesis
    using reads_only_view [OF r assms(1) run] reads_only_caps [OF r, of fw repo store ce doc s cs] run by simp
next
  case (Err e)
  then show ?thesis using assms(1,4) by (simp add: serve_document_def handle_document_def)
qed

lemma admin_change_needs_write:
  assumes "inv s" "framework_ok fw" "git_only cs" "cap_in_force sts cs" "\<not> is_write fw doc"
    and "dispatch_admin fw repo store ids ce t2 doc d (s, cs) = (out, d', s', cs')"
  shows "inv s' \<and> view s' = view s \<and> cs' = cs \<and> d' = d"
proof -
  have ro: "reads_only h" if "map_of (cap_dispatcher cs) (tk_type doc) = Some h" for h
    using composed_entry(1) [OF assms(3,4) that] is_write_uri [OF assms(2)] assms(5) by auto
  obtain o1 s1 cs1 where r:
    "serve_document fw repo store ce (cap_dispatcher cs) doc (s, cs) = (o1, s1, cs1)"
    by (metis prod.exhaust)
  have "dispatch_admin fw repo store ids ce t2 doc d (s, cs) = (o1, d, s1, cs1)"
    unfolding dispatch_admin_def by (subst dispatch_read [OF assms(5)]) (simp add: r)
  then have "(out, d', s', cs') = (o1, d, s1, cs1)" using assms(6) by simp
  then show ?thesis using serve_reads_only [OF assms(1,2) ro r] by simp
qed

text \<open>The DIDComm handler of trust tasks changes something only for a write that passed the gate.\<close>

lemma task_message_gate:
  assumes "inv s" "framework_ok fw" "git_only cs" "cap_in_force sts cs"
    and "didcomm_trust_task fw wi repo store ids dp ce t2 sender body d (s, cs) = (rep, d', s', cs')"
    and "view s' \<noteq> view s \<or> cs' \<noteq> cs \<or> d' \<noteq> d"
  shows "\<exists>doc. wi_parse_value wi body = Ok doc \<and> is_write fw doc \<and> sender \<in> set (dp_admins dp) \<and>
    tk_proof doc \<noteq> None \<and> fw_verify fw doc = Ok ()"
proof -
  obtain doc where doc: "wi_parse_value wi body = Ok doc"
    using assms(5,6) by (cases "wi_parse_value wi body") (auto simp: didcomm_trust_task_def)
  have adm: "admit fw dp ce sender doc = Ok ()"
    using assms(5,6) doc by (cases "admit fw dp ce sender doc") (auto simp: didcomm_trust_task_def)
  have "is_write fw doc"
  proof (rule ccontr)
    assume n: "\<not> is_write fw doc"
    obtain o1 d1 s1 cs1 where r: "dispatch_admin fw repo store ids ce t2 doc d (s, cs) = (o1, d1, s1, cs1)"
      by (metis prod.exhaust)
    have "view s1 = view s \<and> cs1 = cs \<and> d1 = d"
      using admin_change_needs_write [OF assms(1-4) n r] by simp
    then show False using assms(5,6) doc adm r
      by (auto simp: didcomm_trust_task_def split: if_splits)
  qed
  then show ?thesis using doc admit_Ok [OF adm] by blast
qed

end

end
