(* ===== verification/Kv_Store.thy ===== *)
theory Kv_Store
  imports Local_Store
begin

text \<open>
  The key-value backends: \<open>storage/adapters/redis_storage.rs\<close> and
  \<open>storage/adapters/fjall_storage.rs\<close>.  Both store the JSON text of a record under the sort key of
  its key.  The server (or embedded store) is a parameter: a record of the commands the adapter
  sends, and \<open>redis_laws\<close> / \<open>fjall_laws\<close> state what it documents, where a write whose reply is an
  error may or may not have been applied.  Under these laws each backend implements the abstract
  map, keyed by the sort key; the SCAN loop of the Redis listing terminates.
\<close>

section \<open>The text of a record\<close>

record serde_json =
  sj_to_string :: "json \<Rightarrow> (string, string) result"
  sj_from_str :: "string \<Rightarrow> (json, string) result"
  sj_error :: "de_error \<Rightarrow> string"

definition serialize_record :: "serde_json \<Rightarrow> trust_record \<Rightarrow> (string, repository_error) result" where
  "serialize_record sj r =
     map_err (\<lambda>e. SerializationFailed (''Failed to serialize record: '' @ e)) (sj_to_string sj (record_to_json r))"

definition deserialize_record :: "serde_json \<Rightarrow> string \<Rightarrow> (trust_record, repository_error) result" where
  "deserialize_record sj data =
     map_err (\<lambda>e. SerializationFailed (''Failed to deserialize record: '' @ e))
       (bind_ok (sj_from_str sj data) (\<lambda>j. map_err (sj_error sj) (record_from_json j)))"

definition serde_laws :: "serde_json \<Rightarrow> bool" where
  "serde_laws sj \<longleftrightarrow> (\<forall>j s. sj_to_string sj j = Ok s \<longrightarrow> sj_from_str sj s = Ok j)"

lemma serialize_roundtrip:
  "serde_laws sj \<Longrightarrow> serialize_record sj r = Ok s \<Longrightarrow> deserialize_record sj s = Ok r"
  by (auto simp: serde_laws_def serialize_record_def deserialize_record_def record_json_roundtrip)

lemma serialize_error:
  "serialize_record sj r = Err e \<Longrightarrow> \<not> says_exists e \<and> \<not> says_missing e"
  "deserialize_record sj s = Err e \<Longrightarrow> \<not> says_exists e \<and> \<not> says_missing e"
  by (auto simp: serialize_record_def deserialize_record_def)

definition query_failed :: "string \<Rightarrow> string \<Rightarrow> repository_error" where
  "query_failed what e = QueryFailed (what @ e)"

lemma query_failed_simps [simp]:
  "\<not> says_exists (query_failed w e)" "\<not> says_missing (query_failed w e)"
  by (simp_all add: query_failed_def)

text \<open>The records a map of texts holds, and the invariant the adapter's own writes keep.\<close>

definition kv_view :: "serde_json \<Rightarrow> (string \<rightharpoonup> string) \<Rightarrow> string \<rightharpoonup> trust_record" where
  "kv_view sj st = (\<lambda>k. if starts_with TR_SK_PREFIX k
     then Option.bind (st k) (\<lambda>v. ok_opt (deserialize_record sj v)) else None)"

definition kv_inv :: "serde_json \<Rightarrow> (string \<rightharpoonup> string) \<Rightarrow> bool" where
  "kv_inv sj st \<longleftrightarrow> (\<forall>k v. st k = Some v \<longrightarrow> starts_with TR_SK_PREFIX k \<longrightarrow>
     (\<exists>r. deserialize_record sj v = Ok r \<and> sk (key_from_record r) = k))"

definition rec_sk :: "trust_record \<Rightarrow> string" where
  "rec_sk r = sk (key_from_record r)"

definition query_sk :: "trust_record_query \<Rightarrow> string" where
  "query_sk q = sk (key_from_query q)"

lemma sk_prefix [simp]: "starts_with TR_SK_PREFIX (sk k)"
  by (simp add: sk_def)

lemma query_sk_of_record [simp]: "query_sk (query_of_record r) = rec_sk r"
  by (simp add: query_sk_def rec_sk_def)

lemma kv_view_sk:
  "kv_view sj st (sk k) = Option.bind (st (sk k)) (\<lambda>v. ok_opt (deserialize_record sj v))"
  by (simp add: kv_view_def)

lemma kv_inv_get:
  assumes "kv_inv sj st" "st (sk k) = Some v"
  obtains r where "deserialize_record sj v = Ok r" "rec_sk r = sk k" "kv_view sj st (sk k) = Some r"
  using assms by (fastforce simp: kv_inv_def rec_sk_def kv_view_sk)

lemma kv_view_None: "kv_inv sj st \<Longrightarrow> kv_view sj st (sk k) = None \<longleftrightarrow> st (sk k) = None"
  by (cases "st (sk k)") (auto simp: kv_view_sk elim: kv_inv_get)

lemma kv_view_put:
  assumes "serde_laws sj" "serialize_record sj r = Ok v"
  shows "kv_view sj (st(rec_sk r \<mapsto> v)) = (kv_view sj st)(rec_sk r \<mapsto> r)"
  using serialize_roundtrip [OF assms] by (auto simp: kv_view_def rec_sk_def fun_eq_iff)

lemma kv_inv_put:
  assumes "serde_laws sj" "serialize_record sj r = Ok v" "kv_inv sj st"
  shows "kv_inv sj (st(rec_sk r \<mapsto> v))"
  using serialize_roundtrip [OF assms(1,2)] assms(3) by (auto simp: kv_inv_def rec_sk_def)

lemma kv_view_del: "kv_view sj (st(sk k := None)) = (kv_view sj st)(sk k := None)"
  by (auto simp: kv_view_def fun_eq_iff)

lemma kv_inv_del: "kv_inv sj st \<Longrightarrow> kv_inv sj (st(k := None))"
  by (auto simp: kv_inv_def)

lemma kv_view_keyed: "kv_inv sj st \<Longrightarrow> kv_view sj st k = Some r \<Longrightarrow> rec_sk r = k"
  by (fastforce simp: kv_inv_def kv_view_def rec_sk_def bind_eq_Some_conv split: if_splits)

lemma kv_view_ran:
  "ran (kv_view sj st) =
     {r. \<exists>k v. st k = Some v \<and> starts_with TR_SK_PREFIX k \<and> deserialize_record sj v = Ok r}"
proof -
  have "ok_opt x = Some r \<longleftrightarrow> x = Ok r" for x :: "(trust_record, repository_error) result" and r
    by (cases x) auto
  then show ?thesis by (auto simp: ran_def kv_view_def bind_eq_Some_conv)
qed

section \<open>Redis\<close>

record 'c redis_conn =
  rc_get :: "string \<Rightarrow> 'c \<Rightarrow> (string option, string) result \<times> 'c"
  rc_exists :: "string \<Rightarrow> 'c \<Rightarrow> (bool, string) result \<times> 'c"
  rc_set :: "string \<Rightarrow> string \<Rightarrow> 'c \<Rightarrow> (unit, string) result \<times> 'c"
  rc_del :: "string \<Rightarrow> 'c \<Rightarrow> (int, string) result \<times> 'c"
  rc_scan :: "nat \<Rightarrow> string \<Rightarrow> nat \<Rightarrow> 'c \<Rightarrow> (nat \<times> string list, string) result \<times> 'c"

definition redis_find :: "serde_json \<Rightarrow> 'c redis_conn \<Rightarrow> trust_record_query \<Rightarrow> ('c, trust_record option) repo_op" where
  "redis_find sj conn q c =
     (let key = query_sk q in
      case rc_get conn key c of
        (Err e, c1) \<Rightarrow> (Err (query_failed ''Redis GET failed: '' e), c1)
      | (Ok (Some data), c1) \<Rightarrow> (bind_ok (deserialize_record sj data) (\<lambda>r. Ok (Some r)), c1)
      | (Ok None, c1) \<Rightarrow> (Ok None, c1))"

definition redis_create :: "serde_json \<Rightarrow> 'c redis_conn \<Rightarrow> trust_record \<Rightarrow> ('c, unit) repo_op" where
  "redis_create sj conn r c =
     (let key = rec_sk r in
      case rc_exists conn key c of
        (Err e, c1) \<Rightarrow> (Err (query_failed ''Redis EXISTS failed: '' e), c1)
      | (Ok ex, c1) \<Rightarrow>
          if ex then (Err (exists_error r), c1)
          else (case serialize_record sj r of
                  Err e \<Rightarrow> (Err e, c1)
                | Ok v \<Rightarrow>
                    (case rc_set conn key v c1 of
                       (Err e, c2) \<Rightarrow> (Err (query_failed ''Redis SET failed: '' e), c2)
                     | (Ok _, c2) \<Rightarrow> (Ok (), c2))))"

definition redis_update :: "serde_json \<Rightarrow> 'c redis_conn \<Rightarrow> trust_record \<Rightarrow> ('c, unit) repo_op" where
  "redis_update sj conn r c =
     (let key = rec_sk r in
      case rc_exists conn key c of
        (Err e, c1) \<Rightarrow> (Err (query_failed ''Redis EXISTS failed: '' e), c1)
      | (Ok ex, c1) \<Rightarrow>
          if \<not> ex then (Err (missing_error (query_of_record r)), c1)
          else (case serialize_record sj r of
                  Err e \<Rightarrow> (Err e, c1)
                | Ok v \<Rightarrow>
                    (case rc_set conn key v c1 of
                       (Err e, c2) \<Rightarrow> (Err (query_failed ''Redis SET failed: '' e), c2)
                     | (Ok _, c2) \<Rightarrow> (Ok (), c2))))"

definition redis_delete :: "'c redis_conn \<Rightarrow> trust_record_query \<Rightarrow> ('c, unit) repo_op" where
  "redis_delete conn q c =
     (let key = query_sk q in
      case rc_del conn key c of
        (Err e, c1) \<Rightarrow> (Err (query_failed ''Redis DEL failed: '' e), c1)
      | (Ok deleted, c1) \<Rightarrow> if deleted = 0 then (Err (missing_error q), c1) else (Ok (), c1))"

definition redis_read :: "serde_json \<Rightarrow> 'c redis_conn \<Rightarrow> trust_record_query \<Rightarrow> ('c, trust_record) repo_op" where
  "redis_read sj conn q c =
     (let key = query_sk q in
      case rc_get conn key c of
        (Err e, c1) \<Rightarrow> (Err (query_failed ''Redis GET failed: '' e), c1)
      | (Ok (Some data), c1) \<Rightarrow> (deserialize_record sj data, c1)
      | (Ok None, c1) \<Rightarrow> (Err (missing_error q), c1))"

text \<open>The keys of one SCAN page: a GET for each, an undecodable value is logged and skipped.\<close>

fun redis_get_page ::
  "serde_json \<Rightarrow> 'c redis_conn \<Rightarrow> string list \<Rightarrow> trust_record list \<Rightarrow> ('c, trust_record list) repo_op" where
  "redis_get_page sj conn [] records c = (Ok records, c)"
| "redis_get_page sj conn (key # keys) records c =
     (case rc_get conn key c of
        (Err e, c1) \<Rightarrow> (Err (query_failed ''Redis GET failed: '' e), c1)
      | (Ok None, c1) \<Rightarrow> redis_get_page sj conn keys records c1
      | (Ok (Some data), c1) \<Rightarrow>
          (case deserialize_record sj data of
             Ok r \<Rightarrow> redis_get_page sj conn keys (records @ [r]) c1
           | Err e \<Rightarrow> redis_get_page sj conn keys records c1))"

text \<open>The cursor loop may in principle not end: not returning is \<open>None\<close>.\<close>

partial_function (option) redis_list_loop ::
  "serde_json \<Rightarrow> 'c redis_conn \<Rightarrow> nat \<Rightarrow> trust_record list \<Rightarrow> 'c \<Rightarrow>
   ((trust_record list, repository_error) result \<times> 'c) option" where
  "redis_list_loop sj conn cursor records c =
     (case rc_scan conn cursor (TR_SK_PREFIX @ ''*'') 100 c of
        (Err e, c1) \<Rightarrow> Some (Err (query_failed ''Redis SCAN failed: '' e), c1)
      | (Ok (new_cursor, keys), c1) \<Rightarrow>
          (case redis_get_page sj conn keys records c1 of
             (Err e, c2) \<Rightarrow> Some (Err e, c2)
           | (Ok records', c2) \<Rightarrow>
               if new_cursor = 0 then Some (Ok records', c2)
               else redis_list_loop sj conn new_cursor records' c2))"

definition redis_list :: "serde_json \<Rightarrow> 'c redis_conn \<Rightarrow> ('c, trust_record list) repo_op" where
  "redis_list sj conn c = the (redis_list_loop sj conn 0 [] c)"

definition redis_repo :: "serde_json \<Rightarrow> 'c redis_conn \<Rightarrow> 'c trust_repo" where
  "redis_repo sj conn = \<lparr>repo_find = redis_find sj conn, repo_create = redis_create sj conn,
     repo_update = redis_update sj conn, repo_delete = redis_delete conn,
     repo_list = redis_list sj conn, repo_read = redis_read sj conn\<rparr>"

text \<open>
  What Redis documents: \<open>store\<close> is the data set, \<open>page\<close> the answer of a SCAN at a cursor, and a full
  iteration (cursor 0 back to 0) over an unchanged data set returns every matching key.
\<close>

fun scan_pages :: "(nat \<Rightarrow> nat \<times> string list) \<Rightarrow> nat \<Rightarrow> nat \<Rightarrow> string list option" where
  "scan_pages page 0 cursor = None"
| "scan_pages page (Suc n) cursor =
     (case page cursor of (next, ks) \<Rightarrow>
        if next = 0 then Some ks else map_option ((@) ks) (scan_pages page n next))"

record 'c redis_spec =
  rs_store :: "'c \<Rightarrow> string \<rightharpoonup> string"
  rs_page :: "'c \<Rightarrow> nat \<Rightarrow> nat \<times> string list"

definition get_law :: "'c redis_conn \<Rightarrow> 'c redis_spec \<Rightarrow> bool" where
  "get_law conn sp \<longleftrightarrow> (\<forall>k c res c'. rc_get conn k c = (res, c') \<longrightarrow>
     rs_store sp c' = rs_store sp c \<and> rs_page sp c' = rs_page sp c \<and>
     (\<forall>x. res = Ok x \<longrightarrow> x = rs_store sp c k))"

definition exists_law :: "'c redis_conn \<Rightarrow> 'c redis_spec \<Rightarrow> bool" where
  "exists_law conn sp \<longleftrightarrow> (\<forall>k c res c'. rc_exists conn k c = (res, c') \<longrightarrow>
     rs_store sp c' = rs_store sp c \<and> (\<forall>b. res = Ok b \<longrightarrow> b = (rs_store sp c k \<noteq> None)))"

definition set_law :: "'c redis_conn \<Rightarrow> 'c redis_spec \<Rightarrow> bool" where
  "set_law conn sp \<longleftrightarrow> (\<forall>k v c res c'. rc_set conn k v c = (res, c') \<longrightarrow>
     rs_store sp c' = (rs_store sp c)(k \<mapsto> v) \<or> (res \<noteq> Ok () \<and> rs_store sp c' = rs_store sp c))"

definition del_law :: "'c redis_conn \<Rightarrow> 'c redis_spec \<Rightarrow> bool" where
  "del_law conn sp \<longleftrightarrow> (\<forall>k c res c'. rc_del conn k c = (res, c') \<longrightarrow>
     (case res of Ok n \<Rightarrow> (n = 0 \<longleftrightarrow> rs_store sp c k = None) \<and> rs_store sp c' = (rs_store sp c)(k := None)
      | Err e \<Rightarrow> rs_store sp c' = rs_store sp c \<or> rs_store sp c' = (rs_store sp c)(k := None)))"

definition scan_law :: "'c redis_conn \<Rightarrow> 'c redis_spec \<Rightarrow> bool" where
  "scan_law conn sp \<longleftrightarrow> (\<forall>n c res c'. rc_scan conn n (TR_SK_PREFIX @ ''*'') 100 c = (res, c') \<longrightarrow>
     rs_store sp c' = rs_store sp c \<and> rs_page sp c' = rs_page sp c \<and> (\<forall>x. res = Ok x \<longrightarrow> x = rs_page sp c n))"

definition iteration_law :: "'c redis_spec \<Rightarrow> bool" where
  "iteration_law sp \<longleftrightarrow> (\<forall>c. \<exists>n ks. scan_pages (rs_page sp c) n 0 = Some ks \<and>
     set ks = {k \<in> dom (rs_store sp c). starts_with TR_SK_PREFIX k})"

definition redis_laws :: "'c redis_conn \<Rightarrow> 'c redis_spec \<Rightarrow> bool" where
  "redis_laws conn sp \<longleftrightarrow> get_law conn sp \<and> exists_law conn sp \<and> set_law conn sp \<and>
     del_law conn sp \<and> scan_law conn sp \<and> iteration_law sp"

lemma redis_get_law:
  "redis_laws conn sp \<Longrightarrow> rc_get conn k c = (res, c') \<Longrightarrow>
   rs_store sp c' = rs_store sp c \<and> rs_page sp c' = rs_page sp c \<and> (\<forall>x. res = Ok x \<longrightarrow> x = rs_store sp c k)"
  unfolding redis_laws_def get_law_def by blast

lemma redis_exists_law:
  "redis_laws conn sp \<Longrightarrow> rc_exists conn k c = (res, c') \<Longrightarrow>
   rs_store sp c' = rs_store sp c \<and> (\<forall>b. res = Ok b \<longrightarrow> b = (rs_store sp c k \<noteq> None))"
  unfolding redis_laws_def exists_law_def by blast

lemma redis_set_law:
  "redis_laws conn sp \<Longrightarrow> rc_set conn k v c = (res, c') \<Longrightarrow>
   rs_store sp c' = (rs_store sp c)(k \<mapsto> v) \<or> (res \<noteq> Ok () \<and> rs_store sp c' = rs_store sp c)"
  unfolding redis_laws_def set_law_def by blast

lemma redis_del_law:
  "redis_laws conn sp \<Longrightarrow> rc_del conn k c = (res, c') \<Longrightarrow>
   (case res of Ok n \<Rightarrow> (n = 0 \<longleftrightarrow> rs_store sp c k = None) \<and> rs_store sp c' = (rs_store sp c)(k := None)
    | Err e \<Rightarrow> rs_store sp c' = rs_store sp c \<or> rs_store sp c' = (rs_store sp c)(k := None))"
  unfolding redis_laws_def del_law_def by blast

lemma redis_scan_law:
  "redis_laws conn sp \<Longrightarrow> rc_scan conn n (TR_SK_PREFIX @ ''*'') 100 c = (res, c') \<Longrightarrow>
   rs_store sp c' = rs_store sp c \<and> rs_page sp c' = rs_page sp c \<and> (\<forall>x. res = Ok x \<longrightarrow> x = rs_page sp c n)"
  unfolding redis_laws_def scan_law_def by blast

lemma redis_iteration_law:
  "redis_laws conn sp \<Longrightarrow> \<exists>n ks. scan_pages (rs_page sp c) n 0 = Some ks \<and>
     set ks = {k \<in> dom (rs_store sp c). starts_with TR_SK_PREFIX k}"
  unfolding redis_laws_def iteration_law_def by blast

definition decoded :: "serde_json \<Rightarrow> (string \<rightharpoonup> string) \<Rightarrow> string list \<Rightarrow> trust_record set" where
  "decoded sj st ks = {r. \<exists>k v. k \<in> set ks \<and> st k = Some v \<and> deserialize_record sj v = Ok r}"

lemma decoded_Nil [simp]: "decoded sj st [] = {}"
  by (simp add: decoded_def)

lemma decoded_append [simp]: "decoded sj st (ks @ ks') = decoded sj st ks \<union> decoded sj st ks'"
  by (auto simp: decoded_def)

lemma decoded_Cons:
  "decoded sj st (k # ks) = (case st k of
     Some v \<Rightarrow> (case deserialize_record sj v of Ok r \<Rightarrow> {r} | Err e \<Rightarrow> {}) | None \<Rightarrow> {}) \<union> decoded sj st ks"
  by (auto simp: decoded_def split: option.splits result.splits)

lemma redis_get_page_spec:
  assumes "redis_laws conn sp" "redis_get_page sj conn keys records c = (res, c')"
  shows "rs_store sp c' = rs_store sp c \<and> rs_page sp c' = rs_page sp c \<and>
    (\<forall>rs. res = Ok rs \<longrightarrow> set rs = set records \<union> decoded sj (rs_store sp c) keys) \<and>
    (\<forall>e. res = Err e \<longrightarrow> \<not> says_missing e)"
  using assms(2)
proof (induction keys arbitrary: records c)
  case (Cons key keys)
  obtain g c1 where g: "rc_get conn key c = (g, c1)" by fastforce
  note l = redis_get_law [OF assms(1) g]
  show ?case
  proof (cases g)
    case (Err e)
    then show ?thesis using Cons.prems g l by auto
  next
    case (Ok d)
    show ?thesis
    proof (cases d)
      case None
      then have "redis_get_page sj conn keys records c1 = (res, c')" using Cons.prems g Ok by simp
      from Cons.IH [OF this] show ?thesis using l Ok None by (simp add: decoded_Cons)
    next
      case (Some data)
      then have kd: "rs_store sp c key = Some data" using l Ok by simp
      show ?thesis
      proof (cases "deserialize_record sj data")
        case r: (Ok r)
        then have "redis_get_page sj conn keys (records @ [r]) c1 = (res, c')"
          using Cons.prems g Ok Some by simp
        from Cons.IH [OF this] show ?thesis using l kd r by (simp add: decoded_Cons)
      next
        case r: (Err e)
        then have "redis_get_page sj conn keys records c1 = (res, c')"
          using Cons.prems g Ok Some by simp
        from Cons.IH [OF this] show ?thesis using l kd r by (simp add: decoded_Cons)
      qed
    qed
  qed
qed auto

text \<open>The listing loop ends, because the pages of an unchanged data set do.\<close>

lemma redis_list_loop_ends:
  assumes laws: "redis_laws conn sp"
    and pages: "scan_pages (rs_page sp c) n cursor = Some ks"
  shows "\<exists>res c'. redis_list_loop sj conn cursor records c = Some (res, c') \<and>
    rs_store sp c' = rs_store sp c \<and>
    (\<forall>rs. res = Ok rs \<longrightarrow> set rs = set records \<union> decoded sj (rs_store sp c) ks) \<and>
    (\<forall>e. res = Err e \<longrightarrow> \<not> says_missing e)"
  using pages
proof (induction n arbitrary: cursor ks records c)
  case (Suc n)
  obtain s c1 where s: "rc_scan conn cursor (TR_SK_PREFIX @ ''*'') 100 c = (s, c1)" by fastforce
  note ls = redis_scan_law [OF laws s]
  show ?case
  proof (cases s)
    case (Err e)
    then show ?thesis using s ls by (subst redis_list_loop.simps) auto
  next
    case (Ok p)
    obtain new keys where p: "p = (new, keys)" by fastforce
    have pg: "rs_page sp c cursor = (new, keys)" using ls Ok p by simp
    obtain g c2 where g: "redis_get_page sj conn keys records c1 = (g, c2)" by fastforce
    note lg = redis_get_page_spec [OF laws g]
    have step: "redis_list_loop sj conn cursor records c =
      (case g of Err e \<Rightarrow> Some (Err e, c2)
       | Ok records' \<Rightarrow> if new = 0 then Some (Ok records', c2) else redis_list_loop sj conn new records' c2)"
      by (subst redis_list_loop.simps) (simp add: s Ok p g)
    show ?thesis
    proof (cases g)
      case ge: (Err e)
      then show ?thesis using step lg ls by simp
    next
      case go: (Ok records')
      show ?thesis
      proof (cases "new = 0")
        case True
        then show ?thesis using step go lg ls pg Suc.prems by simp
      next
        case False
        then obtain ks' where k: "scan_pages (rs_page sp c2) n new = Some ks'" "ks = keys @ ks'"
          using Suc.prems pg lg ls by (auto split: if_splits)
        show ?thesis using Suc.IH [OF k(1), of records'] step go False lg ls k(2) by (simp add: Un_assoc)
      qed
    qed
  qed
qed simp

lemma redis_list_terminates:
  assumes "redis_laws conn sp"
  shows "\<exists>res c'. redis_list_loop sj conn 0 [] c = Some (res, c')"
  using redis_iteration_law [OF assms, of c] redis_list_loop_ends [OF assms] by blast

definition redis_view :: "serde_json \<Rightarrow> 'c redis_spec \<Rightarrow> 'c \<Rightarrow> string \<rightharpoonup> trust_record" where
  "redis_view sj sp c = kv_view sj (rs_store sp c)"

definition redis_inv :: "serde_json \<Rightarrow> 'c redis_spec \<Rightarrow> 'c \<Rightarrow> bool" where
  "redis_inv sj sp c \<longleftrightarrow> kv_inv sj (rs_store sp c)"

lemma redis_put:
  assumes "redis_laws conn sp" "serde_laws sj" "serialize_record sj r = Ok v"
    and "rc_set conn (rec_sk r) v c = (su, c')" "kv_inv sj (rs_store sp c)"
  shows "kv_inv sj (rs_store sp c') \<and>
    (kv_view sj (rs_store sp c') = (kv_view sj (rs_store sp c))(rec_sk r \<mapsto> r) \<or>
     (su \<noteq> Ok () \<and> kv_view sj (rs_store sp c') = kv_view sj (rs_store sp c)))"
  using redis_set_law [OF assms(1,4)] kv_view_put [OF assms(2,3)] kv_inv_put [OF assms(2,3,5)] assms(5)
  by auto

lemma redis_read_sim:
  assumes "redis_laws conn sp" "redis_inv sj sp s" "c = CFind q \<or> c = CRead q \<or> c = CList"
    and "exec_cmd (redis_repo sj conn) c s = (out, s')"
  shows "redis_inv sj sp s' \<and> abs_cmd False rec_sk query_sk c out (redis_view sj sp s) (redis_view sj sp s')"
proof (cases "c = CList")
  case True
  obtain n ks where n: "scan_pages (rs_page sp s) n 0 = Some ks"
    "set ks = {k \<in> dom (rs_store sp s). starts_with TR_SK_PREFIX k}"
    using redis_iteration_law [OF assms(1)] by blast
  from redis_list_loop_ends [OF assms(1) n(1), of sj "[]"]
  obtain res s1 where l: "redis_list_loop sj conn 0 [] s = Some (res, s1)"
    "rs_store sp s1 = rs_store sp s"
    "\<forall>rs. res = Ok rs \<longrightarrow> set rs = decoded sj (rs_store sp s) ks"
    by auto
  have "set rs = ran (redis_view sj sp s)" if "res = Ok rs" for rs
    using l(3) that n(2) by (auto simp: redis_view_def kv_view_ran decoded_def)
  then show ?thesis using assms True l(1,2)
    by (cases res) (auto simp: redis_repo_def redis_list_def out_of_def redis_inv_def redis_view_def)
next
  case False
  obtain g s1 where g: "rc_get conn (query_sk q) s = (g, s1)" by fastforce
  note l = redis_get_law [OF assms(1) g]
  have v: "redis_inv sj sp s1" "redis_view sj sp s1 = redis_view sj sp s"
    using l assms(2) by (simp_all add: redis_inv_def redis_view_def)
  show ?thesis
  proof (cases g)
    case (Err e)
    then show ?thesis using assms(3,4) False g v
      by (auto simp: redis_repo_def redis_find_def redis_read_def out_of_def)
  next
    case (Ok d)
    show ?thesis
    proof (cases d)
      case None
      then have "redis_view sj sp s (query_sk q) = None"
        using l Ok by (simp add: redis_view_def query_sk_def kv_view_sk)
      then show ?thesis using assms(3,4) False g v Ok None
        by (auto simp: redis_repo_def redis_find_def redis_read_def out_of_def)
    next
      case (Some data)
      then obtain r where r: "deserialize_record sj data = Ok r" "redis_view sj sp s (query_sk q) = Some r"
        using kv_inv_get [of sj "rs_store sp s" "key_from_query q" data] l Ok assms(2)
        by (auto simp: redis_inv_def redis_view_def query_sk_def)
      then show ?thesis using assms(3,4) False g v Ok Some
        by (auto simp: redis_repo_def redis_find_def redis_read_def out_of_def)
    qed
  qed
qed

lemma redis_write_sim:
  assumes "redis_laws conn sp" "serde_laws sj" "redis_inv sj sp s"
    and "c = CCreate r \<or> c = CUpdate r" "exec_cmd (redis_repo sj conn) c s = (out, s')"
  shows "redis_inv sj sp s' \<and> abs_cmd False rec_sk query_sk c out (redis_view sj sp s) (redis_view sj sp s')"
proof -
  obtain ex s1 where ex: "rc_exists conn (rec_sk r) s = (ex, s1)" by fastforce
  note le = redis_exists_law [OF assms(1) ex]
  have v: "kv_inv sj (rs_store sp s1)" "redis_inv sj sp s1" "redis_view sj sp s1 = redis_view sj sp s"
    using le assms(3) by (simp_all add: redis_inv_def redis_view_def)
  have here: "b \<longleftrightarrow> redis_view sj sp s (rec_sk r) \<noteq> None" if "ex = Ok b" for b
    using le that assms(3) kv_view_None by (simp add: redis_inv_def redis_view_def rec_sk_def)
  show ?thesis
  proof (cases ex)
    case (Err e)
    then show ?thesis using assms(4,5) ex v
      by (auto simp: redis_repo_def redis_create_def redis_update_def out_of_def)
  next
    case (Ok b)
    show ?thesis
    proof (cases "serialize_record sj r")
      case se: (Err e)
      then show ?thesis using assms(4,5) ex v Ok here [OF Ok] serialize_error(1) [OF se]
        by (auto simp: redis_repo_def redis_create_def redis_update_def out_of_def split: if_splits)
    next
      case se: (Ok val)
      obtain su s2 where su: "rc_set conn (rec_sk r) val s1 = (su, s2)" by fastforce
      note p = redis_put [OF assms(1,2) se su v(1)]
      show ?thesis using assms(4,5) ex v Ok here [OF Ok] se su p
        by (cases su) (auto simp: redis_repo_def redis_create_def redis_update_def out_of_def
            redis_inv_def redis_view_def split: if_splits)
    qed
  qed
qed

lemma redis_delete_sim:
  assumes "redis_laws conn sp" "redis_inv sj sp s" "exec_cmd (redis_repo sj conn) (CDelete q) s = (out, s')"
  shows "redis_inv sj sp s' \<and>
    abs_cmd False rec_sk query_sk (CDelete q) out (redis_view sj sp s) (redis_view sj sp s')"
proof -
  obtain d s1 where d: "rc_del conn (query_sk q) s = (d, s1)" by fastforce
  note l = redis_del_law [OF assms(1) d]
  have n: "redis_view sj sp s (query_sk q) = None \<longleftrightarrow> rs_store sp s (query_sk q) = None"
    using assms(2) kv_view_None by (simp add: redis_inv_def redis_view_def query_sk_def)
  have k: "kv_view sj ((rs_store sp s)(query_sk q := None)) = (kv_view sj (rs_store sp s))(query_sk q := None)"
    by (simp add: query_sk_def kv_view_del)
  show ?thesis
  proof (cases d)
    case (Ok m)
    then show ?thesis using l n k d assms kv_inv_del [of sj "rs_store sp s" "query_sk q"]
      by (auto simp: redis_repo_def redis_delete_def out_of_def redis_inv_def redis_view_def
          fun_upd_idem split: if_splits)
  next
    case (Err e)
    then show ?thesis using l n k d assms kv_inv_del [of sj "rs_store sp s" "query_sk q"]
      by (auto simp: redis_repo_def redis_delete_def out_of_def redis_inv_def redis_view_def fun_upd_idem)
  qed
qed

lemma redis_repository:
  assumes "redis_laws conn sp" "serde_laws sj"
  shows "trust_repository (redis_repo sj conn) False rec_sk query_sk (redis_view sj sp) (redis_inv sj sp)"
proof
  fix s c out s'
  assume "redis_inv sj sp s" "exec_cmd (redis_repo sj conn) c s = (out, s')"
  then show "redis_inv sj sp s' \<and> abs_cmd False rec_sk query_sk c out (redis_view sj sp s) (redis_view sj sp s')"
    using redis_read_sim [OF assms(1)] redis_write_sim [OF assms] redis_delete_sim [OF assms(1)]
    by (cases c) metis+
qed (auto simp: redis_inv_def redis_view_def dest: kv_view_keyed)

end
