(* ===== verification/Kv_Fjall.thy ===== *)
theory Kv_Fjall
  imports Kv_Store
begin

text \<open>
  \<open>storage/adapters/fjall_storage.rs\<close>: the embedded store.  Every operation runs on a blocking
  thread; \<open>fj_join\<close> says whether joining it fails (it panicked), in which case its effects stay.
  Then \<open>mem_kv\<close>, an in-memory server with scripted failures, which satisfies both sets of laws:
  the interpretations below are the two backends on it.
\<close>

section \<open>Fjall\<close>

record 'c fjall_conn =
  fj_get :: "string \<Rightarrow> 'c \<Rightarrow> (string option, string) result \<times> 'c"
  fj_contains :: "string \<Rightarrow> 'c \<Rightarrow> (bool, string) result \<times> 'c"
  fj_insert :: "string \<Rightarrow> string \<Rightarrow> 'c \<Rightarrow> (unit, string) result \<times> 'c"
  fj_remove :: "string \<Rightarrow> 'c \<Rightarrow> (unit, string) result \<times> 'c"
  fj_prefix :: "string \<Rightarrow> 'c \<Rightarrow> (string \<times> string, string) result list \<times> 'c"
  fj_join :: "'c \<Rightarrow> string option"

definition query_error :: "string \<Rightarrow> repository_error" where
  "query_error e = QueryFailed e"

definition join_error :: "string \<Rightarrow> repository_error" where
  "join_error e = QueryFailed (''fjall blocking task failed: '' @ e)"

definition spawn_blocking :: "'c fjall_conn \<Rightarrow> ('c, 'a) repo_op \<Rightarrow> ('c, 'a) repo_op" where
  "spawn_blocking conn body c =
     (case body c of (res, c1) \<Rightarrow>
        (case fj_join conn c1 of Some e \<Rightarrow> (Err (join_error e), c1) | None \<Rightarrow> (res, c1)))"

definition fjall_find :: "serde_json \<Rightarrow> 'c fjall_conn \<Rightarrow> trust_record_query \<Rightarrow> ('c, trust_record option) repo_op" where
  "fjall_find sj conn q =
     (let key = query_sk q in
      spawn_blocking conn (\<lambda>c.
        case fj_get conn key c of
          (Err e, c1) \<Rightarrow> (Err (query_error e), c1)
        | (Ok (Some v), c1) \<Rightarrow> (bind_ok (deserialize_record sj v) (\<lambda>r. Ok (Some r)), c1)
        | (Ok None, c1) \<Rightarrow> (Ok None, c1)))"

definition fjall_create :: "serde_json \<Rightarrow> 'c fjall_conn \<Rightarrow> trust_record \<Rightarrow> ('c, unit) repo_op" where
  "fjall_create sj conn r c =
     (let key = rec_sk r in
      case serialize_record sj r of
        Err e \<Rightarrow> (Err e, c)
      | Ok v \<Rightarrow>
          spawn_blocking conn (\<lambda>c.
            case fj_contains conn key c of
              (Err e, c1) \<Rightarrow> (Err (query_error e), c1)
            | (Ok ex, c1) \<Rightarrow>
                if ex then (Err (RecordAlreadyExists key), c1)
                else (case fj_insert conn key v c1 of
                        (Err e, c2) \<Rightarrow> (Err (query_error e), c2)
                      | (Ok _, c2) \<Rightarrow> (Ok (), c2))) c)"

definition fjall_update :: "serde_json \<Rightarrow> 'c fjall_conn \<Rightarrow> trust_record \<Rightarrow> ('c, unit) repo_op" where
  "fjall_update sj conn r c =
     (let key = rec_sk r in
      case serialize_record sj r of
        Err e \<Rightarrow> (Err e, c)
      | Ok v \<Rightarrow>
          spawn_blocking conn (\<lambda>c.
            case fj_contains conn key c of
              (Err e, c1) \<Rightarrow> (Err (query_error e), c1)
            | (Ok ex, c1) \<Rightarrow>
                if \<not> ex then (Err (RecordNotFound key), c1)
                else (case fj_insert conn key v c1 of
                        (Err e, c2) \<Rightarrow> (Err (query_error e), c2)
                      | (Ok _, c2) \<Rightarrow> (Ok (), c2))) c)"

definition fjall_delete :: "'c fjall_conn \<Rightarrow> trust_record_query \<Rightarrow> ('c, unit) repo_op" where
  "fjall_delete conn q =
     (let key = query_sk q in
      spawn_blocking conn (\<lambda>c.
        case fj_contains conn key c of
          (Err e, c1) \<Rightarrow> (Err (query_error e), c1)
        | (Ok ex, c1) \<Rightarrow>
            if \<not> ex then (Err (RecordNotFound key), c1)
            else (case fj_remove conn key c1 of
                    (Err e, c2) \<Rightarrow> (Err (query_error e), c2)
                  | (Ok _, c2) \<Rightarrow> (Ok (), c2))))"

definition fjall_read :: "serde_json \<Rightarrow> 'c fjall_conn \<Rightarrow> trust_record_query \<Rightarrow> ('c, trust_record) repo_op" where
  "fjall_read sj conn q =
     (let key = query_sk q in
      spawn_blocking conn (\<lambda>c.
        case fj_get conn key c of
          (Err e, c1) \<Rightarrow> (Err (query_error e), c1)
        | (Ok (Some v), c1) \<Rightarrow> (deserialize_record sj v, c1)
        | (Ok None, c1) \<Rightarrow> (Err (RecordNotFound key), c1)))"

fun fjall_collect ::
  "serde_json \<Rightarrow> trust_record list \<Rightarrow> (string \<times> string, string) result list \<Rightarrow> (trust_record list, repository_error) result" where
  "fjall_collect sj records [] = Ok records"
| "fjall_collect sj records (Err e # gs) = Err (query_error e)"
| "fjall_collect sj records (Ok (key, v) # gs) =
     (case deserialize_record sj v of
        Ok r \<Rightarrow> fjall_collect sj (records @ [r]) gs
      | Err e \<Rightarrow> fjall_collect sj records gs)"

definition fjall_list :: "serde_json \<Rightarrow> 'c fjall_conn \<Rightarrow> ('c, trust_record list) repo_op" where
  "fjall_list sj conn =
     spawn_blocking conn (\<lambda>c.
       case fj_prefix conn TR_SK_PREFIX c of (gs, c1) \<Rightarrow> (fjall_collect sj [] gs, c1))"

definition fjall_repo :: "serde_json \<Rightarrow> 'c fjall_conn \<Rightarrow> 'c trust_repo" where
  "fjall_repo sj conn = \<lparr>repo_find = fjall_find sj conn, repo_create = fjall_create sj conn,
     repo_update = fjall_update sj conn, repo_delete = fjall_delete conn,
     repo_list = fjall_list sj conn, repo_read = fjall_read sj conn\<rparr>"

lemmas fjall_defs = fjall_find_def fjall_create_def fjall_update_def fjall_delete_def
  fjall_read_def fjall_list_def spawn_blocking_def

definition fj_read_law :: "'c fjall_conn \<Rightarrow> ('c \<Rightarrow> string \<rightharpoonup> string) \<Rightarrow> bool" where
  "fj_read_law conn st \<longleftrightarrow>
     (\<forall>k c res c'. fj_get conn k c = (res, c') \<longrightarrow> st c' = st c \<and> (\<forall>x. res = Ok x \<longrightarrow> x = st c k)) \<and>
     (\<forall>k c res c'. fj_contains conn k c = (res, c') \<longrightarrow> st c' = st c \<and> (\<forall>b. res = Ok b \<longrightarrow> b = (st c k \<noteq> None))) \<and>
     (\<forall>p c gs c'. fj_prefix conn p c = (gs, c') \<longrightarrow> st c' = st c \<and>
        (\<forall>kvs. gs = map Ok kvs \<longrightarrow> set kvs = {(k, v). st c k = Some v \<and> starts_with p k}))"

definition fj_write_law :: "'c fjall_conn \<Rightarrow> ('c \<Rightarrow> string \<rightharpoonup> string) \<Rightarrow> bool" where
  "fj_write_law conn st \<longleftrightarrow>
     (\<forall>k v c res c'. fj_insert conn k v c = (res, c') \<longrightarrow>
        st c' = (st c)(k \<mapsto> v) \<or> (res \<noteq> Ok () \<and> st c' = st c)) \<and>
     (\<forall>k c res c'. fj_remove conn k c = (res, c') \<longrightarrow>
        st c' = (st c)(k := None) \<or> (res \<noteq> Ok () \<and> st c' = st c))"

definition fjall_laws :: "'c fjall_conn \<Rightarrow> ('c \<Rightarrow> string \<rightharpoonup> string) \<Rightarrow> bool" where
  "fjall_laws conn st \<longleftrightarrow> fj_read_law conn st \<and> fj_write_law conn st"

lemma fj_get_law: "fjall_laws conn st \<Longrightarrow> fj_get conn k c = (res, c') \<Longrightarrow>
    st c' = st c \<and> (\<forall>x. res = Ok x \<longrightarrow> x = st c k)"
  unfolding fjall_laws_def fj_read_law_def by blast

lemma fj_contains_law: "fjall_laws conn st \<Longrightarrow> fj_contains conn k c = (res, c') \<Longrightarrow>
    st c' = st c \<and> (\<forall>b. res = Ok b \<longrightarrow> b = (st c k \<noteq> None))"
  unfolding fjall_laws_def fj_read_law_def by blast

lemma fj_prefix_law: "fjall_laws conn st \<Longrightarrow> fj_prefix conn p c = (gs, c') \<Longrightarrow>
    st c' = st c \<and> (\<forall>kvs. gs = map Ok kvs \<longrightarrow> set kvs = {(k, v). st c k = Some v \<and> starts_with p k})"
  unfolding fjall_laws_def fj_read_law_def by blast

lemma fj_insert_law: "fjall_laws conn st \<Longrightarrow> fj_insert conn k v c = (res, c') \<Longrightarrow>
    st c' = (st c)(k \<mapsto> v) \<or> (res \<noteq> Ok () \<and> st c' = st c)"
  unfolding fjall_laws_def fj_write_law_def by blast

lemma fj_remove_law: "fjall_laws conn st \<Longrightarrow> fj_remove conn k c = (res, c') \<Longrightarrow>
    st c' = (st c)(k := None) \<or> (res \<noteq> Ok () \<and> st c' = st c)"
  unfolding fjall_laws_def fj_write_law_def by blast

lemma fjall_collect_spec:
  "fjall_collect sj records gs = Ok rs \<Longrightarrow> \<exists>kvs. gs = map Ok kvs \<and>
     set rs = set records \<union> {r. \<exists>(k, v) \<in> set kvs. deserialize_record sj v = Ok r}"
proof (induction gs arbitrary: records)
  case (Cons g gs)
  then obtain k v where g: "g = Ok (k, v)" by (cases g) auto
  have "\<exists>kvs. gs = map Ok kvs \<and> set rs = set records \<union>
      (case deserialize_record sj v of Ok r \<Rightarrow> {r} | Err e \<Rightarrow> {}) \<union>
      {r. \<exists>(k, v) \<in> set kvs. deserialize_record sj v = Ok r}"
    using Cons.IH Cons.prems g by (cases "deserialize_record sj v") fastforce+
  then obtain kvs where "gs = map Ok kvs" "set rs = set records \<union>
      (case deserialize_record sj v of Ok r \<Rightarrow> {r} | Err e \<Rightarrow> {}) \<union>
      {r. \<exists>(k, v) \<in> set kvs. deserialize_record sj v = Ok r}" by blast
  then show ?case using g
    by (intro exI [of _ "(k, v) # kvs"]) (auto split: result.splits)
qed auto

definition fjall_view :: "serde_json \<Rightarrow> ('c \<Rightarrow> string \<rightharpoonup> string) \<Rightarrow> 'c \<Rightarrow> string \<rightharpoonup> trust_record" where
  "fjall_view sj st c = kv_view sj (st c)"

definition fjall_inv :: "serde_json \<Rightarrow> ('c \<Rightarrow> string \<rightharpoonup> string) \<Rightarrow> 'c \<Rightarrow> bool" where
  "fjall_inv sj st c \<longleftrightarrow> kv_inv sj (st c)"

text \<open>Joining a failed task hides the answer of the body, not its effect.\<close>

lemma join_error_simps [simp]:
  "\<not> says_exists (join_error e)" "\<not> says_missing (join_error e)"
  "\<not> says_exists (query_error e)" "\<not> says_missing (query_error e)"
  by (simp_all add: join_error_def query_error_def)

lemma abs_cmd_join:
  "abs_cmd False kr kq cmd x m m' \<Longrightarrow> abs_cmd False kr kq cmd (OFailed (join_error e)) m m'"
  by (cases cmd; cases x) (auto split: if_splits)

lemma spawn_blocking_sim:
  assumes "out_of f (spawn_blocking conn body c) = (out, c')"
    and "\<And>res c1. body c = (res, c1) \<Longrightarrow> I c1 \<and> abs_cmd False kr kq cmd (fst (out_of f (res, c1))) m (V c1)"
  shows "I c' \<and> abs_cmd False kr kq cmd out m (V c')"
proof -
  obtain res c1 where b: "body c = (res, c1)" by fastforce
  note s = assms(2) [OF b]
  show ?thesis
  proof (cases "fj_join conn c1")
    case None
    then show ?thesis using s assms(1) b by (cases res) (auto simp: spawn_blocking_def out_of_def)
  next
    case (Some e)
    then have "out = OFailed (join_error e)" "c' = c1"
      using assms(1) b by (auto simp: spawn_blocking_def out_of_def)
    then show ?thesis using s abs_cmd_join by blast
  qed
qed

lemma fjall_get_sim:
  assumes "fjall_laws conn st" "fjall_inv sj st s" "c = CFind q \<or> c = CRead q"
    and "exec_cmd (fjall_repo sj conn) c s = (out, s')"
  shows "fjall_inv sj st s' \<and> abs_cmd False rec_sk query_sk c out (fjall_view sj st s) (fjall_view sj st s')"
proof -
  obtain g s1 where g: "fj_get conn (query_sk q) s = (g, s1)" by fastforce
  note l = fj_get_law [OF assms(1) g]
  have v: "fjall_inv sj st s1" "fjall_view sj st s1 = fjall_view sj st s"
    using l assms(2) by (simp_all add: fjall_inv_def fjall_view_def)
  have none: "fjall_view sj st s (query_sk q) = None" if "g = Ok None"
    using l that by (simp add: fjall_view_def query_sk_def kv_view_sk)
  have some: "\<exists>r. deserialize_record sj d = Ok r \<and> fjall_view sj st s (query_sk q) = Some r"
    if "g = Ok (Some d)" for d
    using kv_inv_get [of sj "st s" "key_from_query q" d] l that assms(2)
    by (auto simp: fjall_inv_def fjall_view_def query_sk_def)
  from assms(3) show ?thesis
  proof
    assume c: "c = CFind q"
    show ?thesis
      using assms(4) unfolding c fjall_repo_def exec_cmd.simps trust_repo.simps fjall_find_def Let_def
    proof (rule spawn_blocking_sim, goal_cases)
      case (1 res c1)
      then show ?case using g v none some
        by (cases g; cases "ok_opt g") (auto simp: out_of_def split: option.splits)
    qed
  next
    assume c: "c = CRead q"
    show ?thesis
      using assms(4) unfolding c fjall_repo_def exec_cmd.simps trust_repo.simps fjall_read_def Let_def
    proof (rule spawn_blocking_sim, goal_cases)
      case (1 res c1)
      then show ?case using g v none some
        by (cases g; cases "ok_opt g") (auto simp: out_of_def split: option.splits)
    qed
  qed
qed

lemma fjall_contains_view:
  assumes "fjall_laws conn st" "fjall_inv sj st s" "fj_contains conn (sk k) s = (ex, s1)"
  shows "fjall_inv sj st s1" "fjall_view sj st s1 = fjall_view sj st s"
    "ex = Ok b \<Longrightarrow> b \<longleftrightarrow> fjall_view sj st s (sk k) \<noteq> None"
  using fj_contains_law [OF assms(1,3)] assms(2) kv_view_None [of sj "st s" k]
  by (auto simp: fjall_inv_def fjall_view_def)

lemma fjall_insert_view:
  assumes "fjall_laws conn st" "serde_laws sj" "fjall_inv sj st s" "serialize_record sj r = Ok v"
    and "fj_insert conn (rec_sk r) v s = (su, s1)"
  shows "fjall_inv sj st s1 \<and> (fjall_view sj st s1 = (fjall_view sj st s)(rec_sk r \<mapsto> r) \<or>
     (su \<noteq> Ok () \<and> fjall_view sj st s1 = fjall_view sj st s))"
  using fj_insert_law [OF assms(1,5)] kv_view_put [OF assms(2,4)] kv_inv_put [OF assms(2,4)] assms(3)
  by (auto simp: fjall_inv_def fjall_view_def)

lemma fjall_write_sim:
  assumes "fjall_laws conn st" "serde_laws sj" "fjall_inv sj st s" "c = CCreate r \<or> c = CUpdate r"
    and "exec_cmd (fjall_repo sj conn) c s = (out, s')"
  shows "fjall_inv sj st s' \<and> abs_cmd False rec_sk query_sk c out (fjall_view sj st s) (fjall_view sj st s')"
proof (cases "serialize_record sj r")
  case (Err e)
  then show ?thesis using assms(3-5) serialize_error(1) [OF Err]
    by (auto simp: fjall_repo_def fjall_create_def fjall_update_def out_of_def)
next
  case (Ok v)
  obtain ex s1 where ex: "fj_contains conn (rec_sk r) s = (ex, s1)" by fastforce
  note lc = fjall_contains_view [OF assms(1,3) ex [unfolded rec_sk_def]]
  obtain su s2 where su: "fj_insert conn (rec_sk r) v s1 = (su, s2)" by fastforce
  note li = fjall_insert_view [OF assms(1,2) lc(1) Ok su]
  from assms(4) show ?thesis
  proof
    assume c: "c = CCreate r"
    have x: "out_of (\<lambda>_. ODone) (fjall_create sj conn r s) = (out, s')"
      using assms(5) c by (simp add: fjall_repo_def)
    show ?thesis
      using x unfolding c fjall_create_def Let_def Ok result.case
    proof (rule spawn_blocking_sim, goal_cases)
      case (1 res c1)
      then show ?case using ex su lc li
        by (cases ex; cases su) (auto simp: out_of_def rec_sk_def split: if_splits)
    qed
  next
    assume c: "c = CUpdate r"
    have x: "out_of (\<lambda>_. ODone) (fjall_update sj conn r s) = (out, s')"
      using assms(5) c by (simp add: fjall_repo_def)
    show ?thesis
      using x unfolding c fjall_update_def Let_def Ok result.case
    proof (rule spawn_blocking_sim, goal_cases)
      case (1 res c1)
      then show ?case using ex su lc li
        by (cases ex; cases su) (auto simp: out_of_def rec_sk_def split: if_splits)
    qed
  qed
qed

lemma fjall_delete_sim:
  assumes "fjall_laws conn st" "fjall_inv sj st s"
    and "exec_cmd (fjall_repo sj conn) (CDelete q) s = (out, s')"
  shows "fjall_inv sj st s' \<and>
    abs_cmd False rec_sk query_sk (CDelete q) out (fjall_view sj st s) (fjall_view sj st s')"
proof -
  obtain ex s1 where ex: "fj_contains conn (query_sk q) s = (ex, s1)" by fastforce
  note lc = fjall_contains_view [OF assms(1,2) ex [unfolded query_sk_def]]
  obtain su s2 where su: "fj_remove conn (query_sk q) s1 = (su, s2)" by fastforce
  have li: "fjall_inv sj st s2 \<and> (fjall_view sj st s2 = (fjall_view sj st s)(query_sk q := None) \<or>
     (su \<noteq> Ok () \<and> fjall_view sj st s2 = fjall_view sj st s))"
    using fj_remove_law [OF assms(1) su] lc(1,2) kv_inv_del [of sj "st s1" "query_sk q"]
      kv_view_del [of sj "st s1" "key_from_query q"]
    by (auto simp: fjall_inv_def fjall_view_def query_sk_def)
  have x: "out_of (\<lambda>_. ODone) (fjall_delete conn q s) = (out, s')"
    using assms(3) by (simp add: fjall_repo_def)
  show ?thesis
    using x unfolding fjall_delete_def Let_def
  proof (rule spawn_blocking_sim, goal_cases)
    case (1 res c1)
    then show ?case using ex su lc li
      by (cases ex; cases su) (auto simp: out_of_def query_sk_def split: if_splits)
  qed
qed

lemma fjall_list_sim:
  assumes "fjall_laws conn st" "fjall_inv sj st s" "exec_cmd (fjall_repo sj conn) CList s = (out, s')"
  shows "fjall_inv sj st s' \<and> abs_cmd False rec_sk query_sk CList out (fjall_view sj st s) (fjall_view sj st s')"
proof -
  obtain gs s1 where g: "fj_prefix conn TR_SK_PREFIX s = (gs, s1)" by fastforce
  note l = fj_prefix_law [OF assms(1) g]
  have r: "set rs = ran (fjall_view sj st s)" if "fjall_collect sj [] gs = Ok rs" for rs
    using fjall_collect_spec [OF that] l by (auto simp: fjall_view_def kv_view_ran) blast
  have x: "out_of ORecords (fjall_list sj conn s) = (out, s')"
    using assms(3) by (simp add: fjall_repo_def)
  show ?thesis
    using x unfolding fjall_list_def
  proof (rule spawn_blocking_sim, goal_cases)
    case (1 res c1)
    then have e: "fjall_collect sj [] gs = res" "c1 = s1" using g by auto
    show ?case
    proof (cases res)
      case (Ok rs)
      then show ?thesis using l r [of rs] e assms(2)
        by (simp add: out_of_def fjall_inv_def fjall_view_def)
    next
      case (Err x)
      then show ?thesis using l e assms(2) by (simp add: out_of_def fjall_inv_def fjall_view_def)
    qed
  qed
qed

lemma fjall_repository:
  assumes "fjall_laws conn st" "serde_laws sj"
  shows "trust_repository (fjall_repo sj conn) False rec_sk query_sk (fjall_view sj st) (fjall_inv sj st)"
proof
  fix s c out s'
  assume "fjall_inv sj st s" "exec_cmd (fjall_repo sj conn) c s = (out, s')"
  then show "fjall_inv sj st s' \<and> abs_cmd False rec_sk query_sk c out (fjall_view sj st s) (fjall_view sj st s')"
    using fjall_get_sim [OF assms(1)] fjall_write_sim [OF assms] fjall_delete_sim [OF assms(1)]
      fjall_list_sim [OF assms(1)]
    by (cases c) metis+
qed (auto simp: fjall_inv_def fjall_view_def dest: kv_view_keyed)

section \<open>An in-memory server\<close>

text \<open>
  The next command is answered, refused without effect, or applied with the reply lost, as the
  script says.  SCAN answers two keys per page.
\<close>

datatype kv_fault = Answered | Refused string | ReplyLost string

record mem_kv =
  mk_data :: "(string \<times> string) list"
  mk_script :: "kv_fault list"

definition mk_next :: "mem_kv \<Rightarrow> kv_fault \<times> mem_kv" where
  "mk_next c = (case mk_script c of [] \<Rightarrow> (Answered, c) | f # fs \<Rightarrow> (f, c\<lparr>mk_script := fs\<rparr>))"

definition mk_reply :: "kv_fault \<Rightarrow> 'a \<Rightarrow> ('a, string) result" where
  "mk_reply f a = (case f of Answered \<Rightarrow> Ok a | Refused e \<Rightarrow> Err e | ReplyLost e \<Rightarrow> Err e)"

definition mk_apply :: "kv_fault \<Rightarrow> ((string \<times> string) list \<Rightarrow> (string \<times> string) list) \<Rightarrow> mem_kv \<Rightarrow> mem_kv" where
  "mk_apply f g c = (case f of Refused e \<Rightarrow> c | _ \<Rightarrow> c\<lparr>mk_data := g (mk_data c)\<rparr>)"

definition mk_keys :: "mem_kv \<Rightarrow> string list" where
  "mk_keys c = filter (starts_with TR_SK_PREFIX) (map fst (mk_data c))"

definition mk_page :: "mem_kv \<Rightarrow> nat \<Rightarrow> nat \<times> string list" where
  "mk_page c n = (let ks = mk_keys c in
     (if n + 2 < length ks then n + 2 else 0, take 2 (drop n ks)))"

definition mem_redis :: "mem_kv redis_conn" where
  "mem_redis = \<lparr>
     rc_get = (\<lambda>k c. case mk_next c of (f, c1) \<Rightarrow> (mk_reply f (map_of (mk_data c1) k), c1)),
     rc_exists = (\<lambda>k c. case mk_next c of (f, c1) \<Rightarrow> (mk_reply f (map_of (mk_data c1) k \<noteq> None), c1)),
     rc_set = (\<lambda>k v c. case mk_next c of (f, c1) \<Rightarrow> (mk_reply f (), mk_apply f (AList.update k v) c1)),
     rc_del = (\<lambda>k c. case mk_next c of (f, c1) \<Rightarrow>
        (mk_reply f (if map_of (mk_data c1) k = None then 0 else 1), mk_apply f (AList.delete k) c1)),
     rc_scan = (\<lambda>n p m c. case mk_next c of (f, c1) \<Rightarrow> (mk_reply f (mk_page c1 n), c1))\<rparr>"

definition mem_fjall :: "mem_kv fjall_conn" where
  "mem_fjall = \<lparr>
     fj_get = rc_get mem_redis,
     fj_contains = rc_exists mem_redis,
     fj_insert = rc_set mem_redis,
     fj_remove = (\<lambda>k c. case mk_next c of (f, c1) \<Rightarrow> (mk_reply f (), mk_apply f (AList.delete k) c1)),
     fj_prefix = (\<lambda>p c. case mk_next c of (f, c1) \<Rightarrow>
        (case f of Answered \<Rightarrow> map Ok (filter (\<lambda>(k, v). starts_with p k) (AList.clearjunk (mk_data c1)))
         | Refused e \<Rightarrow> [Err e] | ReplyLost e \<Rightarrow> [Err e], c1)),
     fj_join = (\<lambda>c. case mk_script c of ReplyLost e # _ \<Rightarrow> Some e | _ \<Rightarrow> None)\<rparr>"

definition mem_spec :: "mem_kv redis_spec" where
  "mem_spec = \<lparr>rs_store = (\<lambda>c. map_of (mk_data c)), rs_page = mk_page\<rparr>"

definition unary_serde :: serde_json where
  "unary_serde = \<lparr>sj_to_string = (\<lambda>j. Ok (unary_enc j)), sj_from_str = (\<lambda>s. Ok (unary_dec s)),
     sj_error = (\<lambda>e. ''invalid record'')\<rparr>"

lemma mk_next_data [simp]: "mk_next c = (f, c1) \<Longrightarrow> mk_data c1 = mk_data c"
  by (auto simp: mk_next_def split: list.splits)

lemma mk_page_data: "mk_data c1 = mk_data c \<Longrightarrow> mk_page c1 = mk_page c"
  by (simp add: mk_page_def mk_keys_def fun_eq_iff)

lemma mem_reads:
  "get_law mem_redis mem_spec" "exists_law mem_redis mem_spec" "scan_law mem_redis mem_spec"
  by (auto simp: get_law_def exists_law_def scan_law_def mem_redis_def mem_spec_def mk_reply_def
      mk_page_data [OF mk_next_data] split: prod.splits kv_fault.splits)

lemma mem_writes: "set_law mem_redis mem_spec" "del_law mem_redis mem_spec"
  by (auto simp: set_law_def del_law_def mem_redis_def mem_spec_def mk_reply_def mk_apply_def
      split: prod.splits kv_fault.splits if_splits)

lemma mem_pages: "n < length (mk_keys c) \<Longrightarrow>
   \<exists>m ks. scan_pages (mk_page c) m n = Some ks \<and> set ks = set (drop n (mk_keys c))"
proof (induction "length (mk_keys c) - n" arbitrary: n rule: less_induct)
  case less
  show ?case
  proof (cases "n + 2 < length (mk_keys c)")
    case True
    then have "length (mk_keys c) - (n + 2) < length (mk_keys c) - n" by linarith
    from less.hyps [OF this True] obtain m ks where m: "scan_pages (mk_page c) m (n + 2) = Some ks"
      "set ks = set (drop (n + 2) (mk_keys c))"
      by blast
    have "scan_pages (mk_page c) (Suc m) n = Some (take 2 (drop n (mk_keys c)) @ ks)"
      using True m(1) by (simp add: mk_page_def Let_def)
    moreover have "set (take 2 (drop n (mk_keys c)) @ ks) = set (drop n (mk_keys c))"
      using m(2) by (metis append_take_drop_id drop_drop set_append add.commute)
    ultimately show ?thesis by blast
  next
    case False
    then have "scan_pages (mk_page c) 1 n = Some (take 2 (drop n (mk_keys c)))"
      by (simp add: mk_page_def Let_def)
    moreover have "take 2 (drop n (mk_keys c)) = drop n (mk_keys c)" using False by simp
    ultimately show ?thesis by metis
  qed
qed

lemma mem_iteration: "iteration_law mem_spec"
proof -
  have keys: "set (mk_keys c) = {k \<in> dom (map_of (mk_data c)). starts_with TR_SK_PREFIX k}" for c
    by (auto simp: mk_keys_def dom_map_of_conv_image_fst)
  have "\<exists>n ks. scan_pages (mk_page c) n 0 = Some ks \<and> set ks = set (mk_keys c)" for c
  proof (cases "mk_keys c")
    case Nil
    then have "scan_pages (mk_page c) 1 0 = Some []" by (simp add: mk_page_def)
    then show ?thesis using Nil by fastforce
  next
    case (Cons k ks)
    then show ?thesis using mem_pages [of 0 c] by auto
  qed
  then show ?thesis by (simp add: iteration_law_def mem_spec_def keys)
qed

lemma mem_redis_laws: "redis_laws mem_redis mem_spec"
  by (simp add: redis_laws_def mem_reads mem_writes mem_iteration)

lemma mem_fjall_laws: "fjall_laws mem_fjall (rs_store mem_spec)"
proof -
  have "fj_read_law mem_fjall (rs_store mem_spec)"
    unfolding fj_read_law_def
  proof (intro conjI allI impI)
    fix p c gs c' assume p: "fj_prefix mem_fjall p c = (gs, c')"
    then show "rs_store mem_spec c' = rs_store mem_spec c"
      by (auto simp: mem_fjall_def mem_spec_def split: prod.splits kv_fault.splits)
    fix kvs assume "gs = map Ok kvs"
    then have k: "kvs = filter (\<lambda>(k, v). starts_with p k) (AList.clearjunk (mk_data c))"
      using p by (auto simp: mem_fjall_def inj_map_eq_map inj_def split: prod.splits kv_fault.splits)
    have "(k, v) \<in> set (AList.clearjunk (mk_data c)) \<longleftrightarrow> map_of (mk_data c) k = Some v" for k v
      using AList.distinct_clearjunk [of "mk_data c"] AList.map_of_clearjunk [of "mk_data c"]
      by (metis map_of_eq_Some_iff)
    then show "set kvs = {(k, v). rs_store mem_spec c k = Some v \<and> starts_with p k}"
      unfolding k by (auto simp: mem_spec_def)
  qed (auto simp: mem_fjall_def mem_redis_def mem_spec_def mk_reply_def split: prod.splits kv_fault.splits)
  moreover have "fj_write_law mem_fjall (rs_store mem_spec)"
    by (auto simp: fj_write_law_def mem_fjall_def mem_redis_def mem_spec_def mk_reply_def mk_apply_def
        split: prod.splits kv_fault.splits)
  ultimately show ?thesis by (simp add: fjall_laws_def)
qed

lemma unary_serde_laws: "serde_laws unary_serde"
  by (auto simp: serde_laws_def unary_serde_def)

interpretation mem_rd: trust_repository "redis_repo unary_serde mem_redis" False rec_sk query_sk
  "redis_view unary_serde mem_spec" "redis_inv unary_serde mem_spec"
  by (rule redis_repository [OF mem_redis_laws unary_serde_laws])

interpretation mem_fj: trust_repository "fjall_repo unary_serde mem_fjall" False rec_sk query_sk
  "fjall_view unary_serde (rs_store mem_spec)" "fjall_inv unary_serde (rs_store mem_spec)"
  by (rule fjall_repository [OF mem_fjall_laws unary_serde_laws])

definition mem_fresh :: "kv_fault list \<Rightarrow> mem_kv" where
  "mem_fresh script = \<lparr>mk_data = [], mk_script = script\<rparr>"

lemma mem_fresh_inv [simp]: "redis_inv unary_serde mem_spec (mem_fresh script)"
  "fjall_inv unary_serde (rs_store mem_spec) (mem_fresh script)"
  by (simp_all add: redis_inv_def fjall_inv_def kv_inv_def mem_spec_def mem_fresh_def)

end
