(* ===== verification/Csv_Store.thy ===== *)
theory Csv_Store
  imports Local_Store
begin

text \<open>
  \<open>storage/adapters/csv_file_storage.rs\<close>: records in memory, mirrored in a CSV file that a
  background task reloads when its modification time grows.  The \<open>csv\<close>, \<open>base64\<close> and
  \<open>serde_json\<close> codecs are parameters; the file is part of the state with a script that says which
  of the next calls on it fail.  The lemmas: the backend implements the abstract map, but not
  atomically; the row of a record reads back as its normal form; a restart after a successful
  write sees the normal form of every record; a reload never loses the records on an error.
\<close>

section \<open>Rows\<close>

record csv_row =
  cr_entity :: string
  cr_authority :: string
  cr_action :: string
  cr_resource :: string
  cr_recognized :: bool
  cr_authorized :: bool
  cr_context :: "string option"
  cr_type :: string

record csv_ext =
  json_print :: "json \<Rightarrow> string"
  json_parse :: "string \<Rightarrow> json option"
  b64_encode :: "string \<Rightarrow> string"
  b64_decode :: "string \<Rightarrow> string option"
  utf8_ok :: "string \<Rightarrow> bool"
  csv_read :: "string \<Rightarrow> (csv_row, string) result list"
  csv_print :: "csv_row list \<Rightarrow> (string, string) result"
  path_debug :: string

definition csv_parse_context :: "csv_ext \<Rightarrow> string option \<Rightarrow> json option" where
  "csv_parse_context x ctx =
     (case ctx of
        Some c \<Rightarrow> Option.bind (Option.bind (b64_decode x c) (\<lambda>db. if utf8_ok x db then Some db else None))
                   (json_parse x)
      | None \<Rightarrow> None)"

definition csv_from_record :: "csv_ext \<Rightarrow> trust_record \<Rightarrow> csv_row" where
  "csv_from_record x r =
     (let v = context_value (tr_context r) in
      \<lparr>cr_entity = entity_str (tr_entity r), cr_authority = authority_str (tr_authority r),
       cr_action = action_str (tr_action r), cr_resource = resource_str (tr_resource r),
       cr_recognized = is_recognized r, cr_authorized = is_authorized r,
       cr_context = (if is_object v \<or> is_array v then Some (b64_encode x (json_print x v)) else None),
       cr_type = record_type_str (tr_type r)\<rparr>)"

definition csv_into_record :: "csv_ext \<Rightarrow> csv_row \<Rightarrow> (trust_record, string) result" where
  "csv_into_record x row =
     (let ctx = csv_parse_context x (cr_context row) in
      bind_ok (map_err trust_record_error_str (record_type_from_str (cr_type row))) (\<lambda>t.
        let b = with_type t (with_authorized (cr_authorized row) (with_recognized (cr_recognized row)
                  (with_resource (Resource (cr_resource row)) (with_action (Action (cr_action row))
                    (with_authority (AuthorityId (cr_authority row))
                      (with_entity (EntityId (cr_entity row)) builder_new))))));
            b' = (case ctx of Some c \<Rightarrow> with_context (Context c) b | None \<Rightarrow> b)
        in map_err (\<lambda>e. ''invalid trust record: '' @ trust_record_error_str e) (builder_build b')))"

text \<open>What survives the trip through a row.\<close>

definition csv_normal :: "trust_record \<Rightarrow> trust_record" where
  "csv_normal r = r\<lparr>tr_recognized := Some (is_recognized r), tr_authorized := Some (is_authorized r),
     tr_context := (let v = context_value (tr_context r) in
                    if is_object v \<or> is_array v then Context v else context_empty)\<rparr>"

definition codec_laws :: "csv_ext \<Rightarrow> bool" where
  "codec_laws x \<longleftrightarrow> (\<forall>j. json_parse x (json_print x j) = Some j) \<and>
     (\<forall>j. utf8_ok x (json_print x j)) \<and> (\<forall>s. b64_decode x (b64_encode x s) = Some s)"

lemma csv_row_roundtrip:
  "codec_laws x \<Longrightarrow> csv_into_record x (csv_from_record x r) = Ok (csv_normal r)"
  by (auto simp: csv_into_record_def csv_from_record_def csv_normal_def csv_parse_context_def
      codec_laws_def record_type_roundtrip Let_def builder_defs builder_build_def)

lemma csv_normal_key [simp]: "key_from_record (csv_normal r) = key_from_record r"
  by (simp add: csv_normal_def key_from_record_def)

lemma csv_normal_idem: "csv_normal (csv_normal r) = csv_normal r"
  by (auto simp: csv_normal_def is_recognized_def is_authorized_def Let_def context_empty_def)

lemma csv_normal_answers [simp]:
  "is_recognized (csv_normal r) = is_recognized r" "is_authorized (csv_normal r) = is_authorized r"
  by (simp_all add: csv_normal_def is_recognized_def is_authorized_def)

section \<open>The file\<close>

record file_env =
  fe_file :: "(string \<times> nat) option"
  fe_clock :: nat
  fe_script :: "io_outcome list"

definition next_io :: "file_env \<Rightarrow> io_outcome \<times> file_env" where
  "next_io e = (case fe_script e of [] \<Rightarrow> (IoOk, e) | o1 # os \<Rightarrow> (o1, e\<lparr>fe_script := os\<rparr>))"

definition fs_metadata :: "file_env \<Rightarrow> (nat, string) result \<times> file_env" where
  "fs_metadata e = (case next_io e of
      (IoOk, e') \<Rightarrow> (case fe_file e' of Some (c, t) \<Rightarrow> (Ok t, e') | None \<Rightarrow> (Err ''not found'', e'))
    | (IoFails m, e') \<Rightarrow> (Err m, e')
    | (IoFailsLeaving m _, e') \<Rightarrow> (Err m, e'))"

definition fs_modified :: "nat \<Rightarrow> file_env \<Rightarrow> (nat, string) result \<times> file_env" where
  "fs_modified t e = (case next_io e of
      (IoOk, e') \<Rightarrow> (Ok t, e') | (IoFails m, e') \<Rightarrow> (Err m, e') | (IoFailsLeaving m _, e') \<Rightarrow> (Err m, e'))"

definition fs_read :: "file_env \<Rightarrow> (string, string) result \<times> file_env" where
  "fs_read e = (case next_io e of
      (IoOk, e') \<Rightarrow> (case fe_file e' of Some (c, t) \<Rightarrow> (Ok c, e') | None \<Rightarrow> (Err ''not found'', e'))
    | (IoFails m, e') \<Rightarrow> (Err m, e')
    | (IoFailsLeaving m _, e') \<Rightarrow> (Err m, e'))"

definition fs_write :: "string \<Rightarrow> file_env \<Rightarrow> (unit, string) result \<times> file_env" where
  "fs_write c e = (case next_io e of
      (IoOk, e') \<Rightarrow> (Ok (), e'\<lparr>fe_file := Some (c, fe_clock e')\<rparr>)
    | (IoFails m, e') \<Rightarrow> (Err m, e')
    | (IoFailsLeaving m c', e') \<Rightarrow> (Err m, e'\<lparr>fe_file := Some (c', fe_clock e')\<rparr>))"

lemmas fs_defs = fs_metadata_def fs_modified_def fs_read_def fs_write_def next_io_def

section \<open>Loading and saving\<close>

record csv_storage =
  cs_records :: "(trust_record_key, trust_record) hmap"
  cs_last_modified :: "nat option"
  cs_env :: file_env

fun csv_insert_rows ::
  "csv_ext \<Rightarrow> (trust_record_key, trust_record) hmap \<Rightarrow> (csv_row, string) result list \<Rightarrow>
   ((trust_record_key, trust_record) hmap, string) result" where
  "csv_insert_rows x m [] = Ok m"
| "csv_insert_rows x m (Err e # rows) = Err e"
| "csv_insert_rows x m (Ok row # rows) =
     (case csv_into_record x row of
        Err e \<Rightarrow> Err e
      | Ok r \<Rightarrow> csv_insert_rows x (AList.update (key_from_record r) r m) rows)"

definition csv_parse ::
  "csv_ext \<Rightarrow> string \<Rightarrow> ((trust_record_key, trust_record) hmap, string) result" where
  "csv_parse x contents = csv_insert_rows x [] (csv_read x contents)"

definition load_if_modified ::
  "csv_ext \<Rightarrow> nat option \<Rightarrow> file_env \<Rightarrow>
   (((trust_record_key, trust_record) hmap \<times> nat) option, string) result \<times> file_env" where
  "load_if_modified x last_seen e =
     (case fs_metadata e of
        (Err m, e1) \<Rightarrow> (Err (''file_path: '' @ path_debug x @ '', error: '' @ m), e1)
      | (Ok md, e1) \<Rightarrow>
          (case fs_modified md e1 of
             (Err m, e2) \<Rightarrow> (Err m, e2)
           | (Ok modified, e2) \<Rightarrow>
               if (case last_seen of Some previous \<Rightarrow> modified \<le> previous | None \<Rightarrow> False)
               then (Ok None, e2)
               else
                 (case fs_read e2 of
                    (Err m, e3) \<Rightarrow> (Err m, e3)
                  | (Ok contents, e3) \<Rightarrow>
                      (case csv_parse x (trim_str contents) of
                         Err m \<Rightarrow> (Err m, e3)
                       | Ok records \<Rightarrow> (Ok (Some (records, modified)), e3)))))"

definition csv_try_new :: "csv_ext \<Rightarrow> file_env \<Rightarrow> (csv_storage, string) result" where
  "csv_try_new x e =
     (case load_if_modified x None e of
        (Err m, e') \<Rightarrow> Err m
      | (Ok None, e') \<Rightarrow> Err (''unable to load trust records from '' @ path_debug x)
      | (Ok (Some (records, modified)), e') \<Rightarrow>
          Ok \<lparr>cs_records = records, cs_last_modified = Some modified, cs_env = e'\<rparr>)"

text \<open>One round of the sync task after its sleep.\<close>

definition csv_sync :: "csv_ext \<Rightarrow> csv_storage \<Rightarrow> csv_storage" where
  "csv_sync x s =
     (case load_if_modified x (cs_last_modified s) (cs_env s) of
        (Ok (Some (new_records, modified)), e) \<Rightarrow>
          s\<lparr>cs_records := new_records, cs_last_modified := Some modified, cs_env := e\<rparr>
      | (Ok None, e) \<Rightarrow> s\<lparr>cs_env := e\<rparr>
      | (Err m, e) \<Rightarrow> s\<lparr>cs_env := e\<rparr>)"

definition write_to_file :: "csv_ext \<Rightarrow> (csv_storage, unit) repo_op" where
  "write_to_file x s =
     (let rows = map (csv_from_record x) (hm_values (cs_records s)) in
      case csv_print x rows of
        Err m \<Rightarrow> (Err (SerializationFailed m), s)
      | Ok csv_data \<Rightarrow>
          (case fs_write csv_data (cs_env s) of
             (Err m, e1) \<Rightarrow> (Err (QueryFailed (''Failed to write CSV file: '' @ m)), s\<lparr>cs_env := e1\<rparr>)
           | (Ok _, e1) \<Rightarrow>
               (case fs_metadata e1 of
                  (Err m, e2) \<Rightarrow> (Err (QueryFailed (''Failed to get file metadata: '' @ m)), s\<lparr>cs_env := e2\<rparr>)
                | (Ok md, e2) \<Rightarrow>
                    (case fs_modified md e2 of
                       (Err m, e3) \<Rightarrow> (Err (QueryFailed (''Failed to get modified time: '' @ m)), s\<lparr>cs_env := e3\<rparr>)
                     | (Ok modified, e3) \<Rightarrow>
                         (Ok (), s\<lparr>cs_last_modified := Some modified, cs_env := e3\<rparr>)))))"

definition csv_find :: "trust_record_query \<Rightarrow> (csv_storage, trust_record option) repo_op" where
  "csv_find q s = (Ok (List.find (\<lambda>r. matches_query r q) (hm_values (cs_records s))), s)"

definition csv_create :: "csv_ext \<Rightarrow> trust_record \<Rightarrow> (csv_storage, unit) repo_op" where
  "csv_create x r s =
     (let key = key_from_record r in
      if hm_contains (cs_records s) key
      then (Err (RecordAlreadyExists (''Record already exists: '' @ trust_record_str r)), s)
      else write_to_file x (s\<lparr>cs_records := AList.update key r (cs_records s)\<rparr>))"

definition csv_update :: "csv_ext \<Rightarrow> trust_record \<Rightarrow> (csv_storage, unit) repo_op" where
  "csv_update x r s =
     (let key = key_from_record r in
      if \<not> hm_contains (cs_records s) key
      then (Err (RecordNotFound (''Record not found: '' @ trust_record_str r)), s)
      else write_to_file x (s\<lparr>cs_records := AList.update key r (cs_records s)\<rparr>))"

definition csv_delete :: "csv_ext \<Rightarrow> trust_record_query \<Rightarrow> (csv_storage, unit) repo_op" where
  "csv_delete x q s =
     (let key = key_from_query q in
      if \<not> hm_contains (cs_records s) key
      then (Err (RecordNotFound (''Record not found: '' @ sk key)), s)
      else write_to_file x (s\<lparr>cs_records := AList.delete key (cs_records s)\<rparr>))"

definition csv_list :: "(csv_storage, trust_record list) repo_op" where
  "csv_list s = (Ok (hm_values (cs_records s)), s)"

definition query_str :: "trust_record_query \<Rightarrow> string" where
  "query_str q = entity_str (q_entity q) @ ''|'' @ authority_str (q_authority q) @ ''|'' @
     action_str (q_action q) @ ''|'' @ resource_str (q_resource q)"

definition csv_read_record :: "trust_record_query \<Rightarrow> (csv_storage, trust_record) repo_op" where
  "csv_read_record q s =
     (ok_or (List.find (\<lambda>r. matches_query r q) (hm_values (cs_records s)))
        (RecordNotFound (''Record not found: '' @ query_str q)), s)"

definition csv_repo :: "csv_ext \<Rightarrow> csv_storage trust_repo" where
  "csv_repo x = \<lparr>repo_find = csv_find, repo_create = csv_create x, repo_update = csv_update x,
     repo_delete = csv_delete x, repo_list = csv_list, repo_read = csv_read_record\<rparr>"

lemmas csv_defs = csv_find_def csv_create_def csv_update_def csv_delete_def csv_list_def
  csv_read_record_def

definition csv_view :: "csv_storage \<Rightarrow> trust_record_key \<rightharpoonup> trust_record" where
  "csv_view s = map_of (cs_records s)"

definition csv_inv :: "csv_storage \<Rightarrow> bool" where
  "csv_inv s \<longleftrightarrow> map_inv (cs_records s)"

section \<open>The backend implements the map\<close>

lemma write_to_file_records:
  "write_to_file x s = (res, s') \<Longrightarrow> cs_records s' = cs_records s"
  by (auto simp: write_to_file_def Let_def split: result.splits prod.splits)

lemma write_to_file_error:
  "write_to_file x s = (Err e, s') \<Longrightarrow> \<not> says_exists e \<and> \<not> says_missing e"
  by (auto simp: write_to_file_def Let_def split: result.splits prod.splits)

lemma write_to_file_out:
  assumes "out_of (\<lambda>_. ODone) (write_to_file x s) = (out, s')"
  shows "cs_records s' = cs_records s \<and>
    (out = ODone \<or> (\<exists>e. out = OFailed e \<and> \<not> says_exists e \<and> \<not> says_missing e))"
proof -
  obtain res t where w: "write_to_file x s = (res, t)" by fastforce
  show ?thesis
    using assms w write_to_file_records [OF w] write_to_file_error [of x s _ t]
    by (cases res) (auto simp: out_of_def)
qed

lemma csv_simulates:
  assumes "csv_inv s" "exec_cmd (csv_repo x) c s = (out, s')"
  shows "csv_inv s' \<and> abs_cmd False key_from_record key_from_query c out (csv_view s) (csv_view s')"
proof (cases c)
  case (CCreate r)
  then show ?thesis using assms
    by (cases "hm_contains (cs_records s) (key_from_record r)")
      (auto simp: csv_repo_def csv_create_def out_of_def [of _ "(Err _, _)"] csv_inv_def csv_view_def
        hm_contains_def dest!: write_to_file_out)
next
  case (CUpdate r)
  then show ?thesis using assms
    by (cases "hm_contains (cs_records s) (key_from_record r)")
      (auto simp: csv_repo_def csv_update_def out_of_def [of _ "(Err _, _)"] csv_inv_def csv_view_def
        hm_contains_def dest!: write_to_file_out)
next
  case (CDelete q)
  then show ?thesis using assms
    by (cases "hm_contains (cs_records s) (key_from_query q)")
      (auto simp: csv_repo_def csv_delete_def out_of_def [of _ "(Err _, _)"] csv_inv_def csv_view_def
        hm_contains_def dest!: write_to_file_out)
qed (use assms in \<open>auto simp: csv_repo_def csv_defs out_of_def csv_inv_def csv_view_def store_laws
        split: result.splits option.splits\<close>)

interpretation csv: trust_repository "csv_repo x" False key_from_record key_from_query csv_view csv_inv
  for x
  by unfold_locales (simp_all add: csv_simulates, simp add: csv_inv_def csv_view_def map_inv_keyed)

section \<open>Loading\<close>

lemma csv_insert_rows_inv:
  "map_inv m \<Longrightarrow> csv_insert_rows x m rows = Ok m' \<Longrightarrow> map_inv m'"
  by (induction x m rows rule: csv_insert_rows.induct) (auto split: result.splits)

lemma csv_parse_inv: "csv_parse x c = Ok m \<Longrightarrow> map_inv m"
  by (simp add: csv_parse_def csv_insert_rows_inv [OF map_inv_Nil])

lemma load_inv: "load_if_modified x t e = (Ok (Some (m, u)), e') \<Longrightarrow> map_inv m"
  by (auto simp: load_if_modified_def dest: csv_parse_inv split: result.splits prod.splits option.splits if_splits)

lemma csv_try_new_inv: "csv_try_new x e = Ok s \<Longrightarrow> csv_inv s"
  by (auto simp: csv_try_new_def csv_inv_def dest: load_inv split: result.splits prod.splits option.splits)

lemma csv_sync_inv: "csv_inv s \<Longrightarrow> csv_inv (csv_sync x s)"
  by (auto simp: csv_sync_def csv_inv_def dest: load_inv split: result.splits prod.splits option.splits)

text \<open>Rows of distinct keys load as the map of their records.\<close>

lemma csv_insert_rows_map:
  assumes "codec_laws x"
  shows "csv_insert_rows x m (map (\<lambda>r. Ok (csv_from_record x r)) rs) =
     Ok (fold (\<lambda>r m. AList.update (key_from_record r) (csv_normal r) m) rs m)"
  by (induction rs arbitrary: m) (auto simp: csv_row_roundtrip [OF assms])

lemma map_of_fold_update:
  "map_of (fold (\<lambda>r m. AList.update (f r) (g r) m) rs m) k =
     (case map_of (rev (map (\<lambda>r. (f r, g r)) rs)) k of Some v \<Rightarrow> Some v | None \<Rightarrow> map_of m k)"
  by (induction rs arbitrary: m) (auto simp: map_add_def split: option.splits)

lemma map_of_values:
  assumes "map_inv m"
  shows "map_of (rev (map (\<lambda>r. (key_from_record r, g r)) (hm_values m))) k = map_option g (map_of m k)"
proof -
  have e: "map (\<lambda>r. (key_from_record r, g r)) (hm_values m) = map (\<lambda>(k, r). (k, g r)) m"
    using assms by (auto simp: map_inv_def keyed_def hm_values_def list_all_iff)
  have d: "distinct (map fst (map (\<lambda>(k, r). (k, g r)) m))"
    using assms by (simp add: map_inv_def hm_ok_def comp_def case_prod_unfold)
  have "map_of (rev (map (\<lambda>(k, r). (k, g r)) m)) = map_of (map (\<lambda>(k, r). (k, g r)) m)"
    using d by (rule map_of_rev_distinct)
  then show ?thesis unfolding e by (simp add: map_of_map)
qed

definition csv_text_law :: "csv_ext \<Rightarrow> bool" where
  "csv_text_law x \<longleftrightarrow> (\<forall>rows c. (\<forall>row \<in> set rows.
       \<forall>f \<in> {cr_entity row, cr_authority row, cr_action row, cr_resource row}. trim_str f = f) \<longrightarrow>
     csv_print x rows = Ok c \<longrightarrow> csv_read x (trim_str c) = map Ok rows)"

definition plain_fields :: "trust_record \<Rightarrow> bool" where
  "plain_fields r \<longleftrightarrow> (\<forall>f \<in> {entity_str (tr_entity r), authority_str (tr_authority r),
     action_str (tr_action r), resource_str (tr_resource r)}. trim_str f = f)"

lemma csv_parse_written:
  assumes "codec_laws x" "csv_text_law x" "map_inv m" "\<forall>r \<in> set (hm_values m). plain_fields r"
    and "csv_print x (map (csv_from_record x) (hm_values m)) = Ok c"
  obtains m' where "csv_parse x (trim_str c) = Ok m'" "map_of m' = map_option csv_normal \<circ> map_of m"
proof -
  have "\<forall>row \<in> set (map (csv_from_record x) (hm_values m)).
      \<forall>f \<in> {cr_entity row, cr_authority row, cr_action row, cr_resource row}. trim_str f = f"
    using assms(4) by (auto simp: plain_fields_def csv_from_record_def Let_def)
  then have "csv_read x (trim_str c) = map Ok (map (csv_from_record x) (hm_values m))"
    using assms(2,5) unfolding csv_text_law_def by blast
  then have p: "csv_parse x (trim_str c) =
      Ok (fold (\<lambda>r m. AList.update (key_from_record r) (csv_normal r) m) (hm_values m) [])"
    using csv_insert_rows_map [OF assms(1)] by (simp add: csv_parse_def comp_def)
  show thesis
  proof (rule that [OF p], rule ext)
    fix k
    show "map_of (fold (\<lambda>r m. AList.update (key_from_record r) (csv_normal r) m) (hm_values m) []) k =
        (map_option csv_normal \<circ> map_of m) k"
      using map_of_values [OF assms(3), of csv_normal k]
      by (simp add: map_of_fold_update split: option.splits)
  qed
qed

lemma write_to_file_Ok:
  assumes "write_to_file x s = (Ok (), s')"
  obtains c where "csv_print x (map (csv_from_record x) (hm_values (cs_records s))) = Ok c"
    "fe_file (cs_env s') = Some (c, fe_clock (cs_env s))" "cs_last_modified s' = Some (fe_clock (cs_env s))"
    "cs_records s' = cs_records s" "fe_clock (cs_env s') = fe_clock (cs_env s)"
  using assms
  by (auto simp: write_to_file_def fs_defs Let_def
      split: result.splits prod.splits list.splits io_outcome.splits option.splits)

lemma load_fresh:
  assumes "fe_file e = Some (c, t)" "fe_script e = []"
    and "csv_parse x (trim_str c) = Ok m"
  shows "load_if_modified x None e = (Ok (Some (m, t)), e)"
  using assms by (simp add: load_if_modified_def fs_defs)

lemma restart_after_write:
  assumes "codec_laws x" "csv_text_law x" "csv_inv s" "\<forall>r \<in> ran (csv_view s). plain_fields r"
    and "write_to_file x s = (Ok (), s')" "fe_script (cs_env s') = []"
  shows "\<exists>n. csv_try_new x (cs_env s') = Ok n \<and> csv_view n = map_option csv_normal \<circ> csv_view s"
proof -
  obtain c where c: "csv_print x (map (csv_from_record x) (hm_values (cs_records s))) = Ok c"
    "fe_file (cs_env s') = Some (c, fe_clock (cs_env s))"
    using assms(5) by (rule write_to_file_Ok)
  have "\<forall>r \<in> set (hm_values (cs_records s)). plain_fields r"
    using assms(3,4) by (simp add: csv_view_def csv_inv_def store_laws)
  then obtain m where m: "csv_parse x (trim_str c) = Ok m"
    "map_of m = map_option csv_normal \<circ> map_of (cs_records s)"
    using csv_parse_written [OF assms(1,2) _ _ c(1)] assms(3) by (auto simp: csv_inv_def)
  then show ?thesis
    using load_fresh [OF c(2) assms(6) m(1)] by (simp add: csv_try_new_def csv_view_def)
qed

text \<open>The map after a successful create, update or delete, and the file write that made it durable.\<close>

fun csv_after :: "repo_cmd \<Rightarrow> (trust_record_key \<rightharpoonup> trust_record) \<Rightarrow> trust_record_key \<rightharpoonup> trust_record" where
  "csv_after (CCreate r) m = m(key_from_record r \<mapsto> r)"
| "csv_after (CUpdate r) m = m(key_from_record r \<mapsto> r)"
| "csv_after (CDelete q) m = m(key_from_query q := None)"
| "csv_after _ m = m"

lemma csv_done_wrote:
  assumes "csv_inv s" "exec_cmd (csv_repo x) cmd s = (ODone, s')"
  obtains s1 where "write_to_file x s1 = (Ok (), s')" "csv_inv s1" "csv_view s1 = csv_after cmd (csv_view s)"
proof -
  have ok: "res = Ok ()" if "out_of (\<lambda>_. ODone) (res, t) = (ODone, s')" for res :: "(unit, repository_error) result" and t
    using that by (cases res) (auto simp: out_of_def)
  show thesis
  proof (cases cmd)
    case (CCreate r)
    show thesis
      by (rule that [of "s\<lparr>cs_records := AList.update (key_from_record r) r (cs_records s)\<rparr>"])
        (use assms CCreate in \<open>auto simp: csv_repo_def csv_create_def Let_def out_of_def csv_inv_def csv_view_def
           split: if_splits result.splits prod.splits\<close>)
  next
    case (CUpdate r)
    show thesis
      by (rule that [of "s\<lparr>cs_records := AList.update (key_from_record r) r (cs_records s)\<rparr>"])
        (use assms CUpdate in \<open>auto simp: csv_repo_def csv_update_def Let_def out_of_def csv_inv_def csv_view_def
           split: if_splits result.splits prod.splits\<close>)
  next
    case (CDelete q)
    show thesis
      by (rule that [of "s\<lparr>cs_records := AList.delete (key_from_query q) (cs_records s)\<rparr>"])
        (use assms CDelete in \<open>auto simp: csv_repo_def csv_delete_def Let_def out_of_def csv_inv_def csv_view_def
           split: if_splits result.splits prod.splits\<close>)
  qed (use assms in \<open>auto simp: csv_repo_def csv_defs out_of_def split: result.splits\<close>)
qed

lemma sync_after_own_write:
  assumes "write_to_file x s = (Ok (), s')" "fe_script (cs_env s') = []"
  shows "csv_view (csv_sync x s') = csv_view s"
proof -
  obtain c where "fe_file (cs_env s') = Some (c, fe_clock (cs_env s))"
    "cs_last_modified s' = Some (fe_clock (cs_env s))" "cs_records s' = cs_records s"
    using assms(1) by (rule write_to_file_Ok)
  then show ?thesis using assms(2)
    by (simp add: csv_sync_def load_if_modified_def fs_defs csv_view_def)
qed

lemma sync_error_keeps:
  "load_if_modified x (cs_last_modified s) (cs_env s) = (Err m, e) \<Longrightarrow>
   csv_view (csv_sync x s) = csv_view s \<and> cs_last_modified (csv_sync x s) = cs_last_modified s"
  by (simp add: csv_sync_def csv_view_def)

section \<open>A concrete codec\<close>

definition row_tuple ::
  "csv_row \<Rightarrow> string \<times> string \<times> string \<times> string \<times> bool \<times> bool \<times> string option \<times> string" where
  "row_tuple r = (cr_entity r, cr_authority r, cr_action r, cr_resource r, cr_recognized r,
     cr_authorized r, cr_context r, cr_type r)"

definition tuple_row ::
  "string \<times> string \<times> string \<times> string \<times> bool \<times> bool \<times> string option \<times> string \<Rightarrow> csv_row" where
  "tuple_row = (\<lambda>(e, a, act, r, rec, auth, c, t).
     \<lparr>cr_entity = e, cr_authority = a, cr_action = act, cr_resource = r, cr_recognized = rec,
      cr_authorized = auth, cr_context = c, cr_type = t\<rparr>)"

lemma tuple_row_inverse [simp]: "tuple_row (row_tuple r) = r"
  by (simp add: tuple_row_def row_tuple_def)

definition unary_csv :: csv_ext where
  "unary_csv = \<lparr>json_print = unary_enc, json_parse = (\<lambda>s. Some (unary_dec s)),
     b64_encode = (\<lambda>s. s), b64_decode = Some, utf8_ok = (\<lambda>_. True),
     csv_read = (\<lambda>s. map (\<lambda>t. Ok (tuple_row t)) (unary_dec s)),
     csv_print = (\<lambda>rows. Ok (unary_enc (map row_tuple rows))), path_debug = ''trust_records.csv''\<rparr>"

lemma unary_csv_laws: "codec_laws unary_csv" "csv_text_law unary_csv"
  by (simp_all add: codec_laws_def csv_text_law_def unary_csv_def comp_def)

definition csv_fresh :: "io_outcome list \<Rightarrow> csv_storage" where
  "csv_fresh script = \<lparr>cs_records = [], cs_last_modified = None,
     cs_env = \<lparr>fe_file = None, fe_clock = 7, fe_script = script\<rparr>\<rparr>"

lemma csv_fresh_inv [simp]: "csv_inv (csv_fresh script)" "csv_view (csv_fresh script) = Map.empty"
  by (simp_all add: csv_fresh_def csv_inv_def csv_view_def fun_eq_iff)

end
