(* ===== verification/Samples.thy ===== *)
theory Samples
  imports Bindings Kv_Fjall Csv_Store
begin

text \<open>
  Concrete values the witnesses evaluate: a wire format that reads a document from the members of
  a JSON object, a deployment with one administrator, registries on the in-memory repository, and
  a few documents.
\<close>

definition sample_parse :: "json \<Rightarrow> (document, string) result" where
  "sample_parse j =
     (case (get_str j ''id'', get_str j ''type'', json_get j ''payload'') of
        (Some i, Some t, Some p) \<Rightarrow>
          Ok \<lparr>tk_id = i, tk_type = t, tk_thread = None, tk_issuer = get_str j ''issuer'',
              tk_recipient = None, tk_payload = p, tk_proof = json_get j ''proof'', tk_issued = None\<rparr>
      | _ \<Rightarrow> Err ''missing member'')"

text \<open>The texts of the sample wire are names of the documents they stand for.\<close>

definition record_member :: "string \<Rightarrow> string \<Rightarrow> json" where
  "record_member e a = JObj [(''action'', JStr ''sign''), (''authority_id'', JStr a),
     (''authorized'', JBool True), (''context'', JObj []), (''entity_id'', JStr e),
     (''recognized'', JBool True), (''record_type'', JStr ''authorization''), (''resource'', JStr ''repo'')]"

definition create_body :: json where
  "create_body = JObj [(''id'', JStr ''m1''), (''issuer'', JStr ''did:admin''),
     (''payload'', JObj [(''record'', record_member ''did:e'' ''did:a'')]),
     (''proof'', JStr ''valid''), (''type'', JStr RECORD_CREATE)]"

definition grant_body :: json where
  "grant_body = JObj [(''id'', JStr ''g1''),
     (''payload'', JObj [(''resource'', JStr ''org/repo''), (''subject'', JStr ''did:mallory'')]),
     (''type'', JStr GIT_GRANT)]"

definition query_body_json :: json where
  "query_body_json = JObj [(''id'', JStr ''q1''),
     (''payload'', JObj [(''action'', JStr ''sign''), (''authority_id'', JStr ''did:a''),
        (''entity_id'', JStr ''did:e''), (''resource'', JStr ''repo'')]),
     (''type'', JStr AUTHORIZATION)]"

definition sample_text :: "string \<Rightarrow> (json, string) result" where
  "sample_text s =
     (if s = ''create'' then Ok create_body
      else if s = ''grant'' then Ok grant_body
      else if s = ''query'' then Ok query_body_json
      else if s = ''tsp-create'' then Ok (JObj [(''document'', create_body), (''type'', JStr ''tsp'')])
      else Err ''no such text'')"

definition sample_wire :: wire where
  "sample_wire = \<lparr>
     wi_parse_bytes = (\<lambda>s. bind_ok (sample_text s) sample_parse),
     wi_parse_value = sample_parse,
     wi_json = sample_text,
     wi_status = (\<lambda>e. if er_retryable e then 500 else 400),
     wi_document_json = (\<lambda>d. Ok (tk_payload d)),
     wi_error_json = (\<lambda>e. Ok (JObj [])),
     wi_json_text = (\<lambda>j. Ok ''reply''),
     wi_debug = (\<lambda>t. ''other''),
     wi_envelope_type = ''tsp''\<rparr>"

definition sample_deployment :: deployment where
  "sample_deployment = \<lparr>dp_my_did = ''did:registry'', dp_admins = [''did:admin''], dp_vta = None\<rparr>"

definition sample_call :: call_env where
  "sample_call = \<lparr>ce_nid = ''r1'', ce_now = 1000, ce_alive = True\<rparr>"

definition cap_set_of :: "cap_states \<Rightarrow> cap_states cap_set" where
  "cap_set_of st = cap_rebuild \<lparr>cap_available = [(''git-trust'', git_definition)], cap_state_map = st,
     cap_stored = st, cap_base = build_dispatcher, cap_base_query = build_query_dispatcher,
     cap_dispatcher = [], cap_query_dispatcher = []\<rparr>"

definition git_config :: json where
  "git_config = JObj [(''authority'', JStr ''did:community'')]"

definition git_state :: cap_state where
  "git_state = cap_entry 0 ''0.1'' (Some git_config) None"

lemma cap_set_of_simps [simp]:
  "git_only (cap_set_of st)" "cap_in_force st (cap_set_of st)" "cap_state_map (cap_set_of st) = st"
  "cap_stored (cap_set_of st) = st"
  by (simp_all add: cap_set_of_def git_only_def cap_in_force_def cap_rebuild_def)

definition sample_record :: trust_record where
  "sample_record = trust_record_new (EntityId ''did:e'') (AuthorityId ''did:a'') (Action ''sign'')
     (Resource ''repo'') True True context_empty Authorization"

end
