(* ===== verification/Task_Properties.thy ===== *)
theory Task_Properties
  imports Samples
begin

text \<open>
  The properties of the Trust Task surface: who may change the registry over which binding, at
  most once application of redelivered writes, and the capability set across saves and restarts.
  Each is stated over any repository that meets the contract, with a witness on concrete values.
\<close>

section \<open>Who may change the registry\<close>

definition sample_create_run :: "reply option \<times> memory_store \<times> (local_storage, cap_states) registry" where
  "sample_create_run = didcomm_trust_task sample_framework sample_wire local_repo memory_cap_store
     memory_ids sample_deployment sample_call 2000 ''did:admin'' create_body memory_default
     (local_new, cap_set_of [])"

lemma sample_create_run_records:
  "map_of (ls_records (fst (snd (snd sample_create_run)))) (key_from_record sample_record) = Some sample_record"
  by code_simp

lemma sample_create_run_changes:
  "local_view (fst (snd (snd sample_create_run))) \<noteq> Map.empty"
  using sample_create_run_records by (auto simp: local_view_def [abs_def])

text \<open>C1: The DIDComm binding of Trust Tasks, whatever the body it is given and whoever the sender:
  it changes the trust records, the capability set or the store of message ids only if the body is
  a write task whose sender is a configured administrator and whose proof is present and verifies.
  This is the handler of the Trust Task envelope alone; the record-administration messages of the
  other DIDComm protocol, which carry no proof, go another way.  The dispatchers in force may come
  from any capability states, also from older ones than the set keeps.\<close>

theorem didcomm_gate:
  assumes "trust_repository repo atomic kr kq view good" "framework_ok fw"
    and "good s" "git_only cs" "cap_in_force sts cs"
    and "didcomm_trust_task fw wi repo store ids dp ce t2 sender body d (s, cs) = (rep, d', s', cs')"
    and "view s' \<noteq> view s \<or> cs' \<noteq> cs \<or> d' \<noteq> d"
  shows "\<exists>doc. wi_parse_value wi body = Ok doc \<and> is_write fw doc \<and> sender \<in> set (dp_admins dp) \<and>
    tk_proof doc \<noteq> None \<and> fw_verify fw doc = Ok ()"
  by (rule trust_repository.task_message_gate [OF assms(1,3,2,4-7)])

theorem didcomm_gate_witness:
  "\<exists>doc. wi_parse_value sample_wire create_body = Ok doc \<and> is_write sample_framework doc \<and>
    ''did:admin'' \<in> set (dp_admins sample_deployment) \<and> tk_proof doc \<noteq> None \<and>
    fw_verify sample_framework doc = Ok ()"
  by (rule didcomm_gate [where s = local_new and s' = "fst (snd (snd sample_create_run))"
        and cs = "cap_set_of []" and cs' = "snd (snd (snd sample_create_run))"
        and d = memory_default and d' = "fst (snd sample_create_run)" and rep = "fst sample_create_run" and sts = "[]"
        and ce = sample_call and ids = memory_ids and store = memory_cap_store and ?t2.0 = 2000,
        OF local.trust_repository_axioms sample_framework_ok])
    (simp_all add: sample_create_run_changes, simp add: sample_create_run_def)

text \<open>C2: Over TSP, a frame changes the registry or the store of message ids only if, after at most
  three attempts to unpack it, it carries a write task whose sender is a configured administrator
  and whose proof verifies.\<close>

theorem tsp_gate:
  assumes "trust_repository repo atomic kr kq view good" "framework_ok fw"
    and "good s" "git_only cs" "cap_in_force sts cs"
    and "process_tsp_frame fw wi repo store ids dp ce t2 unpack d (s, cs) = (rep, d', s', cs')"
    and "view s' \<noteq> view s \<or> cs' \<noteq> cs \<or> d' \<noteq> d"
  shows "\<exists>n payload sender doc. n \<in> {1..3} \<and> unpack n = Ok (payload, sender) \<and>
    parse_envelope wi payload = Ok doc \<and> is_write fw doc \<and> sender \<in> set (dp_admins dp) \<and>
    fw_verify fw doc = Ok ()"
proof -
  obtain res n sl where u: "retry_transient UNPACK_MAX_ATTEMPTS UNPACK_INITIAL_BACKOFF UNPACK_MAX_BACKOFF
      unpack = (res, n, sl)" by (metis prod.exhaust)
  obtain payload sender where p: "res = Ok (payload, sender)"
    using assms(6,7) u by (cases res) (auto simp: process_tsp_frame_def)
  have n: "unpack n = Ok (payload, sender)" "n \<in> {1..3}"
    using retry_loop_spec [OF u [unfolded retry_transient_def]] p
    by (auto simp: UNPACK_MAX_ATTEMPTS_def UNPACK_INITIAL_BACKOFF_def UNPACK_MAX_BACKOFF_def)
  obtain doc where doc: "parse_envelope wi payload = Ok doc"
    using assms(6,7) u p by (cases "parse_envelope wi payload") (auto simp: process_tsp_frame_def)
  have adm: "admit fw dp ce sender doc = Ok ()"
    using assms(6,7) u p doc
    by (cases "admit fw dp ce sender doc") (auto simp: process_tsp_frame_def tsp_inbound_def)
  have "is_write fw doc"
  proof (rule ccontr)
    assume w: "\<not> is_write fw doc"
    obtain o1 d1 s1 cs1 where r: "dispatch_admin fw repo store ids ce t2 doc d (s, cs) = (o1, d1, s1, cs1)"
      by (metis prod.exhaust)
    have "view s1 = view s \<and> cs1 = cs \<and> d1 = d"
      using trust_repository.admin_change_needs_write [OF assms(1,3,2,4,5) w r] by simp
    then show False using assms(6,7) u p doc adm r
      by (auto simp: process_tsp_frame_def tsp_inbound_def)
  qed
  then show ?thesis using n doc admit_Ok [OF adm] by blast
qed

definition sample_unpack :: "nat \<Rightarrow> (string \<times> string, atm_error) result" where
  "sample_unpack n = (if n < 2 then Err (DIDError ''resolver'') else Ok (''tsp-create'', ''did:admin''))"

definition sample_tsp_run ::
  "(string \<times> string) option \<times> memory_store \<times> (local_storage, cap_states) registry" where
  "sample_tsp_run = process_tsp_frame sample_framework sample_wire local_repo memory_cap_store
     memory_ids sample_deployment sample_call 2000 sample_unpack memory_default (local_new, cap_set_of [])"

lemma sample_tsp_run_records:
  "map_of (ls_records (fst (snd (snd sample_tsp_run)))) (key_from_record sample_record) = Some sample_record"
  by code_simp

lemma sample_tsp_run_changes: "local_view (fst (snd (snd sample_tsp_run))) \<noteq> Map.empty"
  using sample_tsp_run_records by (auto simp: local_view_def [abs_def])

theorem tsp_gate_witness:
  "\<exists>n payload sender doc. n \<in> {1..3} \<and> sample_unpack n = Ok (payload, sender) \<and>
    parse_envelope sample_wire payload = Ok doc \<and> is_write sample_framework doc \<and>
    sender \<in> set (dp_admins sample_deployment) \<and> fw_verify sample_framework doc = Ok ()"
  by (rule tsp_gate [where s = local_new and s' = "fst (snd (snd sample_tsp_run))"
        and cs = "cap_set_of []" and cs' = "snd (snd (snd sample_tsp_run))"
        and d = memory_default and d' = "fst (snd sample_tsp_run)" and rep = "fst sample_tsp_run" and sts = "[]"
        and ce = sample_call and ids = memory_ids and store = memory_cap_store and ?t2.0 = 2000,
        OF local.trust_repository_axioms sample_framework_ok])
    (simp_all add: sample_tsp_run_changes, simp add: sample_tsp_run_def)

text \<open>C3: Over HTTP, where callers are anonymous, no request changes the trust records or the
  capability set as long as the dispatchers in force were composed with git-trust off.  That is so
  after a start, and after an enable or disable that succeeds, when the states they leave have it
  off.  It is not enough that the set no longer lists git-trust as enabled: after a disable whose
  save failed the dispatchers in force still serve it.\<close>

theorem http_read_only:
  assumes "trust_repository repo atomic kr kq view good" "framework_ok fw"
    and "good s" "git_only cs" "cap_in_force sts cs" "git_enabled sts = None"
    and "http_trust_task fw wi repo store ce my_vid body (s, cs) = (rep, s', cs')"
  shows "good s' \<and> view s' = view s \<and> cs' = cs"
proof -
  have q: "good s1 \<and> view s1 = view s \<and> cs1 = cs"
    if "serve_document fw repo store ce (cap_query_dispatcher cs) doc (s, cs) = (o1, s1, cs1)" for doc o1 s1 cs1
    by (rule trust_repository.serve_reads_only [OF assms(1,3,2) _ that])
      (rule composed_entry(3) [OF assms(4,5,6)])
  then show ?thesis using assms(3,7)
    by (auto simp: http_trust_task_def split: result.splits prod.splits)
qed

theorem http_read_only_witness:
  "let r = http_trust_task sample_framework sample_wire local_repo memory_cap_store sample_call
       ''did:registry'' ''grant'' (local_new, cap_set_of []) in
   local_view (fst (snd r)) = local_view local_new \<and> snd (snd r) = cap_set_of []"
proof -
  obtain rep s' cs' where r: "http_trust_task sample_framework sample_wire local_repo memory_cap_store
      sample_call ''did:registry'' ''grant'' (local_new, cap_set_of []) = (rep, s', cs')"
    by (metis prod.exhaust)
  show ?thesis
    using http_read_only [OF local.trust_repository_axioms sample_framework_ok _ cap_set_of_simps(1,2) _ r]
    by (simp add: r git_enabled_def)
qed

text \<open>C38: Once the dispatchers in force have been composed with git-trust on and an authority, an anonymous HTTP request without any proof
  creates an authorised commit-signing record for a subject of its choice: the read-only
  dispatcher of the HTTP binding serves the grant task too.\<close>

theorem http_grants_anonymously:
  assumes "framework_ok fw" "git_only cs" "cap_in_force sts cs"
    and "git_enabled sts = Some st" "authority_of st = Some auth"
    and "wi_parse_bytes wi body = Ok doc" "tk_type doc = GIT_GRANT" "tk_proof doc = None" "tk_issuer doc = None"
    and "fw_resolve_parties fw (Some my_vid) None doc = Ok ()" "fw_validate_basic fw (ce_now ce) my_vid doc = Ok ()"
    and "\<And>uris. GIT_GRANT \<in> set uris \<Longrightarrow> fw_route fw uris doc = Ok GIT_GRANT"
    and "fw_grant_payload fw doc = Ok (subject, rsc)"
    and "local_inv s" "\<not> ls_poisoned s" "local_view s (key_from_query (grant_query auth subject rsc)) = None"
  shows "\<exists>rep s'. http_trust_task fw wi local_repo store ce my_vid body (s, cs) = (rep, s', cs) \<and>
    hr_status rep = 200 \<and>
    local_view s' = (local_view s)(key_from_query (grant_query auth subject rsc) \<mapsto> grant_record auth subject rsc)"
proof -
  have e: "map_of (cap_query_dispatcher cs) GIT_GRANT = Some (H_Grant (Some auth))"
  proof -
    have "cap_query_dispatcher cs =
        compose build_query_dispatcher [(''git-trust'', git_definition)] sts False"
      using assms(2,3) by (simp add: git_only_def cap_in_force_def)
    moreover have "GIT_GRANT \<noteq> GIT_REVOKE" by (simp add: type_uris)
    ultimately show ?thesis using assms(4,5) by (simp add: compose_git)
  qed
  then have "GIT_GRANT \<in> set (map fst (cap_query_dispatcher cs))" by (force dest: map_of_SomeD)
  then have disp: "dispatch_or_reject fw (cap_query_dispatcher cs) doc (ce_nid ce) = Ok (H_Grant (Some auth))"
    using assms(12) e by (simp add: dispatch_or_reject_def)
  let ?r = "grant_record auth subject rsc"
  have k: "key_from_query (grant_query auth subject rsc) = key_from_record ?r"
    by (metis grant_record_key(1) key_query_of_record)
  have c: "local_create ?r s = (Ok (), s\<lparr>ls_records := AList.update (key_from_record ?r) ?r (ls_records s)\<rparr>)"
    using assms(15,16) by (simp add: local_create_def hm_contains_def local_view_def k)
  then show ?thesis
    using disp assms(6,10,11,13)
    by (simp add: http_trust_task_def serve_document_def handle_document_def handle_grant_def
        require_authority_def local_repo_def k local_view_def)
qed

theorem http_grants_anonymously_witness:
  "\<exists>rep s'. http_trust_task sample_framework sample_wire local_repo memory_cap_store sample_call
      ''did:registry'' ''grant'' (local_new, cap_set_of [(''git-trust'', git_state)]) =
      (rep, s', cap_set_of [(''git-trust'', git_state)]) \<and> hr_status rep = 200 \<and>
    local_view s' = (local_view local_new)
      (key_from_query (grant_query ''did:community'' ''did:mallory'' ''org/repo'') \<mapsto>
       grant_record ''did:community'' ''did:mallory'' ''org/repo'')"
  by (rule http_grants_anonymously [where st = git_state and sts = "[(''git-trust'', git_state)]" and
        doc = "\<lparr>tk_id = ''g1'', tk_type = GIT_GRANT, tk_thread = None, tk_issuer = None, tk_recipient = None,
          tk_payload = JObj [(''resource'', JStr ''org/repo''), (''subject'', JStr ''did:mallory'')],
          tk_proof = None, tk_issued = None\<rparr>", OF sample_framework_ok])
    (simp_all add: git_enabled_def git_state_def authority_of_def get_str_def git_config_def
      starts_with_def sample_wire_def sample_text_def sample_parse_def grant_body_def sample_framework_def
      need_def, simp_all add: local_new_def)

end
