(* ===== verification/Capability_Properties.thy ===== *)
theory Capability_Properties
  imports Samples
begin

text \<open>
  The properties of message-id deduplication, of the capability set across saves and restarts, and
  of the git-trust records.
\<close>

section \<open>Deduplication\<close>

definition sample_create_doc :: document where
  "sample_create_doc = \<lparr>tk_id = ''m1'', tk_type = RECORD_CREATE, tk_thread = None,
     tk_issuer = Some ''did:admin'', tk_recipient = None,
     tk_payload = JObj [(''record'', record_member ''did:e'' ''did:a'')], tk_proof = Some (JStr ''valid''), tk_issued = None\<rparr>"

definition sample_handle ::
  "document \<Rightarrow> (local_storage, cap_states) registry \<Rightarrow> outcome \<times> (local_storage, cap_states) registry" where
  "sample_handle = serve_document sample_framework local_repo memory_cap_store sample_call build_dispatcher"

definition sample_after :: "outcome \<times> (local_storage, cap_states) registry" where
  "sample_after = sample_handle sample_create_doc (local_new, cap_set_of [])"

lemma sample_after_cacheable: "is_cacheable (fst sample_after)"
  by code_simp

lemma sample_create_is_write: "is_write sample_framework sample_create_doc"
  by (simp add: sample_create_doc_def is_write_uri [OF sample_framework_ok] type_uris is_write_slug_def)

text \<open>C5: One write delivered any number of times, one delivery after the other, within the replay window
  that starts before the first claim, when its id is neither remembered nor being processed at that
  claim: the handler runs until its outcome is one to remember, a success or a rejection that is
  not retryable; every further delivery answers this outcome again and the registry stays as the
  run that gave it left it.  A retryable rejection is not remembered: it is answered, the id is
  free again, and the next delivery runs the handler on the registry as it then is.\<close>

theorem redelivery_applied_once:
  assumes "memory_ok d" "is_write fw doc"
    and "memory_held d (message_key doc) t1 = None" "\<not> memory_busy d (message_key doc) t1"
    and "\<forall>(doc', nid', u1, u2) \<in> set ms. doc' = doc \<and> u1 < t1 + memory_ttl d" "0 < memory_ttl d"
    and "times_from t1 ((doc, nid, t1, t2) # ms)"
  shows "\<exists>d'. deliver fw memory_ids handle ((doc, nid, t1, t2) # ms) d w =
    (fst (run_until_final handle doc (Suc (length ms)) w), d', snd (run_until_final handle doc (Suc (length ms)) w))"
  using mem_ids.deliveries_run_until_final [OF assms(2,1,7), of "t1 + memory_ttl d" handle w] assms(3-6) by auto

definition poisoned :: local_storage where
  "poisoned = \<lparr>ls_records = [], ls_poisoned = True\<rparr>"

definition sample_poisoned :: "outcome \<times> (local_storage, cap_states) registry" where
  "sample_poisoned = sample_handle sample_create_doc (poisoned, cap_set_of [])"

lemma sample_poisoned_fails:
  "case fst sample_poisoned of Err e \<Rightarrow> er_retryable e | Ok d \<Rightarrow> False"
  by code_simp

theorem redelivery_applied_once_witness:
  "(\<exists>d'. deliver sample_framework memory_ids sample_handle
      [(sample_create_doc, ''r1'', 1000, 2000), (sample_create_doc, ''r2'', 3000, 3000),
       (sample_create_doc, ''r3'', 50000000000000, 50000000000000)]
      memory_default (local_new, cap_set_of []) =
      (replicate 3 (fst sample_after), d', snd sample_after)) \<and>
   (\<exists>d'. deliver sample_framework memory_ids sample_handle
      [(sample_create_doc, ''r1'', 0, 1), (sample_create_doc, ''r2'', 2, 3)] memory_default (poisoned, cap_set_of []) =
      ([fst sample_poisoned, fst (sample_handle sample_create_doc (snd sample_poisoned))], d',
       snd (sample_handle sample_create_doc (snd sample_poisoned))))"
proof
  have "\<exists>d'. deliver sample_framework memory_ids sample_handle
      [(sample_create_doc, ''r1'', 1000, 2000), (sample_create_doc, ''r2'', 3000, 3000),
       (sample_create_doc, ''r3'', 50000000000000, 50000000000000)] memory_default (local_new, cap_set_of []) =
    (fst (run_until_final sample_handle sample_create_doc (Suc (length
        [(sample_create_doc, ''r2'', 3000 :: int, 3000 :: int), (sample_create_doc, ''r3'', 50000000000000, 50000000000000)]))
        (local_new, cap_set_of [])), d',
     snd (run_until_final sample_handle sample_create_doc (Suc (length
        [(sample_create_doc, ''r2'', 3000 :: int, 3000 :: int), (sample_create_doc, ''r3'', 50000000000000, 50000000000000)]))
        (local_new, cap_set_of [])))"
    by (rule redelivery_applied_once [OF _ sample_create_is_write]) simp_all
  moreover have "run_until_final sample_handle sample_create_doc (Suc n) (local_new, cap_set_of []) =
      (replicate (Suc n) (fst sample_after), snd sample_after)" for n
  proof -
    obtain out w1 where "sample_handle sample_create_doc (local_new, cap_set_of []) = (out, w1)"
      by (metis prod.exhaust)
    then show ?thesis using sample_after_cacheable by (simp add: sample_after_def)
  qed
  ultimately show "\<exists>d'. deliver sample_framework memory_ids sample_handle
      [(sample_create_doc, ''r1'', 1000, 2000), (sample_create_doc, ''r2'', 3000, 3000),
       (sample_create_doc, ''r3'', 50000000000000, 50000000000000)] memory_default (local_new, cap_set_of []) =
      (replicate 3 (fst sample_after), d', snd sample_after)"
    by (simp add: eval_nat_numeral)
next
  have e: "\<not> is_cacheable (fst sample_poisoned)"
    using sample_poisoned_fails by (cases "fst sample_poisoned") auto
  have r: "run_until_final sample_handle sample_create_doc (Suc (Suc 0)) (poisoned, cap_set_of []) =
      ([fst sample_poisoned, fst (sample_handle sample_create_doc (snd sample_poisoned))],
       snd (sample_handle sample_create_doc (snd sample_poisoned)))"
  proof -
    obtain out w1 where "sample_handle sample_create_doc (poisoned, cap_set_of []) = (out, w1)"
      by (metis prod.exhaust)
    then show ?thesis using e by (simp add: sample_poisoned_def split: prod.split)
  qed
  have "\<exists>d'. deliver sample_framework memory_ids sample_handle
      [(sample_create_doc, ''r1'', 0, 1), (sample_create_doc, ''r2'', 2, 3)] memory_default (poisoned, cap_set_of []) =
    (fst (run_until_final sample_handle sample_create_doc (Suc (length [(sample_create_doc, ''r2'', 2 :: int, 3 :: int)]))
        (poisoned, cap_set_of [])), d',
     snd (run_until_final sample_handle sample_create_doc (Suc (length [(sample_create_doc, ''r2'', 2 :: int, 3 :: int)]))
        (poisoned, cap_set_of [])))"
    by (rule redelivery_applied_once [OF _ sample_create_is_write]) simp_all
  then show "\<exists>d'. deliver sample_framework memory_ids sample_handle
      [(sample_create_doc, ''r1'', 0, 1), (sample_create_doc, ''r2'', 2, 3)] memory_default (poisoned, cap_set_of []) =
      ([fst sample_poisoned, fst (sample_handle sample_create_doc (snd sample_poisoned))], d',
       snd (sample_handle sample_create_doc (snd sample_poisoned)))"
    using r by (simp only: list.size add_0_right One_nat_def add_Suc_right) simp
qed

text \<open>Documents without an issuer share one id space: once such a write is completed, a
  different write with the same id, from whichever administrator, is answered with the outcome of
  the first and is not applied.\<close>

theorem issuerless_ids_collide:
  assumes "memory_ok d" "is_write fw doc" "is_write fw doc'"
    and "tk_issuer doc = None" "tk_issuer doc' = None" "tk_id doc' = tk_id doc"
    and "memory_held d (message_key doc) t1 = None" "\<not> memory_busy d (message_key doc) t1"
    and "handle doc w = (out, w1)" "is_cacheable out" "t3 < t2 + memory_ttl d"
  shows "\<exists>d' d''. dispatch_idempotent fw memory_ids handle nid t1 t2 doc d w = (out, d', w1) \<and>
    dispatch_idempotent fw memory_ids handle nid' t3 t4 doc' d' w1 = (out, d'', w1)"
proof -
  obtain d' where d': "dispatch_idempotent fw memory_ids handle nid t1 t2 doc d w = (out, d', w1)"
    "memory_ok d'" "\<forall>t'. t' < t2 + memory_ttl d \<longrightarrow> memory_held d' (message_key doc) t' = Some (from_outcome out)"
    using mem_ids.completed_is_held [of d fw doc t1 handle w out w1 nid t2, OF assms(1,2,7-10)] by blast
  have k: "message_key doc' = message_key doc" using assms(4-6) by (simp add: message_key_def)
  have "memory_held d' (message_key doc') t3 = Some (from_outcome out)" using d'(3) assms(11) k by simp
  from mem_ids.replay [of d' fw doc' t3 _ handle nid' t4 w1, OF d'(2) assms(3) this]
  show ?thesis using d'(1) by auto
qed

theorem issuerless_ids_collide_witness:
  "\<exists>d' d''. dispatch_idempotent sample_framework memory_ids sample_handle ''r1'' 1000 2000
      (sample_create_doc\<lparr>tk_issuer := None\<rparr>) memory_default (local_new, cap_set_of []) =
      (fst (sample_handle (sample_create_doc\<lparr>tk_issuer := None\<rparr>) (local_new, cap_set_of [])), d',
       snd (sample_handle (sample_create_doc\<lparr>tk_issuer := None\<rparr>) (local_new, cap_set_of []))) \<and>
    dispatch_idempotent sample_framework memory_ids sample_handle ''r2'' 3000 4000
      (sample_create_doc\<lparr>tk_issuer := None, tk_type := RECORD_DELETE\<rparr>) d'
      (snd (sample_handle (sample_create_doc\<lparr>tk_issuer := None\<rparr>) (local_new, cap_set_of []))) =
      (fst (sample_handle (sample_create_doc\<lparr>tk_issuer := None\<rparr>) (local_new, cap_set_of [])), d'',
       snd (sample_handle (sample_create_doc\<lparr>tk_issuer := None\<rparr>) (local_new, cap_set_of [])))"
proof -
  have w: "is_write sample_framework (sample_create_doc\<lparr>tk_issuer := None\<rparr>)"
    "is_write sample_framework (sample_create_doc\<lparr>tk_issuer := None, tk_type := RECORD_DELETE\<rparr>)"
    by (simp_all add: sample_create_doc_def is_write_uri [OF sample_framework_ok] type_uris is_write_slug_def)
  have c: "is_cacheable (fst (sample_handle (sample_create_doc\<lparr>tk_issuer := None\<rparr>) (local_new, cap_set_of [])))"
    by code_simp
  show ?thesis
    by (rule issuerless_ids_collide [where handle = sample_handle and w = "(local_new, cap_set_of [])"
          and doc = "sample_create_doc\<lparr>tk_issuer := None\<rparr>",
          OF memory_default_ok(1) w _ _ _ memory_default_ok(2,3) _ c]) simp_all
qed

section \<open>The capability set\<close>

text \<open>C6: When enabling a capability succeeds, the store holds the new state with the capability
  enabled, both live dispatchers are the composition of that state, and a registry restarted over
  the store serves the same dispatchers.\<close>

theorem enable_survives_restart:
  assumes "capability_state_store store stored"
    and "cap_enable store now cap version config delegate s = (Ok entry, s')"
    and "bt_of (map (\<lambda>d. (cd_capability d, d)) available) = cap_available s"
    and "cap_new store available (cap_base s) (cap_base_query s) (cap_stored s') = Ok n"
  shows "stored (cap_stored s') = Some (cap_state_map s') \<and> cst_enabled entry \<and>
    map_of (cap_state_map s') cap = Some entry \<and> cap_composed s' \<and>
    cap_dispatcher n = cap_dispatcher s' \<and> cap_query_dispatcher n = cap_query_dispatcher s'"
proof -
  note e = capability_state_store.enable_persists [OF assms(1,2)]
  obtain c1 where s': "s' = cap_rebuild (s\<lparr>cap_state_map := bt_insert cap entry (cap_state_map s), cap_stored := c1\<rparr>)"
    using assms(2) by (rule cap_enable_Ok)
  then have "cap_base s' = cap_base s" "cap_base_query s' = cap_base_query s" "cap_available s' = cap_available s"
    by simp_all
  then show ?thesis
    using e capability_state_store.restart_same(1,2) [OF assms(1) e(1,2), of available n] assms(3,4) by simp
qed

definition sample_files :: cap_files where
  "sample_files = \<lparr>cf_file = None, cf_tmp = None, cf_script = []\<rparr>"

definition file_set :: "cap_files \<Rightarrow> cap_files cap_set" where
  "file_set c = cap_rebuild \<lparr>cap_available = [(''git-trust'', git_definition)], cap_state_map = [],
     cap_stored = c, cap_base = build_dispatcher, cap_base_query = build_query_dispatcher,
     cap_dispatcher = [], cap_query_dispatcher = []\<rparr>"

lemma git_config_valid: "cap_config_ok git_definition (Some git_config) = Ok ()"
  by (simp add: cap_config_ok_def git_definition_def git_validate_authority git_config_def starts_with_def)

lemma git_available: "bt_of (map (\<lambda>d. (cd_capability d, d)) [git_definition]) = [(''git-trust'', git_definition)]"
  by (simp add: bt_of_def git_definition_def)

lemma file_set_enable:
  assumes "st_save store (bt_insert ''git-trust'' git_state []) c = (Ok (), c1)"
  shows "cap_enable store 0 ''git-trust'' ''0.1'' (Some git_config) None
      (cap_rebuild \<lparr>cap_available = [(''git-trust'', git_definition)], cap_state_map = [],
     cap_stored = c, cap_base = build_dispatcher, cap_base_query = build_query_dispatcher,
     cap_dispatcher = [], cap_query_dispatcher = []\<rparr>) =
    (Ok git_state, cap_rebuild \<lparr>cap_available = [(''git-trust'', git_definition)],
       cap_state_map = [(''git-trust'', git_state)],
       cap_stored = c1, cap_base = build_dispatcher, cap_base_query = build_query_dispatcher,
       cap_dispatcher = [], cap_query_dispatcher = []\<rparr>)"
  using assms by (simp add: cap_enable_def git_config_valid cap_is_enabled_def cap_commit_def git_state_def
      cap_rebuild_def Let_def)

theorem enable_survives_restart_witness:
  "\<exists>s' n. cap_enable (file_cap_store unary_caps) 0 ''git-trust'' ''0.1'' (Some git_config) None
      (file_set sample_files) = (Ok git_state, s') \<and>
    cap_new (file_cap_store unary_caps) [git_definition] build_dispatcher build_query_dispatcher
      (cap_stored s') = Ok n \<and>
    file_stored unary_caps (cap_stored s') = Some (cap_state_map s') \<and>
    cap_dispatcher n = cap_dispatcher s' \<and> cap_query_dispatcher n = cap_query_dispatcher s'"
proof -
  obtain c1 where c1: "st_save (file_cap_store unary_caps) (bt_insert ''git-trust'' git_state []) sample_files = (Ok (), c1)"
    "cf_script c1 = []"
    by (simp add: file_cap_store_def file_save_def unary_caps_def io_step_def cf_next_def sample_files_def)
  define s' where "s' = cap_rebuild \<lparr>cap_available = [(''git-trust'', git_definition)],
       cap_state_map = [(''git-trust'', git_state)],
       cap_stored = c1, cap_base = build_dispatcher, cap_base_query = build_query_dispatcher,
       cap_dispatcher = [], cap_query_dispatcher = []\<rparr>"
  have e: "cap_enable (file_cap_store unary_caps) 0 ''git-trust'' ''0.1'' (Some git_config) None
      (file_set sample_files) = (Ok git_state, s')"
    using file_set_enable [OF c1(1)] by (simp add: file_set_def s'_def)
  have st: "file_stored unary_caps c1 = Some (bt_insert ''git-trust'' git_state [])"
    using file_caps.save_stored [OF c1(1)] .
  have "\<exists>m c2. st_load (file_cap_store unary_caps) c1 = (Ok m, c2)"
    using st c1(2) by (auto simp: file_cap_store_def file_load_def cf_next_def file_stored_def split: option.splits)
  then obtain n where n: "cap_new (file_cap_store unary_caps) [git_definition] build_dispatcher
      build_query_dispatcher (cap_stored s') = Ok n"
    by (auto simp: cap_new_def s'_def Let_def)
  have b: "cap_base (file_set sample_files) = build_dispatcher"
    "cap_base_query (file_set sample_files) = build_query_dispatcher"
    "cap_available (file_set sample_files) = [(''git-trust'', git_definition)]"
    by (simp_all add: file_set_def)
  show ?thesis
    using enable_survives_restart [OF file_caps.capability_state_store_axioms e, of "[git_definition]" n]
      git_available n e b by auto
qed

text \<open>When the save inside an enable fails, the request is answered with a storage error and
  neither the store nor the live dispatchers change, yet the capability counts as enabled in
  memory: the retry is refused with \<open>AlreadyEnabled\<close> and never brings the handlers up.\<close>

theorem failed_enable_sticks:
  assumes "capability_state_store store stored"
    and "cap_enable store now cap version config delegate s = (Err (Storage msg), s')"
  shows "stored (cap_stored s') = stored (cap_stored s) \<and> cap_dispatcher s' = cap_dispatcher s \<and>
    cap_query_dispatcher s' = cap_query_dispatcher s \<and>
    cap_enable store now' cap version config delegate s' = (Err AlreadyEnabled, s')"
proof -
  note f = capability_state_store.failed_enable_diverges [OF assms]
  from assms(2) have "cap_enable store now' cap version config delegate s' = (Err AlreadyEnabled, s')"
  proof (cases rule: cap_enable_cases)
    case (commit def cres)
    then have "cap_available s' = cap_available s"
      by (cases cres) (auto elim!: cap_commit_Ok cap_commit_Err)
    then show ?thesis using commit(1,2) f(4) by (simp add: cap_enable_def)
  qed simp_all
  then show ?thesis using f by simp
qed

theorem failed_enable_sticks_witness:
  "\<exists>s'. cap_enable (file_cap_store unary_caps) 0 ''git-trust'' ''0.1'' (Some git_config) None
      (file_set (sample_files\<lparr>cf_script := [IoFails ''disk full'']\<rparr>)) = (Err (Storage ''disk full''), s') \<and>
    file_stored unary_caps (cap_stored s') = Some [] \<and>
    cap_enable (file_cap_store unary_caps) 1 ''git-trust'' ''0.1'' (Some git_config) None s' =
      (Err AlreadyEnabled, s')"
proof -
  let ?c = "sample_files\<lparr>cf_script := [IoFails ''disk full'']\<rparr>"
  have "\<exists>s'. cap_enable (file_cap_store unary_caps) 0 ''git-trust'' ''0.1'' (Some git_config) None (file_set ?c) =
      (Err (Storage ''disk full''), s')"
    by (simp add: cap_enable_def git_config_valid cap_is_enabled_def cap_commit_def file_set_def
        cap_rebuild_def Let_def file_cap_store_def file_save_def unary_caps_def io_step_def cf_next_def sample_files_def)
  then obtain s' where e: "cap_enable (file_cap_store unary_caps) 0 ''git-trust'' ''0.1'' (Some git_config) None
      (file_set ?c) = (Err (Storage ''disk full''), s')" by blast
  have "file_stored unary_caps (cap_stored (file_set ?c)) = Some []"
    by (simp add: file_set_def file_stored_def sample_files_def)
  then show ?thesis
    using failed_enable_sticks [OF file_caps.capability_state_store_axioms e, of 1] e by auto
qed

text \<open>Capabilities are off by default: a registry whose store has no enabled entry serves the
  git-trust tasks on neither dispatcher, and the only tasks its HTTP dispatcher serves are the two
  queries and the capability listing.\<close>

theorem off_by_default:
  assumes "capability_state_store store stored" "stored c = Some st" "git_enabled st = None"
    and "cap_new store [git_definition] build_dispatcher build_query_dispatcher c = Ok s"
  shows "map_of (cap_dispatcher s) GIT_GRANT = None \<and> map_of (cap_dispatcher s) GIT_REVOKE = None \<and>
    (\<forall>u h. map_of (cap_query_dispatcher s) u = Some h \<longrightarrow>
       (u, h) \<in> {(RECOGNITION, H_Recognition), (AUTHORIZATION, H_Authorization), (CAP_LIST, H_CapList)})"
proof -
  obtain m c1 where l: "st_load store c = (Ok m, c1)"
    using assms(4) by (auto simp: cap_new_def split: prod.splits result.splits)
  have m: "m = st" using capability_state_store.load_stored [OF assms(1) l] assms(2) by simp
  have d: "cap_dispatcher s = compose build_dispatcher [(''git-trust'', git_definition)] st True"
    "cap_query_dispatcher s = compose build_query_dispatcher [(''git-trust'', git_definition)] st False"
    using assms(4) l m git_available by (auto simp: cap_new_def Let_def)
  have g: "map_of build_dispatcher GIT_GRANT = None" "map_of build_dispatcher GIT_REVOKE = None"
    by (simp_all add: build_dispatcher_def type_uris)
  have n: "GIT_GRANT \<notin> {CAP_LIST, CAP_ENABLE, CAP_DISABLE}" "GIT_REVOKE \<notin> {CAP_LIST, CAP_ENABLE, CAP_DISABLE}"
    by (simp_all add: type_uris)
  show ?thesis unfolding d compose_git compose_base
    using assms(3) g n by (auto simp: query_dispatcher_entries split: if_splits)
qed

theorem off_by_default_witness:
  "\<exists>s. cap_new memory_cap_store [git_definition] build_dispatcher build_query_dispatcher [] = Ok s \<and>
    map_of (cap_query_dispatcher s) GIT_GRANT = None"
proof -
  obtain s where s: "cap_new memory_cap_store [git_definition] build_dispatcher build_query_dispatcher [] = Ok s"
    by (simp add: cap_new_def memory_cap_store_def Let_def)
  have a: "\<forall>u h. map_of (cap_query_dispatcher s) u = Some h \<longrightarrow>
       (u, h) \<in> {(RECOGNITION, H_Recognition), (AUTHORIZATION, H_Authorization), (CAP_LIST, H_CapList)}"
    using off_by_default [OF mem_caps.capability_state_store_axioms _ _ s, of "[]"]
    by (simp add: git_enabled_def)
  have "map_of (cap_query_dispatcher s) GIT_GRANT = None"
  proof (cases "map_of (cap_query_dispatcher s) GIT_GRANT")
    case (Some h)
    then have "GIT_GRANT \<in> {RECOGNITION, AUTHORIZATION, CAP_LIST}" using a by blast
    then show ?thesis by (simp add: type_uris)
  qed
  then show ?thesis using s by blast
qed

section \<open>Git-trust records\<close>

text \<open>C35: After a revocation succeeds, an authorization query for the tuple answers false while the
  recognition of the record is what it was, and a later grant of the same tuple changes no record:
  it is refused with the task failure \<open>already_granted\<close> although no active grant exists, unless the
  backend's create fails for another reason than the record it finds, which is answered as an
  internal error with that reason.\<close>

theorem revoke_blocks_grant:
  assumes "trust_repository repo atomic kr kq view good" "good s"
    and "handle_revoke fw repo (Some auth) nid doc s = (Ok d, s')"
    and "fw_grant_payload fw doc = Ok (subject, rsc)" "fw_grant_payload fw doc' = Ok (subject, rsc)"
    and "handle_grant fw repo (Some auth) nid' doc' s' = (out, s'')"
  shows "answer is_authorized (view s' (kq (grant_query auth subject rsc))) = False \<and>
    answer is_recognized (view s' (kq (grant_query auth subject rsc))) =
      answer is_recognized (view s (kq (grant_query auth subject rsc))) \<and>
    view s'' = view s' \<and>
    (out = reject fw doc' nid' (TaskFailed
       ''already_granted: an active grant exists for this subject and resource'') \<or>
     (\<exists>e. fst (repo_create repo (grant_record auth subject rsc) s') = Err e \<and> \<not> says_exists e \<and>
        out = reject fw doc' nid' (InternalError (repository_error_str e))))"
proof -
  obtain a su rs x where r: "fw_grant_payload fw doc = Ok (su, rs)" "Some auth = Some a"
    "view s (kq (grant_query a su rs)) = Some x" "good s'"
    "view s' = (view s)(kq (grant_query a su rs) \<mapsto> revoked_record a su rs x)"
    by (rule trust_repository.revoke_law [OF assms(1-3)])
  then have "view s' (kq (grant_query auth subject rsc)) \<noteq> None" using assms(4) by simp
  note g = trust_repository.grant_when_recorded [OF assms(1) r(4) assms(5) this assms(6)]
  have "answer is_authorized (view s' (kq (grant_query auth subject rsc))) = False \<and>
      answer is_recognized (view s' (kq (grant_query auth subject rsc))) =
      answer is_recognized (view s (kq (grant_query auth subject rsc)))"
    using r assms(4) by (simp add: answer_def)
  moreover from g have "view s'' = view s'" by simp
  ultimately show ?thesis using g by (auto split: if_splits)
qed

definition granted :: local_storage where
  "granted = local_with_records [grant_record ''did:c'' ''did:e'' ''org/repo'']"

definition sample_grant_doc :: document where
  "sample_grant_doc = \<lparr>tk_id = ''g1'', tk_type = GIT_REVOKE, tk_thread = None, tk_issuer = None,
     tk_recipient = None, tk_payload = JObj [(''resource'', JStr ''org/repo''), (''subject'', JStr ''did:e'')],
     tk_proof = None, tk_issued = None\<rparr>"

lemma granted_inv: "local_inv granted"
  using local_with_records_fold [OF local_new_inv(1), of "[grant_record ''did:c'' ''did:e'' ''org/repo'']"]
  by (simp add: granted_def local_with_records_def Let_def)

lemma sample_revoke_ok:
  "is_ok (fst (handle_revoke sample_framework local_repo (Some ''did:c'') ''r1'' sample_grant_doc granted))"
  by code_simp

theorem revoke_blocks_grant_witness:
  "\<exists>d s'. handle_revoke sample_framework local_repo (Some ''did:c'') ''r1'' sample_grant_doc granted = (Ok d, s') \<and>
    fst (handle_grant sample_framework local_repo (Some ''did:c'') ''r2'' sample_grant_doc s') =
      reject sample_framework sample_grant_doc ''r2'' (TaskFailed
        ''already_granted: an active grant exists for this subject and resource'')"
proof -
  obtain d s' where r: "handle_revoke sample_framework local_repo (Some ''did:c'') ''r1'' sample_grant_doc granted = (Ok d, s')"
    using sample_revoke_ok by (metis is_ok.elims(2) prod.collapse)
  have p: "fw_grant_payload sample_framework sample_grant_doc = Ok (''did:e'', ''org/repo'')"
    by (simp add: sample_framework_def sample_grant_doc_def need_def get_str_def)
  obtain out s'' where g: "handle_grant sample_framework local_repo (Some ''did:c'') ''r2'' sample_grant_doc s' = (out, s'')"
    by fastforce
  have "\<not> ls_poisoned (snd (handle_revoke sample_framework local_repo (Some ''did:c'') ''r1'' sample_grant_doc granted))"
    by code_simp
  then have "says_exists e" if "fst (repo_create local_repo q s') = Err e" for q e
    using that r by (auto simp: local_repo_def local_create_def Let_def split: if_splits)
  then show ?thesis
    using revoke_blocks_grant [OF local.trust_repository_axioms granted_inv r p p g] r g by (metis fst_conv)
qed

end
