(* ===== verification/Dedup_Concurrent.thy ===== *)
theory Dedup_Concurrent
  imports Dedup
begin

text \<open>
  Concurrent deliveries.  The listener spawns a task for every frame, so the calls of
  \<open>dispatch_idempotent\<close> interleave: each of the claim, the handler and the resolution of the claim
  is atomic (the store locks its map), other tasks run in between.  The phases of a call are
  functions, composed they are \<open>dispatch_idempotent\<close>; the interleaving is a step relation on a pool of
  workers with one clock; the locale \<open>leased_store\<close> extends the contract of the store by what a claim
  excludes, and the in-memory store interprets it.
\<close>

section \<open>The phases of a dispatch\<close>

datatype phase =
    Fresh
  | Unguarded
  | Holding int
  | Handled outcome int
  | Replied outcome
  | Crashed

definition arrive ::
  "framework \<Rightarrow> 'd message_store \<Rightarrow> string \<Rightarrow> int \<Rightarrow> document \<Rightarrow> 'd \<Rightarrow> phase \<times> 'd" where
  "arrive fw store nid t doc d =
     (if \<not> is_write fw doc then (Unguarded, d)
      else case ms_claim store (message_key doc) t d of
        (Ok (Replay stored), d1) \<Rightarrow> (Replied (into_outcome stored), d1)
      | (Ok InFlight, d1) \<Rightarrow> (Replied (Err (in_flight_rejection fw doc nid)), d1)
      | (Err e, d1) \<Rightarrow> (Unguarded, d1)
      | (Ok Acquired, d1) \<Rightarrow> (Holding t, d1))"

definition resolve :: "'d message_store \<Rightarrow> document \<Rightarrow> outcome \<Rightarrow> int \<Rightarrow> 'd \<Rightarrow> 'd" where
  "resolve store doc out t d =
     snd (if is_cacheable out then ms_complete store (message_key doc) (from_outcome out) t d
          else ms_release store (message_key doc) t d)"

text \<open>The phases, one after the other, are the dispatch.\<close>

lemma dispatch_phases:
  "dispatch_idempotent fw store handle nid t1 t2 doc d w =
     (case arrive fw store nid t1 doc d of
        (Replied out, d1) \<Rightarrow> (out, d1, w)
      | (Holding t, d1) \<Rightarrow> (case handle doc w of (out, w1) \<Rightarrow> (out, resolve store doc out t2 d1, w1))
      | (_, d1) \<Rightarrow> (case handle doc w of (out, w1) \<Rightarrow> (out, d1, w1)))"
  by (auto simp: dispatch_idempotent_def arrive_def resolve_def Let_def
      split: prod.splits result.splits claim.splits)

section \<open>The pool\<close>

text \<open>Worker \<open>i\<close> delivers \<open>wk_doc i\<close>; the log holds the runs of the handler, the last one first.\<close>

record ('d, 'w) workers =
  wk_fw :: framework
  wk_store :: "'d message_store"
  wk_handle :: "document \<Rightarrow> 'w \<Rightarrow> outcome \<times> 'w"
  wk_doc :: "nat \<Rightarrow> document"
  wk_nid :: "nat \<Rightarrow> string"

record ('d, 'w) pool =
  po_now :: int
  po_ids :: 'd
  po_world :: 'w
  po_phase :: "nat \<Rightarrow> phase"
  po_log :: "(nat \<times> outcome) list"

definition pool_start :: "int \<Rightarrow> 'd \<Rightarrow> 'w \<Rightarrow> ('d, 'w) pool" where
  "pool_start t d w = \<lparr>po_now = t, po_ids = d, po_world = w, po_phase = (\<lambda>i. Fresh), po_log = []\<rparr>"

definition set_phase :: "nat \<Rightarrow> phase \<Rightarrow> ('d, 'w) pool \<Rightarrow> ('d, 'w) pool" where
  "set_phase i p s = s\<lparr>po_phase := (po_phase s)(i := p)\<rparr>"

lemma set_phase_simps [simp]:
  "po_now (set_phase i p s) = po_now s" "po_ids (set_phase i p s) = po_ids s"
  "po_world (set_phase i p s) = po_world s" "po_log (set_phase i p s) = po_log s"
  "po_phase (set_phase i p s) j = (if j = i then p else po_phase s j)"
  by (simp_all add: set_phase_def)

text \<open>A handler that panics has had its effect or not; its claim stays.\<close>

inductive pool_step :: "('d, 'w) workers \<Rightarrow> ('d, 'w) pool \<Rightarrow> ('d, 'w) pool \<Rightarrow> bool" for W where
  Tick: "po_now s \<le> t \<Longrightarrow> pool_step W s (s\<lparr>po_now := t\<rparr>)"
| Arrive: "po_phase s i = Fresh \<Longrightarrow>
    arrive (wk_fw W) (wk_store W) (wk_nid W i) (po_now s) (wk_doc W i) (po_ids s) = (p, d) \<Longrightarrow>
    pool_step W s (set_phase i p (s\<lparr>po_ids := d\<rparr>))"
| Run: "po_phase s i = Holding t \<Longrightarrow> wk_handle W (wk_doc W i) (po_world s) = (out, w) \<Longrightarrow>
    pool_step W s (set_phase i (Handled out t) (s\<lparr>po_world := w, po_log := (i, out) # po_log s\<rparr>))"
| Run_Unguarded: "po_phase s i = Unguarded \<Longrightarrow> wk_handle W (wk_doc W i) (po_world s) = (out, w) \<Longrightarrow>
    pool_step W s (set_phase i (Replied out) (s\<lparr>po_world := w, po_log := (i, out) # po_log s\<rparr>))"
| Resolve: "po_phase s i = Handled out t \<Longrightarrow>
    pool_step W s (set_phase i (Replied out)
      (s\<lparr>po_ids := resolve (wk_store W) (wk_doc W i) out (po_now s) (po_ids s)\<rparr>))"
| Crash_Before: "po_phase s i = Holding t \<Longrightarrow> pool_step W s (set_phase i Crashed s)"
| Crash_After: "po_phase s i = Handled out t \<Longrightarrow> pool_step W s (set_phase i Crashed s)"

inductive_cases pool_stepE: "pool_step W s s'"

text \<open>Reachable through states that satisfy a condition.\<close>

inductive pool_reach ::
  "(('d, 'w) pool \<Rightarrow> bool) \<Rightarrow> ('d, 'w) workers \<Rightarrow> ('d, 'w) pool \<Rightarrow> ('d, 'w) pool \<Rightarrow> bool" for P W s0 where
  Start: "pool_reach P W s0 s0"
| Step: "pool_reach P W s0 s \<Longrightarrow> pool_step W s s' \<Longrightarrow> P s' \<Longrightarrow> pool_reach P W s0 s'"

lemma pool_reach_invariant:
  assumes "pool_reach P W s0 s" "good s0"
    and "\<And>s s'. good s \<Longrightarrow> pool_step W s s' \<Longrightarrow> P s' \<Longrightarrow> good s'"
  shows "good s"
  using assms by (induction) auto

fun holder :: "phase \<Rightarrow> int option" where
  "holder (Holding t) = Some t"
| "holder (Handled out t) = Some t"
| "holder _ = None"

lemma holder_Some: "holder p = Some t \<longleftrightarrow> p = Holding t \<or> (\<exists>out. p = Handled out t)"
  by (cases p) auto

text \<open>No worker has crashed, and none keeps its claim for the whole lease.\<close>

definition orderly :: "int \<Rightarrow> ('d, 'w) pool \<Rightarrow> bool" where
  "orderly lease s \<longleftrightarrow>
     (\<forall>i. po_phase s i \<noteq> Crashed \<and> (\<forall>t. holder (po_phase s i) = Some t \<longrightarrow> po_now s - t < lease))"

definition deliveries_of :: "('d, 'w) workers \<Rightarrow> string \<Rightarrow> nat set" where
  "deliveries_of W k = {i. is_write (wk_fw W) (wk_doc W i) \<and> message_key (wk_doc W i) = k}"

text \<open>The runs that changed something for good: those whose outcome is final.\<close>

definition final_runs :: "('d, 'w) workers \<Rightarrow> string \<Rightarrow> ('d, 'w) pool \<Rightarrow> (nat \<times> outcome) list" where
  "final_runs W k s = filter (\<lambda>(i, out). i \<in> deliveries_of W k \<and> is_cacheable out) (po_log s)"

lemma in_flight_not_cacheable [simp]: "er_retryable (in_flight_rejection fw doc nid)"
  by (simp add: in_flight_rejection_def)

section \<open>A store with leases\<close>

locale leased_store = message_id_store store held busy ttl ok
  for store :: "'d message_store" and held busy ttl ok +
  fixes lease :: "'d \<Rightarrow> int"
  assumes claim_leases: "ok d \<Longrightarrow> ms_claim store k t d = (Ok Acquired, d') \<Longrightarrow>
      (\<forall>t'. t' < t + lease d \<longrightarrow> busy d' k t')"
    and claim_busy: "ok d \<Longrightarrow> ms_claim store k t d = (cres, d') \<Longrightarrow>
      lease d' = lease d \<and> (\<forall>k' t'. t \<le> t' \<longrightarrow> busy d k' t' \<longrightarrow> busy d' k' t') \<and>
      (\<forall>k' t'. busy d' k' t' \<longrightarrow> busy d k' t' \<or> t' < t + lease d)"
    and complete_busy: "ok d \<Longrightarrow> ms_complete store k out t d = (ures, d') \<Longrightarrow>
      lease d' = lease d \<and> (\<forall>t'. \<not> busy d' k t') \<and> (\<forall>k' t'. k' \<noteq> k \<longrightarrow> busy d' k' t' = busy d k' t')"
    and release_busy: "ok d \<Longrightarrow> ms_release store k t d = (ures, d') \<Longrightarrow>
      lease d' = lease d \<and> (\<forall>t'. held d' k t' = None \<and> \<not> busy d' k t') \<and>
      (\<forall>k' t'. k' \<noteq> k \<longrightarrow> busy d' k' t' = busy d k' t')"
    and busy_not_held: "busy d k t \<Longrightarrow> held d k t' = None"
begin

text \<open>What an arrival with key \<open>k\<close> is told.\<close>

lemma arrive_write:
  assumes "ok d" "is_write fw doc" "arrive fw store nid t doc d = (p, d')"
  shows "p = (case held d (message_key doc) t of
      Some out \<Rightarrow> Replied (into_outcome out)
    | None \<Rightarrow> if busy d (message_key doc) t then Replied (Err (in_flight_rejection fw doc nid)) else Holding t)"
    and "\<exists>c. ms_claim store (message_key doc) t d = (Ok c, d')"
proof -
  obtain c d1 where c: "ms_claim store (message_key doc) t d = (Ok c, d1)" using total(2) by blast
  have "c = (case held d (message_key doc) t of Some out \<Rightarrow> Replay out
      | None \<Rightarrow> if busy d (message_key doc) t then InFlight else Acquired)"
    using claim_answer [OF assms(1) c] .
  then show "p = (case held d (message_key doc) t of
      Some out \<Rightarrow> Replied (into_outcome out)
    | None \<Rightarrow> if busy d (message_key doc) t then Replied (Err (in_flight_rejection fw doc nid)) else Holding t)"
    and "\<exists>c. ms_claim store (message_key doc) t d = (Ok c, d')"
    using c assms(2,3) by (auto simp: arrive_def split: option.splits if_splits)
qed

lemma arrive_keeps:
  assumes "ok d" "arrive fw store nid t doc d = (p, d')"
  shows "ok d' \<and> ttl d' = ttl d \<and> lease d' = lease d \<and>
    (\<forall>k t'. t \<le> t' \<longrightarrow> held d' k t' = held d k t') \<and> (\<forall>k t'. t \<le> t' \<longrightarrow> busy d k t' \<longrightarrow> busy d' k t') \<and>
    (\<forall>k t'. busy d' k t' \<longrightarrow> busy d k t' \<or> t' < t + lease d)"
proof (cases "is_write fw doc")
  case False
  then show ?thesis using assms by (simp add: arrive_def)
next
  case True
  obtain c where c: "ms_claim store (message_key doc) t d = (Ok c, d')" using arrive_write(2) [OF assms(1) True assms(2)] by blast
  show ?thesis using claim_keeps [OF assms(1) c] claim_busy [OF assms(1) c] by blast
qed

lemma arrive_leases:
  assumes "ok d" "arrive fw store nid t doc d = (Holding u, d')"
  shows "u = t \<and> is_write fw doc \<and> (\<forall>t'. t' < t + lease d \<longrightarrow> busy d' (message_key doc) t')"
proof (cases "is_write fw doc")
  case False
  then show ?thesis using assms by (simp add: arrive_def)
next
  case True
  obtain c where c: "ms_claim store (message_key doc) t d = (Ok c, d')" using arrive_write(2) [OF assms(1) True assms(2)] by blast
  have "c = Acquired \<and> u = t" using assms(2) c True by (simp add: arrive_def split: claim.splits)
  then show ?thesis using claim_leases [OF assms(1)] c True by auto
qed

lemma resolve_keeps:
  assumes "ok d"
  shows "ok (resolve store doc out t d) \<and> ttl (resolve store doc out t d) = ttl d \<and>
    lease (resolve store doc out t d) = lease d \<and>
    (\<forall>k t'. k \<noteq> message_key doc \<longrightarrow> held (resolve store doc out t d) k t' = held d k t' \<and>
       busy (resolve store doc out t d) k t' = busy d k t')"
    and "is_cacheable out \<Longrightarrow> t' < t + ttl d \<Longrightarrow>
      held (resolve store doc out t d) (message_key doc) t' = Some (from_outcome out)"
    and "\<not> is_cacheable out \<Longrightarrow> held (resolve store doc out t d) (message_key doc) t' = None"
    and "\<not> busy (resolve store doc out t d) (message_key doc) t'"
proof -
  obtain u d1 where c: "ms_complete store (message_key doc) (from_outcome out) t d = (Ok u, d1)" using total(1) by blast
  obtain r d2 where r: "ms_release store (message_key doc) t d = (r, d2)" by (metis prod.exhaust)
  show "ok (resolve store doc out t d) \<and> ttl (resolve store doc out t d) = ttl d \<and>
      lease (resolve store doc out t d) = lease d \<and>
      (\<forall>k t'. k \<noteq> message_key doc \<longrightarrow> held (resolve store doc out t d) k t' = held d k t' \<and>
         busy (resolve store doc out t d) k t' = busy d k t')"
    using complete_keeps [OF assms c] complete_busy [OF assms c] release_keeps [OF assms r] release_busy [OF assms r] c r
    by (cases "is_cacheable out") (simp_all add: resolve_def)
  show "held (resolve store doc out t d) (message_key doc) t' = Some (from_outcome out)"
    if "is_cacheable out" "t' < t + ttl d"
    using that complete_holds [OF assms c] c by (simp add: resolve_def)
  show "held (resolve store doc out t d) (message_key doc) t' = None" if "\<not> is_cacheable out"
    using that release_busy [OF assms r] r by (simp add: resolve_def)
  show "\<not> busy (resolve store doc out t d) (message_key doc) t'"
    using complete_busy [OF assms c] release_busy [OF assms r] c r by (cases "is_cacheable out") (simp_all add: resolve_def)
qed

text \<open>
  The store stays well formed, its durations do not change, the clock runs forward, and only writes
  hold claims.
\<close>

definition base :: "('d, 'w) workers \<Rightarrow> 'd \<Rightarrow> int \<Rightarrow> ('d, 'w) pool \<Rightarrow> bool" where
  "base W d0 t0 s \<longleftrightarrow> ok (po_ids s) \<and> ttl (po_ids s) = ttl d0 \<and> lease (po_ids s) = lease d0 \<and> t0 \<le> po_now s \<and>
     (\<forall>i. holder (po_phase s i) \<noteq> None \<longrightarrow> is_write (wk_fw W) (wk_doc W i))"

lemma arrive_holder: "arrive fw st nid t doc d = (p, d') \<Longrightarrow> holder p \<noteq> None \<Longrightarrow> is_write fw doc"
  by (auto simp: arrive_def split: if_splits)

lemma base_step:
  assumes "base W d0 t0 s" "pool_step W s s'" "wk_store W = store"
  shows "base W d0 t0 s'"
  using assms(2,1,3)
proof cases
  case (Arrive i p d)
  then show ?thesis using assms(1,3) arrive_keeps [of "po_ids s"] arrive_holder [OF Arrive(3)]
    by (auto simp: base_def)
qed (auto simp: base_def resolve_keeps(1))

text \<open>Claims exclude each other: who holds one is alone with its key, and the store says busy.\<close>

definition exclusive :: "('d, 'w) workers \<Rightarrow> string \<Rightarrow> ('d, 'w) pool \<Rightarrow> bool" where
  "exclusive W k s \<longleftrightarrow>
     (\<forall>i \<in> deliveries_of W k. po_phase s i \<noteq> Unguarded \<and>
        (\<forall>t. holder (po_phase s i) = Some t \<longrightarrow>
           (\<forall>t'. po_now s \<le> t' \<and> t' < t + lease (po_ids s) \<longrightarrow> busy (po_ids s) k t'))) \<and>
     (\<forall>i \<in> deliveries_of W k. \<forall>j \<in> deliveries_of W k.
        holder (po_phase s i) \<noteq> None \<longrightarrow> holder (po_phase s j) \<noteq> None \<longrightarrow> i = j)"

lemma exclusive_busy:
  assumes "exclusive W k s" "base W d0 t0 s" "i \<in> deliveries_of W k" "holder (po_phase s i) = Some t"
    and "po_now s \<le> t'" "t' < t + lease d0"
  shows "busy (po_ids s) k t'"
  using assms by (auto simp: exclusive_def base_def)

lemma exclusive_frame:
  assumes "exclusive W k s"
    and "\<And>i t. i \<in> deliveries_of W k \<Longrightarrow> holder (po_phase s' i) = Some t \<Longrightarrow> holder (po_phase s i) = Some t"
    and "\<And>i. i \<in> deliveries_of W k \<Longrightarrow> po_phase s' i \<noteq> Unguarded"
    and "\<And>t'. po_now s' \<le> t' \<Longrightarrow> busy (po_ids s) k t' \<Longrightarrow> busy (po_ids s') k t'"
    and "lease (po_ids s') = lease (po_ids s)" "po_now s \<le> po_now s'"
  shows "exclusive W k s'"
  unfolding exclusive_def
proof (intro conjI ballI allI impI)
  fix i t t' assume "i \<in> deliveries_of W k" "holder (po_phase s' i) = Some t"
    "po_now s' \<le> t' \<and> t' < t + lease (po_ids s')"
  then show "busy (po_ids s') k t'" using assms(1) assms(2) [of i t] assms(4-6) by (simp add: exclusive_def)
next
  fix i j assume i: "i \<in> deliveries_of W k" "j \<in> deliveries_of W k"
    "holder (po_phase s' i) \<noteq> None" "holder (po_phase s' j) \<noteq> None"
  then obtain t u where "holder (po_phase s i) = Some t" "holder (po_phase s j) = Some u"
    using assms(2) by blast
  then show "i = j" using i(1,2) assms(1) by (simp add: exclusive_def)
qed (use assms(3) in blast)

lemma exclusive_noneI:
  "(\<And>i. i \<in> deliveries_of W k \<Longrightarrow> holder (po_phase s i) = None \<and> po_phase s i \<noteq> Unguarded) \<Longrightarrow> exclusive W k s"
  by (simp add: exclusive_def)

lemma exclusive_guarded: "exclusive W k s \<Longrightarrow> i \<in> deliveries_of W k \<Longrightarrow> po_phase s i \<noteq> Unguarded"
  by (simp add: exclusive_def)

lemma exclusive_unique:
  "exclusive W k s \<Longrightarrow> i \<in> deliveries_of W k \<Longrightarrow> j \<in> deliveries_of W k \<Longrightarrow>
   holder (po_phase s i) = Some t \<Longrightarrow> holder (po_phase s j) = Some u \<Longrightarrow> i = j"
  by (simp add: exclusive_def)

lemma arrive_phase:
  assumes "ok d" "i \<in> deliveries_of W k" "arrive (wk_fw W) store nid t (wk_doc W i) d = (p, d')"
  shows "p = (case held d k t of Some out \<Rightarrow> Replied (into_outcome out)
    | None \<Rightarrow> if busy d k t then Replied (Err (in_flight_rejection (wk_fw W) (wk_doc W i) nid)) else Holding t)"
  using arrive_write(1) [OF assms(1) _ assms(3)] assms(2) by (simp add: deliveries_of_def)

lemma exclusive_arrive:
  assumes "exclusive W k s" "base W d0 t0 s" "po_phase s i = Fresh"
    and a: "arrive (wk_fw W) store (wk_nid W i) (po_now s) (wk_doc W i) (po_ids s) = (p, d)"
    and "orderly (lease d0) (set_phase i p (s\<lparr>po_ids := d\<rparr>))"
  shows "exclusive W k (set_phase i p (s\<lparr>po_ids := d\<rparr>))"
proof -
  have b: "ok (po_ids s)" "lease (po_ids s) = lease d0" using assms(2) by (auto simp: base_def)
  note kp = arrive_keeps [OF b(1) a]
  have fresh_alone: "holder (po_phase s j) = None"
    if j: "j \<in> deliveries_of W k" "j \<noteq> i" "i \<in> deliveries_of W k" "holder p \<noteq> None" for j
  proof (rule ccontr)
    assume "holder (po_phase s j) \<noteq> None"
    then obtain t where t: "holder (po_phase s j) = Some t" by auto
    have "po_now s - t < lease d0" using assms(5) [unfolded orderly_def, THEN spec, of j] j(2) t by simp
    then have "busy (po_ids s) k (po_now s)" using exclusive_busy [OF assms(1,2) j(1) t] by simp
    then show False using arrive_phase [OF b(1) j(3) a] busy_not_held j(4) by simp
  qed
  let ?s = "set_phase i p (s\<lparr>po_ids := d\<rparr>)"
  have new: "p \<noteq> Unguarded" "\<And>t t'. holder p = Some t \<Longrightarrow> t' < t + lease d0 \<Longrightarrow> busy d k t'"
    if i: "i \<in> deliveries_of W k"
    using arrive_phase [OF b(1) i a] arrive_leases [OF b(1), of "wk_fw W" "wk_nid W i" "po_now s" "wk_doc W i" _ d] a i b(2)
    by (auto simp: deliveries_of_def split: option.splits if_splits)
  have old: "busy d k t'"
    if "j \<in> deliveries_of W k" "holder (po_phase s j) = Some t" "po_now s \<le> t'" "t' < t + lease d0" for j t t'
    using exclusive_busy [OF assms(1,2) that] kp that(3) by blast
  have l: "lease d = lease d0" using kp b(2) by simp
  have "po_phase ?s j \<noteq> Unguarded" if "j \<in> deliveries_of W k" for j
    using new(1) that exclusive_guarded [OF assms(1)] by (cases "j = i") auto
  moreover have "busy (po_ids ?s) k t'"
    if "j \<in> deliveries_of W k" "holder (po_phase ?s j) = Some t" "po_now ?s \<le> t' \<and> t' < t + lease (po_ids ?s)" for j t t'
    using new(2) old [of j t t'] that l by (simp split: if_splits)
  moreover have "j = l"
    if "j \<in> deliveries_of W k" "l \<in> deliveries_of W k" "holder (po_phase ?s j) \<noteq> None" "holder (po_phase ?s l) \<noteq> None" for j l
  proof (cases "j = i \<or> l = i")
    case True
    then show ?thesis using fresh_alone [of j] fresh_alone [of l] that by (cases "j = l") auto
  next
    case False
    then have "holder (po_phase s j) \<noteq> None" "holder (po_phase s l) \<noteq> None" using that by simp_all
    then show ?thesis using exclusive_unique [OF assms(1) that(1,2)] by blast
  qed
  ultimately show ?thesis unfolding exclusive_def by blast
qed

lemma exclusive_resolve:
  assumes "exclusive W k s" "base W d0 t0 s" "po_phase s i = Handled out t"
  shows "exclusive W k (set_phase i (Replied out) (s\<lparr>po_ids := resolve store (wk_doc W i) out (po_now s) (po_ids s)\<rparr>))"
    (is "exclusive W k ?s")
proof (cases "i \<in> deliveries_of W k")
  case True
  have "holder (po_phase ?s j) = None \<and> po_phase ?s j \<noteq> Unguarded" if j: "j \<in> deliveries_of W k" for j
    using exclusive_unique [OF assms(1) True j, of t] exclusive_guarded [OF assms(1) j] assms(3)
    by (cases "holder (po_phase s j)") auto
  then show ?thesis by (rule exclusive_noneI)
next
  case False
  have b: "ok (po_ids s)" using assms(2) by (simp add: base_def)
  note r = resolve_keeps(1) [OF b, of "wk_doc W i" out "po_now s"]
  have "is_write (wk_fw W) (wk_doc W i)"
    using assms(2) unfolding base_def by (metis assms(3) holder.simps(2) option.distinct(1))
  then have "message_key (wk_doc W i) \<noteq> k" using False by (simp add: deliveries_of_def)
  then have bs: "busy (po_ids ?s) k t' = busy (po_ids s) k t'" for t' using r by simp
  have h: "holder (po_phase ?s j) = Some u \<Longrightarrow> holder (po_phase s j) = Some u" for j u by (simp split: if_splits)
  have g: "po_phase ?s j \<noteq> Unguarded" if "j \<in> deliveries_of W k" for j
    using exclusive_guarded [OF assms(1) that] by simp
  show ?thesis
    by (rule exclusive_frame [OF assms(1) h g]) (use bs r in simp_all)
qed

lemma exclusive_step:
  assumes "exclusive W k s" "base W d0 t0 s" "pool_step W s s'" "wk_store W = store" "orderly (lease d0) s'"
  shows "exclusive W k s'"
  using assms(3)
proof cases
  case (Arrive i p d)
  then show ?thesis using exclusive_arrive [OF assms(1,2) Arrive(2)] assms(4,5) by simp
next
  case (Resolve i out t)
  then show ?thesis using exclusive_resolve [OF assms(1,2) Resolve(2)] assms(4) by simp
qed (rule exclusive_frame [OF assms(1)]; use exclusive_guarded [OF assms(1)] in \<open>force split: if_splits\<close>)+

text \<open>
  What became of the document with key \<open>k\<close>: nothing yet, or one final run whose outcome is on its
  way into the store, or held there up to \<open>limit\<close> and answered to everybody.
\<close>

definition settled :: "('d, 'w) workers \<Rightarrow> string \<Rightarrow> int \<Rightarrow> ('d, 'w) pool \<Rightarrow> bool" where
  "settled W k limit s \<longleftrightarrow>
     (final_runs W k s = [] \<and> (\<forall>t \<ge> po_now s. held (po_ids s) k t = None) \<and>
        (\<forall>i \<in> deliveries_of W k. \<forall>out t. po_phase s i = Replied out \<or> po_phase s i = Handled out t \<longrightarrow> \<not> is_cacheable out)) \<or>
     (\<exists>j out. final_runs W k s = [(j, out)] \<and> j \<in> deliveries_of W k \<and> is_cacheable out \<and>
        (\<forall>i \<in> deliveries_of W k. \<forall>out'. po_phase s i = Replied out' \<longrightarrow> is_cacheable out' \<longrightarrow> out' = out) \<and>
        ((\<exists>t. po_phase s j = Handled out t) \<or>
         (\<forall>i \<in> deliveries_of W k. holder (po_phase s i) = None) \<and>
         (\<forall>t. po_now s \<le> t \<and> t < limit \<longrightarrow> held (po_ids s) k t = Some (from_outcome out))))"

lemma final_runs_phase [simp]: "final_runs W k (set_phase i p s) = final_runs W k s"
  by (simp add: final_runs_def)

text \<open>One final run, before its claim is resolved and after.\<close>

lemma settled_cases:
  assumes "settled W k limit s"
  obtains (none) "final_runs W k s = []" "\<And>t. po_now s \<le> t \<Longrightarrow> held (po_ids s) k t = None"
      "\<And>i out. i \<in> deliveries_of W k \<Longrightarrow> po_phase s i = Replied out \<Longrightarrow> \<not> is_cacheable out"
      "\<And>i out t. i \<in> deliveries_of W k \<Longrightarrow> po_phase s i = Handled out t \<Longrightarrow> \<not> is_cacheable out"
  | (run) j out t where "final_runs W k s = [(j, out)]" "j \<in> deliveries_of W k" "is_cacheable out"
      "\<And>i out'. i \<in> deliveries_of W k \<Longrightarrow> po_phase s i = Replied out' \<Longrightarrow> is_cacheable out' \<Longrightarrow> out' = out"
      "po_phase s j = Handled out t"
  | (over) j out where "final_runs W k s = [(j, out)]" "j \<in> deliveries_of W k" "is_cacheable out"
      "\<And>i out'. i \<in> deliveries_of W k \<Longrightarrow> po_phase s i = Replied out' \<Longrightarrow> is_cacheable out' \<Longrightarrow> out' = out"
      "\<And>i. i \<in> deliveries_of W k \<Longrightarrow> holder (po_phase s i) = None"
      "\<And>t. po_now s \<le> t \<Longrightarrow> t < limit \<Longrightarrow> held (po_ids s) k t = Some (from_outcome out)"
  using assms unfolding settled_def by blast

lemma settled_noneI:
  "final_runs W k s = [] \<Longrightarrow> (\<And>t. po_now s \<le> t \<Longrightarrow> held (po_ids s) k t = None) \<Longrightarrow>
   (\<And>i out. i \<in> deliveries_of W k \<Longrightarrow> po_phase s i = Replied out \<Longrightarrow> \<not> is_cacheable out) \<Longrightarrow>
   (\<And>i out t. i \<in> deliveries_of W k \<Longrightarrow> po_phase s i = Handled out t \<Longrightarrow> \<not> is_cacheable out) \<Longrightarrow> settled W k limit s"
  unfolding settled_def by blast

lemma settled_runI:
  "final_runs W k s = [(j, out)] \<Longrightarrow> j \<in> deliveries_of W k \<Longrightarrow> is_cacheable out \<Longrightarrow>
   (\<And>i out'. i \<in> deliveries_of W k \<Longrightarrow> po_phase s i = Replied out' \<Longrightarrow> is_cacheable out' \<Longrightarrow> out' = out) \<Longrightarrow>
   po_phase s j = Handled out t \<Longrightarrow> settled W k limit s"
  unfolding settled_def by blast

lemma settled_doneI:
  "final_runs W k s = [(j, out)] \<Longrightarrow> j \<in> deliveries_of W k \<Longrightarrow> is_cacheable out \<Longrightarrow>
   (\<And>i out'. i \<in> deliveries_of W k \<Longrightarrow> po_phase s i = Replied out' \<Longrightarrow> is_cacheable out' \<Longrightarrow> out' = out) \<Longrightarrow>
   (\<And>i. i \<in> deliveries_of W k \<Longrightarrow> holder (po_phase s i) = None) \<Longrightarrow>
   (\<And>t. po_now s \<le> t \<Longrightarrow> t < limit \<Longrightarrow> held (po_ids s) k t = Some (from_outcome out)) \<Longrightarrow> settled W k limit s"
  unfolding settled_def by blast

text \<open>A step that neither answers nor runs a delivery of \<open>k\<close> and keeps what the store holds for it.\<close>

lemma settled_frame:
  assumes "settled W k limit s" "final_runs W k s' = final_runs W k s" "po_now s \<le> po_now s'"
    and "\<And>t. po_now s' \<le> t \<Longrightarrow> held (po_ids s') k t = held (po_ids s) k t"
    and "\<And>i. i \<in> deliveries_of W k \<Longrightarrow> po_phase s' i = po_phase s i"
  shows "settled W k limit s'"
  using assms(1)
proof (cases rule: settled_cases)
  case none
  show ?thesis by (rule settled_noneI) (use none assms in simp_all)
next
  case (run j out t)
  show ?thesis by (rule settled_runI [of W k _ j out t]) (use run assms in simp_all)
next
  case (over j out)
  show ?thesis by (rule settled_doneI) (use over assms in simp_all)
qed

lemma settled_arrive:
  assumes "settled W k limit s" "base W d0 t0 s" "exclusive W k s" "po_phase s i = Fresh"
    and a: "arrive (wk_fw W) store (wk_nid W i) (po_now s) (wk_doc W i) (po_ids s) = (p, d)"
    and "orderly (lease d0) (set_phase i p (s\<lparr>po_ids := d\<rparr>))" "po_now s < limit"
  shows "settled W k limit (set_phase i p (s\<lparr>po_ids := d\<rparr>))" (is "settled W k limit ?s")
proof -
  have b: "ok (po_ids s)" "lease (po_ids s) = lease d0" using assms(2) by (auto simp: base_def)
  note kp = arrive_keeps [OF b(1) a]
  have h: "held d k t = held (po_ids s) k t" if "po_now s \<le> t" for t using kp that by blast
  have fr: "final_runs W k (s\<lparr>po_ids := d\<rparr>) = final_runs W k s" by (simp add: final_runs_def)
  show ?thesis
  proof (cases "i \<in> deliveries_of W k")
    case False
    show ?thesis by (rule settled_frame [OF assms(1)]) (use False h fr in auto)
  next
    case True
    note ph = arrive_phase [OF b(1) True a]
    from assms(1) show ?thesis
    proof (cases rule: settled_cases)
      case none
      show ?thesis by (rule settled_noneI) (use none ph h fr in \<open>auto split: if_splits\<close>)
    next
      case (run j out t)
      have ji: "j \<noteq> i" using run(5) assms(4) by auto
      have "po_now s - t < lease d0" using assms(6) [unfolded orderly_def, THEN spec, of j] run(5) ji by simp
      then have "busy (po_ids s) k (po_now s)" using exclusive_busy [OF assms(3,2) run(2), of t] run(5) by simp
      then have p: "p = Replied (Err (in_flight_rejection (wk_fw W) (wk_doc W i) (wk_nid W i)))"
        using ph busy_not_held by simp
      have an: "out' = out" if "l \<in> deliveries_of W k" "po_phase ?s l = Replied out'" "is_cacheable out'" for l out'
        using run(4) [OF that(1) _ that(3)] that(2,3) p by (cases "l = i") auto
      show ?thesis
        by (rule settled_runI [OF _ run(2,3) an, where t = t]) (use run(1,5) ji fr in simp_all)
    next
      case (over j out)
      have p: "p = Replied out" using ph over(6) [of "po_now s"] assms(7) by simp
      show ?thesis by (rule settled_doneI [of W k _ j out]) (use over p h fr in \<open>auto split: if_splits\<close>)
    qed
  qed
qed

lemma settled_run:
  assumes "settled W k limit s" "exclusive W k s" "po_phase s i = Holding t"
  shows "settled W k limit (set_phase i (Handled out t) (s\<lparr>po_world := w, po_log := (i, out) # po_log s\<rparr>))"
    (is "settled W k limit ?s")
proof (cases "i \<in> deliveries_of W k")
  case False
  show ?thesis by (rule settled_frame [OF assms(1)]) (use False in \<open>auto simp: final_runs_def\<close>)
next
  case True
  have alone: "j = i" if "j \<in> deliveries_of W k" "holder (po_phase s j) \<noteq> None" for j
    using exclusive_unique [OF assms(2) that(1) True] that(2) assms(3) by auto
  from assms(1) show ?thesis
  proof (cases rule: settled_cases)
    case none
    show ?thesis
    proof (cases "is_cacheable out")
      case c: True
      have f: "final_runs W k ?s = [(i, out)]" using none(1) True c by (simp add: final_runs_def)
      show ?thesis by (rule settled_runI [OF f True c]) (use none in \<open>auto split: if_splits\<close>)
    next
      case c: False
      have f: "final_runs W k ?s = []" using none(1) c by (simp add: final_runs_def)
      show ?thesis by (rule settled_noneI [OF f]) (use none c in \<open>auto split: if_splits\<close>)
    qed
  next
    case (run j out' t')
    have "j = i" by (rule alone [OF run(2)]) (simp add: run(5))
    then show ?thesis using run(5) assms(3) by simp
  next
    case (over j out')
    then show ?thesis using over(5) [OF True] assms(3) by simp
  qed
qed

lemma settled_resolve:
  assumes "settled W k limit s" "exclusive W k s" "base W d0 t0 s" "po_phase s i = Handled out t" "limit \<le> t0 + ttl d0"
  shows "settled W k limit (set_phase i (Replied out) (s\<lparr>po_ids := resolve store (wk_doc W i) out (po_now s) (po_ids s)\<rparr>))"
    (is "settled W k limit ?s")
proof -
  have b: "ok (po_ids s)" "ttl (po_ids s) = ttl d0" "t0 \<le> po_now s" using assms(3) by (auto simp: base_def)
  note r = resolve_keeps(1) [OF b(1), of "wk_doc W i" out "po_now s"]
  have fr: "final_runs W k ?s = final_runs W k s" by (simp add: final_runs_def)
  have w: "is_write (wk_fw W) (wk_doc W i)"
    using assms(3) unfolding base_def by (metis assms(4) holder.simps(2) option.distinct(1))
  show ?thesis
  proof (cases "i \<in> deliveries_of W k")
    case False
    then have "message_key (wk_doc W i) \<noteq> k" using w by (simp add: deliveries_of_def)
    then show ?thesis by (intro settled_frame [OF assms(1)]) (use False r fr in auto)
  next
    case True
    then have key: "message_key (wk_doc W i) = k" by (simp add: deliveries_of_def)
    have alone: "j = i" if "j \<in> deliveries_of W k" "holder (po_phase s j) \<noteq> None" for j
      using exclusive_unique [OF assms(2) that(1) True] that(2) assms(4) by auto
    from assms(1) show ?thesis
    proof (cases rule: settled_cases)
      case none
      have c: "\<not> is_cacheable out" using none(4) [OF True assms(4)] .
      have h: "held (po_ids ?s) k t' = None" for t' using resolve_keeps(3) [OF b(1) c, of "wk_doc W i"] key by simp
      show ?thesis
        by (rule settled_noneI) (use none c h fr alone in \<open>auto split: if_splits\<close>)
    next
      case (run j out' t')
      have "j = i" using alone [of j] run by simp
      then have o: "out' = out" using run(5) assms(4) by simp
      have h: "held (po_ids ?s) k t' = Some (from_outcome out)" if "t' < limit" for t'
        using resolve_keeps(2) [OF b(1), of out t' "po_now s" "wk_doc W i"] run(3) o that assms(5) b(2,3) key by simp
      have no: "holder (po_phase ?s l) = None" if "l \<in> deliveries_of W k" for l
        using alone [OF that] by (cases "holder (po_phase s l)") auto
      show ?thesis by (rule settled_doneI [of W k _ j out]) (use run o h fr no in \<open>auto split: if_splits\<close>)
    next
      case (over j out')
      then show ?thesis using over(5) [OF True] assms(4) by simp
    qed
  qed
qed

lemma settled_step:
  assumes "settled W k limit s" "exclusive W k s" "base W d0 t0 s" "pool_step W s s'" "wk_store W = store"
    and "orderly (lease d0) s'" "po_now s' < limit" "limit \<le> t0 + ttl d0"
  shows "settled W k limit s'"
  using assms(4)
proof cases
  case (Tick t)
  then show ?thesis by (intro settled_frame [OF assms(1)]) (auto simp: final_runs_def)
next
  case (Arrive i p d)
  then show ?thesis using settled_arrive [OF assms(1,3,2) Arrive(2)] assms(5-7) by simp
next
  case (Run i t out w)
  then show ?thesis using settled_run [OF assms(1,2)] by simp
next
  case (Run_Unguarded i out w)
  have "i \<notin> deliveries_of W k" using exclusive_guarded [OF assms(2)] Run_Unguarded(2) by auto
  then show ?thesis using Run_Unguarded(1) by (intro settled_frame [OF assms(1)]) (auto simp: final_runs_def)
next
  case (Resolve i out t)
  then show ?thesis using settled_resolve [OF assms(1-3) Resolve(2) assms(8)] assms(5) by simp
next
  case (Crash_Before i t)
  then show ?thesis using assms(6) [unfolded orderly_def, THEN spec, of i] by simp
next
  case (Crash_After i out t)
  then show ?thesis using assms(6) [unfolded orderly_def, THEN spec, of i] by simp
qed

text \<open>The three together along a run.\<close>

lemma pool_sound:
  assumes "pool_reach (\<lambda>s. orderly (lease d0) s \<and> po_now s < t0 + ttl d0) W (pool_start t0 d0 w) s"
    and "wk_store W = store" "ok d0" "\<And>t. t0 \<le> t \<Longrightarrow> held d0 k t = None"
  shows "base W d0 t0 s \<and> exclusive W k s \<and> settled W k (t0 + ttl d0) s"
  using assms(1)
proof (rule pool_reach_invariant)
  show "base W d0 t0 (pool_start t0 d0 w) \<and> exclusive W k (pool_start t0 d0 w) \<and>
      settled W k (t0 + ttl d0) (pool_start t0 d0 w)"
    using assms(3,4) by (auto simp: base_def pool_start_def final_runs_def intro!: exclusive_noneI settled_noneI)
next
  fix s s' assume "base W d0 t0 s \<and> exclusive W k s \<and> settled W k (t0 + ttl d0) s"
    "pool_step W s s'" "orderly (lease d0) s' \<and> po_now s' < t0 + ttl d0"
  then show "base W d0 t0 s' \<and> exclusive W k s' \<and> settled W k (t0 + ttl d0) s'"
    using base_step exclusive_step settled_step assms(2) by blast
qed

text \<open>No claim outlives its lease, whatever became of its worker.\<close>

definition lapsing :: "'d \<Rightarrow> ('d, 'w) pool \<Rightarrow> bool" where
  "lapsing d0 s \<longleftrightarrow> ok (po_ids s) \<and> lease (po_ids s) = lease d0 \<and>
     (\<forall>k t. busy (po_ids s) k t \<longrightarrow> t < po_now s + lease d0)"

lemma lapsing_step:
  assumes "lapsing d0 s" "pool_step W s s'" "wk_store W = store"
  shows "lapsing d0 s'"
  using assms(2)
proof cases
  case (Arrive i p d)
  have o: "ok (po_ids s)" using assms(1) by (simp add: lapsing_def)
  show ?thesis using Arrive(1) assms(1) arrive_keeps [OF o Arrive(3) [unfolded assms(3)]]
    unfolding lapsing_def by (simp, metis)
next
  case (Resolve i out t)
  have o: "ok (po_ids s)" using assms(1) by (simp add: lapsing_def)
  have "t' < po_now s + lease d0"
    if "busy (resolve store (wk_doc W i) out (po_now s) (po_ids s)) k t'" for k t'
    using that assms(1) resolve_keeps(1,4) [OF o] by (cases "k = message_key (wk_doc W i)") (auto simp: lapsing_def)
  then show ?thesis using Resolve assms(1,3) resolve_keeps(1) [OF o] by (auto simp: lapsing_def)
qed (use assms(1) in \<open>force simp: lapsing_def\<close>)+


text \<open>Once the lease of the present claim is over, an arrival is replayed or gets the claim.\<close>

lemma fresh_gets_answer:
  assumes "lapsing d0 s" "wk_store W = store" "po_phase s i = Fresh" "is_write (wk_fw W) (wk_doc W i)" "0 \<le> lease d0"
  shows "\<exists>s' out. pool_reach (\<lambda>s. True) W s s' \<and> po_now s' = po_now s + lease d0 \<and> po_phase s' i = Replied out \<and>
    (po_log s' = (i, out) # po_log s \<or> held (po_ids s) (message_key (wk_doc W i)) (po_now s') = Some (from_outcome out))"
proof -
  let ?k = "message_key (wk_doc W i)"
  define u where "u = po_now s + lease d0"
  let ?t = "s\<lparr>po_now := u\<rparr>"
  have o: "ok (po_ids s)" and nb: "\<not> busy (po_ids s) ?k u" using assms(1) by (auto simp: lapsing_def u_def)
  have 1: "pool_reach (\<lambda>s. True) W s ?t"
    by (rule pool_reach.Step [OF pool_reach.Start pool_step.Tick]) (use assms(5) in \<open>simp_all add: u_def\<close>)
  obtain p d where a: "arrive (wk_fw W) store (wk_nid W i) u (wk_doc W i) (po_ids s) = (p, d)" by (metis prod.exhaust)
  let ?a = "set_phase i p (?t\<lparr>po_ids := d\<rparr>)"
  have 2: "pool_reach (\<lambda>s. True) W s ?a"
    by (rule pool_reach.Step [OF 1 pool_step.Arrive]) (use assms(2,3) a in simp_all)
  note p = arrive_write(1) [OF o assms(4) a]
  show ?thesis
  proof (cases "held (po_ids s) ?k u")
    case (Some st)
    show ?thesis by (rule exI [of _ ?a], rule exI [of _ "into_outcome st"])
      (use 2 p Some in \<open>cases st, simp_all add: u_def\<close>)
  next
    case None
    then have p: "p = Holding u" using p nb by simp
    obtain out w where h: "wk_handle W (wk_doc W i) (po_world s) = (out, w)" by (metis prod.exhaust)
    let ?b = "set_phase i (Handled out u) (?a\<lparr>po_world := w, po_log := (i, out) # po_log ?a\<rparr>)"
    have 3: "pool_reach (\<lambda>s. True) W s ?b"
      by (rule pool_reach.Step [OF 2 pool_step.Run]) (use p h in \<open>simp_all add: set_phase_def\<close>)
    let ?c = "set_phase i (Replied out) (?b\<lparr>po_ids := resolve (wk_store W) (wk_doc W i) out (po_now ?b) (po_ids ?b)\<rparr>)"
    have 4: "pool_reach (\<lambda>s. True) W s ?c"
      by (rule pool_reach.Step [OF 3 pool_step.Resolve]) simp_all
    show ?thesis by (rule exI [of _ ?c], rule exI [of _ out]) (use 4 in \<open>simp add: set_phase_def u_def\<close>)
  qed
qed

text \<open>
  A claim carries no owner: when a first worker outlives its lease and then releases, it frees the
  claim of its successor, and a third worker runs beside that one.
\<close>

lemma stale_release:
  assumes "ok d0" "wk_store W = store" "0 \<le> lease d0" "\<And>t. held d0 k t = None" "\<And>t. \<not> busy d0 k t"
    and i: "0 \<in> deliveries_of W k" "1 \<in> deliveries_of W k" "2 \<in> deliveries_of W k"
    and "wk_handle W (wk_doc W 0) w = (Err e, w')" "er_retryable e"
  shows "\<exists>s. pool_reach (\<lambda>s. True) W (pool_start t0 d0 w) s \<and> po_phase s 0 = Replied (Err e) \<and>
    po_phase s 1 = Holding (po_now s) \<and> po_phase s 2 = Holding (po_now s)"
proof -
  let ?R = "pool_reach (\<lambda>s. True) W (pool_start t0 d0 w)"
  define u where "u = t0 + lease d0"
  have tu: "t0 \<le> u" using assms(3) by (simp add: u_def)
  obtain p1 d1 where a1: "arrive (wk_fw W) store (wk_nid W 0) t0 (wk_doc W 0) d0 = (p1, d1)" by (metis prod.exhaust)
  note k1 = arrive_keeps [OF assms(1) a1]
  have p1: "p1 = Holding t0" using arrive_phase [OF assms(1) i(1) a1] assms(4,5) by simp
  have s1: "held d1 k u = None" "\<not> busy d1 k u" "ok d1"
    using k1 assms(4) [of u] assms(5) [of u] tu by (auto simp: u_def)
  obtain p2 d2 where a2: "arrive (wk_fw W) store (wk_nid W 1) u (wk_doc W 1) d1 = (p2, d2)" by (metis prod.exhaust)
  note k2 = arrive_keeps [OF s1(3) a2]
  have p2: "p2 = Holding u" using arrive_phase [OF s1(3) i(2) a2] s1 by simp
  define d3 where "d3 = resolve store (wk_doc W 0) (Err e) u d2"
  have key: "message_key (wk_doc W 0) = k" using i(1) by (simp add: deliveries_of_def)
  have o2: "ok d2" using k2 by blast
  have s3: "held d3 k u = None" "\<not> busy d3 k u" "ok d3"
    using resolve_keeps(1,3,4) [OF o2, where doc = "wk_doc W 0" and out = "Err e" and t = u] assms(10) key by (auto simp: d3_def)
  obtain p4 d4 where a4: "arrive (wk_fw W) store (wk_nid W 2) u (wk_doc W 2) d3 = (p4, d4)" by (metis prod.exhaust)
  have p4: "p4 = Holding u" using arrive_phase [OF s3(3) i(3) a4] s3 by simp
  let ?s1 = "set_phase 0 p1 ((pool_start t0 d0 w)\<lparr>po_ids := d1\<rparr>)"
  let ?s2 = "?s1\<lparr>po_now := u\<rparr>"
  let ?s3 = "set_phase 1 p2 (?s2\<lparr>po_ids := d2\<rparr>)"
  let ?s4 = "set_phase 0 (Handled (Err e) t0) (?s3\<lparr>po_world := w', po_log := (0, Err e) # po_log ?s3\<rparr>)"
  let ?s5 = "set_phase 0 (Replied (Err e)) (?s4\<lparr>po_ids := resolve (wk_store W) (wk_doc W 0) (Err e) (po_now ?s4) (po_ids ?s4)\<rparr>)"
  let ?s6 = "set_phase 2 p4 (?s5\<lparr>po_ids := d4\<rparr>)"
  have "?R ?s1" by (rule Step [OF Start Arrive]) (use a1 assms(2) in \<open>simp_all add: pool_start_def\<close>)
  then have "?R ?s2" by (rule Step [OF _ Tick]) (use tu in \<open>simp_all add: pool_start_def\<close>)
  then have "?R ?s3" by (rule Step [OF _ Arrive]) (use a2 assms(2) in \<open>simp_all add: pool_start_def set_phase_def\<close>)
  then have "?R ?s4" by (rule Step [OF _ Run]) (use p1 assms(9) in \<open>simp_all add: pool_start_def set_phase_def\<close>)
  then have "?R ?s5" by (rule Step [OF _ Resolve]) (simp_all add: set_phase_def)
  then have "?R ?s6"
    by (rule Step [OF _ Arrive]) (use a4 assms(2) in \<open>simp_all add: pool_start_def set_phase_def d3_def\<close>)
  moreover have "po_phase ?s6 0 = Replied (Err e)" "po_phase ?s6 1 = Holding (po_now ?s6)"
    "po_phase ?s6 2 = Holding (po_now ?s6)"
    using p2 p4 by (simp_all add: set_phase_def)
  ultimately show ?thesis by blast
qed

end

section \<open>The in-memory store grants leases\<close>

definition memory_lease :: "memory_store \<Rightarrow> int" where
  "memory_lease m = from_std_or_zero (mm_in_flight_ttl m)"

lemma memory_busy_iff:
  "memory_busy m k t \<longleftrightarrow> (\<exists>c. map_of (mm_entries m) k = Some (EInFlight c) \<and> t - c < memory_lease m)"
  by (auto simp: memory_busy_def memory_lease_def split: option.splits entry.splits)

lemma memory_claim_busy:
  assumes "memory_ok m" "memory_claim k t m = (res, m')"
  shows "t \<le> t' \<Longrightarrow> memory_busy m k' t' \<Longrightarrow> memory_busy m' k' t'"
    and "memory_busy m' k' t' \<Longrightarrow> memory_busy m k' t' \<or> t' < t + memory_lease m"
  using memory_claim_entries [OF assms]
  by (auto simp: memory_busy_iff memory_lease_def live_def split: option.splits entry.splits if_splits)

interpretation mem_lease: leased_store memory_ids memory_held memory_busy memory_ttl memory_ok memory_lease
proof
  fix d k t d' assume a: "memory_ok d" "ms_claim memory_ids k t d = (Ok Acquired, d')"
  then have c: "memory_claim k t d = (Ok Acquired, d')" by (simp add: memory_ids_def)
  have "map_of (mm_entries d') k = Some (EInFlight t)"
    using c a(1) by (auto simp: memory_claim_def Let_def split: option.splits entry.splits)
  then show "\<forall>t'. t' < t + memory_lease d \<longrightarrow> memory_busy d' k t'"
    using memory_claim_entries [OF a(1) c] by (auto simp: memory_busy_iff memory_lease_def)
next
  fix d k t res d' assume a: "memory_ok d" "ms_claim memory_ids k t d = (res, d')"
  then have c: "memory_claim k t d = (res, d')" by (simp add: memory_ids_def)
  show "memory_lease d' = memory_lease d \<and> (\<forall>k' t'. t \<le> t' \<longrightarrow> memory_busy d k' t' \<longrightarrow> memory_busy d' k' t') \<and>
      (\<forall>k' t'. memory_busy d' k' t' \<longrightarrow> memory_busy d k' t' \<or> t' < t + memory_lease d)"
    using memory_claim_entries [OF a(1) c] memory_claim_busy [OF a(1) c] by (auto simp: memory_lease_def)
qed (auto simp: memory_ids_def memory_complete_def memory_release_def memory_busy_def memory_held_def
    memory_lease_def split: option.splits entry.splits)

lemma memory_lease_default [simp]: "memory_lease memory_default = DEFAULT_IN_FLIGHT_TTL"
  by (simp add: memory_lease_def memory_default_def memory_new_def from_std_or_zero_def DEFAULT_IN_FLIGHT_TTL_def NANOS_def)

end
