(* ===== verification/Delivery_Properties.thy ===== *)
theory Delivery_Properties
  imports Dedup_Concurrent Capability_Properties
begin

text \<open>The properties of concurrent deliveries on the in-memory message id store.\<close>

definition sample_workers :: "(memory_store, (local_storage, cap_states) registry) workers" where
  "sample_workers = \<lparr>wk_fw = sample_framework, wk_store = memory_ids, wk_handle = sample_handle,
     wk_doc = (\<lambda>i. sample_create_doc), wk_nid = (\<lambda>i. ''r'')\<rparr>"

lemma sample_deliveries [simp]: "i \<in> deliveries_of sample_workers (message_key sample_create_doc)"
  by (simp add: deliveries_of_def sample_workers_def sample_create_is_write)

text \<open>C4: When the deliveries of a write interleave in any way, no handler crashes and none runs
  longer than the lease of a claim, then within the replay window at most one run of the handler
  has a final outcome, everybody who is answered finally is answered with that outcome, and no two
  deliveries hold the claim at the same time.\<close>

theorem concurrent_deliveries_applied_once:
  assumes "pool_reach (\<lambda>s. orderly DEFAULT_IN_FLIGHT_TTL s \<and> po_now s < t0 + DEFAULT_TTL) W
      (pool_start t0 memory_default w) s"
    and "wk_store W = memory_ids"
  shows "length (final_runs W k s) \<le> 1 \<and>
    (\<forall>i \<in> deliveries_of W k. \<forall>out. po_phase s i = Replied out \<longrightarrow> is_cacheable out \<longrightarrow>
       out \<in> snd ` set (final_runs W k s)) \<and>
    (\<forall>i \<in> deliveries_of W k. \<forall>j \<in> deliveries_of W k.
       holder (po_phase s i) \<noteq> None \<longrightarrow> holder (po_phase s j) \<noteq> None \<longrightarrow> i = j)"
proof -
  have T: "memory_ttl memory_default = DEFAULT_TTL" by (simp add: DEFAULT_TTL_def NANOS_def)
  have e: "mem_lease.exclusive W k s" and st: "mem_lease.settled W k (t0 + DEFAULT_TTL) s"
    using mem_lease.pool_sound [where ?d0.0 = memory_default and ?t0.0 = t0 and W = W and w = w and s = s and k = k]
      assms unfolding T memory_lease_default by auto
  from st have "length (final_runs W k s) \<le> 1 \<and>
    (\<forall>i \<in> deliveries_of W k. \<forall>out. po_phase s i = Replied out \<longrightarrow> is_cacheable out \<longrightarrow>
       out \<in> snd ` set (final_runs W k s))"
    by (cases rule: mem_lease.settled_cases) auto
  then show ?thesis using e by (auto simp: mem_lease.exclusive_def)
qed

lemma sample_orderly:
  assumes "po_now s = 0" "\<And>i. po_phase s i \<noteq> Crashed" "\<And>i. holder (po_phase s i) \<in> {None, Some 0}"
  shows "orderly DEFAULT_IN_FLIGHT_TTL s \<and> po_now s < 0 + DEFAULT_TTL"
proof -
  have "t = 0" if "holder (po_phase s i) = Some t" for i t using assms(3) [of i] that by simp
  then show ?thesis using assms(1,2)
    by (fastforce simp: orderly_def DEFAULT_IN_FLIGHT_TTL_def DEFAULT_TTL_def NANOS_def)
qed

text \<open>Two deliveries at once: the second one is told to come back, the first one runs.\<close>

lemma sample_race:
  "\<exists>s out. pool_reach (\<lambda>s. orderly DEFAULT_IN_FLIGHT_TTL s \<and> po_now s < 0 + DEFAULT_TTL) sample_workers
      (pool_start 0 memory_default (local_new, cap_set_of [])) s \<and>
    po_phase s 0 = Replied out \<and> is_cacheable out \<and> (\<exists>e. po_phase s 1 = Replied (Err e))"
proof -
  let ?R = "pool_reach (\<lambda>s. orderly DEFAULT_IN_FLIGHT_TTL s \<and> po_now s < 0 + DEFAULT_TTL) sample_workers
      (pool_start 0 memory_default (local_new, cap_set_of []))"
  let ?k = "message_key sample_create_doc"
  have W: "wk_fw sample_workers = sample_framework" "wk_store sample_workers = memory_ids"
    "wk_doc sample_workers i = sample_create_doc" "wk_nid sample_workers i = ''r''"
    "wk_handle sample_workers = sample_handle" for i
    by (simp_all add: sample_workers_def)
  obtain p1 d1 where a1: "arrive sample_framework memory_ids ''r'' 0 sample_create_doc memory_default = (p1, d1)"
    by (metis prod.exhaust)
  have p1: "p1 = Holding 0" using mem_lease.arrive_write(1) [OF _ sample_create_is_write a1] by simp
  have b1: "memory_busy d1 ?k 0" "memory_ok d1"
    using mem_lease.arrive_leases [OF _ a1 [unfolded p1]] mem_lease.arrive_keeps [OF _ a1]
    by (simp_all add: DEFAULT_IN_FLIGHT_TTL_def NANOS_def)
  obtain p2 d2 where a2: "arrive sample_framework memory_ids ''r'' 0 sample_create_doc d1 = (p2, d2)"
    by (metis prod.exhaust)
  have p2: "p2 = Replied (Err (in_flight_rejection sample_framework sample_create_doc ''r''))"
    using mem_lease.arrive_write(1) [OF b1(2) sample_create_is_write a2] b1(1) mem_lease.busy_not_held [OF b1(1)] by simp
  obtain out w1 where h: "sample_handle sample_create_doc (local_new, cap_set_of []) = (out, w1)" by (metis prod.exhaust)
  let ?s0 = "pool_start 0 memory_default (local_new, cap_set_of [])"
  let ?s1 = "set_phase 0 p1 (?s0\<lparr>po_ids := d1\<rparr>)"
  let ?s2 = "set_phase 1 p2 (?s1\<lparr>po_ids := d2\<rparr>)"
  let ?s3 = "set_phase 0 (Handled out 0) (?s2\<lparr>po_world := w1, po_log := (0, out) # po_log ?s2\<rparr>)"
  let ?s4 = "set_phase 0 (Replied out) (?s3\<lparr>po_ids := resolve (wk_store sample_workers) (wk_doc sample_workers 0) out (po_now ?s3) (po_ids ?s3)\<rparr>)"
  note sim = pool_start_def set_phase_def W
  have "?R ?s1" by (rule Step [OF Start Arrive sample_orderly]) (use a1 p1 in \<open>simp_all add: sim\<close>)
  then have "?R ?s2" by (rule Step [OF _ Arrive sample_orderly]) (use a2 p1 p2 in \<open>simp_all add: sim\<close>)
  then have "?R ?s3" by (rule Step [OF _ Run sample_orderly]) (use h p1 p2 in \<open>simp_all add: sim\<close>)
  then have "?R ?s4" by (rule Step [OF _ Resolve sample_orderly]) (use p1 p2 in \<open>simp_all add: sim\<close>)
  moreover have "po_phase ?s4 0 = Replied out" "po_phase ?s4 1 = p2" by (simp_all add: sim)
  moreover have "is_cacheable out" using sample_after_cacheable h by (simp add: sample_after_def)
  ultimately show ?thesis using p2 by (intro exI [of _ ?s4] exI [of _ out]) simp
qed

theorem concurrent_deliveries_applied_once_witness:
  "\<exists>s out. po_phase s 0 = Replied out \<and> (\<exists>e. po_phase s 1 = Replied (Err e)) \<and>
    length (final_runs sample_workers (message_key sample_create_doc) s) = 1"
proof -
  obtain s out where s: "pool_reach (\<lambda>s. orderly DEFAULT_IN_FLIGHT_TTL s \<and> po_now s < 0 + DEFAULT_TTL) sample_workers
      (pool_start 0 memory_default (local_new, cap_set_of [])) s"
    "po_phase s 0 = Replied out" "is_cacheable out" "\<exists>e. po_phase s 1 = Replied (Err e)"
    using sample_race by blast
  have "wk_store sample_workers = memory_ids" by (simp add: sample_workers_def)
  note p = concurrent_deliveries_applied_once [OF s(1) this, of "message_key sample_create_doc"]
  have "out \<in> snd ` set (final_runs sample_workers (message_key sample_create_doc) s)"
    using p s(2,3) sample_deliveries by blast
  then have "length (final_runs sample_workers (message_key sample_create_doc) s) \<noteq> 0" by auto
  moreover have "length (final_runs sample_workers (message_key sample_create_doc) s) \<le> 1" using p by blast
  ultimately have "length (final_runs sample_workers (message_key sample_create_doc) s) = 1" by linarith
  then show ?thesis using s(2,4) by blast
qed

text \<open>C33: A claim never blocks its message id for longer than the lease: from any state the
  interleaving can reach, crashed workers included, a new delivery can be answered once the lease
  is over, by a run of its own or with the outcome that is held.\<close>

theorem delivery_eventually_answered:
  assumes "pool_reach (\<lambda>s. True) W (pool_start t0 memory_default w) s" "wk_store W = memory_ids"
    and "po_phase s i = Fresh" "is_write (wk_fw W) (wk_doc W i)"
  shows "\<exists>s' out. pool_reach (\<lambda>s. True) W s s' \<and> po_now s' = po_now s + DEFAULT_IN_FLIGHT_TTL \<and>
    po_phase s' i = Replied out \<and>
    (po_log s' = (i, out) # po_log s \<or>
     memory_held (po_ids s) (message_key (wk_doc W i)) (po_now s') = Some (from_outcome out))"
proof -
  have z: "0 \<le> memory_lease memory_default" by (simp add: DEFAULT_IN_FLIGHT_TTL_def NANOS_def)
  have "mem_lease.lapsing memory_default s"
    using assms(1)
  proof (rule pool_reach_invariant)
    show "mem_lease.lapsing memory_default (pool_start t0 memory_default w)"
      by (simp add: mem_lease.lapsing_def pool_start_def)
  qed (rule mem_lease.lapsing_step [OF _ _ assms(2)])
  from mem_lease.fresh_gets_answer [OF this assms(2-4) z] show ?thesis by simp
qed

theorem delivery_eventually_answered_witness:
  "\<exists>s' out. pool_reach (\<lambda>s. True) sample_workers (pool_start 0 memory_default (local_new, cap_set_of [])) s' \<and>
    po_now s' = 300000000000 \<and> po_phase s' 0 = Replied out"
proof -
  have "po_phase (pool_start 0 memory_default (local_new, cap_set_of [])) 0 = Fresh" by (simp add: pool_start_def)
  from delivery_eventually_answered [OF pool_reach.Start _ this, of sample_workers] show ?thesis
    by (auto simp: sample_workers_def sample_create_is_write pool_start_def DEFAULT_IN_FLIGHT_TTL_def NANOS_def)
qed

text \<open>C39: A claim carries no owner.  When a first delivery runs past the lease and then fails
  with a retryable outcome, its release frees the claim of the delivery that succeeded it, and a
  third one runs at the same time as that one, although both claims are new.\<close>

theorem stale_release_admits_second_run:
  assumes "wk_store W = memory_ids" "0 \<in> deliveries_of W k" "1 \<in> deliveries_of W k" "2 \<in> deliveries_of W k"
    and "wk_handle W (wk_doc W 0) w = (Err e, w')" "er_retryable e"
  shows "\<exists>s. pool_reach (\<lambda>s. True) W (pool_start t0 memory_default w) s \<and> po_phase s 0 = Replied (Err e) \<and>
    po_phase s 1 = Holding (po_now s) \<and> po_phase s 2 = Holding (po_now s)"
  by (rule mem_lease.stale_release [OF _ assms(1) _ _ _ assms(2-6)])
    (simp_all add: DEFAULT_IN_FLIGHT_TTL_def NANOS_def)

theorem stale_release_admits_second_run_witness:
  "\<exists>s e. pool_reach (\<lambda>s. True) sample_workers (pool_start 0 memory_default (poisoned, cap_set_of [])) s \<and>
    po_phase s 0 = Replied (Err e) \<and> po_phase s 1 = Holding (po_now s) \<and> po_phase s 2 = Holding (po_now s)"
proof -
  obtain e w1 where h: "sample_handle sample_create_doc (poisoned, cap_set_of []) = (Err e, w1)" "er_retryable e"
    using sample_poisoned_fails by (auto simp: sample_poisoned_def split: result.splits) (metis prod.collapse)
  have "wk_handle sample_workers (wk_doc sample_workers 0) (poisoned, cap_set_of []) = (Err e, w1)"
    using h(1) by (simp add: sample_workers_def)
  from stale_release_admits_second_run [OF _ sample_deliveries sample_deliveries sample_deliveries this h(2), of 0]
  show ?thesis by (auto simp: sample_workers_def)
qed

end
