(* ===== verification/Storage_Properties.thy ===== *)
theory Storage_Properties
  imports Samples
begin

text \<open>
  The properties of the record model and of the storage backends.
\<close>

section \<open>Records\<close>

text \<open>Merging a request's context into a record's: wherever the request context has a value
  that is not an object at some path, the merged context has exactly that value there, and the
  merged context is again an ordered JSON value.\<close>

theorem merge_request_context:
  assumes "context_ok (tr_context r)" "context_ok c"
    and "json_path (context_value c) ks = Some v" "\<not> is_object v"
  shows "json_path (context_value (tr_context (merge_contexts r c))) ks = Some v \<and>
    context_ok (tr_context (merge_contexts r c))"
  using assms merge_path_additional_wins [of "context_value (tr_context r)" "context_value c" ks v]
    merge_keep_ok(1) [of "context_value (tr_context r)" "context_value c"]
  by (simp add: merge_contexts_def context_merge_def context_ok_def)

definition ctx_request :: json where
  "ctx_request = JObj [(''a'', JObj [(''b'', JNum (NInt 2))]), (''c'', JStr ''x'')]"

definition ctx_record :: trust_record where
  "ctx_record = sample_record\<lparr>tr_context := Context (JObj [(''a'', JObj [(''b'', JNum (NInt 1)), (''d'', JNull)])])\<rparr>"

theorem merge_request_context_witness:
  "json_path (context_value (tr_context (merge_contexts ctx_record (Context ctx_request)))) [''a'', ''b''] =
     Some (JNum (NInt 2))"
proof -
  have "context_ok (tr_context ctx_record)" "context_ok (Context ctx_request)"
    by (simp_all add: ctx_record_def ctx_request_def context_ok_def bt_ok_def)
  from merge_request_context [OF this, of "[''a'', ''b'']" "JNum (NInt 2)"] show ?thesis
    by (simp add: ctx_request_def)
qed

text \<open>What the merge does not mention is kept: a value of the record's context stays at its path
  when the request context has nothing on that path but objects above it.\<close>

theorem merge_keeps_record_context:
  assumes "context_ok (tr_context r)" "context_ok c"
    and "is_object (context_value (tr_context r))" "is_object (context_value c)"
    and "json_path (context_value (tr_context r)) ks = Some v" "ks \<noteq> []"
    and "\<forall>n < length ks. \<forall>a. json_path (context_value c) (take (Suc n) ks) = Some a \<longrightarrow>
           is_object a \<and> Suc n < length ks"
  shows "json_path (context_value (tr_context (merge_contexts r c))) ks = Some v"
  using merge_path_base_kept [of "context_value (tr_context r)" "context_value c" ks v] assms
  by (simp add: merge_contexts_def context_merge_def context_ok_def)

theorem merge_keeps_record_context_witness:
  "json_path (context_value (tr_context (merge_contexts ctx_record (Context ctx_request)))) [''a'', ''d''] = Some JNull"
  by (rule merge_keeps_record_context)
    (simp_all add: ctx_record_def ctx_request_def context_ok_def bt_ok_def less_Suc_eq)

text \<open>The JSON form of a trust record reads back as the record, and two records with the same
  JSON form are equal.\<close>

theorem record_json_faithful:
  "record_from_json (record_to_json r) = Ok r \<and> (record_to_json r = record_to_json r' \<longleftrightarrow> r = r')"
  using record_json_roundtrip [of r] record_json_roundtrip [of r'] by (metis result.inject(1))

text \<open>Building a record fails exactly when a mandatory part is missing, with the error of the
  first one in the order entity, authority, action, resource, type; otherwise the record has
  exactly the parts that were given, and flags that were not given stay absent.\<close>

theorem builder_behaviour:
  "builder_build b =
     (case (tb_entity b, tb_authority b, tb_action b, tb_resource b, tb_type b) of
        (Some e, Some a, Some act, Some rsc, Some t) \<Rightarrow>
          Ok \<lparr>tr_entity = e, tr_authority = a, tr_action = act, tr_resource = rsc,
              tr_recognized = tb_recognized b, tr_authorized = tb_authorized b,
              tr_context = tb_context b, tr_type = t\<rparr>
      | (None, _, _, _, _) \<Rightarrow> Err MissingEntityId
      | (_, None, _, _, _) \<Rightarrow> Err MissingAuthorityId
      | (_, _, None, _, _) \<Rightarrow> Err MissingAction
      | (_, _, _, None, _) \<Rightarrow> Err MissingResource
      | _ \<Rightarrow> Err MissingRecordType)"
  by (auto simp: builder_build_def split: option.split)

text \<open>The sort key identifies the tuple when neither the authority nor the action nor the
  resource contains the separator.\<close>

theorem sort_key_identifies:
  assumes "key_plain (key_from_query q)" "key_plain (key_from_query q')"
  shows "query_sk q = query_sk q' \<longleftrightarrow> q = q'"
  using sk_inj [OF assms] by (auto simp: query_sk_def key_from_query_inj)

theorem sort_key_identifies_witness:
  "query_sk (query_new (EntityId ''e'') (AuthorityId ''a'') (Action ''x'') (Resource ''r'')) \<noteq>
   query_sk (query_new (EntityId ''e#'') (AuthorityId ''a'') (Action ''x'') (Resource ''r''))"
  by (subst sort_key_identifies) (simp_all add: key_plain_def key_from_query_def query_new_def)

section \<open>The backends implement the map\<close>

text \<open>C11: Any sequence of commands on the in-memory backend answers and ends as a run of the abstract
  map of keys to records does, where a failed write has no effect.\<close>

theorem local_storage_refines_map:
  assumes "local_inv s" "exec_cmds local_repo cs s = (outs, s')"
  shows "local_inv s' \<and>
    abs_run True key_from_record key_from_query cs outs (local_view s) (local_view s')"
  using assms by (rule local.run_simulates)

theorem local_storage_refines_map_witness:
  "local_inv (snd (exec_cmds local_repo [CCreate sample_record, CCreate sample_record, CDelete (query_of_record sample_record)] local_new))"
proof -
  obtain outs s' where e: "exec_cmds local_repo
      [CCreate sample_record, CCreate sample_record, CDelete (query_of_record sample_record)] local_new = (outs, s')"
    by fastforce
  show ?thesis using local_storage_refines_map [OF local_new_inv(1) e] e by simp
qed

text \<open>On an in-memory store whose lock is not poisoned every operation answers exactly what the
  map says: a read finds the record of the tuple, a create succeeds when there is none, an update
  or delete when there is one, and the lock stays healthy.\<close>

theorem local_storage_answers:
  assumes "local_inv s" "\<not> ls_poisoned s"
  shows "fst (local_find q s) = Ok (local_view s (key_from_query q)) \<and>
    fst (local_read q s) = ok_or (local_view s (key_from_query q)) (missing_error q) \<and>
    fst (local_create r s) =
      (if local_view s (key_from_record r) = None then Ok () else Err (exists_error r)) \<and>
    fst (local_update r s) =
      (if local_view s (key_from_record r) = None then Err (missing_error (query_of_record r)) else Ok ()) \<and>
    fst (local_delete q s) =
      (if local_view s (key_from_query q) = None then Err (missing_error q) else Ok ()) \<and>
    \<not> ls_poisoned (snd (exec_cmd local_repo c s))"
proof (intro conjI)
  obtain out t where e: "exec_cmd local_repo c s = (out, t)" by fastforce
  show "\<not> ls_poisoned (snd (exec_cmd local_repo c s))" using local_unpoisoned [OF assms(2) e] e by simp
qed (rule local_healthy [OF assms])+

theorem local_storage_answers_witness:
  "fst (local_delete (query_of_record sample_record) local_new) =
     Err (missing_error (query_of_record sample_record))"
  using local_storage_answers [OF local_new_inv(1), of "query_of_record sample_record"]
  by (simp add: local_new_def local_view_def)

text \<open>C7: Any sequence of commands on the CSV backend, with any pattern of failing file operations,
  is a run of the abstract map in which a write that fails may nevertheless take effect.\<close>

theorem csv_storage_refines_map:
  assumes "csv_inv s" "exec_cmds (csv_repo x) cs s = (outs, s')"
  shows "csv_inv s' \<and> abs_run False key_from_record key_from_query cs outs (csv_view s) (csv_view s')"
  using assms by (rule csv.run_simulates)

theorem csv_storage_refines_map_witness:
  "csv_inv (snd (exec_cmds (csv_repo unary_csv) [CCreate sample_record, CList] (csv_fresh [IoFails ''full''])))"
proof -
  obtain outs s' where e: "exec_cmds (csv_repo unary_csv) [CCreate sample_record, CList]
      (csv_fresh [IoFails ''full'']) = (outs, s')" by fastforce
  show ?thesis using csv_storage_refines_map [OF csv_fresh_inv(1) e] e by simp
qed

text \<open>C14: When the CSV backend answers success to a create, an update or a delete, a process restarted on
  the file sees exactly the records of the first one after that change, each in the normal form a
  CSV row keeps (absent flags become false, a context that is neither object nor array becomes
  empty). This holds of records whose text fields have no white space around them, which the
  parser trims, for codecs that read back what they wrote, and when no file operation of the
  restart fails.\<close>

theorem csv_restart_sees_writes:
  assumes "codec_laws x" "csv_text_law x" "csv_inv s" "exec_cmd (csv_repo x) cmd s = (ODone, s')"
    and "\<forall>r \<in> ran (csv_after cmd (csv_view s)). plain_fields r" "fe_script (cs_env s') = []"
  shows "\<exists>n. csv_try_new x (cs_env s') = Ok n \<and>
    csv_view n = map_option csv_normal \<circ> csv_after cmd (csv_view s)"
  using csv_done_wrote [OF assms(3,4)] restart_after_write [OF assms(1,2) _ _ _ assms(6)] assms(5) by metis

theorem csv_restart_sees_writes_witness:
  "let (outs, s1) = exec_cmds (csv_repo unary_csv) [CCreate sample_record, CUpdate sample_record] (csv_fresh []);
     (outs', s2) = exec_cmds (csv_repo unary_csv) [CDelete (query_of_record sample_record)] s1 in
   outs = [ODone, ODone] \<and> outs' = [ODone] \<and>
   (\<exists>n. csv_try_new unary_csv (cs_env s1) = Ok n \<and>
      csv_view n (key_from_record sample_record) = Some (csv_normal sample_record)) \<and>
   (\<exists>n. csv_try_new unary_csv (cs_env s2) = Ok n \<and> csv_view n (key_from_record sample_record) = None)"
proof -
  let ?w = "\<lambda>c. exec_cmd (csv_repo unary_csv) c"
  have plain: "plain_fields sample_record"
    by (simp add: plain_fields_def sample_record_def trust_record_new_def trim_str_def trim_start_def is_space_def)
  note ev = csv_repo_def csv_defs hm_contains_def csv_fresh_def write_to_file_def fs_defs unary_csv_def Let_def out_of_def
  obtain s0 where s0: "?w (CCreate sample_record) (csv_fresh []) = (ODone, s0)"
    "cs_records s0 = [(key_from_record sample_record, sample_record)]" "fe_script (cs_env s0) = []"
    by (simp add: ev)
  obtain s1 where s1: "?w (CUpdate sample_record) s0 = (ODone, s1)"
    "cs_records s1 = [(key_from_record sample_record, sample_record)]" "fe_script (cs_env s1) = []"
    using s0(2,3) by (simp add: ev)
  obtain s2 where s2: "?w (CDelete (query_of_record sample_record)) s1 = (ODone, s2)" "fe_script (cs_env s2) = []"
    using s1(2,3) by (simp add: ev)
  have i: "csv_inv s0" "csv_inv s1" using csv_simulates [OF csv_fresh_inv(1) s0(1)] csv_simulates [OF _ s1(1)] by blast+
  have v: "csv_view s0 = [key_from_record sample_record \<mapsto> sample_record]"
    "csv_view s1 = [key_from_record sample_record \<mapsto> sample_record]" using s0(2) s1(2) by (auto simp: csv_view_def)
  show ?thesis
    using csv_restart_sees_writes [OF unary_csv_laws i(1) s1(1) _ s1(3)] plain
      csv_restart_sees_writes [OF unary_csv_laws i(2) s2(1) _ s2(2)] s0(1) s1(1) s2(1) v
    by (simp split: prod.splits) force
qed

text \<open>When the file write inside a CSV create fails, the caller gets an error but the record stays
  in memory: it answers queries at once, and the retry is refused because the record exists.\<close>

theorem csv_failed_create_sticks:
  assumes "csv_inv s" "csv_view s (key_from_record r) = None"
    and "csv_print x (map (csv_from_record x) (hm_values (AList.update (key_from_record r) r (cs_records s)))) = Ok text"
    and "fe_script (cs_env s) = IoFails m # rest"
  shows "\<exists>s'. csv_create x r s = (Err (QueryFailed (''Failed to write CSV file: '' @ m)), s') \<and>
    csv_find (query_of_record r) s' = (Ok (Some r), s') \<and>
    csv_create x r s' = (Err (RecordAlreadyExists (''Record already exists: '' @ trust_record_str r)), s')"
proof -
  let ?m = "AList.update (key_from_record r) r (cs_records s)"
  define s' where "s' = s\<lparr>cs_records := ?m, cs_env := (cs_env s)\<lparr>fe_script := rest\<rparr>\<rparr>"
  have "csv_create x r s = (Err (QueryFailed (''Failed to write CSV file: '' @ m)), s')"
    using assms by (simp add: csv_create_def hm_contains_def csv_view_def write_to_file_def fs_defs Let_def s'_def)
  moreover have "csv_find (query_of_record r) s' = (Ok (Some r), s')"
    using assms(1) by (simp add: csv_find_def s'_def csv_inv_def store_laws)
  moreover have "csv_create x r s' = (Err (RecordAlreadyExists (''Record already exists: '' @ trust_record_str r)), s')"
    by (simp add: csv_create_def hm_contains_def s'_def)
  ultimately show ?thesis by blast
qed

theorem csv_failed_create_sticks_witness:
  "\<exists>s'. csv_create unary_csv sample_record (csv_fresh [IoFails ''full'']) =
      (Err (QueryFailed (''Failed to write CSV file: '' @ ''full'')), s') \<and>
    csv_find (query_of_record sample_record) s' = (Ok (Some sample_record), s') \<and>
    csv_create unary_csv sample_record s' =
      (Err (RecordAlreadyExists (''Record already exists: '' @ trust_record_str sample_record)), s')"
  by (rule csv_failed_create_sticks [OF csv_fresh_inv(1)])
    (simp_all add: unary_csv_def, simp add: csv_fresh_def)

text \<open>C8: Under the documented behaviour of Redis, with lost replies and refused commands, any
  sequence of commands on the Redis backend is a run of the abstract map keyed by the sort key.\<close>

theorem redis_storage_refines_map:
  assumes "redis_laws conn sp" "serde_laws sj" "redis_inv sj sp s"
    and "exec_cmds (redis_repo sj conn) cs s = (outs, s')"
  shows "redis_inv sj sp s' \<and> abs_run False rec_sk query_sk cs outs (redis_view sj sp s) (redis_view sj sp s')"
  by (rule trust_repository.run_simulates [OF redis_repository [OF assms(1,2)] assms(3,4)])

theorem redis_storage_refines_map_witness:
  "redis_inv unary_serde mem_spec (snd (exec_cmds (redis_repo unary_serde mem_redis)
     [CCreate sample_record, CList] (mem_fresh [Answered, ReplyLost ''timeout''])))"
proof -
  obtain outs s' where e: "exec_cmds (redis_repo unary_serde mem_redis) [CCreate sample_record, CList]
      (mem_fresh [Answered, ReplyLost ''timeout'']) = (outs, s')" by fastforce
  show ?thesis
    using redis_storage_refines_map [OF mem_redis_laws unary_serde_laws mem_fresh_inv(1) e] e by simp
qed

text \<open>C16: The cursor loop of the Redis listing ends, and when it answers a list, these are exactly the
  records stored under the record prefix.\<close>

theorem redis_list_complete:
  assumes "redis_laws conn sp" "redis_inv sj sp c"
  shows "\<exists>res c'. redis_list_loop sj conn 0 [] c = Some (res, c') \<and>
    redis_view sj sp c' = redis_view sj sp c \<and>
    (\<forall>rs. res = Ok rs \<longrightarrow> set rs = ran (redis_view sj sp c))"
proof -
  obtain res c' where l: "redis_list_loop sj conn 0 [] c = Some (res, c')"
    using redis_list_terminates [OF assms(1)] by blast
  obtain out s' where e: "exec_cmd (redis_repo sj conn) CList c = (out, s')" by fastforce
  have r: "redis_list sj conn c = (res, c')" by (simp add: redis_list_def l)
  have "redis_inv sj sp s' \<and> abs_cmd False rec_sk query_sk CList out (redis_view sj sp c) (redis_view sj sp s')"
    by (rule redis_read_sim [OF assms _ e]) simp
  then show ?thesis using e r l by (cases res) (auto simp: redis_repo_def out_of_def)
qed

theorem redis_list_complete_witness:
  "\<exists>res c'. redis_list_loop unary_serde mem_redis 0 [] (mem_fresh []) = Some (res, c') \<and>
    redis_view unary_serde mem_spec c' = redis_view unary_serde mem_spec (mem_fresh []) \<and>
    (\<forall>rs. res = Ok rs \<longrightarrow> set rs = ran (redis_view unary_serde mem_spec (mem_fresh [])))"
  by (rule redis_list_complete [OF mem_redis_laws mem_fresh_inv(1)])

text \<open>On Redis two tuples whose sort keys coincide share one record: after creating a record for
  one of them, a query for the other answers with the record of the first, and creating the
  second is refused.\<close>

theorem redis_confuses_tuples:
  assumes "redis_laws conn sp" "serde_laws sj" "redis_inv sj sp s"
    and "redis_create sj conn r s = (Ok (), s1)"
    and "query_sk q = rec_sk r" "key_from_query q \<noteq> key_from_record r"
    and "redis_find sj conn q s1 = (Ok x, s2)"
  shows "x = Some r \<and> \<not> matches_query r q \<and>
    (\<forall>r' res s3. rec_sk r' = rec_sk r \<longrightarrow> redis_create sj conn r' s1 = (res, s3) \<longrightarrow> res \<noteq> Ok ())"
proof -
  note tr = redis_repository [OF assms(1,2)]
  have c: "repo_create (redis_repo sj conn) r s = (Ok (), s1)" using assms(4) by (simp add: redis_repo_def)
  have f: "repo_find (redis_repo sj conn) q s1 = (Ok x, s2)" using assms(7) by (simp add: redis_repo_def)
  note l = trust_repository.create_law [OF tr assms(3) c]
  have "x = Some r" using trust_repository.find_law(3) [OF tr l(1) f] l(2) assms(5) by simp
  moreover have "\<not> matches_query r q" using assms(6) by (simp add: matches_query_key)
  moreover have "res \<noteq> Ok ()" if "rec_sk r' = rec_sk r" "redis_create sj conn r' s1 = (res, s3)" for r' res s3
  proof -
    have "repo_create (redis_repo sj conn) r' s1 = (res, s3)" using that(2) by (simp add: redis_repo_def)
    from trust_repository.create_law(2) [OF tr l(1) this] show ?thesis using l(2) that(1) by auto
  qed
  ultimately show ?thesis by blast
qed

definition hash_record :: trust_record where
  "hash_record = trust_record_new (EntityId ''e'') (AuthorityId ''a#b'') (Action ''c'') (Resource ''r'')
     True True context_empty Authorization"

definition hash_query :: trust_record_query where
  "hash_query = query_new (EntityId ''e'') (AuthorityId ''a'') (Action ''b#c'') (Resource ''r'')"

theorem redis_confuses_tuples_witness:
  "\<exists>s1 s2. redis_create unary_serde mem_redis hash_record (mem_fresh []) = (Ok (), s1) \<and>
    redis_find unary_serde mem_redis hash_query s1 = (Ok (Some hash_record), s2) \<and>
    \<not> matches_query hash_record hash_query"
proof -
  have k: "query_sk hash_query = rec_sk hash_record" "key_from_query hash_query \<noteq> key_from_record hash_record"
    by (simp_all add: query_sk_def rec_sk_def hash_query_def hash_record_def sk_def key_body_def TR_SK_PREFIX_def
        key_from_query_def key_from_record_def query_new_def trust_record_new_def)
  have "\<exists>s1. redis_create unary_serde mem_redis hash_record (mem_fresh []) = (Ok (), s1) \<and> mk_script s1 = []"
    by (simp add: redis_create_def mem_redis_def mk_next_def mk_reply_def mk_apply_def mem_fresh_def
        serialize_record_def unary_serde_def Let_def)
  then obtain s1 where s1: "redis_create unary_serde mem_redis hash_record (mem_fresh []) = (Ok (), s1)"
    "mk_script s1 = []" by blast
  have tr: "redis_inv unary_serde mem_spec s1" "redis_view unary_serde mem_spec s1 (rec_sk hash_record) = Some hash_record"
    using mem_rd.create_law(1,2) [of "mem_fresh []" hash_record "Ok ()" s1] s1(1)
    by (simp_all add: redis_repo_def)
  obtain v where v: "map_of (mk_data s1) (query_sk hash_query) = Some v" "deserialize_record unary_serde v = Ok hash_record"
    using tr(2) k(1) by (auto simp: redis_view_def rec_sk_def kv_view_sk mem_spec_def bind_eq_Some_conv)
  have "\<exists>s2. redis_find unary_serde mem_redis hash_query s1 = (Ok (Some hash_record), s2)"
    using v s1(2) by (simp add: redis_find_def mem_redis_def mk_next_def mk_reply_def)
  then obtain s2 where s2: "redis_find unary_serde mem_redis hash_query s1 = (Ok (Some hash_record), s2)" by blast
  show ?thesis
    using redis_confuses_tuples [OF mem_redis_laws unary_serde_laws mem_fresh_inv(1) s1(1) k s2] s1(1) s2 by blast
qed

text \<open>C9: Under the documented behaviour of the embedded fjall store, with failing calls and panicking
  worker tasks, any sequence of commands is a run of the abstract map keyed by the sort key.\<close>

theorem fjall_storage_refines_map:
  assumes "fjall_laws conn st" "serde_laws sj" "fjall_inv sj st s"
    and "exec_cmds (fjall_repo sj conn) cs s = (outs, s')"
  shows "fjall_inv sj st s' \<and> abs_run False rec_sk query_sk cs outs (fjall_view sj st s) (fjall_view sj st s')"
  by (rule trust_repository.run_simulates [OF fjall_repository [OF assms(1,2)] assms(3,4)])

theorem fjall_storage_refines_map_witness:
  "fjall_inv unary_serde (rs_store mem_spec) (snd (exec_cmds (fjall_repo unary_serde mem_fjall)
     [CCreate sample_record, CList] (mem_fresh [Answered, ReplyLost ''panic''])))"
proof -
  obtain outs s' where e: "exec_cmds (fjall_repo unary_serde mem_fjall) [CCreate sample_record, CList]
      (mem_fresh [Answered, ReplyLost ''panic'']) = (outs, s')" by fastforce
  show ?thesis
    using fjall_storage_refines_map [OF mem_fjall_laws unary_serde_laws mem_fresh_inv(2) e] e by simp
qed

text \<open>On every backend, once a create has succeeded, later commands on other tuples and any later
  creates or updates of the tuple leave it recorded: another create of it never succeeds.\<close>

theorem no_second_create:
  assumes "trust_repository repo atomic kr kq view good" "good s"
    and "repo_create repo r s = (Ok (), s1)" "exec_cmds repo cs s1 = (outs, s2)"
    and "\<forall>c \<in> set cs. cmd_key kr kq c = Some (kr r) \<longrightarrow> (\<exists>r'. c = CUpdate r' \<or> c = CCreate r')"
    and "repo_create repo r' s2 = (res, s3)" "kr r' = kr r"
  shows "res \<noteq> Ok ()"
  by (rule trust_repository.second_create_refused [OF assms])

theorem no_second_create_witness:
  "fst (local_create sample_record (snd (local_create sample_record local_new))) \<noteq> Ok ()"
proof -
  obtain s1 where s1: "local_create sample_record local_new = (Ok (), s1)"
    by (simp add: local_create_def local_new_def hm_contains_def Let_def)
  obtain res s3 where s3: "local_create sample_record s1 = (res, s3)" by fastforce
  have "repo_create local_repo = local_create" by (simp add: local_repo_def)
  then show ?thesis
    using no_second_create [OF local.trust_repository_axioms local_new_inv(1), of sample_record s1 "[]" "[]" s1
        sample_record res s3] s1 s3 by simp
qed

end
