(* ===== verification/Ddb_Store.thy ===== *)
theory Ddb_Store
  imports Kv_Fjall
begin

text \<open>
  The DynamoDB backend, \<open>storage/adapters/ddb_storage.rs\<close>.  The table service and its SDK are a
  parameter, and so is the conversion of records to items.  The documented laws: a conditional write
  is applied when its condition holds, or not at all, and after an error it may or may not have
  been applied (the SDK retries); a read without the consistent-read flag, which the code does not
  set, may answer any value the item ever had.  The text of an SDK error is part of the parameter.
\<close>

section \<open>Items\<close>

datatype ddb_attr =
    DS string
  | DN string
  | DBool bool
  | DNull
  | DList "ddb_attr list"
  | DMap "(string \<times> ddb_attr) list"

type_synonym item = "string \<rightharpoonup> ddb_attr"

definition PK_ATTR :: string where "PK_ATTR = ''PK''"
definition SK_ATTR :: string where "SK_ATTR = ''SK''"

definition ddb_key :: "string \<Rightarrow> item" where
  "ddb_key k = [PK_ATTR \<mapsto> DS TR_PK, SK_ATTR \<mapsto> DS k]"

definition build_key :: "trust_record_query \<Rightarrow> item" where
  "build_key q = ddb_key (sk (key_from_query q))"

definition build_key_from_record :: "trust_record \<Rightarrow> item" where
  "build_key_from_record r = ddb_key (sk (key_from_record r))"

record serde_dynamo =
  sd_to_item :: "trust_record \<Rightarrow> (item, string) result"
  sd_from_item :: "item \<Rightarrow> (trust_record, string) result"

record ('c, 'e) ddb_conn =
  dc_get :: "item \<Rightarrow> 'c \<Rightarrow> (item option, 'e) result \<times> 'c"
  dc_put :: "item \<Rightarrow> string \<Rightarrow> 'c \<Rightarrow> (unit, 'e) result \<times> 'c"
  dc_delete :: "item \<Rightarrow> string \<Rightarrow> 'c \<Rightarrow> (unit, 'e) result \<times> 'c"
  dc_query :: "string \<Rightarrow> (string \<times> ddb_attr) list \<Rightarrow> 'c \<Rightarrow> (item list, 'e) result \<times> 'c"
  dc_display :: "'e \<Rightarrow> string"

section \<open>The operations\<close>

definition from_item :: "serde_dynamo \<Rightarrow> item \<Rightarrow> (trust_record, repository_error) result" where
  "from_item sd it = map_err SerializationFailed (sd_from_item sd it)"

definition ddb_get ::
  "('c, 'e) ddb_conn \<Rightarrow> trust_record_query \<Rightarrow> 'c \<Rightarrow> (item option, repository_error) result \<times> 'c" where
  "ddb_get conn q c =
     (case dc_get conn (build_key q) c of
        (res, c1) \<Rightarrow> (map_err (\<lambda>e. ConnectionFailed (''Failed to fetch item from DynamoDB: '' @ dc_display conn e)) res, c1))"

definition ddb_find ::
  "serde_dynamo \<Rightarrow> ('c, 'e) ddb_conn \<Rightarrow> trust_record_query \<Rightarrow> ('c, trust_record option) repo_op" where
  "ddb_find sd conn q c =
     (case ddb_get conn q c of
        (Err e, c1) \<Rightarrow> (Err e, c1)
      | (Ok (Some it), c1) \<Rightarrow> (bind_ok (from_item sd it) (\<lambda>r. Ok (Some r)), c1)
      | (Ok None, c1) \<Rightarrow> (Ok None, c1))"

definition ddb_read ::
  "serde_dynamo \<Rightarrow> ('c, 'e) ddb_conn \<Rightarrow> trust_record_query \<Rightarrow> ('c, trust_record) repo_op" where
  "ddb_read sd conn q c =
     (case ddb_get conn q c of
        (Err e, c1) \<Rightarrow> (Err e, c1)
      | (Ok (Some it), c1) \<Rightarrow> (from_item sd it, c1)
      | (Ok None, c1) \<Rightarrow> (Err (missing_error q), c1))"

definition IF_ABSENT :: string where "IF_ABSENT = ''attribute_not_exists(SK)''"
definition IF_PRESENT :: string where "IF_PRESENT = ''attribute_exists(SK)''"

definition write_error :: "('c, 'e) ddb_conn \<Rightarrow> repository_error \<Rightarrow> string \<Rightarrow> 'e \<Rightarrow> repository_error" where
  "write_error conn refused what e =
     (if contains_str ''ConditionalCheckFailed'' (dc_display conn e) then refused
      else QueryFailed (what @ dc_display conn e))"

definition ddb_put ::
  "serde_dynamo \<Rightarrow> ('c, 'e) ddb_conn \<Rightarrow> string \<Rightarrow> repository_error \<Rightarrow> string \<Rightarrow> trust_record \<Rightarrow> ('c, unit) repo_op" where
  "ddb_put sd conn cond refused what r c =
     (case sd_to_item sd r of
        Err e \<Rightarrow> (Err (SerializationFailed e), c)
      | Ok it \<Rightarrow>
          (case dc_put conn (it ++ build_key_from_record r) cond c of
             (res, c1) \<Rightarrow> (map_err (write_error conn refused what) res, c1)))"

definition ddb_create :: "serde_dynamo \<Rightarrow> ('c, 'e) ddb_conn \<Rightarrow> trust_record \<Rightarrow> ('c, unit) repo_op" where
  "ddb_create sd conn r = ddb_put sd conn IF_ABSENT (exists_error r) ''Failed to create record: '' r"

definition ddb_update :: "serde_dynamo \<Rightarrow> ('c, 'e) ddb_conn \<Rightarrow> trust_record \<Rightarrow> ('c, unit) repo_op" where
  "ddb_update sd conn r =
     ddb_put sd conn IF_PRESENT (missing_error (query_of_record r)) ''Failed to update record: '' r"

definition ddb_delete :: "('c, 'e) ddb_conn \<Rightarrow> trust_record_query \<Rightarrow> ('c, unit) repo_op" where
  "ddb_delete conn q c =
     (case dc_delete conn (build_key q) IF_PRESENT c of
        (res, c1) \<Rightarrow> (map_err (write_error conn (missing_error q) ''Failed to delete record: '') res, c1))"

fun collect_items ::
  "serde_dynamo \<Rightarrow> trust_record list \<Rightarrow> item list \<Rightarrow> (trust_record list, repository_error) result" where
  "collect_items sd records [] = Ok records"
| "collect_items sd records (it # items) =
     bind_ok (from_item sd it) (\<lambda>r. collect_items sd (records @ [r]) items)"

definition SK_PREFIX_QUERY :: string where
  "SK_PREFIX_QUERY = ''PK = :pk AND begins_with(SK, :sk_prefix)''"

definition ddb_list :: "serde_dynamo \<Rightarrow> ('c, 'e) ddb_conn \<Rightarrow> ('c, trust_record list) repo_op" where
  "ddb_list sd conn c =
     (case dc_query conn SK_PREFIX_QUERY [('':pk'', DS TR_PK), ('':sk_prefix'', DS TR_SK_PREFIX)] c of
        (Err e, c1) \<Rightarrow> (Err (QueryFailed (''Failed to query table: '' @ dc_display conn e)), c1)
      | (Ok items, c1) \<Rightarrow> (collect_items sd [] items, c1))"

definition ddb_repo :: "serde_dynamo \<Rightarrow> ('c, 'e) ddb_conn \<Rightarrow> 'c trust_repo" where
  "ddb_repo sd conn = \<lparr>repo_find = ddb_find sd conn, repo_create = ddb_create sd conn,
     repo_update = ddb_update sd conn, repo_delete = ddb_delete conn,
     repo_list = ddb_list sd conn, repo_read = ddb_read sd conn\<rparr>"

section \<open>What the service documents\<close>

text \<open>The items of the partition now, and the values each has ever had.\<close>

record 'c ddb_spec =
  ds_now :: "'c \<Rightarrow> string \<rightharpoonup> item"
  ds_past :: "'c \<Rightarrow> string \<Rightarrow> item option set"

definition item_law :: "serde_dynamo \<Rightarrow> bool" where
  "item_law sd \<longleftrightarrow> (\<forall>r it it'. sd_to_item sd r = Ok it \<longrightarrow>
     (\<forall>a. a \<noteq> PK_ATTR \<longrightarrow> a \<noteq> SK_ATTR \<longrightarrow> it' a = it a) \<longrightarrow> sd_from_item sd it' = Ok r)"

definition same_items :: "'c ddb_spec \<Rightarrow> 'c \<Rightarrow> 'c \<Rightarrow> bool" where
  "same_items sp c c' \<longleftrightarrow> ds_now sp c' = ds_now sp c \<and> ds_past sp c' = ds_past sp c"

definition item_set :: "'c ddb_spec \<Rightarrow> string \<Rightarrow> item option \<Rightarrow> 'c \<Rightarrow> 'c \<Rightarrow> bool" where
  "item_set sp k x c c' \<longleftrightarrow> ds_now sp c' = (ds_now sp c)(k := x) \<and>
     ds_past sp c' = (ds_past sp c)(k := insert x (ds_past sp c k))"

definition condition_holds :: "string \<Rightarrow> item option \<Rightarrow> bool" where
  "condition_holds cond x \<longleftrightarrow> (if cond = IF_ABSENT then x = None else x \<noteq> None)"

definition ddb_read_law :: "('c, 'e) ddb_conn \<Rightarrow> 'c ddb_spec \<Rightarrow> bool" where
  "ddb_read_law conn sp \<longleftrightarrow>
     (\<forall>k c res c'. dc_get conn (ddb_key k) c = (res, c') \<longrightarrow>
        same_items sp c c' \<and> (\<forall>x. res = Ok x \<longrightarrow> x \<in> ds_past sp c k)) \<and>
     (\<forall>c res c'. dc_query conn SK_PREFIX_QUERY [('':pk'', DS TR_PK), ('':sk_prefix'', DS TR_SK_PREFIX)] c = (res, c') \<longrightarrow>
        same_items sp c c' \<and> (\<forall>items. res = Ok items \<longrightarrow> (\<forall>it \<in> set items. \<exists>k.
          starts_with TR_SK_PREFIX k \<and> Some it \<in> ds_past sp c k)))"

definition ddb_write_law :: "('c, 'e) ddb_conn \<Rightarrow> 'c ddb_spec \<Rightarrow> bool" where
  "ddb_write_law conn sp \<longleftrightarrow>
     (\<forall>it k cond c res c'. dc_put conn (it ++ ddb_key k) cond c = (res, c') \<longrightarrow> cond \<in> {IF_ABSENT, IF_PRESENT} \<longrightarrow>
        condition_holds cond (ds_now sp c k) \<and> item_set sp k (Some (it ++ ddb_key k)) c c' \<or>
        res \<noteq> Ok () \<and> same_items sp c c') \<and>
     (\<forall>k c res c'. dc_delete conn (ddb_key k) IF_PRESENT c = (res, c') \<longrightarrow>
        ds_now sp c k \<noteq> None \<and> item_set sp k None c c' \<or> res \<noteq> Ok () \<and> same_items sp c c')"

definition ddb_laws :: "('c, 'e) ddb_conn \<Rightarrow> 'c ddb_spec \<Rightarrow> bool" where
  "ddb_laws conn sp \<longleftrightarrow> ddb_read_law conn sp \<and> ddb_write_law conn sp"

text \<open>Reads that answer the current items, which the service grants only when asked for.\<close>

definition reads_current :: "('c, 'e) ddb_conn \<Rightarrow> 'c ddb_spec \<Rightarrow> bool" where
  "reads_current conn sp \<longleftrightarrow>
     (\<forall>k c x c'. dc_get conn (ddb_key k) c = (Ok x, c') \<longrightarrow> x = ds_now sp c k) \<and>
     (\<forall>c items c'. dc_query conn SK_PREFIX_QUERY [('':pk'', DS TR_PK), ('':sk_prefix'', DS TR_SK_PREFIX)] c = (Ok items, c') \<longrightarrow>
        set items = {it. \<exists>k. starts_with TR_SK_PREFIX k \<and> ds_now sp c k = Some it})"

text \<open>Whether the text of an error tells that the condition of the write did not hold.\<close>

definition refusals_named :: "('c, 'e) ddb_conn \<Rightarrow> 'c ddb_spec \<Rightarrow> bool" where
  "refusals_named conn sp \<longleftrightarrow>
     (\<forall>it k cond c e c'. dc_put conn (it ++ ddb_key k) cond c = (Err e, c') \<longrightarrow>
        contains_str ''ConditionalCheckFailed'' (dc_display conn e) \<longrightarrow>
        \<not> condition_holds cond (ds_now sp c k) \<and> same_items sp c c') \<and>
     (\<forall>k c e c'. dc_delete conn (ddb_key k) IF_PRESENT c = (Err e, c') \<longrightarrow>
        contains_str ''ConditionalCheckFailed'' (dc_display conn e) \<longrightarrow>
        ds_now sp c k = None \<and> same_items sp c c')"

definition refusals_unnamed :: "('c, 'e) ddb_conn \<Rightarrow> bool" where
  "refusals_unnamed conn \<longleftrightarrow> (\<forall>e. \<not> contains_str ''ConditionalCheckFailed'' (dc_display conn e))"

definition ddb_view :: "serde_dynamo \<Rightarrow> 'c ddb_spec \<Rightarrow> 'c \<Rightarrow> string \<rightharpoonup> trust_record" where
  "ddb_view sd sp c = (\<lambda>k. if starts_with TR_SK_PREFIX k
     then Option.bind (ds_now sp c k) (\<lambda>it. ok_opt (sd_from_item sd it)) else None)"

text \<open>The records a key ever had, and the invariant the adapter's own writes keep.\<close>

definition ddb_ever :: "serde_dynamo \<Rightarrow> 'c ddb_spec \<Rightarrow> 'c \<Rightarrow> string \<Rightarrow> trust_record set" where
  "ddb_ever sd sp c k = {r. \<exists>it. Some it \<in> ds_past sp c k \<and> sd_from_item sd it = Ok r}"

definition item_record :: "serde_dynamo \<Rightarrow> item option \<Rightarrow> trust_record option" where
  "item_record sd x = Option.bind x (\<lambda>it. ok_opt (sd_from_item sd it))"

text \<open>
  The abstract table: the record of every key, and the records it has ever had, absence among them.
  Its commands: a write is applied exactly when its condition holds now, or fails without effect,
  and a write that fails may have been applied; a read answers some value its key has had, and
  nothing more is promised of it.
\<close>

type_synonym table = "(string \<rightharpoonup> trust_record) \<times> (string \<Rightarrow> trust_record option set)"

definition ddb_table :: "serde_dynamo \<Rightarrow> 'c ddb_spec \<Rightarrow> 'c \<Rightarrow> table" where
  "ddb_table sd sp c = (ddb_view sd sp c,
     \<lambda>k. if starts_with TR_SK_PREFIX k then item_record sd ` ds_past sp c k else {None})"

definition store_value :: "string \<Rightarrow> trust_record option \<Rightarrow> table \<Rightarrow> table" where
  "store_value k x t = ((fst t)(k := x), (snd t)(k := insert x (snd t k)))"

fun table_cmd :: "repo_cmd \<Rightarrow> repo_out \<Rightarrow> table \<Rightarrow> table \<Rightarrow> bool" where
  "table_cmd (CFind q) (OFound x) t t' \<longleftrightarrow> t' = t \<and> x \<in> snd t (query_sk q)"
| "table_cmd (CFind q) (OFailed e) t t' \<longleftrightarrow> t' = t"
| "table_cmd (CRead q) (ORecord r) t t' \<longleftrightarrow> t' = t \<and> Some r \<in> snd t (query_sk q)"
| "table_cmd (CRead q) (OFailed e) t t' \<longleftrightarrow> t' = t \<and> (says_missing e \<longrightarrow> None \<in> snd t (query_sk q))"
| "table_cmd CList (ORecords rs) t t' \<longleftrightarrow> t' = t \<and> (\<forall>r \<in> set rs. Some r \<in> snd t (rec_sk r))"
| "table_cmd CList (OFailed e) t t' \<longleftrightarrow> t' = t"
| "table_cmd (CCreate r) ODone t t' \<longleftrightarrow> fst t (rec_sk r) = None \<and> t' = store_value (rec_sk r) (Some r) t"
| "table_cmd (CCreate r) (OFailed e) t t' \<longleftrightarrow> t' = t \<or>
     fst t (rec_sk r) = None \<and> t' = store_value (rec_sk r) (Some r) t"
| "table_cmd (CUpdate r) ODone t t' \<longleftrightarrow> fst t (rec_sk r) \<noteq> None \<and> t' = store_value (rec_sk r) (Some r) t"
| "table_cmd (CUpdate r) (OFailed e) t t' \<longleftrightarrow> t' = t \<or>
     fst t (rec_sk r) \<noteq> None \<and> t' = store_value (rec_sk r) (Some r) t"
| "table_cmd (CDelete q) ODone t t' \<longleftrightarrow> fst t (query_sk q) \<noteq> None \<and> t' = store_value (query_sk q) None t"
| "table_cmd (CDelete q) (OFailed e) t t' \<longleftrightarrow> t' = t \<or>
     fst t (query_sk q) \<noteq> None \<and> t' = store_value (query_sk q) None t"
| "table_cmd _ _ t t' \<longleftrightarrow> False"

fun table_run :: "repo_cmd list \<Rightarrow> repo_out list \<Rightarrow> table \<Rightarrow> table \<Rightarrow> bool" where
  "table_run [] [] t t' \<longleftrightarrow> t' = t"
| "table_run (c # cs) (x # xs) t t' \<longleftrightarrow> (\<exists>t1. table_cmd c x t t1 \<and> table_run cs xs t1 t')"
| "table_run _ _ t t' \<longleftrightarrow> False"

definition ddb_inv :: "serde_dynamo \<Rightarrow> 'c ddb_spec \<Rightarrow> 'c \<Rightarrow> bool" where
  "ddb_inv sd sp c \<longleftrightarrow> (\<forall>k. ds_now sp c k \<in> ds_past sp c k) \<and>
     (\<forall>k it. Some it \<in> ds_past sp c k \<longrightarrow> starts_with TR_SK_PREFIX k \<longrightarrow>
        (\<exists>r. sd_from_item sd it = Ok r \<and> rec_sk r = k))"

section \<open>Lemmas\<close>

lemma ddb_view_sk: "ddb_view sd sp c (sk k) = Option.bind (ds_now sp c (sk k)) (\<lambda>it. ok_opt (sd_from_item sd it))"
  by (simp add: ddb_view_def)

lemma ddb_inv_now:
  assumes "ddb_inv sd sp c" "ds_now sp c (sk k) = Some it"
  obtains r where "sd_from_item sd it = Ok r" "rec_sk r = sk k" "ddb_view sd sp c (sk k) = Some r"
proof -
  have "Some it \<in> ds_past sp c (sk k)" using assms by (metis ddb_inv_def)
  then obtain r where "sd_from_item sd it = Ok r" "rec_sk r = sk k"
    by (metis assms(1) ddb_inv_def sk_prefix)
  then show thesis using that assms(2) by (simp add: ddb_view_sk)
qed

lemma ddb_view_None: "ddb_inv sd sp c \<Longrightarrow> ddb_view sd sp c (sk k) = None \<longleftrightarrow> ds_now sp c (sk k) = None"
  by (cases "ds_now sp c (sk k)") (auto simp: ddb_view_sk elim: ddb_inv_now)

lemma ddb_same:
  "same_items sp c c' \<Longrightarrow> ddb_view sd sp c' = ddb_view sd sp c"
  "same_items sp c c' \<Longrightarrow> ddb_inv sd sp c \<Longrightarrow> ddb_inv sd sp c'"
  by (auto simp: same_items_def ddb_view_def ddb_inv_def fun_eq_iff)

lemma ddb_set:
  assumes "item_set sp (sk k) x c c'" "ddb_inv sd sp c"
    and "\<And>it. x = Some it \<Longrightarrow> \<exists>r. sd_from_item sd it = Ok r \<and> rec_sk r = sk k"
  shows "ddb_inv sd sp c'"
    "ddb_view sd sp c' = (ddb_view sd sp c)(sk k := Option.bind x (\<lambda>it. ok_opt (sd_from_item sd it)))"
  using assms by (auto simp: item_set_def ddb_inv_def ddb_view_def fun_eq_iff)

lemma table_same: "same_items sp c c' \<Longrightarrow> ddb_table sd sp c' = ddb_table sd sp c"
  by (auto simp: ddb_table_def same_items_def ddb_view_def fun_eq_iff)

lemma table_set:
  "item_set sp (sk k) x c c' \<Longrightarrow> ddb_table sd sp c' = store_value (sk k) (item_record sd x) (ddb_table sd sp c)"
  by (auto simp: ddb_table_def store_value_def item_set_def ddb_view_def item_record_def fun_eq_iff)

lemma item_back:
  assumes "item_law sd" "sd_to_item sd r = Ok it"
  shows "sd_from_item sd (it ++ build_key_from_record r) = Ok r"
proof -
  have "\<forall>a. a \<noteq> PK_ATTR \<longrightarrow> a \<noteq> SK_ATTR \<longrightarrow> (it ++ build_key_from_record r) a = it a"
    by (simp add: build_key_from_record_def ddb_key_def map_add_def)
  then show ?thesis using assms by (auto simp: item_law_def)
qed

lemma write_error_cases:
  "write_error conn refused what e = refused \<or> write_error conn refused what e = QueryFailed (what @ dc_display conn e)"
  by (simp add: write_error_def)

lemma ddb_put_step:
  assumes "ddb_laws conn sp" "item_law sd" "ddb_inv sd sp s" "cond \<in> {IF_ABSENT, IF_PRESENT}"
    and "ddb_put sd conn cond refused what r s = (res, s')"
  shows "ddb_inv sd sp s' \<and>
    ((cond = IF_ABSENT \<longleftrightarrow> ddb_view sd sp s (rec_sk r) = None) \<and>
       ddb_view sd sp s' = (ddb_view sd sp s)(rec_sk r \<mapsto> r) \<and>
       ddb_table sd sp s' = store_value (rec_sk r) (Some r) (ddb_table sd sp s) \<or>
     res \<noteq> Ok () \<and> ddb_view sd sp s' = ddb_view sd sp s \<and> ddb_table sd sp s' = ddb_table sd sp s)"
proof (cases "sd_to_item sd r")
  case (Err e)
  then show ?thesis using assms by (auto simp: ddb_put_def)
next
  case (Ok it)
  let ?it = "it ++ build_key_from_record r"
  obtain su s1 where p: "dc_put conn ?it cond s = (su, s1)" by fastforce
  have b: "sd_from_item sd ?it = Ok r" by (rule item_back [OF assms(2) Ok])
  have key: "build_key_from_record r = ddb_key (rec_sk r)" by (simp add: build_key_from_record_def rec_sk_def)
  have e: "res = map_err (write_error conn refused what) su" "s' = s1"
    using assms(5) Ok p by (simp_all add: ddb_put_def)
  have n: "ddb_view sd sp s (rec_sk r) = None \<longleftrightarrow> ds_now sp s (rec_sk r) = None"
    using ddb_view_None [OF assms(3)] by (simp add: rec_sk_def)
  have "condition_holds cond (ds_now sp s (rec_sk r)) \<and> item_set sp (rec_sk r) (Some ?it) s s1 \<or>
      su \<noteq> Ok () \<and> same_items sp s s1"
    using assms(1,4) p [unfolded key] unfolding ddb_laws_def ddb_write_law_def key by blast
  then show ?thesis
  proof
    assume h: "condition_holds cond (ds_now sp s (rec_sk r)) \<and> item_set sp (rec_sk r) (Some ?it) s s1"
    note st = ddb_set [OF conjunct2 [OF h, unfolded rec_sk_def] assms(3)]
    have tb: "ddb_table sd sp s1 = store_value (rec_sk r) (Some r) (ddb_table sd sp s)"
      using table_set [OF conjunct2 [OF h, unfolded rec_sk_def]] b by (simp add: item_record_def rec_sk_def)
    have "\<exists>r'. sd_from_item sd it' = Ok r' \<and> rec_sk r' = sk (key_from_record r)" if "Some ?it = Some it'" for it'
      using that b by (simp add: rec_sk_def)
    then show ?thesis using st h assms(4) b n e tb
      by (auto simp: condition_holds_def rec_sk_def IF_ABSENT_def IF_PRESENT_def)
  next
    assume h: "su \<noteq> Ok () \<and> same_items sp s s1"
    then have "res \<noteq> Ok ()" using e by (cases su) auto
    then show ?thesis using ddb_same [OF conjunct2 [OF h]] table_same [OF conjunct2 [OF h]] assms(3) e by simp
  qed
qed

lemma ddb_delete_step:
  assumes "ddb_laws conn sp" "ddb_inv sd sp s" "ddb_delete conn q s = (res, s')"
  shows "ddb_inv sd sp s' \<and>
    (ddb_view sd sp s (query_sk q) \<noteq> None \<and> ddb_view sd sp s' = (ddb_view sd sp s)(query_sk q := None) \<and>
       ddb_table sd sp s' = store_value (query_sk q) None (ddb_table sd sp s) \<or>
     res \<noteq> Ok () \<and> ddb_view sd sp s' = ddb_view sd sp s \<and> ddb_table sd sp s' = ddb_table sd sp s)"
proof -
  obtain su s1 where p: "dc_delete conn (build_key q) IF_PRESENT s = (su, s1)" by fastforce
  have key: "build_key q = ddb_key (query_sk q)" by (simp add: build_key_def query_sk_def)
  have e1: "s' = s1" using assms(3) p by (simp add: ddb_delete_def)
  have e: "res \<noteq> Ok ()" if "su \<noteq> Ok ()"
    using assms(3) p that by (cases su) (auto simp: ddb_delete_def)
  have n: "ddb_view sd sp s (query_sk q) = None \<longleftrightarrow> ds_now sp s (query_sk q) = None"
    using ddb_view_None [OF assms(2)] by (simp add: query_sk_def)
  have "ds_now sp s (query_sk q) \<noteq> None \<and> item_set sp (query_sk q) None s s1 \<or> su \<noteq> Ok () \<and> same_items sp s s1"
    using assms(1) p [unfolded key] unfolding ddb_laws_def ddb_write_law_def by blast
  then show ?thesis
  proof
    assume h: "ds_now sp s (query_sk q) \<noteq> None \<and> item_set sp (query_sk q) None s s1"
    then show ?thesis using ddb_set [OF conjunct2 [OF h, unfolded query_sk_def] assms(2)] n e1
        table_set [OF conjunct2 [OF h, unfolded query_sk_def], of sd]
      by (auto simp: query_sk_def item_record_def)
  next
    assume h: "su \<noteq> Ok () \<and> same_items sp s s1"
    then show ?thesis using ddb_same [OF conjunct2 [OF h]] table_same [OF conjunct2 [OF h]] assms(2) e e1 by simp
  qed
qed

lemma collect_items_spec:
  "collect_items sd records its = Ok rs \<Longrightarrow>
   set rs = set records \<union> {r. \<exists>it \<in> set its. sd_from_item sd it = Ok r} \<and>
   (\<forall>it \<in> set its. is_ok (sd_from_item sd it))"
proof (induction its arbitrary: records)
  case (Cons it its)
  then obtain r where r: "sd_from_item sd it = Ok r"
    by (cases "sd_from_item sd it") (auto simp: from_item_def)
  then have "collect_items sd (records @ [r]) its = Ok rs" using Cons.prems by (simp add: from_item_def)
  from Cons.IH [OF this] show ?case using r by auto
qed simp

lemma collect_items_error: "collect_items sd records its = Err e \<Longrightarrow> \<not> says_missing e"
proof (induction its arbitrary: records)
  case (Cons it its)
  then show ?case by (cases "sd_from_item sd it") (auto simp: from_item_def)
qed simp

text \<open>A read: what it answers was stored, and is current when reads are.\<close>

lemma ddb_get_step:
  assumes "ddb_laws conn sp" "ddb_inv sd sp s" "ddb_get conn q s = (res, s')"
  shows "ddb_inv sd sp s' \<and> ddb_view sd sp s' = ddb_view sd sp s \<and>
    (\<forall>it. res = Ok (Some it) \<longrightarrow> (\<exists>r. sd_from_item sd it = Ok r \<and> rec_sk r = query_sk q \<and>
       r \<in> ddb_ever sd sp s (query_sk q) \<and> (reads_current conn sp \<longrightarrow> ddb_view sd sp s (query_sk q) = Some r))) \<and>
    (reads_current conn sp \<longrightarrow> res = Ok None \<longrightarrow> ddb_view sd sp s (query_sk q) = None) \<and>
    (\<forall>e. res = Err e \<longrightarrow> \<not> says_missing e)"
proof -
  have key: "build_key q = ddb_key (query_sk q)" by (simp add: build_key_def query_sk_def)
  obtain g where g: "dc_get conn (ddb_key (query_sk q)) s = (g, s')"
    "res = map_err (\<lambda>e. ConnectionFailed (''Failed to fetch item from DynamoDB: '' @ dc_display conn e)) g"
    using assms(3) by (auto simp: ddb_get_def key split: prod.splits)
  have l: "same_items sp s s'" "\<And>x. g = Ok x \<Longrightarrow> x \<in> ds_past sp s (query_sk q)"
    using assms(1) g(1) unfolding ddb_laws_def ddb_read_law_def by blast+
  have cur: "x = ds_now sp s (query_sk q)" if "reads_current conn sp" "g = Ok x" for x
    using that g(1) unfolding reads_current_def by blast
  have "\<exists>r. sd_from_item sd it = Ok r \<and> rec_sk r = query_sk q \<and> r \<in> ddb_ever sd sp s (query_sk q) \<and>
      (reads_current conn sp \<longrightarrow> ddb_view sd sp s (query_sk q) = Some r)" if "g = Ok (Some it)" for it
  proof -
    have p: "Some it \<in> ds_past sp s (query_sk q)" using l(2) that by simp
    then obtain r where r: "sd_from_item sd it = Ok r" "rec_sk r = query_sk q"
      using assms(2) unfolding ddb_inv_def query_sk_def by (metis sk_prefix)
    have "ddb_view sd sp s (query_sk q) = Some r" if "reads_current conn sp"
      using cur [OF that \<open>g = Ok (Some it)\<close>, symmetric] r(1) by (simp add: query_sk_def ddb_view_sk)
    then show ?thesis using r p by (auto simp: ddb_ever_def)
  qed
  moreover have "ddb_view sd sp s (query_sk q) = None" if "reads_current conn sp" "g = Ok None"
    using cur [OF that, symmetric] by (simp add: query_sk_def ddb_view_sk)
  moreover have "\<not> says_missing e" if "res = Err e" for e using that g(2) by (cases g) auto
  ultimately show ?thesis
    using ddb_same [OF l(1)] assms(2) g(2) by (cases g) auto
qed

lemma ddb_list_step:
  assumes "ddb_laws conn sp" "ddb_inv sd sp s" "ddb_list sd conn s = (res, s')"
  shows "ddb_inv sd sp s' \<and> ddb_view sd sp s' = ddb_view sd sp s \<and>
    (\<forall>rs. res = Ok rs \<longrightarrow> (\<forall>r \<in> set rs. r \<in> ddb_ever sd sp s (rec_sk r)) \<and>
       (reads_current conn sp \<longrightarrow> set rs = ran (ddb_view sd sp s)))"
proof -
  obtain g where g: "dc_query conn SK_PREFIX_QUERY [('':pk'', DS TR_PK), ('':sk_prefix'', DS TR_SK_PREFIX)] s = (g, s')"
    "res = bind_ok (map_err (\<lambda>e. QueryFailed (''Failed to query table: '' @ dc_display conn e)) g) (collect_items sd [])"
    using assms(3) by (auto simp: ddb_list_def split: prod.splits result.splits)
  have l: "same_items sp s s'" "\<And>its it. g = Ok its \<Longrightarrow> it \<in> set its \<Longrightarrow>
      \<exists>k. starts_with TR_SK_PREFIX k \<and> Some it \<in> ds_past sp s k"
    using assms(1) g(1) unfolding ddb_laws_def ddb_read_law_def by blast+
  have "(\<forall>r \<in> set rs. r \<in> ddb_ever sd sp s (rec_sk r)) \<and>
      (reads_current conn sp \<longrightarrow> set rs = ran (ddb_view sd sp s))" if ok: "res = Ok rs" for rs
  proof -
    obtain its where its: "g = Ok its" "collect_items sd [] its = Ok rs" using ok g(2) by (cases g) simp_all
    note c = collect_items_spec [OF its(2), simplified]
    have "r \<in> ddb_ever sd sp s (rec_sk r)" if r: "r \<in> set rs" for r
    proof -
      obtain it where it: "it \<in> set its" "sd_from_item sd it = Ok r" using r c by auto
      then obtain k where k: "starts_with TR_SK_PREFIX k" "Some it \<in> ds_past sp s k" using l(2) its(1) by blast
      then have "rec_sk r = k" using assms(2) it(2) unfolding ddb_inv_def by fastforce
      then show ?thesis using k(2) it(2) by (auto simp: ddb_ever_def)
    qed
    moreover have "set rs = ran (ddb_view sd sp s)" if "reads_current conn sp"
    proof -
      have "set its = {it. \<exists>k. starts_with TR_SK_PREFIX k \<and> ds_now sp s k = Some it}"
        using that g(1) its(1) unfolding reads_current_def by blast
      then show ?thesis using c by (auto simp: ddb_view_def ran_def bind_eq_Some_conv)
    qed
    ultimately show ?thesis by blast
  qed
  then show ?thesis using ddb_same [OF l(1)] assms(2) by blast
qed

text \<open>However stale the reads: every command is one of the abstract table.\<close>

lemma table_holds:
  "ddb_inv sd sp s \<Longrightarrow> starts_with TR_SK_PREFIX k \<Longrightarrow> x \<in> ds_past sp s k \<Longrightarrow> item_record sd x \<in> snd (ddb_table sd sp s) k"
  by (simp add: ddb_table_def)

lemma ddb_get_table:
  assumes "ddb_laws conn sp" "ddb_inv sd sp s" "ddb_get conn q s = (res, s')"
  shows "ddb_inv sd sp s' \<and> ddb_table sd sp s' = ddb_table sd sp s \<and>
    (\<forall>x. res = Ok x \<longrightarrow> item_record sd x \<in> snd (ddb_table sd sp s) (query_sk q) \<and>
       (\<forall>it. x = Some it \<longrightarrow> (\<exists>r. sd_from_item sd it = Ok r))) \<and>
    (\<forall>e. res = Err e \<longrightarrow> \<not> says_missing e)"
proof -
  obtain g where g: "dc_get conn (ddb_key (query_sk q)) s = (g, s')"
    "res = map_err (\<lambda>e. ConnectionFailed (''Failed to fetch item from DynamoDB: '' @ dc_display conn e)) g"
    using assms(3) by (auto simp: ddb_get_def build_key_def query_sk_def split: prod.splits)
  have l: "same_items sp s s'" "\<And>x. g = Ok x \<Longrightarrow> x \<in> ds_past sp s (query_sk q)"
    using assms(1) g(1) unfolding ddb_laws_def ddb_read_law_def by blast+
  have d: "\<exists>r. sd_from_item sd it = Ok r" if "g = Ok (Some it)" for it
    using l(2) [OF that] assms(2) unfolding ddb_inv_def query_sk_def by (metis sk_prefix)
  show ?thesis
    using table_same [OF l(1)] ddb_same(2) [OF l(1) assms(2)] table_holds [OF assms(2)] l(2) d g(2)
    by (cases g) (auto simp: query_sk_def)
qed

lemma ddb_cmd_table:
  assumes "ddb_laws conn sp" "item_law sd" "ddb_inv sd sp s" "exec_cmd (ddb_repo sd conn) cmd s = (out, s')"
  shows "ddb_inv sd sp s' \<and> table_cmd cmd out (ddb_table sd sp s) (ddb_table sd sp s')"
proof (cases cmd)
  case (CFind q)
  obtain g s1 where g: "ddb_get conn q s = (g, s1)" by fastforce
  show ?thesis using ddb_get_table [OF assms(1,3) g] g assms(4) CFind
    by (cases g) (auto simp: ddb_repo_def ddb_find_def out_of_def from_item_def item_record_def split: option.splits)
next
  case (CRead q)
  obtain g s1 where g: "ddb_get conn q s = (g, s1)" by fastforce
  show ?thesis using ddb_get_table [OF assms(1,3) g] g assms(4) CRead
    by (cases g) (auto simp: ddb_repo_def ddb_read_def out_of_def from_item_def item_record_def split: option.splits)
next
  case CList
  obtain res where p: "ddb_list sd conn s = (res, s')" "out = fst (out_of ORecords (res, s'))"
    using assms(4) CList by (cases "ddb_list sd conn s"; cases "fst (ddb_list sd conn s)")
      (auto simp: ddb_repo_def out_of_def)
  have "same_items sp s s'"
    using p(1) assms(1) unfolding ddb_list_def ddb_laws_def ddb_read_law_def
    by (auto split: prod.splits result.splits)
  moreover have "Some r \<in> snd (ddb_table sd sp s) (rec_sk r)" if "r \<in> ddb_ever sd sp s (rec_sk r)" for r
    using that by (force simp: ddb_ever_def ddb_table_def item_record_def rec_sk_def)
  ultimately show ?thesis
    using ddb_list_step [OF assms(1,3) p(1)] table_same [of sp s s' sd] p(2) CList
    by (cases res) (auto simp: out_of_def)
next
  case (CCreate r)
  obtain res where p: "ddb_create sd conn r s = (res, s')" "out = fst (out_of (\<lambda>_. ODone) (res, s'))"
    using assms(4) CCreate by (cases "ddb_create sd conn r s"; cases "fst (ddb_create sd conn r s)")
      (auto simp: ddb_repo_def out_of_def)
  show ?thesis
    using ddb_put_step [OF assms(1-3) _ p(1) [unfolded ddb_create_def]] p(2) CCreate
    by (cases res) (auto simp: out_of_def ddb_table_def)
next
  case (CUpdate r)
  obtain res where p: "ddb_update sd conn r s = (res, s')" "out = fst (out_of (\<lambda>_. ODone) (res, s'))"
    using assms(4) CUpdate by (cases "ddb_update sd conn r s"; cases "fst (ddb_update sd conn r s)")
      (auto simp: ddb_repo_def out_of_def)
  have "IF_PRESENT \<noteq> IF_ABSENT" by (simp add: IF_PRESENT_def IF_ABSENT_def)
  then show ?thesis
    using ddb_put_step [OF assms(1-3) _ p(1) [unfolded ddb_update_def]] p(2) CUpdate
    by (cases res) (auto simp: out_of_def ddb_table_def)
next
  case (CDelete q)
  obtain res where p: "ddb_delete conn q s = (res, s')" "out = fst (out_of (\<lambda>_. ODone) (res, s'))"
    using assms(4) CDelete by (cases "ddb_delete conn q s"; cases "fst (ddb_delete conn q s)")
      (auto simp: ddb_repo_def out_of_def)
  show ?thesis
    using ddb_delete_step [OF assms(1,3) p(1)] p(2) CDelete
    by (cases res) (auto simp: out_of_def ddb_table_def)
qed

lemma ddb_run_table:
  assumes "ddb_laws conn sp" "item_law sd"
  shows "ddb_inv sd sp s \<Longrightarrow> exec_cmds (ddb_repo sd conn) cs s = (outs, s') \<Longrightarrow>
    ddb_inv sd sp s' \<and> table_run cs outs (ddb_table sd sp s) (ddb_table sd sp s')"
proof (induction cs arbitrary: s outs)
  case (Cons c cs)
  obtain x s1 where x: "exec_cmd (ddb_repo sd conn) c s = (x, s1)" by fastforce
  obtain ys s2 where y: "exec_cmds (ddb_repo sd conn) cs s1 = (ys, s2)" by fastforce
  have r: "outs = x # ys" "s' = s2" using Cons.prems(2) x y by auto
  note st = ddb_cmd_table [OF assms Cons.prems(1) x]
  have "table_run cs ys (ddb_table sd sp s1) (ddb_table sd sp s')" "ddb_inv sd sp s'"
    using Cons.IH [of s1 ys] st y r by auto
  then show ?case using st unfolding r(1) table_run.simps by blast
qed simp

text \<open>What holds of every write: it is applied when its condition holds, or an error is answered.\<close>

definition applied_or_failed :: "repo_cmd \<Rightarrow> repo_out \<Rightarrow> (string \<rightharpoonup> trust_record) \<Rightarrow> (string \<rightharpoonup> trust_record) \<Rightarrow> bool" where
  "applied_or_failed cmd out m m' \<longleftrightarrow>
     abs_cmd True rec_sk query_sk cmd ODone m m' \<and> (out = ODone \<or> (\<exists>e. out = OFailed e)) \<or>
     (\<exists>e. out = OFailed e) \<and> m' = m"

lemma ddb_write_step:
  assumes "ddb_laws conn sp" "item_law sd" "ddb_inv sd sp s" "cmd_key rec_sk query_sk cmd \<noteq> None"
    and "exec_cmd (ddb_repo sd conn) cmd s = (out, s')"
  shows "ddb_inv sd sp s' \<and> applied_or_failed cmd out (ddb_view sd sp s) (ddb_view sd sp s')"
proof (cases cmd)
  case (CCreate r)
  obtain res where p: "ddb_create sd conn r s = (res, s')" "out = fst (out_of (\<lambda>_. ODone) (res, s'))"
    using assms(5) CCreate by (cases "ddb_create sd conn r s"; cases "fst (ddb_create sd conn r s)")
      (auto simp: ddb_repo_def out_of_def)
  show ?thesis
    using ddb_put_step [OF assms(1-3) _ p(1) [unfolded ddb_create_def]] p(2) CCreate
    by (cases res) (auto simp: applied_or_failed_def out_of_def)
next
  case (CUpdate r)
  obtain res where p: "ddb_update sd conn r s = (res, s')" "out = fst (out_of (\<lambda>_. ODone) (res, s'))"
    using assms(5) CUpdate by (cases "ddb_update sd conn r s"; cases "fst (ddb_update sd conn r s)")
      (auto simp: ddb_repo_def out_of_def)
  have "IF_PRESENT \<noteq> IF_ABSENT" by (simp add: IF_PRESENT_def IF_ABSENT_def)
  then show ?thesis
    using ddb_put_step [OF assms(1-3) _ p(1) [unfolded ddb_update_def]] p(2) CUpdate
    by (cases res) (auto simp: applied_or_failed_def out_of_def)
next
  case (CDelete q)
  obtain res where p: "ddb_delete conn q s = (res, s')" "out = fst (out_of (\<lambda>_. ODone) (res, s'))"
    using assms(5) CDelete by (cases "ddb_delete conn q s"; cases "fst (ddb_delete conn q s)")
      (auto simp: ddb_repo_def out_of_def)
  show ?thesis
    using ddb_delete_step [OF assms(1,3) p(1)] p(2) CDelete
    by (cases res) (auto simp: applied_or_failed_def out_of_def)
qed (use assms(4) in auto)

lemma ddb_read_step:
  assumes "ddb_laws conn sp" "ddb_inv sd sp s" "cmd_key rec_sk query_sk cmd = None"
    and "exec_cmd (ddb_repo sd conn) cmd s = (out, s')"
  shows "ddb_inv sd sp s' \<and> ddb_view sd sp s' = ddb_view sd sp s \<and>
    (reads_current conn sp \<longrightarrow> abs_cmd False rec_sk query_sk cmd out (ddb_view sd sp s) (ddb_view sd sp s)) \<and>
    (case cmd of CFind q \<Rightarrow> (\<forall>r. out = OFound (Some r) \<longrightarrow> rec_sk r = query_sk q \<and> r \<in> ddb_ever sd sp s (query_sk q))
     | CRead q \<Rightarrow> (\<forall>r. out = ORecord r \<longrightarrow> rec_sk r = query_sk q \<and> r \<in> ddb_ever sd sp s (query_sk q))
     | _ \<Rightarrow> (\<forall>rs. out = ORecords rs \<longrightarrow> (\<forall>r \<in> set rs. r \<in> ddb_ever sd sp s (rec_sk r))))"
proof -
  have get: "\<exists>g. ddb_get conn q s = (g, s') \<and> out = (case g of
      Err e \<Rightarrow> OFailed e
    | Ok None \<Rightarrow> if cmd = CFind q then OFound None else OFailed (missing_error q)
    | Ok (Some it) \<Rightarrow> (case from_item sd it of Err e \<Rightarrow> OFailed e
        | Ok r \<Rightarrow> if cmd = CFind q then OFound (Some r) else ORecord r))"
    if "cmd = CFind q \<or> cmd = CRead q" for q
    using assms(4) that
    by (cases "ddb_get conn q s"; cases "fst (ddb_get conn q s)"; cases "ok_opt (fst (ddb_get conn q s))")
      (auto simp: ddb_repo_def ddb_find_def ddb_read_def out_of_def split: result.splits option.splits)
  show ?thesis
  proof (cases cmd)
    case (CFind q)
    then obtain g where g: "ddb_get conn q s = (g, s')" "out = (case g of
      Err e \<Rightarrow> OFailed e
    | Ok None \<Rightarrow> if cmd = CFind q then OFound None else OFailed (missing_error q)
    | Ok (Some it) \<Rightarrow> (case from_item sd it of Err e \<Rightarrow> OFailed e
        | Ok r \<Rightarrow> if cmd = CFind q then OFound (Some r) else ORecord r))" using get by blast
    show ?thesis using ddb_get_step [OF assms(1,2) g(1)] g(2) CFind
      by (auto simp: from_item_def split: result.splits option.splits)
  next
    case (CRead q)
    then obtain g where g: "ddb_get conn q s = (g, s')" "out = (case g of
      Err e \<Rightarrow> OFailed e
    | Ok None \<Rightarrow> if cmd = CFind q then OFound None else OFailed (missing_error q)
    | Ok (Some it) \<Rightarrow> (case from_item sd it of Err e \<Rightarrow> OFailed e
        | Ok r \<Rightarrow> if cmd = CFind q then OFound (Some r) else ORecord r))" using get by blast
    show ?thesis using ddb_get_step [OF assms(1,2) g(1)] g(2) CRead
      by (auto simp: from_item_def split: result.splits option.splits)
  next
    case CList
    obtain res where p: "ddb_list sd conn s = (res, s')" "out = fst (out_of ORecords (res, s'))"
      using assms(4) CList by (cases "ddb_list sd conn s"; cases "fst (ddb_list sd conn s)")
        (auto simp: ddb_repo_def out_of_def)
    show ?thesis using ddb_list_step [OF assms(1,2) p(1)] p(2) CList
      by (cases res) (auto simp: out_of_def)
  qed (use assms(3) in auto)
qed

text \<open>An error that speaks of the record's existence comes from a refused condition.\<close>

lemma ddb_put_refused:
  assumes "ddb_laws conn sp" "refusals_named conn sp" "ddb_inv sd sp s" "cond \<in> {IF_ABSENT, IF_PRESENT}"
    and "ddb_put sd conn cond refused what r s = (Err e, s')" "says_exists e \<or> says_missing e"
  shows "(cond = IF_ABSENT \<longleftrightarrow> ddb_view sd sp s (rec_sk r) \<noteq> None) \<and> ddb_view sd sp s' = ddb_view sd sp s \<and> e = refused"
proof (cases "sd_to_item sd r")
  case (Err x)
  then show ?thesis using assms(5,6) by (auto simp: ddb_put_def)
next
  case (Ok it)
  obtain x where x: "dc_put conn (it ++ ddb_key (rec_sk r)) cond s = (Err x, s')"
    "e = write_error conn refused what x"
    using assms(5) Ok
    by (cases "dc_put conn (it ++ build_key_from_record r) cond s"; cases "fst (dc_put conn (it ++ build_key_from_record r) cond s)")
      (auto simp: ddb_put_def build_key_from_record_def rec_sk_def)
  have c: "contains_str ''ConditionalCheckFailed'' (dc_display conn x)" "e = refused"
    using x(2) assms(6) by (auto simp: write_error_def split: if_splits)
  have h: "\<not> condition_holds cond (ds_now sp s (rec_sk r))" "same_items sp s s'"
    using assms(2) x(1) c(1) unfolding refusals_named_def by blast+
  have n: "ddb_view sd sp s (rec_sk r) = None \<longleftrightarrow> ds_now sp s (rec_sk r) = None"
    using ddb_view_None [OF assms(3)] by (simp add: rec_sk_def)
  show ?thesis using h(1) n ddb_same(1) [OF h(2)] c(2) assms(4)
    by (auto simp: condition_holds_def IF_ABSENT_def IF_PRESENT_def)
qed

lemma ddb_delete_refused:
  assumes "ddb_laws conn sp" "refusals_named conn sp" "ddb_inv sd sp s"
    and "ddb_delete conn q s = (Err e, s')" "says_exists e \<or> says_missing e"
  shows "ddb_view sd sp s (query_sk q) = None \<and> ddb_view sd sp s' = ddb_view sd sp s \<and> e = missing_error q"
proof -
  obtain x where x: "dc_delete conn (ddb_key (query_sk q)) IF_PRESENT s = (Err x, s')"
    "e = write_error conn (missing_error q) ''Failed to delete record: '' x"
    using assms(4)
    by (cases "dc_delete conn (build_key q) IF_PRESENT s"; cases "fst (dc_delete conn (build_key q) IF_PRESENT s)")
      (auto simp: ddb_delete_def build_key_def query_sk_def)
  have c: "contains_str ''ConditionalCheckFailed'' (dc_display conn x)" "e = missing_error q"
    using x(2) assms(5) by (auto simp: write_error_def split: if_splits)
  have h: "ds_now sp s (query_sk q) = None" "same_items sp s s'"
    using assms(2) x(1) c(1) unfolding refusals_named_def by blast+
  show ?thesis using h(1) ddb_view_None [OF assms(3)] ddb_same(1) [OF h(2)] c(2) by (simp add: query_sk_def)
qed

lemma ddb_repository:
  assumes "ddb_laws conn sp" "item_law sd" "reads_current conn sp" "refusals_named conn sp"
  shows "trust_repository (ddb_repo sd conn) False rec_sk query_sk (ddb_view sd sp) (ddb_inv sd sp)"
proof
  fix s c out s'
  assume i: "ddb_inv sd sp s" and e: "exec_cmd (ddb_repo sd conn) c s = (out, s')"
  show "ddb_inv sd sp s' \<and> abs_cmd False rec_sk query_sk c out (ddb_view sd sp s) (ddb_view sd sp s')"
  proof (cases "cmd_key rec_sk query_sk c")
    case None
    show ?thesis using ddb_read_step [OF assms(1) i None e] assms(3) by simp
  next
    case (Some k)
    note st = ddb_write_step [OF assms(1,2) i _ e]
    show ?thesis
    proof (cases c)
      case (CCreate r)
      have "IF_ABSENT \<in> {IF_ABSENT, IF_PRESENT}" by simp
      note rf = ddb_put_refused [OF assms(1,4) i this]
      show ?thesis using st rf e CCreate
        by (cases out; cases "ddb_create sd conn r s"; cases "fst (ddb_create sd conn r s)")
          (auto simp: applied_or_failed_def ddb_repo_def out_of_def ddb_create_def exists_error_def)
    next
      case (CUpdate r)
      have "IF_PRESENT \<in> {IF_ABSENT, IF_PRESENT}" "IF_PRESENT \<noteq> IF_ABSENT"
        by (simp_all add: IF_PRESENT_def IF_ABSENT_def)
      note rf = ddb_put_refused [OF assms(1,4) i this(1)] this(2)
      show ?thesis using st rf e CUpdate
        by (cases out; cases "ddb_update sd conn r s"; cases "fst (ddb_update sd conn r s)")
          (auto simp: applied_or_failed_def ddb_repo_def out_of_def ddb_update_def missing_error_def)
    next
      case (CDelete q)
      note rf = ddb_delete_refused [OF assms(1,4) i]
      show ?thesis using st rf e CDelete
        by (cases out; cases "ddb_delete conn q s"; cases "fst (ddb_delete conn q s)")
          (auto simp: applied_or_failed_def ddb_repo_def out_of_def)
    qed (use Some in auto)
  qed
next
  fix s k r
  assume "ddb_inv sd sp s" "ddb_view sd sp s k = Some r"
  then show "rec_sk r = k"
    by (auto simp: ddb_view_def ddb_inv_def bind_eq_Some_conv split: if_splits) (metis result.inject(1))
qed simp

section \<open>An in-memory table\<close>

text \<open>
  Each key keeps its values, the current one first.  The next command is answered, refused, or
  applied with the reply lost, as the script says; a stale read finds no item.  An error says
  whether it was a refused condition, which only a naming SDK shows in its text.
\<close>

record mem_ddb =
  md_values :: "(string \<times> item option list) list"
  md_script :: "kv_fault list"

definition md_past :: "mem_ddb \<Rightarrow> string \<Rightarrow> item option list" where
  "md_past c k = (case map_of (md_values c) k of None \<Rightarrow> [None] | Some xs \<Rightarrow> xs @ [None])"

definition md_now :: "mem_ddb \<Rightarrow> string \<rightharpoonup> item" where
  "md_now c k = hd (md_past c k)"

definition md_next :: "mem_ddb \<Rightarrow> kv_fault \<times> mem_ddb" where
  "md_next c = (case md_script c of [] \<Rightarrow> (Answered, c) | f # fs \<Rightarrow> (f, c\<lparr>md_script := fs\<rparr>))"

definition md_put :: "string \<Rightarrow> item option \<Rightarrow> mem_ddb \<Rightarrow> mem_ddb" where
  "md_put k x c = c\<lparr>md_values := AList.update k (x # butlast (md_past c k)) (md_values c)\<rparr>"

definition md_write :: "string \<Rightarrow> item option \<Rightarrow> string \<Rightarrow> mem_ddb \<Rightarrow> (unit, bool) result \<times> mem_ddb" where
  "md_write k x cond c =
     (if \<not> condition_holds cond (md_now c k) then (Err True, c)
      else case md_next c of (f, c1) \<Rightarrow>
        (case f of Answered \<Rightarrow> (Ok (), md_put k x c1) | Refused _ \<Rightarrow> (Err False, c1)
         | ReplyLost _ \<Rightarrow> (Err False, md_put k x c1)))"

definition item_sk :: "item \<Rightarrow> string" where
  "item_sk it = (case it SK_ATTR of Some (DS k) \<Rightarrow> k | _ \<Rightarrow> [])"

definition mem_dynamo :: "bool \<Rightarrow> bool \<Rightarrow> (mem_ddb, bool) ddb_conn" where
  "mem_dynamo naming stale = \<lparr>
     dc_get = (\<lambda>key c. (Ok (if stale then None else md_now c (item_sk key)), c)),
     dc_put = (\<lambda>it cond. md_write (item_sk it) (Some it) cond),
     dc_delete = (\<lambda>key cond. md_write (item_sk key) None cond),
     dc_query = (\<lambda>e vs c. (if stale then Err False
        else Ok (List.map_filter (md_now c) (filter (starts_with TR_SK_PREFIX) (map fst (md_values c)))), c)),
     dc_display = (\<lambda>e. if e \<and> naming then ''ConditionalCheckFailedException'' else ''service error'')\<rparr>"

definition mem_ddb_spec :: "mem_ddb ddb_spec" where
  "mem_ddb_spec = \<lparr>ds_now = md_now, ds_past = (\<lambda>c k. set (md_past c k))\<rparr>"

text \<open>A record is kept as one text attribute.\<close>

definition text_item :: serde_dynamo where
  "text_item = \<lparr>sd_to_item = (\<lambda>r. map_err (\<lambda>e. ''text'') (bind_ok (serialize_record unary_serde r) (\<lambda>t. Ok [''record'' \<mapsto> DS t]))),
     sd_from_item = (\<lambda>it. case it ''record'' of
        Some (DS t) \<Rightarrow> map_err (\<lambda>e. ''record'') (deserialize_record unary_serde t) | _ \<Rightarrow> Err ''missing'')\<rparr>"

lemma text_item_law: "item_law text_item"
proof -
  have "sd_from_item text_item it' = Ok r"
    if i: "sd_to_item text_item r = Ok it" "\<forall>a. a \<noteq> PK_ATTR \<longrightarrow> a \<noteq> SK_ATTR \<longrightarrow> it' a = it a" for r it it'
  proof -
    obtain t where t: "serialize_record unary_serde r = Ok t" "it = [''record'' \<mapsto> DS t]"
      using i(1) by (cases "serialize_record unary_serde r") (auto simp: text_item_def)
    have "it' ''record'' = Some (DS t)" using i(2) t(2) by (simp add: PK_ATTR_def SK_ATTR_def)
    then show ?thesis using serialize_roundtrip [OF unary_serde_laws t(1)] by (simp add: text_item_def)
  qed
  then show ?thesis unfolding item_law_def by blast
qed

lemma item_sk_simps [simp]: "item_sk (ddb_key k) = k" "item_sk (it ++ ddb_key k) = k"
  by (simp_all add: item_sk_def ddb_key_def SK_ATTR_def PK_ATTR_def)

lemma md_next_values: "md_next c = (f, c1) \<Longrightarrow> md_past c1 = md_past c \<and> md_now c1 = md_now c"
  by (auto simp: md_next_def md_past_def md_now_def fun_eq_iff split: list.splits)

lemma md_past_nonempty: "md_past c k = butlast (md_past c k) @ [None]"
  by (simp add: md_past_def split: option.split)

lemma md_put_set: "item_set mem_ddb_spec k x c (md_put k x c)"
proof -
  have p: "md_past (md_put k x c) j = (if j = k then x # md_past c k else md_past c j)" for j
    using md_past_nonempty [of c k] by (simp add: md_put_def) (simp add: md_past_def update_conv')
  then show ?thesis by (auto simp: item_set_def mem_ddb_spec_def md_now_def fun_eq_iff)
qed

lemma md_write_law:
  assumes "md_write k x cond c = (res, c')"
  shows "condition_holds cond (md_now c k) \<and> item_set mem_ddb_spec k x c c' \<or>
      res \<noteq> Ok () \<and> same_items mem_ddb_spec c c'"
    "res = Err True \<Longrightarrow> \<not> condition_holds cond (md_now c k) \<and> same_items mem_ddb_spec c c'"
proof -
  obtain f c1 where n: "md_next c = (f, c1)" by fastforce
  note v = md_next_values [OF n]
  have "same_items mem_ddb_spec c c1" "item_set mem_ddb_spec k x c (md_put k x c1)"
    using v md_put_set [of k x c1] by (simp_all add: same_items_def item_set_def mem_ddb_spec_def)
  then show "condition_holds cond (md_now c k) \<and> item_set mem_ddb_spec k x c c' \<or>
      res \<noteq> Ok () \<and> same_items mem_ddb_spec c c'"
    using assms n by (cases f) (auto simp: md_write_def same_items_def split: if_splits)
  show "\<not> condition_holds cond (md_now c k) \<and> same_items mem_ddb_spec c c'" if "res = Err True"
    using assms n that by (cases f) (auto simp: md_write_def same_items_def split: if_splits)
qed

lemma md_now_past: "md_now c k \<in> set (md_past c k)"
  unfolding md_now_def using md_past_nonempty [of c k] by (metis append_is_Nil_conv list.set_sel(1) list.distinct(1))

lemma md_query:
  "set (List.map_filter (md_now c) (filter P (map fst (md_values c)))) = {it. \<exists>k. P k \<and> md_now c k = Some it}"
proof -
  have "k \<in> fst ` set (md_values c)" if "md_now c k = Some it" for k it
  proof -
    have "map_of (md_values c) k \<noteq> None" using that by (auto simp: md_now_def md_past_def split: option.splits)
    then show ?thesis by (metis map_of_eq_None_iff)
  qed
  then show ?thesis by (force simp: List.map_filter_def)
qed

lemma mem_dynamo_writes: "ddb_write_law (mem_dynamo naming stale) mem_ddb_spec"
  unfolding ddb_write_law_def
proof (intro conjI allI impI)
  fix it k cond c res c'
  assume "dc_put (mem_dynamo naming stale) (it ++ ddb_key k) cond c = (res, c')"
  then show "condition_holds cond (ds_now mem_ddb_spec c k) \<and> item_set mem_ddb_spec k (Some (it ++ ddb_key k)) c c' \<or>
      res \<noteq> Ok () \<and> same_items mem_ddb_spec c c'"
    using md_write_law(1) by (simp add: mem_dynamo_def mem_ddb_spec_def)
next
  fix k c res c'
  assume "dc_delete (mem_dynamo naming stale) (ddb_key k) IF_PRESENT c = (res, c')"
  then have "md_write k None IF_PRESENT c = (res, c')" by (simp add: mem_dynamo_def)
  from md_write_law(1) [OF this] show "ds_now mem_ddb_spec c k \<noteq> None \<and> item_set mem_ddb_spec k None c c' \<or>
      res \<noteq> Ok () \<and> same_items mem_ddb_spec c c'"
    by (simp add: condition_holds_def IF_PRESENT_def IF_ABSENT_def mem_ddb_spec_def)
qed

lemma mem_dynamo_reads:
  "ddb_read_law (mem_dynamo naming stale) mem_ddb_spec" "reads_current (mem_dynamo naming False) mem_ddb_spec"
proof -
  have none: "None \<in> set (md_past c k)" for c k
    using md_past_nonempty [of c k] by (metis in_set_conv_decomp)
  have sub: "\<exists>k. starts_with TR_SK_PREFIX k \<and> Some it \<in> set (md_past c k)"
    if m: "it \<in> set (List.map_filter (md_now c) (filter (starts_with TR_SK_PREFIX) (map fst (md_values c))))" for c it
  proof -
    obtain k where k: "starts_with TR_SK_PREFIX k" "md_now c k = Some it" using m [unfolded md_query] by blast
    then show ?thesis using md_now_past [of c k] by auto
  qed
  show "ddb_read_law (mem_dynamo naming stale) mem_ddb_spec"
    using none sub md_now_past
    by (auto simp: ddb_read_law_def mem_dynamo_def same_items_def mem_ddb_spec_def split: if_splits)
  show "reads_current (mem_dynamo naming False) mem_ddb_spec"
    using md_query by (auto simp: reads_current_def mem_dynamo_def mem_ddb_spec_def)
qed

lemma mem_dynamo_laws: "ddb_laws (mem_dynamo naming stale) mem_ddb_spec"
  by (simp add: ddb_laws_def mem_dynamo_writes mem_dynamo_reads)

lemma mem_dynamo_refusals:
  "refusals_named (mem_dynamo naming stale) mem_ddb_spec" "refusals_unnamed (mem_dynamo False stale)"
proof -
  have t: "e" if "contains_str ''ConditionalCheckFailed'' (dc_display (mem_dynamo naming stale) e)" for e
    using that by (simp add: mem_dynamo_def starts_with_def split: if_splits)
  show "refusals_named (mem_dynamo naming stale) mem_ddb_spec"
    unfolding refusals_named_def
  proof (intro allI impI conjI [of "\<forall>it k cond c e c'. _ it k cond c e c'"])
    fix it k cond c e c'
    assume a: "dc_put (mem_dynamo naming stale) (it ++ ddb_key k) cond c = (Err e, c')"
      "contains_str ''ConditionalCheckFailed'' (dc_display (mem_dynamo naming stale) e)"
    from a(1) t [OF a(2)] have "md_write k (Some (it ++ ddb_key k)) cond c = (Err True, c')"
      by (simp add: mem_dynamo_def)
    from md_write_law(2) [OF this]
    show "\<not> condition_holds cond (ds_now mem_ddb_spec c k) \<and> same_items mem_ddb_spec c c'"
      by (simp add: mem_ddb_spec_def)
  next
    fix k c e c'
    assume a: "dc_delete (mem_dynamo naming stale) (ddb_key k) IF_PRESENT c = (Err e, c')"
      "contains_str ''ConditionalCheckFailed'' (dc_display (mem_dynamo naming stale) e)"
    from a(1) t [OF a(2)] have "md_write k None IF_PRESENT c = (Err True, c')" by (simp add: mem_dynamo_def)
    from md_write_law(2) [OF this] show "ds_now mem_ddb_spec c k = None \<and> same_items mem_ddb_spec c c'"
      by (simp add: mem_ddb_spec_def condition_holds_def IF_PRESENT_def IF_ABSENT_def)
  qed
  show "refusals_unnamed (mem_dynamo False stale)"
    by (simp add: refusals_unnamed_def mem_dynamo_def starts_with_def)
qed

interpretation mem_dd: trust_repository "ddb_repo text_item (mem_dynamo True False)" False rec_sk query_sk
  "ddb_view text_item mem_ddb_spec" "ddb_inv text_item mem_ddb_spec"
  by (rule ddb_repository [OF mem_dynamo_laws text_item_law mem_dynamo_reads(2) mem_dynamo_refusals(1)])

end
