(* ===== verification/Ddb_Properties.thy ===== *)
theory Ddb_Properties
  imports Ddb_Store Samples
begin

text \<open>
  Properties of the DynamoDB backend: the map it implements, what holds when reads are stale and
  errors are silent about their cause, and what a Trust Task sees then.
\<close>

text \<open>C10: Any sequence of commands on the DynamoDB backend, whose reads may be stale, whose errors may say
  nothing of their cause and whose replies may be lost, is a run of the abstract table keyed by the
  sort key. A write that reports success had its condition hold at that moment (no record for a
  create, one for an update or a delete) and is stored; one that fails was stored under that
  condition or not at all. Reads change nothing, and a record or an absence one answers is a value
  the key has had, the current one or an earlier one.\<close>

theorem ddb_storage_refines_map:
  assumes "ddb_laws conn sp" "item_law sd" "ddb_inv sd sp s" "exec_cmds (ddb_repo sd conn) cs s = (outs, s')"
  shows "ddb_inv sd sp s' \<and> table_run cs outs (ddb_table sd sp s) (ddb_table sd sp s')"
  by (rule ddb_run_table [OF assms])

definition ddb_fresh :: "kv_fault list \<Rightarrow> mem_ddb" where
  "ddb_fresh script = \<lparr>md_values = [], md_script = script\<rparr>"

lemma ddb_fresh_inv [simp]: "ddb_inv text_item mem_ddb_spec (ddb_fresh script)"
  by (simp add: ddb_inv_def mem_ddb_spec_def ddb_fresh_def md_now_def md_past_def)

text \<open>A table with a record, and stale reads that miss it.\<close>

definition ddb_stored :: mem_ddb where
  "ddb_stored = snd (ddb_create text_item (mem_dynamo False True) sample_record (ddb_fresh []))"

lemma ddb_stored_props:
  "ddb_inv text_item mem_ddb_spec ddb_stored"
  "ddb_view text_item mem_ddb_spec ddb_stored (rec_sk sample_record) = Some sample_record"
proof -
  have c: "ddb_create text_item (mem_dynamo False True) sample_record (ddb_fresh []) = (Ok (), ddb_stored)"
  proof -
    have "fst (ddb_create text_item (mem_dynamo False True) sample_record (ddb_fresh [])) = Ok ()"
      by (simp add: ddb_create_def ddb_put_def text_item_def mem_dynamo_def md_write_def md_next_def ddb_fresh_def
          serialize_record_def unary_serde_def md_now_def md_past_def condition_holds_def)
    then show ?thesis unfolding ddb_stored_def by (metis prod.collapse)
  qed
  note st = ddb_put_step [OF mem_dynamo_laws text_item_law ddb_fresh_inv _ c [unfolded ddb_create_def]]
  show "ddb_inv text_item mem_ddb_spec ddb_stored"
    "ddb_view text_item mem_ddb_spec ddb_stored (rec_sk sample_record) = Some sample_record"
    using st by auto
qed

text \<open>On a table with stale reads and silent errors a second create fails and its record stays out, a
  read misses the record, and the delete finds it.\<close>

theorem ddb_storage_refines_map_witness:
  "let (outs, s') = exec_cmds (ddb_repo text_item (mem_dynamo False True))
     [CCreate sample_record, CFind (query_of_record sample_record), CDelete (query_of_record sample_record)]
     ddb_stored in
   ddb_inv text_item mem_ddb_spec s' \<and> table_run
     [CCreate sample_record, CFind (query_of_record sample_record), CDelete (query_of_record sample_record)]
     outs (ddb_table text_item mem_ddb_spec ddb_stored) (ddb_table text_item mem_ddb_spec s')"
proof -
  let ?cs = "[CCreate sample_record, CFind (query_of_record sample_record), CDelete (query_of_record sample_record)]"
  obtain outs s' where e: "exec_cmds (ddb_repo text_item (mem_dynamo False True)) ?cs ddb_stored = (outs, s')"
    by fastforce
  show ?thesis
    using ddb_storage_refines_map [OF mem_dynamo_laws text_item_law ddb_stored_props(1) e] unfolding Let_def e by simp
qed

text \<open>With an SDK whose error texts do not name the cause, as the one the code uses, a create task
  for a record that exists is rejected as an internal error that invites a retry, and never as a
  conflict; the records stay as they were.\<close>

theorem ddb_conflict_unseen:
  assumes "ddb_laws conn sp" "item_law sd" "refusals_unnamed conn" "ddb_inv sd sp s"
    and "fw_record_payload fw doc = Ok spec" "record_from_payload fw doc nid spec = Ok r"
    and "ddb_view sd sp s (rec_sk r) \<noteq> None"
    and "handle_create fw (ddb_repo sd conn) nid doc s = (out, s')"
  shows "ddb_view sd sp s' = ddb_view sd sp s \<and>
    (\<exists>m. out = reject fw doc nid (InternalError m) \<and> default_retryable (InternalError m))"
proof -
  obtain res where c: "ddb_create sd conn r s = (res, s')"
    "out = (case res of Ok _ \<Rightarrow> respond fw doc nid R_Created | Err e \<Rightarrow> reject fw doc nid (map_repo_err e))"
    using assms(5,6,8) by (auto simp: handle_create_def ddb_repo_def split: prod.splits result.splits)
  have st: "res \<noteq> Ok ()" "ddb_view sd sp s' = ddb_view sd sp s"
    using ddb_put_step [OF assms(1,2,4) _ c(1) [unfolded ddb_create_def]] assms(7) by auto
  then obtain e where e: "res = Err e" by (cases res) auto
  have "(\<exists>m. e = QueryFailed m) \<or> (\<exists>m. e = SerializationFailed m)"
    using c(1) e assms(3)
    by (cases "sd_to_item sd r")
      (auto simp: ddb_create_def ddb_put_def refusals_unnamed_def write_error_def split: prod.splits
        elim!: map_err.elims)
  then show ?thesis using st(2) c(2) e by auto
qed

definition stored_create_doc :: document where
  "stored_create_doc = \<lparr>tk_id = ''m1'', tk_type = RECORD_CREATE, tk_thread = None, tk_issuer = Some ''did:admin'',
     tk_recipient = None, tk_payload = JObj [(''record'', record_member ''did:e'' ''did:a'')],
     tk_proof = Some (JStr ''valid''), tk_issued = None\<rparr>"

theorem ddb_conflict_unseen_witness:
  "\<exists>m. fst (handle_create sample_framework (ddb_repo text_item (mem_dynamo False True)) ''n1'' stored_create_doc
     ddb_stored) = reject sample_framework stored_create_doc ''n1'' (InternalError m)"
proof -
  obtain out s' where h: "handle_create sample_framework (ddb_repo text_item (mem_dynamo False True)) ''n1''
      stored_create_doc ddb_stored = (out, s')" by fastforce
  have p: "fw_record_payload sample_framework stored_create_doc = Ok (record_member ''did:e'' ''did:a'')"
    by code_simp
  define x where "x = record_from_payload sample_framework stored_create_doc ''n1'' (record_member ''did:e'' ''did:a'')"
  have "is_ok x" "map_option rec_sk (ok_opt x) = Some (rec_sk sample_record)"
    unfolding x_def by (code_simp, code_simp)
  then obtain r where r: "x = Ok r" "rec_sk r = rec_sk sample_record" by auto
  show ?thesis
    using ddb_conflict_unseen [OF mem_dynamo_laws text_item_law mem_dynamo_refusals(2) ddb_stored_props(1) p
        r(1) [unfolded x_def] _ h] r(2) ddb_stored_props(2) h by auto
qed

end
