(* ===== verification/Did_Document.thy ===== *)
theory Did_Document
  imports Json_Value
begin

text \<open>
  The DID document the registry publishes, \<open>didcomm/did_document.rs\<close>: the public half of its
  keys, the transport flags read from the environment and the combinations that are refused, the
  public URL check, and the service entries, one per transport that is on.  The lemmas say which
  flags are accepted, what each service entry is, and that nothing private is published.
\<close>

section \<open>Keys\<close>

text \<open>Key material of the DID library: the private member is there and must not be published.\<close>

datatype jwk_params =
    EC_Params string string string "string option"
  | OKP_Params string string "string option"
  | Other_Params

record jwk =
  jk_params :: jwk_params
  jk_key_id :: "string option"

datatype secret_material = MaterialJwk jwk | MaterialOther

record profile_config =
  pc_alias :: string
  pc_did :: string
  pc_secrets :: "secret_material list"

definition with_kid :: "jwk \<Rightarrow> (string \<times> json) list \<Rightarrow> json" where
  "with_kid k kvs =
     jobj (kvs @ (case jk_key_id k of Some kid \<Rightarrow> [(''kid'', JStr kid)] | None \<Rightarrow> []))"

definition build_public_jwk :: "jwk \<Rightarrow> json" where
  "build_public_jwk k =
     (case jk_params k of
        EC_Params curve x y d \<Rightarrow>
          with_kid k [(''kty'', JStr ''EC''), (''crv'', JStr curve), (''x'', JStr x), (''y'', JStr y)]
      | OKP_Params curve x d \<Rightarrow>
          with_kid k [(''kty'', JStr ''OKP''), (''crv'', JStr curve), (''x'', JStr x)]
      | Other_Params \<Rightarrow> jobj [])"

definition key_ref :: "string \<Rightarrow> nat \<Rightarrow> string" where
  "key_ref did index = did @ ''#key-'' @ show_nat index"

definition verification_method :: "string \<Rightarrow> nat \<times> secret_material \<Rightarrow> json" where
  "verification_method did p = (case p of (index, material) \<Rightarrow>
     let public_jwk = (case material of MaterialJwk k \<Rightarrow> build_public_jwk k | MaterialOther \<Rightarrow> jobj []) in
     jobj [(''id'', JStr (key_ref did index)), (''type'', JStr ''JsonWebKey2020''),
           (''controller'', JStr did), (''publicKeyJwk'', public_jwk)])"

definition build_verification_methods :: "profile_config \<Rightarrow> json list" where
  "build_verification_methods pc =
     map (verification_method (pc_did pc)) (enumerate 0 (pc_secrets pc))"

section \<open>Transports\<close>

definition REST_SERVICE_TYPE :: string where "REST_SERVICE_TYPE = ''TRQPRest''"
definition DIDCOMM_SERVICE_TYPE :: string where "DIDCOMM_SERVICE_TYPE = ''DIDCommMessaging''"
definition DIDCOMM_SERVICE_FRAGMENT :: string where "DIDCOMM_SERVICE_FRAGMENT = ''#didcomm''"
definition REST_SERVICE_FRAGMENT :: string where "REST_SERVICE_FRAGMENT = ''#rest''"
definition TSP_SERVICE_TYPE :: string where "TSP_SERVICE_TYPE = ''TSPTransport''"
definition TSP_SERVICE_FRAGMENT :: string where "TSP_SERVICE_FRAGMENT = ''#tsp''"

lemmas service_names = REST_SERVICE_TYPE_def DIDCOMM_SERVICE_TYPE_def TSP_SERVICE_TYPE_def
  REST_SERVICE_FRAGMENT_def DIDCOMM_SERVICE_FRAGMENT_def TSP_SERVICE_FRAGMENT_def

record transport_flags =
  tf_rest :: bool
  tf_didcomm :: bool
  tf_tsp :: bool

definition flags_default :: transport_flags where
  "flags_default = \<lparr>tf_rest = True, tf_didcomm = True, tf_tsp = False\<rparr>"

text \<open>The process environment: a variable that is unset or not text reads as none.\<close>

type_synonym environment = "string \<Rightarrow> string option"

definition quoted :: "string \<Rightarrow> string" where
  "quoted s = [CHR 0x27] @ s @ [CHR 0x27]"

definition env_flag :: "environment \<Rightarrow> string \<Rightarrow> bool \<Rightarrow> (bool, string) result" where
  "env_flag env name dflt =
     (case env name of
        None \<Rightarrow> Ok dflt
      | Some raw \<Rightarrow>
          (let v = to_lowercase (trim_str raw) in
           if v = '''' then Ok dflt
           else if v = ''true'' then Ok True
           else if v = ''false'' then Ok False
           else Err (name @ '' must be 'true' or 'false' (got '' @ quoted v @ '')'')))"

definition validate_flags :: "bool \<Rightarrow> transport_flags \<Rightarrow> (unit, string) result" where
  "validate_flags tsp_built fl =
     (if \<not> tf_rest fl \<and> \<not> tf_didcomm fl \<and> \<not> tf_tsp fl
      then Err (''at least one transport must be enabled: set ENABLE_REST, ENABLE_DIDCOMM '' @
                ''or ENABLE_TSP to 'true' (a registry with no transport can serve nobody)'')
      else if tf_tsp fl \<and> \<not> tf_didcomm fl
      then Err (''ENABLE_TSP=true requires ENABLE_DIDCOMM=true: TSP frames are multiplexed '' @
                ''on the DIDComm mediator socket and cannot be received without it'')
      else if tf_tsp fl \<and> \<not> tsp_built
      then Err (''ENABLE_TSP=true requires a binary built with `--features tsp`; this build '' @
                ''cannot serve TSP and must not advertise it'')
      else Ok ())"

definition flags_from_env :: "bool \<Rightarrow> environment \<Rightarrow> (transport_flags, string) result" where
  "flags_from_env tsp_built env =
     bind_ok (env_flag env ''ENABLE_REST'' True) (\<lambda>r.
     bind_ok (env_flag env ''ENABLE_DIDCOMM'' True) (\<lambda>d.
     bind_ok (env_flag env ''ENABLE_TSP'' False) (\<lambda>t.
     let flags = \<lparr>tf_rest = r, tf_didcomm = d, tf_tsp = t\<rparr> in
     bind_ok (validate_flags tsp_built flags) (\<lambda>_. Ok flags))))"

section \<open>Public URL\<close>

definition url_host_chunk :: "string \<Rightarrow> string" where
  "url_host_chunk rest = takeWhile (\<lambda>c. c \<notin> set ''/:?'') rest"

definition validate_public_url :: "string \<Rightarrow> (unit, string) result" where
  "validate_public_url url =
     (if starts_with ''https://'' url then Ok ()
      else
        let refused = Err (''TR_PUBLIC_URL must be https:// (got '' @ quoted url @
              ''); cleartext TRQP is spoofable by an on-path attacker. '' @
              ''http:// is allowed only to loopback for local dev.'')
        in case strip_prefix ''http://'' url of
             Some rest \<Rightarrow>
               (let host = url_host_chunk rest in
                if host = ''localhost'' \<or> host = ''127.0.0.1'' \<or> starts_with ''[::1]'' rest
                then Ok () else refused)
           | None \<Rightarrow> refused)"

section \<open>Services\<close>

definition trim_end_slash :: "string \<Rightarrow> string" where
  "trim_end_slash s = rev (dropWhile (\<lambda>c. c = CHR ''/'') (rev s))"

definition didcomm_service :: "string \<Rightarrow> string \<Rightarrow> json" where
  "didcomm_service did mediator_did =
     jobj [(''id'', JStr (did @ DIDCOMM_SERVICE_FRAGMENT)), (''type'', JStr DIDCOMM_SERVICE_TYPE),
       (''serviceEndpoint'', jobj [(''uri'', JStr mediator_did),
          (''accept'', JArr [JStr ''didcomm/v2'']), (''routingKeys'', JArr [])])]"

definition plain_service :: "string \<Rightarrow> string \<Rightarrow> string \<Rightarrow> json" where
  "plain_service service_id service_type endpoint =
     jobj [(''id'', JStr service_id), (''type'', JStr service_type), (''serviceEndpoint'', JStr endpoint)]"

definition advertised_url :: "string option \<Rightarrow> string option" where
  "advertised_url public_url =
     (case map_option trim_str public_url of
        Some u \<Rightarrow> if u = '''' then None else Some u
      | None \<Rightarrow> None)"

definition build_services ::
  "string \<Rightarrow> string \<Rightarrow> string option \<Rightarrow> transport_flags \<Rightarrow> json list" where
  "build_services did mediator_did public_url flags =
     (if tf_didcomm flags then [didcomm_service did mediator_did] else []) @
     (case (tf_rest flags, advertised_url public_url) of
        (True, Some url) \<Rightarrow>
          [plain_service (did @ REST_SERVICE_FRAGMENT) REST_SERVICE_TYPE (trim_end_slash url)]
      | _ \<Rightarrow> []) @
     (if tf_tsp flags
      then [plain_service (did @ TSP_SERVICE_FRAGMENT) TSP_SERVICE_TYPE mediator_did] else [])"

text \<open>The document itself; \<open>to_string\<close> is the JSON printer of serde.\<close>

definition did_document_json ::
  "profile_config \<Rightarrow> string \<Rightarrow> string option \<Rightarrow> transport_flags \<Rightarrow> json" where
  "did_document_json pc mediator_did public_url flags =
     (let key_refs = JArr (map (\<lambda>i. JStr (key_ref (pc_did pc) i)) [0 ..< length (pc_secrets pc)]) in
      jobj [(''@context'', JArr [JStr ''https://www.w3.org/ns/did/v1'',
               JStr ''https://w3id.org/security/suites/jws-2020/v1'']),
            (''id'', JStr (pc_did pc)),
            (''verificationMethod'', JArr (build_verification_methods pc)),
            (''authentication'', key_refs), (''assertionMethod'', key_refs), (''keyAgreement'', key_refs),
            (''service'', JArr (build_services (pc_did pc) mediator_did public_url flags))])"

definition build_did_document ::
  "(json \<Rightarrow> string) \<Rightarrow> profile_config \<Rightarrow> string \<Rightarrow> string option \<Rightarrow> transport_flags \<Rightarrow> string" where
  "build_did_document to_string pc mediator_did public_url flags =
     to_string (did_document_json pc mediator_did public_url flags)"

section \<open>Lemmas\<close>

lemma validate_flags_Ok:
  "validate_flags built fl = Ok () \<longleftrightarrow>
     (tf_rest fl \<or> tf_didcomm fl) \<and> (tf_tsp fl \<longrightarrow> tf_didcomm fl \<and> built)"
  by (auto simp: validate_flags_def)

lemma flags_from_env_Ok:
  "flags_from_env built env = Ok fl \<longleftrightarrow>
     env_flag env ''ENABLE_REST'' True = Ok (tf_rest fl) \<and>
     env_flag env ''ENABLE_DIDCOMM'' True = Ok (tf_didcomm fl) \<and>
     env_flag env ''ENABLE_TSP'' False = Ok (tf_tsp fl) \<and> validate_flags built fl = Ok ()"
  by (cases fl) (auto simp: flags_from_env_def Let_def)

lemma validate_public_url_Ok:
  "validate_public_url url = Ok () \<longleftrightarrow>
     starts_with ''https://'' url \<or>
     (\<exists>rest. strip_prefix ''http://'' url = Some rest \<and>
        (url_host_chunk rest \<in> {''localhost'', ''127.0.0.1''} \<or> starts_with ''[::1]'' rest))"
  by (auto simp: validate_public_url_def Let_def split: option.splits)

lemma did_document_service:
  "json_get (did_document_json pc m u fl) ''service'' =
     Some (JArr (build_services (pc_did pc) m u fl))"
  by (simp add: did_document_json_def Let_def json_get_jobj)

lemma public_jwk_fields:
  "json_get (build_public_jwk k) f = Some v \<Longrightarrow> f \<in> {''kty'', ''crv'', ''x'', ''y'', ''kid''}"
  by (auto simp: build_public_jwk_def with_kid_def json_get_jobj split: jwk_params.splits option.splits if_splits)

lemma services_get [simp]:
  "json_get (plain_service i t e) ''type'' = Some (JStr t)"
  "json_get (plain_service i t e) ''serviceEndpoint'' = Some (JStr e)"
  "json_get (didcomm_service d m) ''type'' = Some (JStr DIDCOMM_SERVICE_TYPE)"
  by (simp_all add: plain_service_def didcomm_service_def json_get_jobj)

end
