(* ===== verification/Trql_Discovery.thy ===== *)
theory Trql_Discovery
  imports Did_Document
begin

text \<open>
  Transport discovery of the client crate: \<open>trql-client/src/transport.rs\<close>, \<open>error.rs\<close> and
  \<open>discovery.rs\<close>.  Transport kinds are linearly ordered by preference, HTTPS below DIDComm below
  TSP, so that the choice a client makes is a maximum.  The lemmas: what reading the service list
  finds, and that the selection is the greatest kind both sides have.
\<close>

section \<open>Transport kinds\<close>

datatype transport_kind = Https | Didcomm | Tsp

fun transport_str :: "transport_kind \<Rightarrow> string" where
  "transport_str Https = ''https''"
| "transport_str Didcomm = ''didcomm''"
| "transport_str Tsp = ''tsp''"

fun preference :: "transport_kind \<Rightarrow> nat" where
  "preference Https = 0"
| "preference Didcomm = 1"
| "preference Tsp = 2"

lemma preference_inj [simp]: "preference a = preference b \<longleftrightarrow> a = b"
  by (cases a; cases b) auto

instantiation transport_kind :: linorder
begin

definition less_eq_transport_kind :: "transport_kind \<Rightarrow> transport_kind \<Rightarrow> bool" where
  "a \<le> b \<longleftrightarrow> preference a \<le> preference b"

definition less_transport_kind :: "transport_kind \<Rightarrow> transport_kind \<Rightarrow> bool" where
  "a < b \<longleftrightarrow> preference a < preference b"

instance
  by standard (auto simp: less_eq_transport_kind_def less_transport_kind_def dest: antisym)

end

lemma transport_kind_finite [simp]: "finite (A :: transport_kind set)"
proof (rule finite_subset)
  show "A \<subseteq> {Https, Didcomm, Tsp}" by (auto intro: transport_kind.exhaust)
qed simp

section \<open>Errors\<close>

text \<open>The code of a rejection is a type of the framework, its timestamp one of \<open>chrono\<close>.\<close>

datatype trql_error =
    Config string
  | Transport transport_kind string
  | Timeout transport_kind int
  | Rejected string bool "int option" "string option"
  | Contract string
  | NoMatchingTransport "transport_kind list" "transport_kind list"

definition format_kinds :: "transport_kind list \<Rightarrow> string" where
  "format_kinds kinds = (if kinds = [] then ''none'' else join_str '', '' (map transport_str kinds))"

fun trql_error_str :: "trql_error \<Rightarrow> string" where
  "trql_error_str (Config m) = ''configuration error: '' @ m"
| "trql_error_str (Transport k d) = transport_str k @ '' transport error: '' @ d"
| "trql_error_str (Timeout k s) =
     transport_str k @ '' reply timed out after '' @ show_nat (nat s) @ ''s''"
| "trql_error_str (Rejected code r ra m) =
     ''registry rejected the task ('' @ code @ ''): '' @ (case m of Some d \<Rightarrow> d | None \<Rightarrow> ''no detail'')"
| "trql_error_str (Contract m) = ''contract violation: '' @ m"
| "trql_error_str (NoMatchingTransport ours theirs) =
     ''no shared transport with the registry (we speak ['' @ format_kinds ours @
     ''], it advertises ['' @ format_kinds theirs @ ''])''"

fun is_retryable :: "trql_error \<Rightarrow> bool" where
  "is_retryable (Transport k d) = True"
| "is_retryable (Timeout k s) = True"
| "is_retryable (Rejected code retryable ra m) = retryable"
| "is_retryable _ = False"

section \<open>Reading the service list\<close>

definition VTA_REST_SERVICE_TYPE :: string where "VTA_REST_SERVICE_TYPE = ''VTARest''"

definition REST_SERVICE_TYPES :: "string list" where
  "REST_SERVICE_TYPES = [REST_SERVICE_TYPE, VTA_REST_SERVICE_TYPE]"

definition PREFERENCE_ORDER :: "transport_kind list" where
  "PREFERENCE_ORDER = [Tsp, Didcomm, Https]"

fun service_type :: "transport_kind \<Rightarrow> string" where
  "service_type Tsp = TSP_SERVICE_TYPE"
| "service_type Didcomm = DIDCOMM_SERVICE_TYPE"
| "service_type Https = REST_SERVICE_TYPE"

text \<open>The features of a build of the client.\<close>

definition compiled :: "(transport_kind \<Rightarrow> bool) \<Rightarrow> transport_kind list" where
  "compiled is_compiled = filter is_compiled PREFERENCE_ORDER"

record service_capabilities =
  sc_tsp :: "string option"
  sc_didcomm :: "string option"
  sc_https :: "string option"

record transport_choice =
  tc_kind :: transport_kind
  tc_endpoint :: string

definition no_capabilities :: service_capabilities where
  "no_capabilities = \<lparr>sc_tsp = None, sc_didcomm = None, sc_https = None\<rparr>"

definition service_has_type :: "json \<Rightarrow> string \<Rightarrow> bool" where
  "service_has_type svc typ =
     (case json_get svc ''type'' of
        Some (JStr s) \<Rightarrow> s = typ
      | Some (JArr arr) \<Rightarrow> list_ex (\<lambda>t. as_str t = Some typ) arr
      | _ \<Rightarrow> False)"

fun endpoint_uri :: "json \<Rightarrow> string option" and first_uri :: "json list \<Rightarrow> string option" where
  "endpoint_uri (JStr s) = Some s"
| "endpoint_uri (JObj m) = Option.bind (map_of m ''uri'') as_str"
| "endpoint_uri (JArr arr) = first_uri arr"
| "endpoint_uri _ = None"
| "first_uri [] = None"
| "first_uri (e # es) = (case endpoint_uri e of Some u \<Rightarrow> Some u | None \<Rightarrow> first_uri es)"

definition get_or_insert :: "string option \<Rightarrow> string \<Rightarrow> string option" where
  "get_or_insert slot uri = (case slot of None \<Rightarrow> Some uri | Some u \<Rightarrow> Some u)"

definition add_service :: "json \<Rightarrow> service_capabilities \<Rightarrow> service_capabilities" where
  "add_service svc caps =
     (case Option.bind (json_get svc ''serviceEndpoint'') endpoint_uri of
        None \<Rightarrow> caps
      | Some uri \<Rightarrow>
          if uri = '''' then caps
          else if service_has_type svc TSP_SERVICE_TYPE
            then caps\<lparr>sc_tsp := get_or_insert (sc_tsp caps) uri\<rparr>
          else if service_has_type svc DIDCOMM_SERVICE_TYPE
            then caps\<lparr>sc_didcomm := get_or_insert (sc_didcomm caps) uri\<rparr>
          else if list_ex (service_has_type svc) REST_SERVICE_TYPES
            then caps\<lparr>sc_https := get_or_insert (sc_https caps) uri\<rparr>
          else caps)"

definition from_document :: "json \<Rightarrow> service_capabilities" where
  "from_document doc =
     (case Option.bind (json_get doc ''service'') as_array of
        None \<Rightarrow> no_capabilities
      | Some services \<Rightarrow> fold add_service services no_capabilities)"

section \<open>Selecting a transport\<close>

fun endpoint :: "service_capabilities \<Rightarrow> transport_kind \<Rightarrow> string option" where
  "endpoint c Tsp = sc_tsp c"
| "endpoint c Didcomm = sc_didcomm c"
| "endpoint c Https = sc_https c"

definition advertised :: "service_capabilities \<Rightarrow> transport_kind list" where
  "advertised c = filter (\<lambda>k. endpoint c k \<noteq> None) PREFERENCE_ORDER"

fun select_from ::
  "service_capabilities \<Rightarrow> transport_kind list \<Rightarrow> transport_kind list \<Rightarrow> transport_choice option" where
  "select_from c ours [] = None"
| "select_from c ours (kind # kinds) =
     (case endpoint c kind of
        Some e \<Rightarrow> if kind \<in> set ours then Some \<lparr>tc_kind = kind, tc_endpoint = e\<rparr>
                  else select_from c ours kinds
      | None \<Rightarrow> select_from c ours kinds)"

definition select_transport ::
  "service_capabilities \<Rightarrow> transport_kind list \<Rightarrow> (transport_choice, trql_error) result" where
  "select_transport c ours =
     (case select_from c ours PREFERENCE_ORDER of
        Some choice \<Rightarrow> Ok choice
      | None \<Rightarrow> Err (NoMatchingTransport ours (advertised c)))"

section \<open>Lemmas\<close>

lemma advertised_iff [simp]: "k \<in> set (advertised c) \<longleftrightarrow> endpoint c k \<noteq> None"
  by (cases k) (simp_all add: advertised_def PREFERENCE_ORDER_def)

lemma sorted_preference: "sorted_wrt (\<lambda>a b. b < a) PREFERENCE_ORDER" "set PREFERENCE_ORDER = UNIV"
  by (auto simp: PREFERENCE_ORDER_def less_transport_kind_def intro: transport_kind.exhaust)

lemma select_from_Some:
  "sorted_wrt (\<lambda>a b. b < a) kinds \<Longrightarrow>
   select_from c ours kinds = Some ch \<longleftrightarrow>
     tc_kind ch \<in> set kinds \<inter> set ours \<and> endpoint c (tc_kind ch) = Some (tc_endpoint ch) \<and>
     (\<forall>k \<in> set kinds \<inter> set ours. endpoint c k \<noteq> None \<longrightarrow> k \<le> tc_kind ch)"
  by (induction kinds) (cases ch; force split: option.splits if_splits)+

lemma select_from_None:
  "select_from c ours kinds = None \<longleftrightarrow> (\<forall>k \<in> set kinds \<inter> set ours. endpoint c k = None)"
  by (induction kinds) (auto split: option.splits)

text \<open>The selection is the maximum of the transports both sides have.\<close>

lemma select_transport_Ok:
  "select_transport c ours = Ok ch \<longleftrightarrow>
     set ours \<inter> set (advertised c) \<noteq> {} \<and> tc_kind ch = Max (set ours \<inter> set (advertised c)) \<and>
     endpoint c (tc_kind ch) = Some (tc_endpoint ch)"
proof -
  let ?S = "set ours \<inter> set (advertised c)"
  have "select_transport c ours = Ok ch \<longleftrightarrow> select_from c ours PREFERENCE_ORDER = Some ch"
    by (auto simp: select_transport_def split: option.splits)
  also have "\<dots> \<longleftrightarrow> tc_kind ch \<in> ?S \<and> (\<forall>k \<in> ?S. k \<le> tc_kind ch) \<and>
      endpoint c (tc_kind ch) = Some (tc_endpoint ch)"
    using select_from_Some [OF sorted_preference(1), of c ours ch] sorted_preference(2) by auto
  also have "\<dots> \<longleftrightarrow> ?S \<noteq> {} \<and> tc_kind ch = Max ?S \<and> endpoint c (tc_kind ch) = Some (tc_endpoint ch)"
    by (metis Max_eqI Max_ge Max_in empty_iff transport_kind_finite)
  finally show ?thesis .
qed

lemma select_transport_Err:
  "select_transport c ours = Err e \<longleftrightarrow>
     set ours \<inter> set (advertised c) = {} \<and> e = NoMatchingTransport ours (advertised c)"
proof -
  have "select_from c ours PREFERENCE_ORDER = None \<longleftrightarrow> set ours \<inter> set (advertised c) = {}"
    using select_from_None [of c ours PREFERENCE_ORDER] sorted_preference(2) by auto
  then show ?thesis by (auto simp: select_transport_def split: option.splits)
qed

lemma plain_service_has [simp]: "service_has_type (plain_service i t e) s \<longleftrightarrow> t = s"
  by (auto simp: service_has_type_def)

lemma didcomm_service_has [simp]: "service_has_type (didcomm_service d m) s \<longleftrightarrow> DIDCOMM_SERVICE_TYPE = s"
  by (auto simp: service_has_type_def)

lemma didcomm_service_uri [simp]:
  "Option.bind (json_get (didcomm_service d m) ''serviceEndpoint'') endpoint_uri = Some m"
  by (simp add: didcomm_service_def json_get_jobj jobj_def map_of_bt_of)

text \<open>The document the registry builds, read back by the client.\<close>

definition non_empty :: "string option \<Rightarrow> string option" where
  "non_empty s = (if s = Some '''' then None else s)"

lemma registry_document_read:
  "from_document (did_document_json pc mediator public_url fl) =
     \<lparr>sc_tsp = (if tf_tsp fl then non_empty (Some mediator) else None),
      sc_didcomm = (if tf_didcomm fl then non_empty (Some mediator) else None),
      sc_https = (if tf_rest fl then non_empty (map_option trim_end_slash (advertised_url public_url))
                  else None)\<rparr>"
proof -
  have names: "TSP_SERVICE_TYPE \<noteq> DIDCOMM_SERVICE_TYPE" "TSP_SERVICE_TYPE \<noteq> REST_SERVICE_TYPE"
    "DIDCOMM_SERVICE_TYPE \<noteq> REST_SERVICE_TYPE" "DIDCOMM_SERVICE_TYPE \<noteq> TSP_SERVICE_TYPE"
    "REST_SERVICE_TYPE \<noteq> DIDCOMM_SERVICE_TYPE" "REST_SERVICE_TYPE \<noteq> TSP_SERVICE_TYPE"
    by (simp_all add: service_names)
  show ?thesis
    using names unfolding from_document_def did_document_service build_services_def
    by (cases fl; cases "advertised_url public_url")
       (auto simp: add_service_def get_or_insert_def no_capabilities_def non_empty_def REST_SERVICE_TYPES_def)
qed

end
