(* ===== verification/Trql_Client.thy ===== *)
theory Trql_Client
  imports Trql_Discovery Trust_Task
begin

text \<open>
  The typed query client, \<open>trql-client/src/client.rs\<close>, and its HTTPS and TSP wire formats,
  \<open>https.rs\<close> and the envelope functions of \<open>tsp.rs\<close>.  A transport is a function from the request
  document to the reply document; the functions of the task library the client uses are the
  fields of \<open>client_lib\<close>, the HTTP client is a parameter.  The lemmas classify what a query
  returns.
\<close>

section \<open>Queries\<close>

record trqp_query =
  tq_entity :: string
  tq_authority :: string
  tq_action :: string
  tq_resource :: string
  tq_time :: "int option"
  tq_locator :: "string option"

definition trqp_query_new :: "string \<Rightarrow> string \<Rightarrow> string \<Rightarrow> string \<Rightarrow> trqp_query" where
  "trqp_query_new e a act r =
     \<lparr>tq_entity = e, tq_authority = a, tq_action = act, tq_resource = r, tq_time = None, tq_locator = None\<rparr>"

definition query_at :: "int \<Rightarrow> trqp_query \<Rightarrow> trqp_query" where
  "query_at t q = q\<lparr>tq_time := Some t\<rparr>"

definition query_locator :: "string \<Rightarrow> trqp_query \<Rightarrow> trqp_query" where
  "query_locator l q = q\<lparr>tq_locator := Some l\<rparr>"

definition has_context :: "trqp_query \<Rightarrow> bool" where
  "has_context q \<longleftrightarrow> tq_time q \<noteq> None \<or> tq_locator q \<noteq> None"

text \<open>The request payload, the same members for both queries.\<close>

record query_request =
  rq_entity :: string
  rq_authority :: string
  rq_action :: string
  rq_resource :: string
  rq_context :: "(int option \<times> string option) option"

definition request_of :: "trqp_query \<Rightarrow> query_request" where
  "request_of q =
     \<lparr>rq_entity = tq_entity q, rq_authority = tq_authority q, rq_action = tq_action q,
      rq_resource = tq_resource q,
      rq_context = (if has_context q then Some (tq_time q, tq_locator q) else None)\<rparr>"

section \<open>One query\<close>

type_synonym error_payload = "string \<times> bool \<times> int option \<times> string option"

record client_lib =
  cl_slug :: "string \<Rightarrow> string"
  cl_is_response :: "string \<Rightarrow> bool"
  cl_request_json :: "query_request \<Rightarrow> (json, string) result"
  cl_error_payload :: "json \<Rightarrow> (error_payload, string) result"
  cl_answer :: "json \<Rightarrow> (query_response, string) result"
  cl_debug :: "string option \<Rightarrow> string"

type_synonym 'w transport = "document \<Rightarrow> 'w \<Rightarrow> (document, trql_error) result \<times> 'w"

record 'w trql_client =
  tc_transport :: "'w transport"
  tc_registry_did :: string
  tc_client_did :: "string option"

definition client_new :: "'w transport \<Rightarrow> string \<Rightarrow> 'w trql_client" where
  "client_new t did = \<lparr>tc_transport = t, tc_registry_did = did, tc_client_did = None\<rparr>"

definition with_client_did :: "string \<Rightarrow> 'w trql_client \<Rightarrow> 'w trql_client" where
  "with_client_did did c = c\<lparr>tc_client_did := Some did\<rparr>"

definition ERROR_SLUG :: string where "ERROR_SLUG = ''trust-task-error''"

definition new_task_id :: "string \<Rightarrow> string" where
  "new_task_id uuid = ''urn:uuid:'' @ uuid"

definition request_document ::
  "'w trql_client \<Rightarrow> string \<Rightarrow> int \<Rightarrow> string \<Rightarrow> json \<Rightarrow> document" where
  "request_document c i now type_uri body =
     \<lparr>tk_id = i, tk_type = type_uri, tk_thread = None, tk_issuer = tc_client_did c,
      tk_recipient = Some (tc_registry_did c), tk_payload = body, tk_proof = None,
      tk_issued = Some now\<rparr>"

definition read_reply ::
  "client_lib \<Rightarrow> string \<Rightarrow> string \<Rightarrow> document \<Rightarrow> (query_response, trql_error) result" where
  "read_reply cl i request_slug reply =
     (if tk_thread reply \<noteq> Some i
      then Err (Contract (''uncorrelated reply: threadId '' @ cl_debug cl (tk_thread reply) @
             '' does not match request id '' @ i))
      else if cl_slug cl (tk_type reply) = ERROR_SLUG
      then (case cl_error_payload cl (tk_payload reply) of
              Err e \<Rightarrow> Err (Contract (''trust-task-error payload did not parse: '' @ e))
            | Ok (code, retryable, retry_after, message) \<Rightarrow>
                Err (Rejected code retryable retry_after message))
      else if \<not> (cl_is_response cl (tk_type reply) \<and> cl_slug cl (tk_type reply) = request_slug)
      then Err (Contract (''unexpected reply type `'' @ tk_type reply @ ''` to a `'' @ request_slug @ ''` request''))
      else map_err (\<lambda>e. Contract (''response payload did not parse: '' @ e)) (cl_answer cl (tk_payload reply)))"

definition send_query ::
  "client_lib \<Rightarrow> 'w trql_client \<Rightarrow> string \<Rightarrow> int \<Rightarrow> string \<Rightarrow> query_request \<Rightarrow> 'w \<Rightarrow>
   (query_response, trql_error) result \<times> 'w" where
  "send_query cl c uuid now type_uri payload w =
     (case cl_request_json cl payload of
        Err e \<Rightarrow> (Err (Contract (''request payload did not serialize: '' @ e)), w)
      | Ok body \<Rightarrow>
          (let i = new_task_id uuid;
               request = request_document c i now type_uri body;
               request_slug = cl_slug cl (tk_type request)
           in case tc_transport c request w of
                (Err e, w1) \<Rightarrow> (Err e, w1)
              | (Ok reply, w1) \<Rightarrow> (read_reply cl i request_slug reply, w1)))"

definition authorization ::
  "client_lib \<Rightarrow> 'w trql_client \<Rightarrow> string \<Rightarrow> int \<Rightarrow> trqp_query \<Rightarrow> 'w \<Rightarrow>
   (query_response, trql_error) result \<times> 'w" where
  "authorization cl c uuid now q w = send_query cl c uuid now AUTHORIZATION (request_of q) w"

definition recognition ::
  "client_lib \<Rightarrow> 'w trql_client \<Rightarrow> string \<Rightarrow> int \<Rightarrow> trqp_query \<Rightarrow> 'w \<Rightarrow>
   (query_response, trql_error) result \<times> 'w" where
  "recognition cl c uuid now q w = send_query cl c uuid now RECOGNITION (request_of q) w"

section \<open>HTTPS\<close>

text \<open>
  What the HTTP client answers: a status with a body that could or could not be read, or a
  failure.  \<open>ht_task\<close> parses a body as a task document, \<open>ht_lossy\<close> is its lossy text.
\<close>

datatype http_failure = HttpTimeout string | HttpConnect string | HttpOther string

record 'w https_transport =
  ht_post :: "string \<Rightarrow> string option \<Rightarrow> document \<Rightarrow> 'w \<Rightarrow>
    (nat \<times> (string, string) result, http_failure) result \<times> 'w"
  ht_task :: "string \<Rightarrow> (document, string) result"
  ht_status_str :: "nat \<Rightarrow> string"
  ht_lossy :: "string \<Rightarrow> string"
  ht_endpoint :: string
  ht_bearer_token :: "string option"
  ht_timeout :: int

record https_config =
  hc_base_url :: string
  hc_timeout :: int
  hc_connect_timeout :: int
  hc_bearer_token :: "string option"

definition https_config_new :: "string \<Rightarrow> https_config" where
  "https_config_new base_url =
     \<lparr>hc_base_url = base_url, hc_timeout = 30, hc_connect_timeout = 10, hc_bearer_token = None\<rparr>"

text \<open>\<open>parse_url\<close> and \<open>build_http\<close> are the URL parser and the client builder of \<open>reqwest\<close>.\<close>

definition https_new ::
  "(string \<Rightarrow> (string, string) result) \<Rightarrow>
   (int \<Rightarrow> int \<Rightarrow> (string \<Rightarrow> string option \<Rightarrow> document \<Rightarrow> 'w \<Rightarrow>
      (nat \<times> (string, string) result, http_failure) result \<times> 'w, string) result) \<Rightarrow>
   (string \<Rightarrow> (document, string) result) \<Rightarrow> (nat \<Rightarrow> string) \<Rightarrow> (string \<Rightarrow> string) \<Rightarrow> https_config \<Rightarrow>
   ('w https_transport, trql_error) result" where
  "https_new parse_url build_http task status lossy config =
     bind_ok (map_err (\<lambda>e. Config (''invalid registry base URL: '' @ e))
       (parse_url (trim_end_slash (hc_base_url config) @ ''/trust-tasks''))) (\<lambda>endpoint.
     bind_ok (map_err (\<lambda>e. Config (''could not build HTTP client: '' @ e))
       (build_http (hc_timeout config) (hc_connect_timeout config))) (\<lambda>post.
     Ok \<lparr>ht_post = post, ht_task = task, ht_status_str = status, ht_lossy = lossy,
         ht_endpoint = endpoint, ht_bearer_token = hc_bearer_token config,
         ht_timeout = hc_timeout config\<rparr>))"

definition https_exchange :: "'w https_transport \<Rightarrow> 'w transport" where
  "https_exchange h request w =
     (case ht_post h (ht_endpoint h) (ht_bearer_token h) request w of
        (Err (HttpTimeout e), w1) \<Rightarrow> (Err (Timeout Https (ht_timeout h)), w1)
      | (Err (HttpConnect e), w1) \<Rightarrow>
          (Err (Transport Https (''could not connect to '' @ ht_endpoint h @ '': '' @ e)), w1)
      | (Err (HttpOther e), w1) \<Rightarrow> (Err (Transport Https e), w1)
      | (Ok (status, Err e), w1) \<Rightarrow> (Err (Transport Https (''failed reading response body: '' @ e)), w1)
      | (Ok (status, Ok body), w1) \<Rightarrow>
          (case ht_task h body of
             Ok document \<Rightarrow> (Ok document, w1)
           | Err e \<Rightarrow>
               if 200 \<le> status \<and> status < 300
               then (Err (Contract (''HTTP '' @ ht_status_str h status @
                      '' body is not a Trust Task document: '' @ e)), w1)
               else (Err (Transport Https (''HTTP '' @ ht_status_str h status @
                      '' with non-Trust-Task body: '' @ ht_lossy h body)), w1)))"

section \<open>TSP envelopes\<close>

record envelope_lib =
  el_task_json :: "document \<Rightarrow> (json, string) result"
  el_task :: "json \<Rightarrow> (document, string) result"
  el_text :: "json \<Rightarrow> (string, string) result"
  el_json :: "string \<Rightarrow> (json, string) result"
  el_debug :: "string option \<Rightarrow> string"
  el_envelope_type :: string

definition client_build_envelope :: "envelope_lib \<Rightarrow> document \<Rightarrow> (string, trql_error) result" where
  "client_build_envelope el document =
     bind_ok (map_err (\<lambda>e. Contract (''request did not serialize: '' @ e)) (el_task_json el document)) (\<lambda>d.
     map_err (\<lambda>e. Contract (''envelope did not serialize: '' @ e))
       (el_text el (jobj [(''type'', JStr (el_envelope_type el)), (''document'', d)])))"

definition client_parse_envelope :: "envelope_lib \<Rightarrow> string \<Rightarrow> (document, string) result" where
  "client_parse_envelope el payload =
     bind_ok (map_err (\<lambda>e. ''invalid TSP envelope JSON: '' @ e) (el_json el payload)) (\<lambda>envelope.
       let t = get_str envelope ''type'' in
       if t = Some (el_envelope_type el)
       then bind_ok (ok_or (json_get envelope ''document'') ''TSP envelope missing `document`'') (\<lambda>d.
              map_err (\<lambda>e. ''invalid Trust Task document: '' @ e) (el_task el d))
       else Err (''unexpected TSP envelope type: '' @ el_debug el t))"

section \<open>Lemmas\<close>

lemma read_reply_Ok:
  "read_reply cl i slug reply = Ok a \<longleftrightarrow>
     tk_thread reply = Some i \<and> slug \<noteq> ERROR_SLUG \<and> cl_slug cl (tk_type reply) = slug \<and>
     cl_is_response cl (tk_type reply) \<and> cl_answer cl (tk_payload reply) = Ok a"
  by (auto simp: read_reply_def split: result.splits prod.splits)

lemma read_reply_Rejected:
  "read_reply cl i slug reply = Err (Rejected code r ra m) \<longleftrightarrow>
     tk_thread reply = Some i \<and> cl_slug cl (tk_type reply) = ERROR_SLUG \<and>
     cl_error_payload cl (tk_payload reply) = Ok (code, r, ra, m)"
  by (auto simp: read_reply_def split: result.splits prod.splits)

lemma read_reply_Err:
  "read_reply cl i slug reply = Err e \<Longrightarrow> (\<exists>m. e = Contract m) \<or> (\<exists>c r ra m. e = Rejected c r ra m)"
  by (auto simp: read_reply_def split: if_splits result.splits prod.splits)

lemma send_query_cases:
  assumes "send_query cl c uuid now u p w = (res, w')"
  obtains (unserialized) e where "cl_request_json cl p = Err e" "w' = w"
      "res = Err (Contract (''request payload did not serialize: '' @ e))"
  | (failed) body e where "cl_request_json cl p = Ok body"
      "tc_transport c (request_document c (new_task_id uuid) now u body) w = (Err e, w')" "res = Err e"
  | (replied) body reply where "cl_request_json cl p = Ok body"
      "tc_transport c (request_document c (new_task_id uuid) now u body) w = (Ok reply, w')"
      "res = read_reply cl (new_task_id uuid) (cl_slug cl u) reply"
  using assms
  by (auto simp: send_query_def Let_def request_document_def split: result.splits prod.splits)

lemma client_envelope_roundtrip:
  assumes "\<And>d j. el_task_json el d = Ok j \<Longrightarrow> el_task el j = Ok d"
    and "\<And>j s. el_text el j = Ok s \<Longrightarrow> el_json el s = Ok j"
    and "client_build_envelope el d = Ok s"
  shows "client_parse_envelope el s = Ok d"
  using assms(3)
  by (auto simp: client_build_envelope_def client_parse_envelope_def get_str_def json_get_jobj Let_def
      assms(1) dest!: assms(2))

end
