(* ===== verification/Trql_Pending.thy ===== *)
theory Trql_Pending
  imports Trql_Client
begin

text \<open>
  Reply demultiplexing of the mediator transports, \<open>trql-client/src/pending.rs\<close> with the exchanges
  of \<open>didcomm.rs\<close> and \<open>tsp.rs\<close> and their demux loops: concurrent callers register a waiter under
  their request id, one task routes every inbound document to the waiter of its thread.  The
  operations are functions on the table of waiters, the interleaving is a step relation whose
  rules are the atomic parts of an exchange, and the lemmas are its invariant.
\<close>

section \<open>The table of waiters\<close>

text \<open>
  An exchange is a number, and its one-shot channel has the same number: the sender is in the
  table or gone, the receiver is with the exchange as long as that waits.
\<close>

datatype exchange =
    Sending string
  | Waiting string
  | Expired string trql_error
  | Finished string "(document, trql_error) result"
  | Dropped string

record demux =
  dx_kind :: transport_kind
  dx_reply_timeout :: int
  dx_pending :: "string \<Rightarrow> nat option"
  dx_exchange :: "nat \<Rightarrow> exchange option"
  dx_sent :: "nat \<Rightarrow> document option"
  dx_next :: nat

definition demux_new :: "transport_kind \<Rightarrow> int \<Rightarrow> demux" where
  "demux_new k t = \<lparr>dx_kind = k, dx_reply_timeout = t, dx_pending = Map.empty,
     dx_exchange = Map.empty, dx_sent = Map.empty, dx_next = 0\<rparr>"

definition register :: "string \<Rightarrow> demux \<Rightarrow> nat \<times> demux" where
  "register i x = (dx_next x,
     x\<lparr>dx_pending := (dx_pending x)(i \<mapsto> dx_next x),
       dx_exchange := (dx_exchange x)(dx_next x \<mapsto> Sending i), dx_next := dx_next x + 1\<rparr>)"

definition abandon :: "string \<Rightarrow> demux \<Rightarrow> demux" where
  "abandon i x = x\<lparr>dx_pending := (dx_pending x)(i := None)\<rparr>"

fun receiver_alive :: "exchange option \<Rightarrow> bool" where
  "receiver_alive (Some (Sending i)) = True"
| "receiver_alive (Some (Waiting i)) = True"
| "receiver_alive _ = False"

definition route :: "document \<Rightarrow> demux \<Rightarrow> bool \<times> demux" where
  "route doc x =
     (case tk_thread doc of
        None \<Rightarrow> (False, x)
      | Some thread_id \<Rightarrow>
          (case dx_pending x thread_id of
             None \<Rightarrow> (False, x)
           | Some n \<Rightarrow>
               (let x1 = x\<lparr>dx_pending := (dx_pending x)(thread_id := None)\<rparr> in
                if receiver_alive (dx_exchange x n)
                then (True, x1\<lparr>dx_sent := (dx_sent x)(n \<mapsto> doc)\<rparr>) else (False, x1))))"

definition set_exchange :: "nat \<Rightarrow> exchange \<Rightarrow> demux \<Rightarrow> demux" where
  "set_exchange n e x = x\<lparr>dx_exchange := (dx_exchange x)(n \<mapsto> e)\<rparr>"

text \<open>The sender of a channel is gone when no entry holds it and nothing was sent.\<close>

definition sender_gone :: "nat \<Rightarrow> demux \<Rightarrow> bool" where
  "sender_gone n x \<longleftrightarrow> dx_sent x n = None \<and> (\<forall>i. dx_pending x i \<noteq> Some n)"

text \<open>
  The start of an exchange: the request must name its recipient and serialize, then its waiter is
  registered, before anything is sent.  A transport is built on a profile with a mediator.
\<close>

definition mediator_transport_new :: "transport_kind \<Rightarrow> string \<Rightarrow> bool \<Rightarrow> int \<Rightarrow> (demux, trql_error) result" where
  "mediator_transport_new k binding has_mediator reply_timeout =
     (if \<not> has_mediator
      then Err (Config (''profile has no mediator configured (required for the '' @ binding @ '' binding)''))
      else Ok (demux_new k reply_timeout))"

definition no_recipient :: trql_error where
  "no_recipient = Config ''request document has no recipient to route to''"

definition didcomm_begin ::
  "envelope_lib \<Rightarrow> document \<Rightarrow> demux \<Rightarrow> (string \<times> json \<times> nat, trql_error) result \<times> demux" where
  "didcomm_begin el request x =
     (case tk_recipient request of
        None \<Rightarrow> (Err no_recipient, x)
      | Some dest \<Rightarrow>
          (case el_task_json el request of
             Err e \<Rightarrow> (Err (Contract (''request did not serialize: '' @ e)), x)
           | Ok body \<Rightarrow> (case register (tk_id request) x of (n, x1) \<Rightarrow> (Ok (dest, body, n), x1))))"

definition tsp_begin ::
  "envelope_lib \<Rightarrow> document \<Rightarrow> demux \<Rightarrow> (string \<times> string \<times> nat, trql_error) result \<times> demux" where
  "tsp_begin el request x =
     (case tk_recipient request of
        None \<Rightarrow> (Err no_recipient, x)
      | Some dest \<Rightarrow>
          (case client_build_envelope el request of
             Err e \<Rightarrow> (Err e, x)
           | Ok envelope \<Rightarrow> (case register (tk_id request) x of (n, x1) \<Rightarrow> (Ok (dest, envelope, n), x1))))"

text \<open>
  One inbound message of the demux loops.  The answer is whether the message is acknowledged:
  over DIDComm only when a waiter took it, over TSP the pickup itself acknowledges.
\<close>

definition didcomm_inbound :: "envelope_lib \<Rightarrow> string \<Rightarrow> json \<Rightarrow> demux \<Rightarrow> bool \<times> demux" where
  "didcomm_inbound el typ body x =
     (if typ \<noteq> el_envelope_type el then (False, x)
      else (case el_task el body of
              Err e \<Rightarrow> (False, x)
            | Ok document \<Rightarrow> route document x))"

definition tsp_inbound_frame ::
  "envelope_lib \<Rightarrow> (string \<Rightarrow> (string \<times> string, string) result) \<Rightarrow> string \<Rightarrow> demux \<Rightarrow> demux" where
  "tsp_inbound_frame el unpack packed x =
     (case unpack packed of
        Err e \<Rightarrow> x
      | Ok (payload, sender) \<Rightarrow>
          (case client_parse_envelope el payload of
             Err e \<Rightarrow> x
           | Ok document \<Rightarrow> snd (route document x)))"

section \<open>Steps\<close>

text \<open>
  An exchange registers before it sends; a failed send abandons the entry.  The wait takes a
  delivered reply when there is one, sees a closed channel when the sender is gone, or runs out;
  both failures abandon the entry, the expiry in a step of its own after the receiver is dropped.
  A caller may drop the exchange while it sends or waits: the receiver is gone, the entry stays.
  The demux loop routes any inbound document at any time.  Request ids are fresh (version 4
  UUIDs), a side condition of the first rule.
\<close>

definition used_ids :: "demux \<Rightarrow> string set" where
  "used_ids x = {i. \<exists>n e. dx_exchange x n = Some e \<and> e \<in> {Sending i, Waiting i} \<union>
     {e. \<exists>r. e = Finished i r} \<union> {e. \<exists>r. e = Expired i r} \<union> {Dropped i}}"

inductive demux_step :: "demux \<Rightarrow> demux \<Rightarrow> bool" where
  Register: "i \<notin> used_ids x \<Longrightarrow> demux_step x (snd (register i x))"
| Sent: "dx_exchange x n = Some (Sending i) \<Longrightarrow> demux_step x (set_exchange n (Waiting i) x)"
| Send_failed: "dx_exchange x n = Some (Sending i) \<Longrightarrow>
    demux_step x (set_exchange n (Finished i (Err e)) (abandon i x))"
| Inbound: "demux_step x (snd (route doc x))"
| Receive: "dx_exchange x n = Some (Waiting i) \<Longrightarrow> dx_sent x n = Some doc \<Longrightarrow>
    demux_step x (set_exchange n (Finished i (Ok doc)) x)"
| Closed: "dx_exchange x n = Some (Waiting i) \<Longrightarrow> sender_gone n x \<Longrightarrow>
    demux_step x (set_exchange n (Finished i (Err (Transport (dx_kind x) ''reply demux task stopped'')))
      (abandon i x))"
| Expire: "dx_exchange x n = Some (Waiting i) \<Longrightarrow> dx_sent x n = None \<Longrightarrow>
    demux_step x (set_exchange n (Expired i (Timeout (dx_kind x) (dx_reply_timeout x))) x)"
| Expired_abandon: "dx_exchange x n = Some (Expired i e) \<Longrightarrow>
    demux_step x (set_exchange n (Finished i (Err e)) (abandon i x))"
| Drop: "dx_exchange x n = Some e \<Longrightarrow> e = Sending i \<or> e = Waiting i \<Longrightarrow>
    demux_step x (set_exchange n (Dropped i) x)"

inductive demux_reachable :: "transport_kind \<Rightarrow> int \<Rightarrow> demux \<Rightarrow> bool" for k t where
  Start: "demux_reachable k t (demux_new k t)"
| Step: "demux_reachable k t x \<Longrightarrow> demux_step x y \<Longrightarrow> demux_reachable k t y"

inductive_cases demux_stepE: "demux_step x y"

section \<open>The invariant\<close>

fun exchange_id :: "exchange \<Rightarrow> string" where
  "exchange_id (Sending i) = i"
| "exchange_id (Waiting i) = i"
| "exchange_id (Expired i e) = i"
| "exchange_id (Finished i r) = i"
| "exchange_id (Dropped i) = i"

fun unfinished :: "exchange \<Rightarrow> bool" where
  "unfinished (Finished i r) = False"
| "unfinished _ = True"

definition demux_inv :: "demux \<Rightarrow> bool" where
  "demux_inv x \<longleftrightarrow>
     (\<forall>n e. dx_exchange x n = Some e \<longrightarrow> n < dx_next x) \<and>
     (\<forall>n d. dx_sent x n = Some d \<longrightarrow> n < dx_next x) \<and>
     (\<forall>n m e e'. dx_exchange x n = Some e \<and> dx_exchange x m = Some e' \<and>
        exchange_id e = exchange_id e' \<longrightarrow> n = m) \<and>
     (\<forall>i n. dx_pending x i = Some n \<longrightarrow>
        (\<exists>e. dx_exchange x n = Some e \<and> exchange_id e = i \<and> unfinished e) \<and> dx_sent x n = None) \<and>
     (\<forall>n d e. dx_sent x n = Some d \<and> dx_exchange x n = Some e \<longrightarrow> tk_thread d = Some (exchange_id e)) \<and>
     (\<forall>n e. dx_exchange x n = Some e \<and> receiver_alive (Some e) \<and> dx_sent x n = None \<longrightarrow>
        dx_pending x (exchange_id e) = Some n) \<and>
     (\<forall>n i d. dx_exchange x n = Some (Finished i (Ok d)) \<longrightarrow> tk_thread d = Some i)"

lemma used_ids_exchange: "dx_exchange x n = Some e \<Longrightarrow> exchange_id e \<in> used_ids x"
  unfolding used_ids_def by (cases e) auto

lemma demux_inv_new: "demux_inv (demux_new k t)"
  by (simp add: demux_inv_def demux_new_def)

lemma demux_invD:
  assumes "demux_inv x"
  shows inv_exchange_next: "dx_exchange x n = Some e \<Longrightarrow> n < dx_next x"
    and inv_sent_next: "dx_sent x n = Some d \<Longrightarrow> n < dx_next x"
    and inv_unique: "dx_exchange x n = Some e \<Longrightarrow> dx_exchange x m = Some e' \<Longrightarrow>
      exchange_id e = exchange_id e' \<Longrightarrow> n = m"
    and inv_pending: "dx_pending x i = Some n \<Longrightarrow>
      (\<exists>e. dx_exchange x n = Some e \<and> exchange_id e = i \<and> unfinished e) \<and> dx_sent x n = None"
    and inv_thread: "dx_sent x n = Some d \<Longrightarrow> dx_exchange x n = Some e \<Longrightarrow> tk_thread d = Some (exchange_id e)"
    and inv_waiter: "dx_exchange x n = Some e \<Longrightarrow> receiver_alive (Some e) \<Longrightarrow> dx_sent x n = None \<Longrightarrow>
      dx_pending x (exchange_id e) = Some n"
    and inv_finished: "dx_exchange x n = Some (Finished i (Ok d)) \<Longrightarrow> tk_thread d = Some i"
  using assms unfolding demux_inv_def by blast+

lemma demux_invI:
  assumes "\<And>n e. dx_exchange x n = Some e \<Longrightarrow> n < dx_next x"
    and "\<And>n d. dx_sent x n = Some d \<Longrightarrow> n < dx_next x"
    and "\<And>n m e e'. dx_exchange x n = Some e \<Longrightarrow> dx_exchange x m = Some e' \<Longrightarrow>
      exchange_id e = exchange_id e' \<Longrightarrow> n = m"
    and "\<And>i n. dx_pending x i = Some n \<Longrightarrow>
      (\<exists>e. dx_exchange x n = Some e \<and> exchange_id e = i \<and> unfinished e) \<and> dx_sent x n = None"
    and "\<And>n d e. dx_sent x n = Some d \<Longrightarrow> dx_exchange x n = Some e \<Longrightarrow> tk_thread d = Some (exchange_id e)"
    and "\<And>n e. dx_exchange x n = Some e \<Longrightarrow> receiver_alive (Some e) \<Longrightarrow> dx_sent x n = None \<Longrightarrow>
      dx_pending x (exchange_id e) = Some n"
    and "\<And>n i d. dx_exchange x n = Some (Finished i (Ok d)) \<Longrightarrow> tk_thread d = Some i"
  shows "demux_inv x"
  using assms unfolding demux_inv_def by blast

lemma register_inv:
  assumes "demux_inv x" "i \<notin> used_ids x"
  shows "demux_inv (snd (register i x))"
proof -
  have none: "dx_exchange x (dx_next x) = None" "dx_sent x (dx_next x) = None"
    using inv_exchange_next [OF assms(1)] inv_sent_next [OF assms(1)] by (metis less_irrefl not_None_eq)+
  have fresh: "exchange_id e \<noteq> i" if "dx_exchange x n = Some e" for n e
    using used_ids_exchange [OF that] assms(2) by blast
  have nopend: "dx_pending x j \<noteq> Some (dx_next x)" for j
    using inv_pending [OF assms(1), of j "dx_next x"] none by auto
  show ?thesis
  proof (rule demux_invI, goal_cases)
    case (1 m e1) then show ?case using inv_exchange_next [OF assms(1)]
      by (auto simp: register_def less_SucI split: if_splits)
  next
    case (2 m d) then show ?case using inv_sent_next [OF assms(1)] by (simp add: register_def less_SucI)
  next
    case (3 m1 m2 e1 e2) then show ?case
      using inv_unique [OF assms(1)] fresh [of m1] fresh [of m2]
      by (simp add: register_def split: if_splits) auto
  next
    case (4 j m) then show ?case using inv_pending [OF assms(1), of j m] nopend none
      by (auto simp: register_def split: if_splits)
  next
    case (5 m d e1) then show ?case using inv_thread [OF assms(1), of m d] none
      by (auto simp: register_def split: if_splits)
  next
    case (6 m e1) then show ?case using inv_waiter [OF assms(1), of m e1] fresh [of m]
      by (auto simp: register_def split: if_splits)
  next
    case (7 m j d) then show ?case using inv_finished [OF assms(1), of m j d]
      by (auto simp: register_def split: if_splits)
  qed
qed

lemma route_inv:
  assumes "demux_inv x"
  shows "demux_inv (snd (route doc x))"
proof (cases "Option.bind (tk_thread doc) (dx_pending x)")
  case None
  then show ?thesis using assms by (auto simp: route_def split: option.splits)
next
  case (Some n)
  then obtain i where i: "tk_thread doc = Some i" "dx_pending x i = Some n"
    by (auto simp: bind_eq_Some_conv)
  obtain e where e: "dx_exchange x n = Some e" "exchange_id e = i" "dx_sent x n = None"
    using inv_pending [OF assms i(2)] by blast
  have u: "m = n" if "dx_exchange x m = Some e'" "exchange_id e' = i" for m e'
    using inv_unique [OF assms that(1) e(1)] that(2) e(2) by simp
  have r: "snd (route doc x) = x\<lparr>dx_pending := (dx_pending x)(i := None),
      dx_sent := (if receiver_alive (Some e) then (dx_sent x)(n \<mapsto> doc) else dx_sent x)\<rparr>"
    using i e(1) by (simp add: route_def Let_def)
  have q: "j = i" if "dx_pending x j = Some n" for j
    using inv_pending [OF assms that] e by auto
  have w: "receiver_alive (Some e)" if "dx_exchange x m = Some e'" "receiver_alive (Some e')"
    "exchange_id e' = i" for m e'
    using u [OF that(1,3)] that e(1) by simp
  show ?thesis
    unfolding r
  proof (rule demux_invI, goal_cases)
    case (1 n e) then show ?case using inv_exchange_next [OF assms] by simp
  next
    case (2 m d) then show ?case
      using inv_sent_next [OF assms] inv_exchange_next [OF assms e(1)] by (auto split: if_splits)
  next
    case (3 n m e e') then show ?case using inv_unique [OF assms] by simp
  next
    case (4 j m) then show ?case using inv_pending [OF assms, of j m] q by (auto split: if_splits)
  next
    case (5 m d e') then show ?case
      using inv_thread [OF assms, of m d e'] e i(1) by (auto split: if_splits)
  next
    case (6 m e') then show ?case
      using inv_waiter [OF assms, of m e'] w [of m e'] u [of m e'] by (auto split: if_splits)
  next
    case (7 n i d) then show ?case using inv_finished [OF assms] by simp
  qed
qed

lemma set_exchange_inv:
  assumes "demux_inv x" "dx_exchange x n = Some e" "exchange_id e' = exchange_id e"
    and "receiver_alive (Some e') \<Longrightarrow> receiver_alive (Some e)"
    and "dx_pending x (exchange_id e) = Some n \<Longrightarrow> unfinished e'"
    and "\<And>i d. e' = Finished i (Ok d) \<Longrightarrow> tk_thread d = Some i"
  shows "demux_inv (set_exchange n e' x)"
proof -
  have p: "i = exchange_id e" if "dx_pending x i = Some n" for i
    using inv_pending [OF assms(1) that] assms(2) by auto
  show ?thesis
  proof (rule demux_invI, goal_cases)
    case (1 m e1) then show ?case
      using inv_exchange_next [OF assms(1)] assms(2) by (auto simp: set_exchange_def split: if_splits)
  next
    case (2 m d) then show ?case using inv_sent_next [OF assms(1)] by (simp add: set_exchange_def)
  next
    case (3 m1 m2 e1 e2) then show ?case
      using inv_unique [OF assms(1)] assms(2,3) by (auto simp: set_exchange_def split: if_splits)
  next
    case (4 j m) then show ?case
      using inv_pending [OF assms(1), of j m] p [of j] assms(2,3,5) by (auto simp: set_exchange_def)
  next
    case (5 m d e1) then show ?case
      using inv_thread [OF assms(1), of m d] assms(2,3) by (auto simp: set_exchange_def split: if_splits)
  next
    case (6 m e1) then show ?case
      using inv_waiter [OF assms(1), of m] assms(2-4) by (auto simp: set_exchange_def split: if_splits)
  next
    case (7 m i d) then show ?case
      using inv_finished [OF assms(1), of m i d] assms(6) by (auto simp: set_exchange_def split: if_splits)
  qed
qed

lemma abandon_inv:
  assumes "demux_inv x" "dx_exchange x n = Some e" "i = exchange_id e"
    and "exchange_id e' = i" "\<not> unfinished e'" "\<And>j d. e' \<noteq> Finished j (Ok d)"
  shows "demux_inv (set_exchange n e' (abandon i x))"
proof -
  have u: "m = n" if "dx_exchange x m = Some e1" "exchange_id e1 = i" for m e1
    using inv_unique [OF assms(1) that(1) assms(2)] that(2) assms(3) by simp
  have p: "j = i" if "dx_pending x j = Some n" for j
    using inv_pending [OF assms(1) that] assms(2,3) by auto
  have alive: "\<not> receiver_alive (Some e')" using assms(5) by (cases e') auto
  show ?thesis
  proof (rule demux_invI, goal_cases)
    case (1 m e1) then show ?case using inv_exchange_next [OF assms(1)] assms(2)
      by (auto simp: set_exchange_def abandon_def split: if_splits)
  next
    case (2 m d) then show ?case using inv_sent_next [OF assms(1)] by (simp add: set_exchange_def abandon_def)
  next
    case (3 m1 m2 e1 e2) then show ?case using inv_unique [OF assms(1)] assms(2-4)
      by (auto simp: set_exchange_def abandon_def split: if_splits)
  next
    case (4 j m) then show ?case using inv_pending [OF assms(1), of j m] p [of j]
      by (auto simp: set_exchange_def abandon_def split: if_splits)
  next
    case (5 m d e1) then show ?case using inv_thread [OF assms(1), of m d] assms(2-4)
      by (auto simp: set_exchange_def abandon_def split: if_splits)
  next
    case (6 m e1) then show ?case using inv_waiter [OF assms(1), of m e1] u [of m e1] alive
      by (auto simp: set_exchange_def abandon_def split: if_splits)
  next
    case (7 m i d) then show ?case using inv_finished [OF assms(1), of m i d] assms(6)
      by (auto simp: set_exchange_def abandon_def split: if_splits)
  qed
qed

lemma demux_step_inv:
  assumes "demux_step x y" "demux_inv x"
  shows "demux_inv y"
  using assms
proof (cases rule: demux_step.cases)
  case (Receive n i doc)
  have "dx_pending x i \<noteq> Some n" using inv_pending [OF assms(2), of i n] Receive by auto
  moreover have "tk_thread doc = Some i" using inv_thread [OF assms(2)] Receive by fastforce
  ultimately show ?thesis unfolding Receive(1)
    by (intro set_exchange_inv [OF assms(2) Receive(2)]) auto
qed (auto intro!: register_inv route_inv set_exchange_inv abandon_inv assms(2))

text \<open>A reply on its channel is what the exchange ends with, unless its caller drops it.\<close>

definition holds_reply :: "nat \<Rightarrow> string \<Rightarrow> document \<Rightarrow> demux \<Rightarrow> bool" where
  "holds_reply n i doc x \<longleftrightarrow>
     dx_exchange x n = Some (Waiting i) \<and> dx_sent x n = Some doc \<or>
     dx_exchange x n = Some (Finished i (Ok doc)) \<or> dx_exchange x n = Some (Dropped i)"

lemma route_keeps_sent:
  assumes "demux_inv x" "dx_sent x n = Some d"
  shows "dx_sent (snd (route doc x)) n = Some d"
proof -
  have "dx_pending x i \<noteq> Some n" for i using inv_pending [OF assms(1), of i n] assms(2) by auto
  then show ?thesis using assms(2) by (auto simp: route_def Let_def split: option.split)
qed

lemma holds_reply_stable:
  assumes "demux_step x y" "demux_inv x" "holds_reply n i doc x"
  shows "holds_reply n i doc y"
  using assms(1)
proof (cases rule: demux_step.cases)
  case (Register j)
  have "n \<noteq> dx_next x" using inv_exchange_next [OF assms(2), of n] assms(3) by (auto simp: holds_reply_def)
  then show ?thesis using Register assms(3) by (auto simp: holds_reply_def register_def)
next
  case (Inbound doc')
  have "dx_exchange y = dx_exchange x" by (auto simp: Inbound route_def Let_def split: option.split)
  then show ?thesis using assms(3) route_keeps_sent [OF assms(2)] by (auto simp: holds_reply_def Inbound)
next
  case (Closed m j)
  then show ?thesis using assms(3) by (auto simp: holds_reply_def set_exchange_def abandon_def sender_gone_def)
qed (use assms(3) in \<open>auto simp: holds_reply_def set_exchange_def abandon_def\<close>)

lemma demux_reachable_inv: "demux_reachable k t x \<Longrightarrow> demux_inv x"
  by (induction rule: demux_reachable.induct) (auto intro: demux_inv_new demux_step_inv)

text \<open>The operations of the transports are steps, or leave everything as it was.\<close>

lemma transport_operations_step:
  "snd (didcomm_inbound el typ body x) = x \<or> demux_step x (snd (didcomm_inbound el typ body x))"
  "tsp_inbound_frame el unpack packed x = x \<or> demux_step x (tsp_inbound_frame el unpack packed x)"
  "tk_id request \<notin> used_ids x \<Longrightarrow>
     snd (didcomm_begin el request x) = x \<or> demux_step x (snd (didcomm_begin el request x))"
  "tk_id request \<notin> used_ids x \<Longrightarrow>
     snd (tsp_begin el request x) = x \<or> demux_step x (snd (tsp_begin el request x))"
proof -
  show "snd (didcomm_inbound el typ body x) = x \<or> demux_step x (snd (didcomm_inbound el typ body x))"
    "tsp_inbound_frame el unpack packed x = x \<or> demux_step x (tsp_inbound_frame el unpack packed x)"
    using Inbound
    by (simp_all add: didcomm_inbound_def tsp_inbound_frame_def split: result.split prod.split)
  assume "tk_id request \<notin> used_ids x"
  note r = Register [OF this]
  show "snd (didcomm_begin el request x) = x \<or> demux_step x (snd (didcomm_begin el request x))"
    "snd (tsp_begin el request x) = x \<or> demux_step x (snd (tsp_begin el request x))"
    using r by (simp_all add: didcomm_begin_def tsp_begin_def case_prod_beta split: result.split option.split)
qed

end
