(* ===== verification/Client_Link.thy ===== *)
theory Client_Link
  imports Trql_Pending Bindings
begin

text \<open>
  The client and the registry joined: an HTTP client whose server is the HTTP binding of the
  registry, what the two sides rely on of the shared task library (\<open>client_wire_ok\<close>), and the
  transports a registry offers under its flags.  The lemma \<open>authorization_over_https\<close> follows one
  query from the client through the registry and back.
\<close>

section \<open>Over HTTPS\<close>

definition registry_post ::
  "framework \<Rightarrow> wire \<Rightarrow> 's trust_repo \<Rightarrow> 'c cap_store \<Rightarrow> call_env \<Rightarrow> string \<Rightarrow> (document \<Rightarrow> string) \<Rightarrow>
   string \<Rightarrow> string option \<Rightarrow> document \<Rightarrow> ('s, 'c) registry \<Rightarrow>
   (nat \<times> (string, string) result, http_failure) result \<times> ('s, 'c) registry" where
  "registry_post fw wi repo store ce my_vid encode url bearer doc w =
     (case http_trust_task fw wi repo store ce my_vid (encode doc) w of
        (response, w1) \<Rightarrow> (Ok (hr_status response, wi_json_text wi (hr_body response)), w1))"

text \<open>
  The library laws: a request reads back, an outcome the registry sends reads back as a document
  (an error as an error document with its thread), a query payload carries the four identifiers
  and an answer its verdict.
\<close>

definition reads_back :: "wire \<Rightarrow> (string \<Rightarrow> (document, string) result) \<Rightarrow> json \<Rightarrow> document \<Rightarrow> bool" where
  "reads_back wi task j d \<longleftrightarrow> (\<exists>s. wi_json_text wi j = Ok s \<and> task s = Ok d)"

definition client_wire_ok ::
  "client_lib \<Rightarrow> framework \<Rightarrow> wire \<Rightarrow> (document \<Rightarrow> string) \<Rightarrow> (string \<Rightarrow> (document, string) result) \<Rightarrow> bool" where
  "client_wire_ok cl fw wi encode task \<longleftrightarrow>
     (\<forall>s. cl_slug cl (spec_uri s) = s) \<and>
     (\<forall>s. cl_slug cl (spec_uri s @ ''#response'') = s \<and> cl_is_response cl (spec_uri s @ ''#response'')) \<and>
     (\<forall>d. wi_parse_bytes wi (encode d) = Ok d) \<and>
     (\<forall>d. \<exists>j. wi_document_json wi d = Ok j \<and> reads_back wi task j d) \<and>
     (\<forall>e. \<exists>j d. wi_error_json wi e = Ok j \<and> reads_back wi task j d \<and> tk_thread d = er_thread e \<and>
        cl_slug cl (tk_type d) = ERROR_SLUG \<and>
        (\<exists>c ra m. cl_error_payload cl (tk_payload d) = Ok (c, er_retryable e, ra, m))) \<and>
     (\<forall>rq. \<exists>j. cl_request_json cl rq = Ok j \<and> (\<forall>doc. tk_payload doc = j \<longrightarrow>
        (\<exists>p. fw_query_payload fw doc = Ok p \<and> qp_entity p = rq_entity rq \<and>
           qp_authority p = rq_authority rq \<and> qp_action p = rq_action rq \<and> qp_resource p = rq_resource rq))) \<and>
     (\<forall>q v. fw_to_value fw (R_Authorization q) = Ok v \<longrightarrow>
        (\<exists>a. cl_answer cl v = Ok a \<and> qr_answer a = qr_answer q))"

lemma client_wire_okD:
  assumes "client_wire_ok cl fw wi encode task"
  shows cw_slug: "cl_slug cl (spec_uri s) = s"
    and cw_response: "cl_slug cl (spec_uri s @ ''#response'') = s" "cl_is_response cl (spec_uri s @ ''#response'')"
    and cw_request: "wi_parse_bytes wi (encode d) = Ok d"
    and cw_document: "\<exists>j. wi_document_json wi d = Ok j \<and> reads_back wi task j d"
    and cw_error: "\<exists>j d. wi_error_json wi e = Ok j \<and> reads_back wi task j d \<and> tk_thread d = er_thread e \<and>
        cl_slug cl (tk_type d) = ERROR_SLUG \<and>
        (\<exists>c ra m. cl_error_payload cl (tk_payload d) = Ok (c, er_retryable e, ra, m))"
    and cw_query: "\<exists>j. cl_request_json cl rq = Ok j \<and> (\<forall>doc. tk_payload doc = j \<longrightarrow>
        (\<exists>p. fw_query_payload fw doc = Ok p \<and> qp_entity p = rq_entity rq \<and>
           qp_authority p = rq_authority rq \<and> qp_action p = rq_action rq \<and> qp_resource p = rq_resource rq))"
    and cw_answer: "fw_to_value fw (R_Authorization q) = Ok v \<Longrightarrow>
        \<exists>a. cl_answer cl v = Ok a \<and> qr_answer a = qr_answer q"
  using assms unfolding client_wire_ok_def by blast+

text \<open>What the registry sends back over HTTP, as the client's transport sees it.\<close>

definition http_link ::
  "framework \<Rightarrow> wire \<Rightarrow> 's trust_repo \<Rightarrow> 'c cap_store \<Rightarrow> call_env \<Rightarrow> string \<Rightarrow> (document \<Rightarrow> string) \<Rightarrow>
   ('s, 'c) registry https_transport \<Rightarrow> bool" where
  "http_link fw wi repo store ce my_vid encode h \<longleftrightarrow>
     ht_post h = registry_post fw wi repo store ce my_vid encode"

lemma https_reads_document:
  assumes "http_link fw wi repo store ce my_vid encode h"
    and "http_trust_task fw wi repo store ce my_vid (encode doc) w = (rep, w')"
    and "reads_back wi (ht_task h) (hr_body rep) d"
  shows "https_exchange h doc w = (Ok d, w')"
  using assms by (auto simp: https_exchange_def http_link_def registry_post_def reads_back_def)

lemma authorization_error:
  "handle_authorization fw repo nid now doc s = (Err e, s') \<Longrightarrow> \<exists>r. e = fw_reject_with fw doc nid r"
  by (auto simp: handle_authorization_def reject_def respond_def split: result.splits prod.splits)

context trust_repository
begin

lemma serve_authorization_entry:
  assumes "framework_ok fw" "inv s" "map_of disp AUTHORIZATION = Some H_Authorization" "tk_type doc = AUTHORIZATION"
    and "serve_document fw repo store ce disp doc (s, cs) = (out, s', cs')"
  shows "inv s' \<and> view s' = view s \<and> cs' = cs \<and>
    (case out of
       Ok d \<Rightarrow> \<exists>p. fw_query_payload fw doc = Ok p \<and>
         respond fw doc (ce_nid ce) (R_Authorization (authorization_response p (ce_now ce)
           (view s (kq (payload_query p))))) = Ok d
     | Err e \<Rightarrow> \<exists>r. e = fw_reject_with fw doc (ce_nid ce) r)"
proof (cases "dispatch_or_reject fw disp doc (ce_nid ce)")
  case (Ok h)
  have h: "h = H_Authorization" using dispatch_or_reject_Ok [OF assms(1) Ok] assms(3,4) by simp
  have r: "handle_authorization fw repo (ce_nid ce) (ce_now ce) doc s = (out, s')" "cs' = cs"
    using assms(5) Ok h by (auto simp: serve_document_def handle_document_def split: prod.splits)
  show ?thesis
    using authorization_law [OF assms(2) r(1)] authorization_error r
    by (cases out) auto
next
  case (Err x)
  then show ?thesis using assms(2,5)
    by (auto simp: serve_document_def handle_document_def dispatch_or_reject_def
        split: result.splits option.splits)
qed

lemma serve_authorization:
  assumes "framework_ok fw" "inv s" "git_only cs" "cap_in_force sts cs" "tk_type doc = AUTHORIZATION"
    and "serve_document fw repo store ce (cap_query_dispatcher cs) doc (s, cs) = (out, s', cs')"
  shows "inv s'" "view s' = view s" "cs' = cs"
    "case out of
       Ok d \<Rightarrow> \<exists>p. fw_query_payload fw doc = Ok p \<and>
         respond fw doc (ce_nid ce) (R_Authorization (authorization_response p (ce_now ce)
           (view s (kq (payload_query p))))) = Ok d
     | Err e \<Rightarrow> \<exists>r. e = fw_reject_with fw doc (ce_nid ce) r"
proof -
  have d: "cap_query_dispatcher cs =
      compose build_query_dispatcher [(''git-trust'', git_definition)] sts False"
    using assms(3,4) by (simp add: git_only_def cap_in_force_def)
  have e: "map_of (cap_query_dispatcher cs) AUTHORIZATION = Some H_Authorization"
    unfolding d compose_git compose_base
    by (simp add: build_query_dispatcher_def type_uris split: option.splits)
  from serve_authorization_entry [OF assms(1,2) e assms(5,6)]
  show "inv s'" "view s' = view s" "cs' = cs"
    "case out of
       Ok d \<Rightarrow> \<exists>p. fw_query_payload fw doc = Ok p \<and>
         respond fw doc (ce_nid ce) (R_Authorization (authorization_response p (ce_now ce)
           (view s (kq (payload_query p))))) = Ok d
     | Err e \<Rightarrow> \<exists>r. e = fw_reject_with fw doc (ce_nid ce) r"
    by blast+
qed

end

text \<open>A rejection of the registry arrives as a rejection, an answer as the verdict.\<close>

lemma rejection_read:
  assumes "client_wire_ok cl fw wi encode task" "er_thread e = Some i"
  obtains j d where "wi_error_json wi e = Ok j" "reads_back wi task j d" "tk_thread d = Some i"
    "\<exists>c ra m. read_reply cl i slug d = Err (trql_error.Rejected c (er_retryable e) ra m)"
  using cw_error [OF assms(1), of e] assms(2) read_reply_Rejected by metis

lemma rejection_arrives:
  assumes "client_wire_ok cl fw wi encode task" "er_thread e = Some i"
  obtains d where "reads_back wi task (hr_body (http_error_response wi e)) d"
    "\<exists>c ra m. read_reply cl i slug d = Err (trql_error.Rejected c (er_retryable e) ra m)"
proof -
  obtain j d where j: "wi_error_json wi e = Ok j" "reads_back wi task j d"
    "\<exists>c ra m. read_reply cl i slug d = Err (trql_error.Rejected c (er_retryable e) ra m)"
    by (rule rejection_read [OF assms])
  then have "reads_back wi task (hr_body (http_error_response wi e)) d"
    by (simp add: http_error_response_def Let_def unwrap_or_def)
  then show ?thesis using j(3) by (rule that)
qed

definition query_key :: "trqp_query \<Rightarrow> trust_record_query" where
  "query_key q = query_of (tq_entity q) (tq_authority q) (tq_action q) (tq_resource q)"

lemma answer_read:
  assumes "framework_ok fw" "client_wire_ok cl fw wi encode task"
    and "tk_type doc = AUTHORIZATION" "reply_thread doc = i" "cl_request_json cl (request_of q) = Ok (tk_payload doc)"
    and "fw_query_payload fw doc = Ok p"
    and "respond fw doc nid (R_Authorization (authorization_response p now (m (kq (payload_query p))))) = Ok d"
  shows "\<exists>a. read_reply cl i (cl_slug cl AUTHORIZATION) d = Ok a \<and>
    qr_answer a = answer is_authorized (m (kq (query_key q)))"
proof -
  have "payload_query p = query_key q"
    using cw_query [OF assms(2), of "request_of q"] assms(5,6)
    by (fastforce simp: request_of_def payload_query_def query_key_def)
  moreover obtain v where v: "fw_to_value fw (R_Authorization (authorization_response p now
       (m (kq (payload_query p))))) = Ok v" "d = fw_respond_with fw doc nid v"
    using assms(7) by (auto simp: respond_Ok)
  moreover obtain a where a: "cl_answer cl v = Ok a" "qr_answer a = answer is_authorized (m (kq (payload_query p)))"
    using cw_answer [OF assms(2) v(1)] by auto
  moreover have "cl_slug cl AUTHORIZATION = ''registry/authorization''"
    unfolding AUTHORIZATION_def by (rule cw_slug [OF assms(2)])
  then have "read_reply cl i (cl_slug cl AUTHORIZATION) d = Ok a"
    unfolding read_reply_Ok v(2) fw_type [OF assms(1)] fw_payload [OF assms(1)] fw_thread [OF assms(1)] assms(3,4)
    using a(1) by (simp add: ERROR_SLUG_def AUTHORIZATION_def cw_response [OF assms(2)])
  ultimately show ?thesis by auto
qed

section \<open>Transports on offer\<close>

text \<open>What a registry with these flags and this public URL advertises.\<close>

fun registry_offers :: "transport_flags \<Rightarrow> string option \<Rightarrow> transport_kind \<Rightarrow> bool" where
  "registry_offers fl url Tsp = tf_tsp fl"
| "registry_offers fl url Didcomm = tf_didcomm fl"
| "registry_offers fl url Https \<longleftrightarrow> tf_rest fl \<and>
     (case advertised_url url of Some u \<Rightarrow> trim_end_slash u \<noteq> '''' | None \<Rightarrow> False)"

lemma offers_endpoint:
  assumes "mediator \<noteq> ''''"
  shows "endpoint (from_document (did_document_json pc mediator url fl)) k \<noteq> None \<longleftrightarrow> registry_offers fl url k"
  using assms by (cases k) (auto simp: registry_document_read non_empty_def split: option.splits)

end
