(* ===== verification/Audit_Trail.thy ===== *)
theory Audit_Trail
  imports Domain
begin

text \<open>
  The audit trail of the record administration: \<open>audit/model.rs\<close> (entries, the builder) and
  \<open>audit/audit_logger.rs\<close> (the two output formats).  A timestamp is a number, \<open>rfc3339\<close> prints it;
  what is emitted is the text handed to the log.  The lemmas: what the builder puts into an entry
  and what each format shows of it.
\<close>

section \<open>Entries\<close>

datatype audit_operation = OpCreate | OpUpdate | OpDelete | OpRead | OpList

fun audit_operation_str :: "audit_operation \<Rightarrow> string" where
  "audit_operation_str OpCreate = ''CREATE''"
| "audit_operation_str OpUpdate = ''UPDATE''"
| "audit_operation_str OpDelete = ''DELETE''"
| "audit_operation_str OpRead = ''READ''"
| "audit_operation_str OpList = ''LIST''"

datatype audit_status = AuditSuccess | AuditFailure | AuditUnauthorized

fun audit_status_str :: "audit_status \<Rightarrow> string" where
  "audit_status_str AuditSuccess = ''SUCCESS''"
| "audit_status_str AuditFailure = ''FAILURE''"
| "audit_status_str AuditUnauthorized = ''UNAUTHORIZED''"

record audit_resource =
  ar_entity :: "entity_id option"
  ar_authority :: "authority_id option"
  ar_action :: "action option"
  ar_resource :: "resource option"

definition audit_resource_new ::
  "entity_id option \<Rightarrow> authority_id option \<Rightarrow> action option \<Rightarrow> resource option \<Rightarrow> audit_resource" where
  "audit_resource_new e a act r = \<lparr>ar_entity = e, ar_authority = a, ar_action = act, ar_resource = r\<rparr>"

definition audit_resource_from_record :: "trust_record \<Rightarrow> audit_resource" where
  "audit_resource_from_record r =
     audit_resource_new (Some (tr_entity r)) (Some (tr_authority r)) (Some (tr_action r)) (Some (tr_resource r))"

definition audit_resource_empty :: audit_resource where
  "audit_resource_empty = audit_resource_new None None None None"

definition AUDIT_ROLE_ADMIN :: string where "AUDIT_ROLE_ADMIN = ''ADMIN''"

record audit_log =
  al_target :: string
  al_operation :: audit_operation
  al_actor :: string
  al_status :: audit_status
  al_resource :: audit_resource
  al_extra :: "string option"
  al_thread_id :: "string option"
  al_timestamp :: int

definition audit_new :: "int \<Rightarrow> audit_log" where
  "audit_new now = \<lparr>al_target = AUDIT_ROLE_ADMIN, al_operation = OpRead, al_actor = [],
     al_status = AuditSuccess, al_resource = audit_resource_empty, al_extra = None,
     al_thread_id = None, al_timestamp = now\<rparr>"

definition with_operation :: "audit_operation \<Rightarrow> audit_log \<Rightarrow> audit_log" where
  "with_operation operation b = b\<lparr>al_operation := operation\<rparr>"

definition with_actor :: "string \<Rightarrow> audit_log \<Rightarrow> audit_log" where
  "with_actor actor b = b\<lparr>al_actor := actor\<rparr>"

definition with_audit_resource :: "audit_resource \<Rightarrow> audit_log \<Rightarrow> audit_log" where
  "with_audit_resource r b = b\<lparr>al_resource := r\<rparr>"

definition with_thread_id :: "string option \<Rightarrow> audit_log \<Rightarrow> audit_log" where
  "with_thread_id t b = b\<lparr>al_thread_id := t\<rparr>"

definition build_success :: "int \<Rightarrow> audit_log \<Rightarrow> audit_log" where
  "build_success now b = b\<lparr>al_status := AuditSuccess, al_timestamp := now\<rparr>"

definition build_failure :: "string \<Rightarrow> int \<Rightarrow> audit_log \<Rightarrow> audit_log" where
  "build_failure error_message now b =
     b\<lparr>al_status := AuditFailure, al_extra := Some (''audit.error='' @ error_message), al_timestamp := now\<rparr>"

definition build_unauthorized :: "string \<Rightarrow> int \<Rightarrow> audit_log \<Rightarrow> audit_log" where
  "build_unauthorized reason now b =
     b\<lparr>al_status := AuditUnauthorized, al_extra := Some (''audit.reason='' @ reason), al_timestamp := now\<rparr>"

lemmas audit_builder = audit_new_def with_operation_def with_actor_def with_audit_resource_def
  with_thread_id_def build_success_def build_failure_def build_unauthorized_def

section \<open>Output\<close>

definition NA :: string where "NA = ''N/A''"

definition thread_id_or_na :: "string option \<Rightarrow> string" where
  "thread_id_or_na t = (case t of Some s \<Rightarrow> s | None \<Rightarrow> NA)"

definition opt_to_string :: "('a \<Rightarrow> string) \<Rightarrow> 'a option \<Rightarrow> string" where
  "opt_to_string f v = (case v of Some a \<Rightarrow> f a | None \<Rightarrow> NA)"

definition resource_text_fields :: "audit_resource \<Rightarrow> string \<times> string \<times> string \<times> string" where
  "resource_text_fields r = (opt_to_string entity_str (ar_entity r), opt_to_string authority_str (ar_authority r),
     opt_to_string action_str (ar_action r), opt_to_string resource_str (ar_resource r))"

definition resource_json_value :: "audit_resource \<Rightarrow> json" where
  "resource_json_value r =
     jobj [(''entity_id'', JStr (opt_to_string entity_str (ar_entity r))),
       (''authority_id'', JStr (opt_to_string authority_str (ar_authority r))),
       (''action'', JStr (opt_to_string action_str (ar_action r))),
       (''resource'', JStr (opt_to_string resource_str (ar_resource r)))]"

text \<open>
  The JSON format takes the first two parts of \<open>extra\<close> between equality signs; the slice panics
  when there are fewer (\<open>None\<close> here).
\<close>

definition extra_member :: "string option \<Rightarrow> (string \<times> json) list option" where
  "extra_member extra =
     (case extra of
        None \<Rightarrow> Some []
      | Some extra_field \<Rightarrow>
          (let parts = split_char (CHR ''='') extra_field in
           if length parts < 2 then None else Some [(parts ! 0, JStr (parts ! 1))]))"

definition emit_json :: "(int \<Rightarrow> string) \<Rightarrow> audit_log \<Rightarrow> json option" where
  "emit_json rfc3339 a =
     map_option (\<lambda>extra. jobj (
       [(''role'', JStr AUDIT_ROLE_ADMIN), (''actor'', JStr (al_actor a)),
        (''operation'', JStr (audit_operation_str (al_operation a))),
        (''status'', JStr (audit_status_str (al_status a))),
        (''resource'', resource_json_value (al_resource a))] @ extra @
       [(''timestamp'', JStr (rfc3339 (al_timestamp a))),
        (''thread_id'', JStr (thread_id_or_na (al_thread_id a)))]))
     (extra_member (al_extra a))"

definition audit_headline :: "audit_log \<Rightarrow> string" where
  "audit_headline a = AUDIT_ROLE_ADMIN @ '': '' @ audit_operation_str (al_operation a) @
     '' operation by '' @ al_actor a @ '' - ''"

definition text_and_extra :: "audit_log \<Rightarrow> string \<times> (string \<times> string) option" where
  "text_and_extra a =
     (case (al_status a, al_extra a) of
        (AuditSuccess, None) \<Rightarrow> (audit_headline a @ ''SUCCESS'', None)
      | (AuditFailure, Some err) \<Rightarrow> (audit_headline a @ ''FAILURE: '' @ err, Some (''audit.error'', err))
      | (AuditUnauthorized, Some reason) \<Rightarrow>
          (audit_headline a @ ''UNAUTHORIZED: '' @ reason, Some (''audit.reason'', reason))
      | (status, _) \<Rightarrow> (audit_headline a @ audit_status_str status, None))"

definition audit_log_parts :: "(int \<Rightarrow> string) \<Rightarrow> audit_log \<Rightarrow> string list" where
  "audit_log_parts rfc3339 a =
     (case resource_text_fields (al_resource a) of (entity_id, authority_id, act, resource_id) \<Rightarrow>
        [''audit.role='' @ AUDIT_ROLE_ADMIN,
         ''audit.actor='' @ al_actor a,
         ''audit.operation='' @ audit_operation_str (al_operation a),
         ''audit.status='' @ audit_status_str (al_status a),
         ''audit.resource.entity_id='' @ entity_id,
         ''audit.resource.authority_id='' @ authority_id,
         ''audit.resource.action='' @ act,
         ''audit.resource.resource='' @ resource_id,
         ''audit.timestamp='' @ rfc3339 (al_timestamp a),
         ''audit.thread_id='' @ thread_id_or_na (al_thread_id a)])"

definition emit_text :: "(int \<Rightarrow> string) \<Rightarrow> audit_log \<Rightarrow> string" where
  "emit_text rfc3339 a =
     (case text_and_extra a of (text, extra) \<Rightarrow>
        text @ '' | '' @ join_str '' '' (audit_log_parts rfc3339 a @
          (case extra of Some (key, val) \<Rightarrow> [key @ ''='' @ val] | None \<Rightarrow> [])))"

datatype audit_log_format = LogText | LogJson

datatype emitted = EmittedText string | EmittedJson json | EmitPanic

definition audit_emit :: "(int \<Rightarrow> string) \<Rightarrow> audit_log_format \<Rightarrow> audit_log \<Rightarrow> emitted" where
  "audit_emit rfc3339 fmt a =
     (case fmt of
        LogJson \<Rightarrow> (case emit_json rfc3339 a of Some j \<Rightarrow> EmittedJson j | None \<Rightarrow> EmitPanic)
      | LogText \<Rightarrow> EmittedText (emit_text rfc3339 a))"

section \<open>Lemmas\<close>

lemma audit_log_parts_not_Nil [simp]: "audit_log_parts rfc a \<noteq> []"
  by (simp add: audit_log_parts_def split: prod.split)

lemma join_str_snoc: "join_str sep (xs @ [y]) = (if xs = [] then y else join_str sep xs @ sep @ y)"
  by (induction xs rule: induct_list012) auto

text \<open>The extra of a failed or refused operation: the key, and the message up to its first sign.\<close>

lemma extra_of_failure:
  "extra_member (al_extra (build_failure m now b)) =
     Some [(''audit.error'', JStr (takeWhile (\<lambda>c. c \<noteq> CHR ''='') m))]"
  "extra_member (al_extra (build_unauthorized m now b)) =
     Some [(''audit.reason'', JStr (takeWhile (\<lambda>c. c \<noteq> CHR ''='') m))]"
proof -
  have hd: "\<exists>t. split_char (CHR ''='') m = takeWhile (\<lambda>c. c \<noteq> CHR ''='') m # t"
    by (induction m) (auto split: list.splits)
  have s: "split_char (CHR ''='') (''audit.error='' @ m) = ''audit.error'' # split_char (CHR ''='') m"
    "split_char (CHR ''='') (''audit.reason='' @ m) = ''audit.reason'' # split_char (CHR ''='') m"
    using split_char_append [of "CHR ''=''" "''audit.error''" m]
      split_char_append [of "CHR ''=''" "''audit.reason''" m] by simp_all
  show "extra_member (al_extra (build_failure m now b)) =
      Some [(''audit.error'', JStr (takeWhile (\<lambda>c. c \<noteq> CHR ''='') m))]"
    "extra_member (al_extra (build_unauthorized m now b)) =
      Some [(''audit.reason'', JStr (takeWhile (\<lambda>c. c \<noteq> CHR ''='') m))]"
    using hd unfolding extra_member_def build_failure_def build_unauthorized_def
    by (auto simp: Let_def simp del: append.simps split_char.simps simp add: s)
qed

end
