(* ===== verification/Configuration.thy ===== *)
theory Configuration
  imports Did_Document Audit_Trail "HOL-Library.Word"
begin

text \<open>
  Loading the configuration from the environment: \<open>configs/loaders\<close>, \<open>configs/secret_store.rs\<close>,
  \<open>configs/vta.rs\<close>, \<open>configs/server.rs\<close>, \<open>configs/storage.rs\<close>, \<open>configs/didcomm.rs\<close>, and the choice of the
  backend in \<open>storage/factory.rs\<close>.  Files, the secret services and the VTA are parameters; numbers
  are parsed at their width.
\<close>

section \<open>Environment and loaders\<close>

definition required_env :: "environment \<Rightarrow> string \<Rightarrow> (string, string) result" where
  "required_env env name = ok_or (env name) (''Required environment variable '' @ quoted name @ '' is not set'')"

definition env_or :: "environment \<Rightarrow> string \<Rightarrow> string \<Rightarrow> string" where
  "env_or env name dflt = (case env name of Some v \<Rightarrow> v | None \<Rightarrow> dflt)"

record loaders =
  ld_file :: "string \<Rightarrow> (string, string) result"
  ld_aws_secret :: "string \<Rightarrow> (string option, string) result"
  ld_aws_parameter :: "string \<Rightarrow> (string option, string) result"

definition load_file :: "loaders \<Rightarrow> string \<Rightarrow> (string, string) result" where
  "load_file ld path = map_err (\<lambda>e. ''Failed to read file '' @ quoted path @ '': '' @ e) (ld_file ld path)"

definition load_aws_secret :: "loaders \<Rightarrow> string \<Rightarrow> (string, string) result" where
  "load_aws_secret ld name =
     bind_ok (map_err (\<lambda>e. ''Failed to get secret '' @ quoted name @ '': '' @ e) (ld_aws_secret ld name))
       (\<lambda>s. ok_or s (''Secret '' @ quoted name @ '' has no string value''))"

definition load_aws_parameter :: "loaders \<Rightarrow> string \<Rightarrow> (string, string) result" where
  "load_aws_parameter ld name =
     bind_ok (map_err (\<lambda>e. ''Failed to get parameter '' @ quoted name @ '': '' @ e) (ld_aws_parameter ld name))
       (\<lambda>s. ok_or s (''Parameter '' @ quoted name @ '' has no value''))"

definition load_uri :: "loaders \<Rightarrow> string \<Rightarrow> (string, string) result" where
  "load_uri ld input =
     (case strip_prefix ''string://'' input of
        Some content \<Rightarrow> Ok content
      | None \<Rightarrow>
          (case strip_prefix ''file://'' input of
             Some path \<Rightarrow> load_file ld path
           | None \<Rightarrow>
               (case strip_prefix ''aws_secrets://'' input of
                  Some name \<Rightarrow> load_aws_secret ld name
                | None \<Rightarrow>
                    (case strip_prefix ''aws_parameter_store://'' input of
                       Some name \<Rightarrow> load_aws_parameter ld name
                     | None \<Rightarrow> Ok input))))"

section \<open>Numbers\<close>

text \<open>\<open>str::parse\<close> for an unsigned integer below \<open>lim\<close>.\<close>

datatype parse_int_error = ParseEmpty | InvalidDigit | PosOverflow

fun parse_int_error_str :: "parse_int_error \<Rightarrow> string" where
  "parse_int_error_str ParseEmpty = ''cannot parse integer from empty string''"
| "parse_int_error_str InvalidDigit = ''invalid digit found in string''"
| "parse_int_error_str PosOverflow = ''number too large to fit in target type''"

definition digit_value :: "char \<Rightarrow> nat option" where
  "digit_value c = (let n = of_char c in if 48 \<le> n \<and> n \<le> 57 then Some (n - 48) else None)"

fun parse_digits :: "nat \<Rightarrow> nat \<Rightarrow> string \<Rightarrow> (nat, parse_int_error) result" where
  "parse_digits lim acc [] = Ok acc"
| "parse_digits lim acc (c # cs) =
     (case digit_value c of
        None \<Rightarrow> Err InvalidDigit
      | Some d \<Rightarrow> if lim \<le> acc * 10 + d then Err PosOverflow else parse_digits lim (acc * 10 + d) cs)"

definition parse_unsigned :: "nat \<Rightarrow> string \<Rightarrow> (nat, parse_int_error) result" where
  "parse_unsigned lim s =
     (if s = [] then Err ParseEmpty
      else if s = ''+'' \<or> s = ''-'' then Err InvalidDigit
      else case strip_prefix ''+'' s of Some ds \<Rightarrow> parse_digits lim 0 ds | None \<Rightarrow> parse_digits lim 0 s)"

definition parse_word :: "string \<Rightarrow> ('a::len word, parse_int_error) result" where
  "parse_word s = bind_ok (parse_unsigned (2 ^ LENGTH('a)) s) (\<lambda>n. Ok (of_nat n))"

definition parse_or :: "'a::len word \<Rightarrow> string \<Rightarrow> 'a word" where
  "parse_or dflt s = (case parse_word s of Ok w \<Rightarrow> w | Err e \<Rightarrow> dflt)"

section \<open>The secret store\<close>

record secrets_config =
  sc_seed :: "string option"
  sc_aws_secret_name :: "string option"
  sc_aws_region :: "string option"
  sc_gcp_project :: "string option"
  sc_gcp_secret_name :: "string option"
  sc_azure_vault_url :: "string option"
  sc_azure_secret_name :: "string option"
  sc_keyring_service :: string
  sc_vault_addr :: "string option"
  sc_vault_secret_path :: "string option"
  sc_vault_token :: "string option"
  sc_vault_namespace :: "string option"
  sc_k8s_secret_name :: "string option"
  sc_k8s_namespace :: "string option"
  sc_allow_plaintext :: bool

definition env_set :: "environment \<Rightarrow> string \<Rightarrow> string option" where
  "env_set env name = (case env name of Some v \<Rightarrow> if v = [] then None else Some v | None \<Rightarrow> None)"

definition secrets_config_from_env :: "string \<Rightarrow> environment \<Rightarrow> secrets_config" where
  "secrets_config_from_env default_keyring env = \<lparr>
     sc_seed = env_set env ''TR_SECRETS_SEED'',
     sc_aws_secret_name = env_set env ''TR_SECRETS_AWS_SECRET_NAME'',
     sc_aws_region = env_set env ''TR_SECRETS_AWS_REGION'',
     sc_gcp_project = env_set env ''TR_SECRETS_GCP_PROJECT'',
     sc_gcp_secret_name = env_set env ''TR_SECRETS_GCP_SECRET_NAME'',
     sc_azure_vault_url = env_set env ''TR_SECRETS_AZURE_VAULT_URL'',
     sc_azure_secret_name = env_set env ''TR_SECRETS_AZURE_SECRET_NAME'',
     sc_keyring_service = (case env_set env ''TR_SECRETS_KEYRING_SERVICE'' of Some v \<Rightarrow> v | None \<Rightarrow> default_keyring),
     sc_vault_addr = env_set env ''TR_SECRETS_VAULT_ADDR'',
     sc_vault_secret_path = env_set env ''TR_SECRETS_VAULT_SECRET_PATH'',
     sc_vault_token = env_set env ''TR_SECRETS_VAULT_TOKEN'',
     sc_vault_namespace = env_set env ''TR_SECRETS_VAULT_NAMESPACE'',
     sc_k8s_secret_name = env_set env ''TR_SECRETS_K8S_SECRET_NAME'',
     sc_k8s_namespace = env_set env ''TR_SECRETS_K8S_NAMESPACE'',
     sc_allow_plaintext = (env ''TR_SECRETS_ALLOW_PLAINTEXT'' = Some ''true'')\<rparr>"

definition backend_selected :: "secrets_config \<Rightarrow> bool" where
  "backend_selected cfg \<longleftrightarrow>
     sc_seed cfg \<noteq> None \<or> sc_aws_secret_name cfg \<noteq> None \<or> sc_gcp_secret_name cfg \<noteq> None \<or>
     sc_azure_secret_name cfg \<noteq> None \<or> sc_vault_secret_path cfg \<noteq> None \<or> sc_k8s_secret_name cfg \<noteq> None"

definition data_dir :: "environment \<Rightarrow> string" where
  "data_dir env = env_or env ''TR_SECRETS_DATA_DIR'' ''./.trust-registry''"

text \<open>The package behind the backends: opening a store, reading and writing its one blob.\<close>

record ('h, 'k) secret_lib =
  sl_default_keyring :: string
  sl_open :: "secrets_config \<Rightarrow> string \<Rightarrow> ('h, string) result"
  sl_get :: "'h \<Rightarrow> 'k \<Rightarrow> (string option, string) result"
  sl_set :: "'h \<Rightarrow> string \<Rightarrow> 'k \<Rightarrow> (unit, string) result \<times> 'k"
  sl_utf8_error :: "string \<Rightarrow> string"

text \<open>UTF-8 validity of a byte string, as \<open>String::from_utf8\<close> checks it.\<close>

definition utf8_cont :: "nat \<Rightarrow> bool" where
  "utf8_cont b \<longleftrightarrow> 128 \<le> b \<and> b \<le> 191"

fun utf8_ok :: "nat list \<Rightarrow> bool" where
  "utf8_ok [] = True"
| "utf8_ok (a # bs) =
     (if a \<le> 127 then utf8_ok bs
      else case bs of
        b # cs \<Rightarrow>
          if 194 \<le> a \<and> a \<le> 223 then utf8_cont b \<and> utf8_ok cs
          else (case cs of
            c # ds \<Rightarrow>
              if 224 \<le> a \<and> a \<le> 239
              then (if a = 224 then 160 \<le> b \<and> b \<le> 191 else if a = 237 then 128 \<le> b \<and> b \<le> 159 else utf8_cont b) \<and>
                   utf8_cont c \<and> utf8_ok ds
              else (case ds of
                d # es \<Rightarrow>
                  240 \<le> a \<and> a \<le> 244 \<and>
                  (if a = 240 then 144 \<le> b \<and> b \<le> 191 else if a = 244 then 128 \<le> b \<and> b \<le> 143 else utf8_cont b) \<and>
                  utf8_cont c \<and> utf8_cont d \<and> utf8_ok es
              | [] \<Rightarrow> False)
          | [] \<Rightarrow> False)
      | [] \<Rightarrow> False)"

definition write_profile ::
  "('h, 'k) secret_lib \<Rightarrow> secrets_config \<Rightarrow> string \<Rightarrow> string \<Rightarrow> 'k \<Rightarrow> (unit, string) result \<times> 'k" where
  "write_profile sl cfg dir bundle k =
     (case sl_open sl cfg dir of
        Err e \<Rightarrow> (Err (''secret store init: '' @ e), k)
      | Ok h \<Rightarrow> (case sl_set sl h bundle k of
          (res, k1) \<Rightarrow> (map_err (\<lambda>e. ''secret store write: '' @ e) res, k1)))"

definition read_profile ::
  "('h, 'k) secret_lib \<Rightarrow> secrets_config \<Rightarrow> string \<Rightarrow> 'k \<Rightarrow> (string option, string) result" where
  "read_profile sl cfg dir k =
     bind_ok (map_err (\<lambda>e. ''secret store init: '' @ e) (sl_open sl cfg dir)) (\<lambda>h.
     bind_ok (map_err (\<lambda>e. ''secret store read: '' @ e) (sl_get sl h k)) (\<lambda>bytes.
     case bytes of
       Some bs \<Rightarrow> if utf8_ok (map of_char bs) then Ok (Some bs)
                  else Err (''secret store returned non-UTF8 bundle: '' @ sl_utf8_error sl bs)
     | None \<Rightarrow> Ok None))"

definition load_profile_from_secret_store ::
  "('h, 'k) secret_lib \<Rightarrow> environment \<Rightarrow> 'k \<Rightarrow> (string option, string) result" where
  "load_profile_from_secret_store sl env k =
     (let cfg = secrets_config_from_env (sl_default_keyring sl) env in
      if \<not> backend_selected cfg then Ok None else read_profile sl cfg (data_dir env) k)"

section \<open>The VTA\<close>

record 'v vta_config =
  vc_credential :: 'v
  vc_context_id :: string
  vc_url_override :: "string option"

text \<open>
  The SDK: credentials, startup with a cache it may write and read, the secrets of a bundle, a
  client and its rotation call; printing and reading a bundle.
\<close>

record ('v, 'b, 'l, 'k) vta_lib =
  vt_credential :: "string \<Rightarrow> ('v, string) result"
  vt_startup :: "'v vta_config \<Rightarrow> ('b \<Rightarrow> 'k \<Rightarrow> (unit, string) result \<times> 'k) \<Rightarrow>
     ('k \<Rightarrow> ('b option, string) result) \<Rightarrow> 'k \<Rightarrow> (string \<times> 'b, string) result \<times> 'k"
  vt_secrets :: "'b \<Rightarrow> (json, string) result"
  vt_bundle_text :: "'b \<Rightarrow> (string, string) result"
  vt_bundle_parse :: "string \<Rightarrow> ('b, string) result"
  vt_client :: "'v \<Rightarrow> string option \<Rightarrow> ('l, string) result"
  vt_rotate :: "'l \<Rightarrow> string \<Rightarrow> string \<Rightarrow> nat option \<Rightarrow> string option \<Rightarrow> (string \<times> string \<times> string, string) result"
  vt_json_text :: "json \<Rightarrow> string"

definition vta_cache_store ::
  "('v, 'b, 'l, 'k) vta_lib \<Rightarrow> ('h, 'k) secret_lib \<Rightarrow> environment \<Rightarrow> 'b \<Rightarrow> 'k \<Rightarrow> (unit, string) result \<times> 'k" where
  "vta_cache_store vt sl env bundle k =
     (case vt_bundle_text vt bundle of
        Err e \<Rightarrow> (Err e, k)
      | Ok text \<Rightarrow> write_profile sl (secrets_config_from_env (sl_default_keyring sl) env) (data_dir env) text k)"

definition vta_cache_load ::
  "('v, 'b, 'l, 'k) vta_lib \<Rightarrow> ('h, 'k) secret_lib \<Rightarrow> environment \<Rightarrow> 'k \<Rightarrow> ('b option, string) result" where
  "vta_cache_load vt sl env k =
     bind_ok (read_profile sl (secrets_config_from_env (sl_default_keyring sl) env) (data_dir env) k) (\<lambda>text.
     case text of
       Some t \<Rightarrow> bind_ok (vt_bundle_parse vt t) (\<lambda>b. Ok (Some b))
     | None \<Rightarrow> Ok None)"

definition vta_config_from_env ::
  "('v, 'b, 'l, 'k) vta_lib \<Rightarrow> loaders \<Rightarrow> environment \<Rightarrow> ('v vta_config option, string) result" where
  "vta_config_from_env vt ld env =
     (case env ''TR_VTA_CREDENTIAL'' of
        None \<Rightarrow> Ok None
      | Some uri \<Rightarrow>
          bind_ok (ok_or (env ''TR_VTA_CONTEXT_ID'') ''TR_VTA_CREDENTIAL is set but TR_VTA_CONTEXT_ID is missing'') (\<lambda>context_id.
          bind_ok (load_uri ld uri) (\<lambda>text.
          bind_ok (map_err (\<lambda>e. ''invalid TR_VTA_CREDENTIAL bundle: '' @ e) (vt_credential vt text)) (\<lambda>credential.
          Ok (Some \<lparr>vc_credential = credential, vc_context_id = context_id,
                vc_url_override = env ''TR_VTA_URL''\<rparr>)))))"

definition startup_profile_json ::
  "('v, 'b, 'l, 'k) vta_lib \<Rightarrow> ('h, 'k) secret_lib \<Rightarrow> loaders \<Rightarrow> environment \<Rightarrow> 'k \<Rightarrow>
   (string option, string) result \<times> 'k" where
  "startup_profile_json vt sl ld env k =
     (case vta_config_from_env vt ld env of
        Err e \<Rightarrow> (Err e, k)
      | Ok None \<Rightarrow> (Ok None, k)
      | Ok (Some config) \<Rightarrow>
          (case vt_startup vt config (vta_cache_store vt sl env) (vta_cache_load vt sl env) k of
             (Err e, k1) \<Rightarrow> (Err (''VTA startup failed: '' @ e), k1)
           | (Ok (did, bundle), k1) \<Rightarrow>
               (case vt_secrets vt bundle of
                  Err e \<Rightarrow> (Err (''failed to decode VTA secrets bundle: '' @ e), k1)
                | Ok secrets \<Rightarrow>
                    (Ok (Some (vt_json_text vt (jobj [(''alias'', JStr (env_or env ''TR_ALIAS'' ''Trust Registry'')),
                       (''did'', JStr did), (''secrets'', secrets)]))), k1))))"

text \<open>The SCID of a \<open>did:webvh\<close> DID, and the rotation of its keys.\<close>

definition scid_of :: "string \<Rightarrow> string option" where
  "scid_of did =
     (case strip_prefix ''did:webvh:'' did of
        None \<Rightarrow> None
      | Some rest \<Rightarrow> (let s = hd (split_char (CHR '':'') rest) in if s = [] then None else Some s))"

definition vta_rotate_did ::
  "('v, 'b, 'l, 'k) vta_lib \<Rightarrow> loaders \<Rightarrow> environment \<Rightarrow> string \<Rightarrow> nat option \<Rightarrow> string option \<Rightarrow>
   (string \<times> string \<times> string, string) result" where
  "vta_rotate_did vt ld env did pre_rotation_count label =
     bind_ok (ok_or (env ''TR_VTA_CREDENTIAL'') ''VTA is not configured (TR_VTA_CREDENTIAL unset)'') (\<lambda>uri.
     bind_ok (ok_or (env ''TR_VTA_CONTEXT_ID'') ''TR_VTA_CONTEXT_ID is required to rotate the DID'') (\<lambda>context_id.
     bind_ok (ok_or (scid_of did) (''DID '' @ did @ '' is not a did:webvh; cannot rotate its keys'')) (\<lambda>scid.
     bind_ok (load_uri ld uri) (\<lambda>text.
     bind_ok (map_err (\<lambda>e. ''invalid TR_VTA_CREDENTIAL bundle: '' @ e) (vt_credential vt text)) (\<lambda>credential.
     bind_ok (map_err (\<lambda>e. ''VTA authentication failed: '' @ e) (vt_client vt credential (env ''TR_VTA_URL''))) (\<lambda>client.
     map_err (\<lambda>e. ''VTA did:webvh key rotation failed: '' @ e)
       (vt_rotate vt client context_id scid pre_rotation_count label)))))))"

section \<open>Server and storage\<close>

record server_config =
  sv_listen_address :: string
  sv_cors_allowed_origins :: "string list"

definition load_server_config :: "environment \<Rightarrow> server_config" where
  "load_server_config env =
     \<lparr>sv_listen_address = env_or env ''LISTEN_ADDRESS'' ''0.0.0.0:3232'',
      sv_cors_allowed_origins = filter (\<lambda>s. s \<noteq> []) (map trim_str
        (split_char (CHR '','') (case env ''CORS_ALLOWED_ORIGINS'' of Some v \<Rightarrow> v | None \<Rightarrow> [])))\<rparr>"

datatype storage_backend = B_Csv | B_DynamoDb | B_Redis | B_Fjall

record file_config =
  fc_enabled :: bool
  fc_path :: string
  fc_interval :: "64 word"

record ddb_config =
  dbc_enabled :: bool
  dbc_table :: string
  dbc_region :: "string option"
  dbc_profile :: "string option"
  dbc_endpoint :: "string option"

record redis_config =
  rdc_enabled :: bool
  rdc_url :: string

record fjall_config =
  fjc_enabled :: bool
  fjc_path :: string

record storage_config =
  stc_ddb :: ddb_config
  stc_file :: file_config
  stc_redis :: redis_config
  stc_fjall :: fjall_config
  stc_backend :: storage_backend

definition load_storage_backend :: "environment \<Rightarrow> storage_backend" where
  "load_storage_backend env =
     (let s = to_lowercase (env_or env ''TR_STORAGE_BACKEND'' ''csv'') in
      if s = ''dynamodb'' \<or> s = ''ddb'' then B_DynamoDb
      else if s = ''redis'' then B_Redis
      else if s = ''fjall'' then B_Fjall
      else B_Csv)"

definition load_file_config :: "environment \<Rightarrow> (file_config, string) result" where
  "load_file_config env =
     (if load_storage_backend env = B_Csv
      then bind_ok (map_err parse_int_error_str (parse_word (env_or env ''FILE_STORAGE_UPDATE_INTERVAL_SEC'' ''60''))) (\<lambda>w.
           Ok \<lparr>fc_enabled = True, fc_path = env_or env ''FILE_STORAGE_PATH'' ''trust_records.csv'', fc_interval = w\<rparr>)
      else Ok \<lparr>fc_enabled = False, fc_path = [], fc_interval = 0\<rparr>)"

definition load_ddb_config :: "environment \<Rightarrow> (ddb_config, string) result" where
  "load_ddb_config env =
     (if load_storage_backend env = B_DynamoDb
      then bind_ok (required_env env ''DDB_TABLE_NAME'') (\<lambda>table.
           Ok \<lparr>dbc_enabled = True, dbc_table = table,
               dbc_region = Some (env_or env ''AWS_REGION'' ''ap-southeast-1''),
               dbc_profile = env ''AWS_PROFILE'',
               dbc_endpoint = (case env ''AWS_ENDPOINT'' of Some e \<Rightarrow> Some e | None \<Rightarrow> env ''DYNAMODB_ENDPOINT'')\<rparr>)
      else Ok \<lparr>dbc_enabled = False, dbc_table = [], dbc_region = None, dbc_profile = None, dbc_endpoint = None\<rparr>)"

definition load_redis_config :: "environment \<Rightarrow> (redis_config, string) result" where
  "load_redis_config env =
     (if load_storage_backend env = B_Redis
      then bind_ok (required_env env ''REDIS_URL'') (\<lambda>url. Ok \<lparr>rdc_enabled = True, rdc_url = url\<rparr>)
      else Ok \<lparr>rdc_enabled = False, rdc_url = []\<rparr>)"

definition load_fjall_config :: "environment \<Rightarrow> (fjall_config, string) result" where
  "load_fjall_config env =
     (if load_storage_backend env = B_Fjall
      then Ok \<lparr>fjc_enabled = True, fjc_path = env_or env ''TR_FJALL_PATH'' ''./trust_records.fjall''\<rparr>
      else Ok \<lparr>fjc_enabled = False, fjc_path = []\<rparr>)"

definition load_storage_config :: "environment \<Rightarrow> (storage_config, string) result" where
  "load_storage_config env =
     bind_ok (load_ddb_config env) (\<lambda>d.
     bind_ok (load_file_config env) (\<lambda>f.
     bind_ok (load_redis_config env) (\<lambda>r.
     bind_ok (load_fjall_config env) (\<lambda>j.
     Ok \<lparr>stc_ddb = d, stc_file = f, stc_redis = r, stc_fjall = j, stc_backend = load_storage_backend env\<rparr>))))"

text \<open>\<open>DynamoDbStorage::new\<close>: what the SDK's loader is given; a local endpoint gets test credentials.\<close>

record ddb_loader =
  dl_profile_name :: "string option"
  dl_region :: "string option"
  dl_endpoint_url :: "string option"
  dl_test_credentials :: bool

definition ddb_client_loader :: "ddb_config \<Rightarrow> ddb_loader" where
  "ddb_client_loader cfg =
     \<lparr>dl_profile_name = dbc_profile cfg, dl_region = dbc_region cfg, dl_endpoint_url = dbc_endpoint cfg,
      dl_test_credentials = (case dbc_endpoint cfg of Some url \<Rightarrow> contains_str ''local'' url | None \<Rightarrow> False)\<rparr>"

text \<open>The factory; opening a backend is a parameter per backend.\<close>

record 'r openers =
  op_csv :: "string \<Rightarrow> 64 word \<Rightarrow> ('r, string) result"
  op_ddb :: "ddb_config \<Rightarrow> ('r, string) result"
  op_redis :: "string \<Rightarrow> ('r, string) result"
  op_fjall :: "string \<Rightarrow> ('r, string) result"

definition create_repository :: "bool \<Rightarrow> 'r openers \<Rightarrow> storage_config \<Rightarrow> ('r, string) result" where
  "create_repository fjall_built op cfg =
     (case stc_backend cfg of
        B_Csv \<Rightarrow> op_csv op (fc_path (stc_file cfg)) (fc_interval (stc_file cfg))
      | B_DynamoDb \<Rightarrow> op_ddb op (stc_ddb cfg)
      | B_Redis \<Rightarrow> op_redis op (rdc_url (stc_redis cfg))
      | B_Fjall \<Rightarrow>
          if fjall_built then op_fjall op (fjc_path (stc_fjall cfg))
          else Err (''TR_STORAGE_BACKEND=fjall selected but fjall support was not compiled; '' @
                    ''rebuild with --features storage-fjall''))"

section \<open>DIDComm\<close>

definition audit_log_format_from_str :: "string \<Rightarrow> (audit_log_format, string) result" where
  "audit_log_format_from_str s =
     (if to_lowercase s = ''text'' then Ok LogText
      else if to_lowercase s = ''json'' then Ok LogJson
      else Err (''Invalid audit log format: '' @ s))"

fun audit_log_format_str :: "audit_log_format \<Rightarrow> string" where
  "audit_log_format_str LogText = ''text''"
| "audit_log_format_str LogJson = ''json''"

datatype acl_mode = ExplicitAllow | ExplicitDeny

record retry_config =
  rt_max_attempts :: "32 word"
  rt_initial_delay :: "64 word"
  rt_max_delay :: "64 word"

definition retry_default :: retry_config where
  "retry_default = \<lparr>rt_max_attempts = 10, rt_initial_delay = 2, rt_max_delay = 30\<rparr>"

record didcomm_config =
  dm_enabled :: bool
  dm_flags :: transport_flags
  dm_acl_mode :: acl_mode
  dm_profile :: profile_config
  dm_mediator_did :: string
  dm_did_document :: string
  dm_admin_dids :: "string list"
  dm_log_format :: audit_log_format
  dm_retry :: retry_config

text \<open>Everything outside the process the loading reads.\<close>

record ('v, 'b, 'l, 'h, 'k) config_sources =
  so_vta_built :: bool
  so_tsp_built :: bool
  so_env :: environment
  so_loaders :: loaders
  so_vta :: "('v, 'b, 'l, 'k) vta_lib"
  so_secrets :: "('h, 'k) secret_lib"
  so_profile_parse :: "string \<Rightarrow> (profile_config, string) result"
  so_json_text :: "json \<Rightarrow> string"
  so_default_acl :: acl_mode

definition load_profile_from_vta ::
  "('v, 'b, 'l, 'h, 'k) config_sources \<Rightarrow> 'k \<Rightarrow> (string option, string) result \<times> 'k" where
  "load_profile_from_vta x k =
     (if so_vta_built x then startup_profile_json (so_vta x) (so_secrets x) (so_loaders x) (so_env x) k
      else (Ok None, k))"

definition profile_text :: "('v, 'b, 'l, 'h, 'k) config_sources \<Rightarrow> 'k \<Rightarrow> (string, string) result \<times> 'k" where
  "profile_text x k =
     (case load_profile_from_vta x k of
        (Err e, k1) \<Rightarrow> (Err e, k1)
      | (Ok (Some bundle), k1) \<Rightarrow> (Ok bundle, k1)
      | (Ok None, k1) \<Rightarrow>
          (case load_profile_from_secret_store (so_secrets x) (so_env x) k1 of
             Err e \<Rightarrow> (Err e, k1)
           | Ok (Some bundle) \<Rightarrow> (Ok bundle, k1)
           | Ok None \<Rightarrow> (bind_ok (required_env (so_env x) ''PROFILE_CONFIG'') (load_uri (so_loaders x)), k1)))"

definition admin_dids_from_env :: "environment \<Rightarrow> string list" where
  "admin_dids_from_env env =
     map trim_str (split_char (CHR '','') (case env ''ADMIN_DIDS'' of Some v \<Rightarrow> v | None \<Rightarrow> []))"

definition public_url_from_env :: "environment \<Rightarrow> string option" where
  "public_url_from_env env =
     (case map_option trim_str (env ''TR_PUBLIC_URL'') of
        Some u \<Rightarrow> if u = [] then None else Some u
      | None \<Rightarrow> None)"

definition retry_from_env :: "environment \<Rightarrow> retry_config" where
  "retry_from_env env =
     \<lparr>rt_max_attempts = parse_or 10 (env_or env ''DID_CHECK_MAX_ATTEMPTS'' ''10''),
      rt_initial_delay = parse_or 2 (env_or env ''DID_CHECK_INITIAL_DELAY_SECS'' ''2''),
      rt_max_delay = parse_or 20 (env_or env ''DID_CHECK_MAX_DELAY_SECS'' ''20'')\<rparr>"

definition load_didcomm_config ::
  "('v, 'b, 'l, 'h, 'k) config_sources \<Rightarrow> 'k \<Rightarrow> (didcomm_config, string) result \<times> 'k" where
  "load_didcomm_config x k =
     (let env = so_env x in
      case flags_from_env (so_tsp_built x) env of
        Err e \<Rightarrow> (Err e, k)
      | Ok flags \<Rightarrow>
          if \<not> tf_didcomm flags
          then (Ok \<lparr>dm_enabled = False, dm_flags = flags, dm_acl_mode = so_default_acl x,
                   dm_profile = \<lparr>pc_alias = [], pc_did = [], pc_secrets = []\<rparr>, dm_mediator_did = [],
                   dm_did_document = [], dm_admin_dids = [], dm_log_format = LogText,
                   dm_retry = retry_default\<rparr>, k)
          else
            let acl = (if env_or env ''ACL_MODE'' ''ExplicitDeny'' = ''ExplicitAllow'' then ExplicitAllow else ExplicitDeny);
                log_format = (case audit_log_format_from_str (env_or env ''AUDIT_LOG_FORMAT'' ''text'') of
                                Ok f \<Rightarrow> f | Err e \<Rightarrow> LogText)
            in case required_env env ''MEDIATOR_DID'' of
                 Err e \<Rightarrow> (Err e, k)
               | Ok mediator_did \<Rightarrow>
                   (case profile_text x k of
                      (Err e, k1) \<Rightarrow> (Err e, k1)
                    | (Ok text, k1) \<Rightarrow>
                        (bind_ok (so_profile_parse x text) (\<lambda>profile.
                         bind_ok (case public_url_from_env env of Some url \<Rightarrow> validate_public_url url | None \<Rightarrow> Ok ()) (\<lambda>_.
                         bind_ok (case env ''DID_DOCUMENT'' of
                                    Some doc \<Rightarrow> load_uri (so_loaders x) doc
                                  | None \<Rightarrow> Ok (build_did_document (so_json_text x) profile mediator_did
                                                (public_url_from_env env) flags)) (\<lambda>did_document.
                         Ok \<lparr>dm_enabled = True, dm_flags = flags, dm_acl_mode = acl, dm_profile = profile,
                             dm_mediator_did = mediator_did, dm_did_document = did_document,
                             dm_admin_dids = admin_dids_from_env env, dm_log_format = log_format,
                             dm_retry = retry_from_env env\<rparr>))), k1)))"

record registry_config =
  rgc_server :: server_config
  rgc_storage :: storage_config
  rgc_didcomm :: didcomm_config

definition load_registry_config ::
  "('v, 'b, 'l, 'h, 'k) config_sources \<Rightarrow> 'k \<Rightarrow> (registry_config, string) result \<times> 'k" where
  "load_registry_config x k =
     (case load_storage_config (so_env x) of
        Err e \<Rightarrow> (Err e, k)
      | Ok st \<Rightarrow>
          (case load_didcomm_config x k of
             (Err e, k1) \<Rightarrow> (Err e, k1)
           | (Ok dm, k1) \<Rightarrow>
               (Ok \<lparr>rgc_server = load_server_config (so_env x), rgc_storage = st, rgc_didcomm = dm\<rparr>, k1)))"

end
