(* ===== verification/Trqp.thy ===== *)
theory Trqp
  imports Repository_Spec
begin

text \<open>
  The plain TRQP endpoints: \<open>http/handlers/trqp/mod.rs\<close> with the error responses of
  \<open>http/error.rs\<close>.  The JSON extractor of the web framework is a parameter that yields the JSON
  value of the body; reading the members, the query, the merge of the request's context, and the
  response are the code's.  Times are numbers and \<open>rfc3339\<close> prints them.
\<close>

section \<open>Errors\<close>

datatype app_error =
    BadRequest string "json option"
  | NotFound string "json option"
  | Internal string "json option"

definition LAST_WARNING_ERROR_CODE :: nat where "LAST_WARNING_ERROR_CODE = 499"

fun app_error_parts :: "app_error \<Rightarrow> nat \<times> string \<times> string \<times> json option \<times> string" where
  "app_error_parts (BadRequest e d) = (400, ''bad_request'', ''The request missing required fields'', d, e)"
| "app_error_parts (NotFound e d) = (404, ''not_found'', ''The requested resource could not be found'', d, e)"
| "app_error_parts (Internal e d) = (500, ''internal_error'', ''An unexpected error occurred'', d, e)"

datatype log_level = Log_Warn | Log_Error

record trqp_reply =
  rp_status :: nat
  rp_body :: json

text \<open>The response, and the level it is logged at.\<close>

definition app_error_response :: "app_error \<Rightarrow> log_level \<times> trqp_reply" where
  "app_error_response e =
     (case app_error_parts e of (status, title, message, details, internal_error) \<Rightarrow>
        (if status > LAST_WARNING_ERROR_CODE then Log_Error else Log_Warn,
         \<lparr>rp_status = status,
          rp_body = jobj [(''title'', JStr title), (''type'', JStr ''about:blank''),
            (''code'', JNum (NInt (int status)))]\<rparr>))"

section \<open>Input and output\<close>

record input_dto =
  in_ids :: trust_record_ids
  in_context :: "record_context option"

fun de_opt_context :: "json option \<Rightarrow> record_context option" where
  "de_opt_context None = None"
| "de_opt_context (Some JNull) = None"
| "de_opt_context (Some c) = Some (Context c)"

text \<open>A struct with a flattened member is only read from an object.\<close>

fun input_from_json :: "json \<Rightarrow> (input_dto, de_error) result" where
  "input_from_json (JObj m) =
     bind_ok (de_string_field (JObj m) ''entity_id'') (\<lambda>e.
     bind_ok (de_string_field (JObj m) ''authority_id'') (\<lambda>a.
     bind_ok (de_string_field (JObj m) ''action'') (\<lambda>act.
     bind_ok (de_string_field (JObj m) ''resource'') (\<lambda>r.
     Ok \<lparr>in_ids = \<lparr>ids_entity = EntityId e, ids_authority = AuthorityId a, ids_action = Action act,
            ids_resource = Resource r\<rparr>,
         in_context = de_opt_context (map_of m ''context'')\<rparr>))))"
| "input_from_json _ = Err (InvalidType ''struct InputDto'')"

text \<open>The extractor: the JSON value of the body, and the text of a member error.\<close>

record extractor =
  ex_json :: "string \<Rightarrow> (json, string) result"
  ex_data_error :: "de_error \<Rightarrow> string"

definition extract_input :: "extractor \<Rightarrow> string \<Rightarrow> (input_dto, string) result" where
  "extract_input ex body =
     bind_ok (ex_json ex body) (\<lambda>j. map_err (ex_data_error ex) (input_from_json j))"

record output_dto =
  out_record :: trust_record
  out_requested :: string
  out_evaluated :: string
  out_message :: string

text \<open>The flattened record with the three members of the response.\<close>

definition output_json :: "output_dto \<Rightarrow> json" where
  "output_json out =
     (case record_to_json (out_record out) of
        JObj m \<Rightarrow> JObj (bt_insert ''message'' (JStr (out_message out))
                   (bt_insert ''time_evaluated'' (JStr (out_evaluated out))
                   (bt_insert ''time_requested'' (JStr (out_requested out)) m)))
      | j \<Rightarrow> j)"

section \<open>The handlers\<close>

definition authorized_message :: "trust_record \<Rightarrow> string" where
  "authorized_message r = entity_str (tr_entity r) @ '' authorized to '' @ action_str (tr_action r) @
     ''+'' @ resource_str (tr_resource r) @ '' by '' @ authority_str (tr_authority r)"

definition recognized_message :: "trust_record \<Rightarrow> string" where
  "recognized_message r =
     entity_str (tr_entity r) @ '' recognized by '' @ authority_str (tr_authority r)"

definition handle_trqp ::
  "'s trust_repo \<Rightarrow> (input_dto, string) result \<Rightarrow> 's \<Rightarrow> (trust_record, app_error) result \<times> 's" where
  "handle_trqp repo payload s =
     (case payload of
        Err e \<Rightarrow> (Err (BadRequest e (Some (JArr [jobj [(''issue'', JStr e)]]))), s)
      | Ok input \<Rightarrow>
          (case repo_find repo (query_from_ids (in_ids input)) s of
             (Err e, s1) \<Rightarrow> (Err (Internal (repository_error_str e) None), s1)
           | (Ok None, s1) \<Rightarrow> (Err (NotFound ''Trust record not found'' None), s1)
           | (Ok (Some r), s1) \<Rightarrow>
               (Ok (case in_context input of Some c \<Rightarrow> merge_contexts r c | None \<Rightarrow> r), s1)))"

definition handle_trqp_authorization ::
  "(int \<Rightarrow> string) \<Rightarrow> 's trust_repo \<Rightarrow> int \<Rightarrow> int \<Rightarrow> (input_dto, string) result \<Rightarrow> 's \<Rightarrow>
   (output_dto, app_error) result \<times> 's" where
  "handle_trqp_authorization rfc3339 repo requested_at evaluated_at payload s =
     (case handle_trqp repo payload s of
        (Err e, s1) \<Rightarrow> (Err e, s1)
      | (Ok r, s1) \<Rightarrow>
          (let r1 = none_recognized r in
           (Ok \<lparr>out_record = r1, out_requested = rfc3339 requested_at,
                out_evaluated = rfc3339 evaluated_at, out_message = authorized_message r1\<rparr>, s1)))"

definition handle_trqp_recognition ::
  "(int \<Rightarrow> string) \<Rightarrow> 's trust_repo \<Rightarrow> int \<Rightarrow> int \<Rightarrow> (input_dto, string) result \<Rightarrow> 's \<Rightarrow>
   (output_dto, app_error) result \<times> 's" where
  "handle_trqp_recognition rfc3339 repo requested_at evaluated_at payload s =
     (case handle_trqp repo payload s of
        (Err e, s1) \<Rightarrow> (Err e, s1)
      | (Ok r, s1) \<Rightarrow>
          (let r1 = none_authorized r in
           (Ok \<lparr>out_record = r1, out_requested = rfc3339 requested_at,
                out_evaluated = rfc3339 evaluated_at, out_message = recognized_message r1\<rparr>, s1)))"

definition trqp_response :: "(output_dto, app_error) result \<Rightarrow> trqp_reply" where
  "trqp_response res =
     (case res of
        Ok out \<Rightarrow> \<lparr>rp_status = 200, rp_body = output_json out\<rparr>
      | Err e \<Rightarrow> snd (app_error_response e))"

text \<open>\<open>/.well-known/did.json\<close>: the configured document, an empty object if it does not parse.\<close>

definition handle_did_json :: "(string \<Rightarrow> (json, string) result) \<Rightarrow> string \<Rightarrow> trqp_reply" where
  "handle_did_json from_str did_doc =
     \<lparr>rp_status = 200, rp_body = (case from_str did_doc of Ok v \<Rightarrow> v | Err e \<Rightarrow> jobj [])\<rparr>"

section \<open>Routes\<close>

datatype route_target = T_Authorization | T_Recognition | T_Trust_Tasks | T_Did_Json

definition all_handlers :: "((string \<times> string) \<times> route_target) list" where
  "all_handlers =
     [((''POST'', ''/authorization''), T_Authorization), ((''POST'', ''/recognition''), T_Recognition),
      ((''POST'', ''/trust-tasks''), T_Trust_Tasks), ((''GET'', ''/.well-known/did.json''), T_Did_Json)]"

definition application_routes :: "string \<Rightarrow> ((string \<times> string) \<times> route_target) list" where
  "application_routes api_prefix =
     (if api_prefix = '''' \<or> api_prefix = ''/'' then all_handlers
      else map (\<lambda>((meth, path), t). ((meth, api_prefix @ path), t)) all_handlers)"

section \<open>Lemmas\<close>

lemma output_json_get:
  "json_get (output_json out) k =
     (if k = ''message'' then Some (JStr (out_message out))
      else if k = ''time_evaluated'' then Some (JStr (out_evaluated out))
      else if k = ''time_requested'' then Some (JStr (out_requested out))
      else json_get (record_to_json (out_record out)) k)"
proof -
  obtain m where "record_to_json (out_record out) = JObj m" using record_to_json_obj by blast
  then show ?thesis by (simp add: output_json_def)
qed

lemma app_error_status: "rp_status (snd (app_error_response e)) = fst (app_error_parts e)"
  by (cases e) (simp_all add: app_error_response_def)

context trust_repository
begin

lemma trqp_law:
  assumes "inv s" "handle_trqp repo payload s = (res, s')"
  shows "inv s'" "view s' = view s"
    and "payload = Ok input \<Longrightarrow> res = Ok r \<Longrightarrow>
      \<exists>r0. view s (kq (query_from_ids (in_ids input))) = Some r0 \<and>
        r = (case in_context input of Some c \<Rightarrow> merge_contexts r0 c | None \<Rightarrow> r0)"
    and "payload = Ok input \<Longrightarrow> res = Err (NotFound m d) \<Longrightarrow> view s (kq (query_from_ids (in_ids input))) = None"
proof -
  have *: "inv s' \<and> view s' = view s \<and>
      (payload = Ok input \<longrightarrow> res = Ok r \<longrightarrow> (\<exists>r0. view s (kq (query_from_ids (in_ids input))) = Some r0 \<and>
        r = (case in_context input of Some c \<Rightarrow> merge_contexts r0 c | None \<Rightarrow> r0))) \<and>
      (payload = Ok input \<longrightarrow> res = Err (NotFound m d) \<longrightarrow> view s (kq (query_from_ids (in_ids input))) = None)"
  proof (cases payload)
    case (Ok i)
    obtain f s1 where f: "repo_find repo (query_from_ids (in_ids i)) s = (f, s1)" by fastforce
    note l = find_law [OF assms(1) f]
    show ?thesis using assms(2) Ok f l
      by (auto simp: handle_trqp_def split: result.splits option.splits)
  qed (use assms in \<open>auto simp: handle_trqp_def\<close>)
  then show "inv s'" "view s' = view s"
    "payload = Ok input \<Longrightarrow> res = Ok r \<Longrightarrow>
      \<exists>r0. view s (kq (query_from_ids (in_ids input))) = Some r0 \<and>
        r = (case in_context input of Some c \<Rightarrow> merge_contexts r0 c | None \<Rightarrow> r0)"
    "payload = Ok input \<Longrightarrow> res = Err (NotFound m d) \<Longrightarrow> view s (kq (query_from_ids (in_ids input))) = None"
    by blast+
qed

end

end
