(* ===== verification/Served_Document.thy ===== *)
theory Served_Document
  imports Configuration Trqp Trql_Discovery
begin

text \<open>
  The DID document a started registry serves at \<open>/.well-known/did.json\<close>
  (\<open>http/handlers/wellknown/did_json.rs\<close>) from the configuration \<open>configs/didcomm.rs\<close> loads: with
  DIDComm on and no document given by \<open>DID_DOCUMENT\<close> the one it builds, with DIDComm off an empty
  object.  The JSON library's printer and parser are parameters, with the law that a printed value
  is read back and that nothing is read from an empty text.
\<close>

definition json_text_law :: "(json \<Rightarrow> string) \<Rightarrow> (string \<Rightarrow> (json, string) result) \<Rightarrow> bool" where
  "json_text_law to_string from_str \<longleftrightarrow> (\<forall>j. from_str (to_string j) = Ok j) \<and> (\<exists>e. from_str [] = Err e)"

definition served_document :: "(string \<Rightarrow> (json, string) result) \<Rightarrow> didcomm_config \<Rightarrow> json" where
  "served_document from_str cfg = rp_body (handle_did_json from_str (dm_did_document cfg))"

lemma didcomm_config_flags:
  assumes "load_didcomm_config x k = (Ok cfg, k')"
  shows "flags_from_env (so_tsp_built x) (so_env x) = Ok (dm_flags cfg)" "dm_enabled cfg \<longleftrightarrow> tf_didcomm (dm_flags cfg)"
  using assms
  by (auto simp: load_didcomm_config_def Let_def bind_ok_eq_Ok split: result.splits if_splits prod.splits)

lemma served_document_cases:
  assumes "load_didcomm_config x k = (Ok cfg, k')" "so_env x ''DID_DOCUMENT'' = None"
    and "json_text_law (so_json_text x) from_str"
  shows "served_document from_str cfg =
    (if dm_enabled cfg
     then did_document_json (dm_profile cfg) (dm_mediator_did cfg) (public_url_from_env (so_env x)) (dm_flags cfg)
     else JObj [])"
proof -
  have "dm_did_document cfg = (if dm_enabled cfg
      then build_did_document (so_json_text x) (dm_profile cfg) (dm_mediator_did cfg) (public_url_from_env (so_env x)) (dm_flags cfg)
      else [])"
    using assms(1,2)
    by (auto simp: load_didcomm_config_def Let_def bind_ok_eq_Ok split: result.splits if_splits prod.splits)
  then show ?thesis using assms(3)
    by (auto simp: served_document_def handle_did_json_def json_text_law_def build_did_document_def jobj_def bt_of_def)
qed

text \<open>What a client reads of it.\<close>

lemma served_document_read:
  assumes "load_didcomm_config x k = (Ok cfg, k')" "so_env x ''DID_DOCUMENT'' = None"
    and "json_text_law (so_json_text x) from_str"
  shows "from_document (served_document from_str cfg) =
    (if dm_enabled cfg
     then from_document (did_document_json (dm_profile cfg) (dm_mediator_did cfg) (public_url_from_env (so_env x)) (dm_flags cfg))
     else no_capabilities)"
  by (simp add: served_document_cases [OF assms] from_document_def)

section \<open>A configuration to load\<close>

definition coded_text :: "json \<Rightarrow> string" where
  "coded_text j = CHR ''j'' # unary_enc j"

definition read_coded :: "string \<Rightarrow> (json, string) result" where
  "read_coded s = (case s of [] \<Rightarrow> Err ''EOF'' | c # t \<Rightarrow> Ok (unary_dec t))"

lemma coded_text_law: "json_text_law coded_text read_coded"
  by (simp add: json_text_law_def coded_text_def read_coded_def)

definition sample_profile :: profile_config where
  "sample_profile = \<lparr>pc_alias = ''tr'', pc_did = ''did:web:tr'', pc_secrets = [MaterialJwk
     \<lparr>jk_params = OKP_Params ''Ed25519'' ''x'' (Some ''private''), jk_key_id = None\<rparr>]\<rparr>"

text \<open>A build with TSP and no VTA, its profile in a file.\<close>

definition env_sources :: "environment \<Rightarrow> (unit, unit, unit, unit, unit) config_sources" where
  "env_sources env = \<lparr>so_vta_built = False, so_tsp_built = True, so_env = env,
     so_loaders = \<lparr>ld_file = Ok, ld_aws_secret = (\<lambda>s. Ok None), ld_aws_parameter = (\<lambda>s. Ok None)\<rparr>,
     so_vta = \<lparr>vt_credential = (\<lambda>t. Err ''none''), vt_startup = (\<lambda>c st ld k. (Err ''none'', k)), vt_secrets = (\<lambda>b. Err ''none''),
       vt_bundle_text = (\<lambda>b. Err ''none''), vt_bundle_parse = (\<lambda>t. Err ''none''), vt_client = (\<lambda>c u. Err ''none''),
       vt_rotate = (\<lambda>l c s n t. Err ''none''), vt_json_text = (\<lambda>j. [])\<rparr>,
     so_secrets = \<lparr>sl_default_keyring = ''keyring'', sl_open = (\<lambda>c d. Ok ()),
       sl_get = (\<lambda>h k. Ok None), sl_set = (\<lambda>h b k. (Ok (), k)), sl_utf8_error = (\<lambda>s. s)\<rparr>,
     so_profile_parse = (\<lambda>t. Ok sample_profile), so_json_text = coded_text, so_default_acl = ExplicitDeny\<rparr>"

definition served_env :: environment where
  "served_env = [''TR_PUBLIC_URL'' \<mapsto> ''https://tr.example/trqp/'', ''ENABLE_TSP'' \<mapsto> '' True '',
     ''MEDIATOR_DID'' \<mapsto> ''did:web:mediator'', ''PROFILE_CONFIG'' \<mapsto> ''file://profile.json'']"

definition rest_only_env :: environment where
  "rest_only_env = [''TR_PUBLIC_URL'' \<mapsto> ''https://tr.example/trqp/'', ''ENABLE_DIDCOMM'' \<mapsto> ''false'']"

lemma env_sources_simps [simp]:
  "so_env (env_sources env) = env" "so_tsp_built (env_sources env) = True" "so_json_text (env_sources env) = coded_text"
  "so_profile_parse (env_sources env) t = Ok sample_profile"
  by (simp_all add: env_sources_def)

lemma served_env_reads:
  "public_url_from_env served_env = Some ''https://tr.example/trqp/''" "served_env ''DID_DOCUMENT'' = None"
  "flags_from_env True served_env = Ok \<lparr>tf_rest = True, tf_didcomm = True, tf_tsp = True\<rparr>"
  by (code_simp, simp add: served_env_def, code_simp)

lemma rest_only_reads:
  "public_url_from_env rest_only_env = Some ''https://tr.example/trqp/''" "rest_only_env ''DID_DOCUMENT'' = None"
  "flags_from_env True rest_only_env = Ok \<lparr>tf_rest = True, tf_didcomm = False, tf_tsp = False\<rparr>"
  by (code_simp, simp add: rest_only_env_def, code_simp)

lemma served_env_loads:
  obtains cfg k' where "load_didcomm_config (env_sources served_env) () = (Ok cfg, k')" "dm_enabled cfg"
    "dm_mediator_did cfg = ''did:web:mediator''" "dm_flags cfg = \<lparr>tf_rest = True, tf_didcomm = True, tf_tsp = True\<rparr>"
    "dm_profile cfg = sample_profile"
proof -
  have p: "profile_text (env_sources served_env) () = (Ok ''profile.json'', ())" by code_simp
  have v: "validate_public_url ''https://tr.example/trqp/'' = Ok ()"
    by (simp add: validate_public_url_def starts_with_def)
  have m: "served_env ''MEDIATOR_DID'' = Some ''did:web:mediator''" by (simp add: served_env_def)
  have "\<exists>cfg. load_didcomm_config (env_sources served_env) () = (Ok cfg, ()) \<and> dm_enabled cfg \<and>
      dm_mediator_did cfg = ''did:web:mediator'' \<and> dm_flags cfg = \<lparr>tf_rest = True, tf_didcomm = True, tf_tsp = True\<rparr> \<and>
      dm_profile cfg = sample_profile"
    by (simp add: load_didcomm_config_def served_env_reads p v m Let_def required_env_def)
  then show thesis using that by blast
qed

lemma rest_only_loads:
  obtains cfg k' where "load_didcomm_config (env_sources rest_only_env) () = (Ok cfg, k')" "\<not> dm_enabled cfg"
  by (simp add: load_didcomm_config_def rest_only_reads Let_def)

end
