(* ===== verification/Client_Properties.thy ===== *)
theory Client_Properties
  imports Client_Link Samples Served_Document
begin

text \<open>
  Properties of the published DID document, of transport discovery and of the query client: what
  the registry advertises and the client selects, what a query over HTTPS answers, and how
  replies find their waiters.
\<close>

section \<open>A query over HTTPS\<close>

text \<open>C21: A client that asks a registry over HTTPS whether an entity is authorised gets the verdict
  of the record the registry has for the four identifiers (no when there is none), or a rejection
  the registry sent; never a contract violation.  The registry is left as it was.\<close>

theorem client_reads_registry_records:
  assumes "trust_repository repo atomic kr kq view good" "framework_ok fw"
    and "good s" "git_only cs" "cap_in_force sts cs"
    and "client_wire_ok cl fw wi encode (ht_task h)" "http_link fw wi repo store ce my_vid encode h"
    and "authorization cl (client_new (https_exchange h) did) uuid now q (s, cs) = (res, s', cs')"
  shows "good s' \<and> view s' = view s \<and> cs' = cs \<and>
    (case res of
       Ok a \<Rightarrow> qr_answer a = answer is_authorized
         (view s (kq (query_of (tq_entity q) (tq_authority q) (tq_action q) (tq_resource q))))
     | Err e \<Rightarrow> \<exists>c r ra m. e = trql_error.Rejected c r ra m)"
proof -
  let ?c = "client_new (https_exchange h) did"
  obtain j where j: "cl_request_json cl (request_of q) = Ok j"
    using cw_query [OF assms(6), of "request_of q"] by blast
  define doc where "doc = request_document ?c (new_task_id uuid) now AUTHORIZATION j"
  have doc: "tk_type doc = AUTHORIZATION" "reply_thread doc = new_task_id uuid"
    "cl_request_json cl (request_of q) = Ok (tk_payload doc)"
    by (simp_all add: doc_def request_document_def reply_thread_def j)
  obtain rep s1 cs1 where p: "http_trust_task fw wi repo store ce my_vid (encode doc) (s, cs) = (rep, s1, cs1)"
    by (metis prod.exhaust)
  have res: "res = read_reply cl (new_task_id uuid) (cl_slug cl AUTHORIZATION) d \<and> (s', cs') = (s1, cs1)"
    if "reads_back wi (ht_task h) (hr_body rep) d" for d
    using assms(8) j(1) https_reads_document [OF assms(7) p that]
    by (simp add: authorization_def send_query_def Let_def client_new_def doc_def request_document_def)
  have rejected: "\<exists>c r ra m. res = Err (trql_error.Rejected c r ra m) \<and> (s', cs') = (s1, cs1)"
    if "rep = http_error_response wi (fw_reject_with fw doc (ce_nid ce) r)" for r
    using rejection_arrives [OF assms(6) fw_error_thread [OF assms(2), of doc "ce_nid ce" r],
        where slug = "cl_slug cl AUTHORIZATION"] res doc(2) that by (metis (full_types))
  obtain out s2 cs2 where sv:
    "serve_document fw repo store ce (cap_query_dispatcher cs) doc (s, cs) = (out, s2, cs2)"
    by (metis prod.exhaust)
  note sa = trust_repository.serve_authorization [OF assms(1,2,3,4,5) doc(1) sv]
  have parse: "wi_parse_bytes wi (encode doc) = Ok doc" by (rule cw_request [OF assms(6)])
  consider (early) r where "rep = http_error_response wi (fw_reject_with fw doc (ce_nid ce) r)" "(s1, cs1) = (s, cs)"
    | (err) e where "out = Err e" "rep = http_error_response wi e" "(s1, cs1) = (s2, cs2)"
    | (ok) d where "out = Ok d" "hr_body rep = unwrap_or (JObj []) (wi_document_json wi d)" "(s1, cs1) = (s2, cs2)"
    using p sv parse by (fastforce simp: http_trust_task_def split: result.splits)
  then show ?thesis
  proof cases
    case early
    then show ?thesis using rejected [OF early(1)] assms(3) by auto
  next
    case err
    then show ?thesis using rejected sa by fastforce
  next
    case ok
    obtain jd where jd: "wi_document_json wi d = Ok jd" "reads_back wi (ht_task h) jd d"
      using cw_document [OF assms(6)] by blast
    have r: "res = read_reply cl (new_task_id uuid) (cl_slug cl AUTHORIZATION) d" "(s', cs') = (s2, cs2)"
      using res [of d] ok jd by (simp_all add: unwrap_or_def)
    obtain p where q: "fw_query_payload fw doc = Ok p"
      "respond fw doc (ce_nid ce) (R_Authorization (authorization_response p (ce_now ce)
         (view s (kq (payload_query p))))) = Ok d"
      using sa(4) ok(1) by auto
    from answer_read [where m = "view s" and kq = kq, OF assms(2,6) doc q] sa(1-3) r show ?thesis by (auto simp: query_key_def)
  qed
qed

text \<open>A wire in which texts are codes of the documents.\<close>

definition doc_tuple :: "document \<Rightarrow> string \<times> string \<times> string option \<times> string option \<times> string option \<times>
    json \<times> json option \<times> int option" where
  "doc_tuple d = (tk_id d, tk_type d, tk_thread d, tk_issuer d, tk_recipient d, tk_payload d, tk_proof d, tk_issued d)"

definition tuple_doc :: "string \<times> string \<times> string option \<times> string option \<times> string option \<times>
    json \<times> json option \<times> int option \<Rightarrow> document" where
  "tuple_doc t = (case t of (i, ty, th, is, rc, p, pr, at) \<Rightarrow>
     \<lparr>tk_id = i, tk_type = ty, tk_thread = th, tk_issuer = is, tk_recipient = rc, tk_payload = p,
      tk_proof = pr, tk_issued = at\<rparr>)"

definition code_doc :: "document \<Rightarrow> string" where
  "code_doc d = unary_enc (doc_tuple d)"

definition read_doc :: "string \<Rightarrow> (document, string) result" where
  "read_doc s = Ok (tuple_doc (unary_dec s))"

lemma read_code_doc [simp]: "read_doc (code_doc d) = Ok d"
  by (simp add: read_doc_def code_doc_def tuple_doc_def doc_tuple_def)

definition error_doc :: "error_response \<Rightarrow> document" where
  "error_doc e = \<lparr>tk_id = er_id e, tk_type = spec_uri ERROR_SLUG, tk_thread = er_thread e, tk_issuer = None,
     tk_recipient = er_recipient e, tk_payload = JBool (er_retryable e), tk_proof = None, tk_issued = None\<rparr>"

definition coded_wire :: wire where
  "coded_wire = sample_wire\<lparr>wi_parse_bytes := read_doc, wi_document_json := (\<lambda>d. Ok (JStr (code_doc d))),
     wi_error_json := (\<lambda>e. Ok (JStr (code_doc (error_doc e)))),
     wi_json_text := (\<lambda>j. ok_or (as_str j) ''not a code'')\<rparr>"

definition response_slug :: "string \<Rightarrow> string" where
  "response_slug u = sample_slug (if ends_with ''#response'' u then take (length u - 9) u else u)"

definition answer_of :: "json \<Rightarrow> (query_response, string) result" where
  "answer_of j =
     (case Option.bind (json_get j ''authorized'') as_bool of
        Some b \<Rightarrow> Ok \<lparr>qr_entity = [], qr_authority = [], qr_action = [], qr_resource = [], qr_answer = b,
          qr_evaluated = 0, qr_requested = None, qr_message = None\<rparr>
      | None \<Rightarrow> Err ''no answer'')"

definition sample_lib :: client_lib where
  "sample_lib = \<lparr>cl_slug = response_slug, cl_is_response = ends_with ''#response'',
     cl_request_json = (\<lambda>rq. Ok (JObj [(''action'', JStr (rq_action rq)), (''authority_id'', JStr (rq_authority rq)),
       (''entity_id'', JStr (rq_entity rq)), (''resource'', JStr (rq_resource rq))])),
     cl_error_payload = (\<lambda>j. Ok (''code'', j = JBool True, None, None)),
     cl_answer = answer_of, cl_debug = (\<lambda>t. ''other'')\<rparr>"

lemma ends_with_append [simp]: "ends_with p (s @ p)"
  by (simp add: ends_with_def)

lemma response_slug_simps [simp]:
  "response_slug (spec_uri s) = s" "response_slug (spec_uri s @ ''#response'') = s"
proof -
  have "\<not> ends_with ''#response'' (spec_uri s)"
    by (simp add: ends_with_def starts_with_def spec_uri_def)
  then show "response_slug (spec_uri s) = s" by (simp add: response_slug_def sample_slug_uri)
  have "take (length (spec_uri s @ ''#response'') - 9) (spec_uri s @ ''#response'') = spec_uri s" by simp
  then show "response_slug (spec_uri s @ ''#response'') = s"
    unfolding response_slug_def by (simp only: ends_with_append if_True sample_slug_uri)
qed

lemma coded_wire_ok: "client_wire_ok sample_lib sample_framework coded_wire code_doc read_doc"
  unfolding client_wire_ok_def
proof (intro conjI allI)
  fix s d e rq q v
  show "cl_slug sample_lib (spec_uri s) = s" by (simp add: sample_lib_def)
  show "cl_slug sample_lib (spec_uri s @ ''#response'') = s"
    "cl_is_response sample_lib (spec_uri s @ ''#response'')"
    unfolding sample_lib_def client_lib.select_convs by (rule response_slug_simps ends_with_append)+
  show "wi_parse_bytes coded_wire (code_doc d) = Ok d" by (simp add: coded_wire_def)
  show "\<exists>j. wi_document_json coded_wire d = Ok j \<and> reads_back coded_wire read_doc j d"
    by (simp add: coded_wire_def reads_back_def)
  show "\<exists>j d. wi_error_json coded_wire e = Ok j \<and> reads_back coded_wire read_doc j d \<and>
      tk_thread d = er_thread e \<and> cl_slug sample_lib (tk_type d) = ERROR_SLUG \<and>
      (\<exists>c ra m. cl_error_payload sample_lib (tk_payload d) = Ok (c, er_retryable e, ra, m))"
    by (rule exI [of _ "JStr (code_doc (error_doc e))"], rule exI [of _ "error_doc e"])
      (simp add: coded_wire_def reads_back_def sample_lib_def error_doc_def)
  show "\<exists>j. cl_request_json sample_lib rq = Ok j \<and> (\<forall>doc. tk_payload doc = j \<longrightarrow>
      (\<exists>p. fw_query_payload sample_framework doc = Ok p \<and> qp_entity p = rq_entity rq \<and>
         qp_authority p = rq_authority rq \<and> qp_action p = rq_action rq \<and> qp_resource p = rq_resource rq))"
    by (simp add: sample_lib_def sample_framework_def sample_query_def need_def get_str_def)
  show "fw_to_value sample_framework (R_Authorization q) = Ok v \<longrightarrow>
      (\<exists>a. cl_answer sample_lib v = Ok a \<and> qr_answer a = qr_answer q)"
    by (auto simp: sample_framework_def sample_lib_def answer_of_def)
qed

definition sample_link :: "(local_storage, cap_states) registry https_transport" where
  "sample_link = \<lparr>ht_post = registry_post sample_framework coded_wire local_repo memory_cap_store sample_call
     ''did:registry'' code_doc, ht_task = read_doc, ht_status_str = show_nat, ht_lossy = (\<lambda>s. s),
     ht_endpoint = ''https://registry.example/trust-tasks'', ht_bearer_token = None, ht_timeout = 30\<rparr>"

theorem client_reads_registry_records_witness:
  "let r = authorization sample_lib (client_new (https_exchange sample_link) ''did:registry'') ''1'' 5
       (trqp_query_new ''did:e'' ''did:a'' ''sign'' ''repo'') (local_new, cap_set_of []) in
   local_view (fst (snd r)) = local_view local_new \<and>
   (case fst r of Ok a \<Rightarrow> \<not> qr_answer a | Err e \<Rightarrow> \<exists>c r ra m. e = trql_error.Rejected c r ra m)"
proof -
  obtain res s' cs' where r: "authorization sample_lib (client_new (https_exchange sample_link) ''did:registry'')
      ''1'' 5 (trqp_query_new ''did:e'' ''did:a'' ''sign'' ''repo'') (local_new, cap_set_of []) = (res, s', cs')"
    by (metis prod.exhaust)
  have t: "ht_task sample_link = read_doc" by (simp add: sample_link_def)
  have l: "http_link sample_framework coded_wire local_repo memory_cap_store sample_call ''did:registry'' code_doc sample_link"
    by (simp add: http_link_def sample_link_def)
  have v: "local_view local_new k = None" for k by (simp add: local_view_def local_new_def)
  show ?thesis
    using client_reads_registry_records [OF local.trust_repository_axioms sample_framework_ok local_new_inv(1)
        cap_set_of_simps(1,2) coded_wire_ok [folded t] l r]
    by (simp add: r v answer_def split: result.splits)
qed

section \<open>Discovery\<close>

text \<open>C23: A client that reads the DID document served by a registry that started with DIDComm on and
  without a document of its own (\<open>DID_DOCUMENT\<close>) selects the most preferred transport that both
  sides speak, one the registry runs, with the mediator or the public URL as its endpoint; it finds
  none only when there is none, which takes a client without DIDComm, and then it names what both
  sides offer.  A registry that started with DIDComm off serves an empty document: the client
  finds no transport at all, although the registry answers HTTP requests.\<close>

theorem client_reaches_registry:
  assumes "load_didcomm_config x k = (Ok cfg, k')" "so_env x ''DID_DOCUMENT'' = None"
    and "json_text_law (so_json_text x) from_str" "dm_enabled cfg \<longrightarrow> dm_mediator_did cfg \<noteq> []"
    and "select_transport (from_document (served_document from_str cfg)) ours = res"
    and "fl = dm_flags cfg" "url = public_url_from_env (so_env x)"
  shows "if dm_enabled cfg
    then (case res of
      Ok ch \<Rightarrow> tc_kind ch \<in> set ours \<and> registry_offers fl url (tc_kind ch) \<and>
        (\<forall>kd \<in> set ours. registry_offers fl url kd \<longrightarrow> kd \<le> tc_kind ch) \<and>
        (tc_kind ch = Tsp \<longrightarrow> so_tsp_built x) \<and>
        Some (tc_endpoint ch) = (if tc_kind ch = Https then map_option trim_end_slash (advertised_url url)
                                 else Some (dm_mediator_did cfg))
    | Err e \<Rightarrow> Didcomm \<notin> set ours \<and> (\<forall>kd \<in> set ours. \<not> registry_offers fl url kd) \<and>
        (\<exists>theirs. e = NoMatchingTransport ours theirs \<and> (\<forall>kd. kd \<in> set theirs \<longleftrightarrow> registry_offers fl url kd)))
    else tf_rest fl \<and> res = Err (NoMatchingTransport ours [])"
proof (cases "dm_enabled cfg")
  case False
  have "tf_rest fl"
    using didcomm_config_flags [OF assms(1)] False assms(6) by (auto simp: flags_from_env_Ok validate_flags_Ok)
  moreover have "advertised no_capabilities = []"
    by (simp add: advertised_def PREFERENCE_ORDER_def no_capabilities_def)
  ultimately show ?thesis
    using False assms(5) served_document_read [OF assms(1-3)] select_transport_Err [of no_capabilities ours "NoMatchingTransport ours []"]
    by simp
next
  case True
  let ?c = "from_document (did_document_json (dm_profile cfg) (dm_mediator_did cfg) url fl)"
  have v: "validate_flags (so_tsp_built x) fl = Ok ()" "tf_didcomm fl" "dm_mediator_did cfg \<noteq> []"
    using didcomm_config_flags [OF assms(1)] True assms(4,6) by (auto simp: flags_from_env_Ok)
  have o: "kd \<in> set (advertised ?c) \<longleftrightarrow> registry_offers fl url kd" for kd
    using offers_endpoint [OF v(3)] by simp
  have sel: "select_transport ?c ours = res"
    using assms(5-7) served_document_read [OF assms(1-3)] True by simp
  show ?thesis
  proof (cases res)
    case (Ok ch)
    have ch: "set ours \<inter> set (advertised ?c) \<noteq> {}" "tc_kind ch = Max (set ours \<inter> set (advertised ?c))"
      "endpoint ?c (tc_kind ch) = Some (tc_endpoint ch)"
      using sel Ok select_transport_Ok [of ?c ours ch] by argo+
    have m: "tc_kind ch \<in> set ours \<inter> set (advertised ?c)" "\<forall>k \<in> set ours \<inter> set (advertised ?c). k \<le> tc_kind ch"
      using ch(1,2) Max_in [OF transport_kind_finite ch(1)] Max_ge [OF transport_kind_finite] by auto
    show ?thesis
      using Ok m ch(3) v o True
      by (cases "tc_kind ch")
        (auto simp: registry_document_read non_empty_def validate_flags_Ok split: if_splits option.splits)
  next
    case (Err e)
    have e: "set ours \<inter> set (advertised ?c) = {}" "e = NoMatchingTransport ours (advertised ?c)"
      using sel Err by (simp_all add: select_transport_Err)
    have none: "\<not> registry_offers fl url kd" if "kd \<in> set ours" for kd
      using e(1) that o [of kd] by blast
    show ?thesis
      using Err e(2) none o v(2) none [of Didcomm] True by (auto simp del: advertised_iff)
  qed
qed

text \<open>One registry with every transport on, and one with DIDComm off.\<close>

theorem client_reaches_registry_witness:
  "(\<exists>cfg k'. load_didcomm_config (env_sources served_env) () = (Ok cfg, k') \<and>
     (\<exists>ch. select_transport (from_document (served_document read_coded cfg)) [Https, Didcomm, Tsp] = Ok ch \<and>
        tc_kind ch = Tsp \<and> tc_endpoint ch = ''did:web:mediator'')) \<and>
   (\<exists>cfg k'. load_didcomm_config (env_sources rest_only_env) () = (Ok cfg, k') \<and>
      select_transport (from_document (served_document read_coded cfg)) [Https] = Err (NoMatchingTransport [Https] []))"
proof
  have l: "json_text_law (so_json_text (env_sources env)) read_coded" for env using coded_text_law by simp
  obtain cfg k' where c: "load_didcomm_config (env_sources served_env) () = (Ok cfg, k')" "dm_enabled cfg"
    "dm_mediator_did cfg = ''did:web:mediator''" "dm_flags cfg = \<lparr>tf_rest = True, tf_didcomm = True, tf_tsp = True\<rparr>"
    by (rule served_env_loads)
  define res where "res = select_transport (from_document (served_document read_coded cfg)) [Https, Didcomm, Tsp]"
  have "case res of Ok ch \<Rightarrow> tc_kind ch \<noteq> Https \<and> tc_kind ch \<noteq> Didcomm \<and> tc_endpoint ch = ''did:web:mediator'' | Err e \<Rightarrow> False"
    using client_reaches_registry [OF c(1) _ l _ res_def [symmetric] refl refl] c(2-4)
    by (cases res) (auto simp: served_env_reads less_eq_transport_kind_def)
  then have "\<exists>ch. res = Ok ch \<and> tc_kind ch = Tsp \<and> tc_endpoint ch = ''did:web:mediator''"
    by (cases res) (auto intro: transport_kind.exhaust)
  then show "\<exists>cfg k'. load_didcomm_config (env_sources served_env) () = (Ok cfg, k') \<and>
     (\<exists>ch. select_transport (from_document (served_document read_coded cfg)) [Https, Didcomm, Tsp] = Ok ch \<and>
        tc_kind ch = Tsp \<and> tc_endpoint ch = ''did:web:mediator'')"
    using c(1) unfolding res_def by (intro exI [of _ cfg] exI [of _ k'] conjI)
next
  have l: "json_text_law (so_json_text (env_sources env)) read_coded" for env using coded_text_law by simp
  obtain cfg k' where c: "load_didcomm_config (env_sources rest_only_env) () = (Ok cfg, k')" "\<not> dm_enabled cfg"
    by (rule rest_only_loads)
  show "\<exists>cfg k'. load_didcomm_config (env_sources rest_only_env) () = (Ok cfg, k') \<and>
      select_transport (from_document (served_document read_coded cfg)) [Https] = Err (NoMatchingTransport [Https] [])"
    using client_reaches_registry [OF c(1) _ l _ refl refl refl, of "[Https]"] c
    by (auto simp: rest_only_reads)
qed

definition sample_env :: environment where
  "sample_env = [''ENABLE_TSP'' \<mapsto> '' True '', ''ENABLE_REST'' \<mapsto> ''FALSE'']"

text \<open>The flags read from the environment are accepted exactly when every variable that is set
  and not blank says true or false (in any case, with surrounding blanks), at least one transport
  is on, and TSP is on only with DIDComm in a build that has it; each flag is then what its
  variable says, or its default.\<close>

theorem transport_flags_accepted:
  "flags_from_env built env = Ok fl \<longleftrightarrow>
     (\<forall>(name, dflt, flag) \<in> {(''ENABLE_REST'', True, tf_rest fl), (''ENABLE_DIDCOMM'', True, tf_didcomm fl),
        (''ENABLE_TSP'', False, tf_tsp fl)}.
        case env name of
          None \<Rightarrow> flag = dflt
        | Some raw \<Rightarrow> to_lowercase (trim_str raw) = (if flag then ''true'' else ''false'') \<or>
            to_lowercase (trim_str raw) = '''' \<and> flag = dflt) \<and>
     (tf_rest fl \<or> tf_didcomm fl) \<and> (tf_tsp fl \<longrightarrow> tf_didcomm fl \<and> built)"
proof -
  have f: "env_flag env name dflt = Ok flag \<longleftrightarrow>
      (case env name of
         None \<Rightarrow> flag = dflt
       | Some raw \<Rightarrow> to_lowercase (trim_str raw) = (if flag then ''true'' else ''false'') \<or>
           to_lowercase (trim_str raw) = '''' \<and> flag = dflt)" for name dflt flag
    by (cases flag; cases dflt) (auto simp: env_flag_def Let_def split: option.splits)
  show ?thesis by (simp add: flags_from_env_Ok validate_flags_Ok f)
qed

theorem transport_flags_accepted_witness:
  "flags_from_env True sample_env = Ok \<lparr>tf_rest = False, tf_didcomm = True, tf_tsp = True\<rparr> \<and>
   to_lowercase (trim_str '' True '') = ''true''"
proof -
  have "flags_from_env True sample_env = Ok \<lparr>tf_rest = False, tf_didcomm = True, tf_tsp = True\<rparr>"
    unfolding transport_flags_accepted
    by (simp add: sample_env_def, code_simp)
  moreover have "to_lowercase (trim_str '' True '') = ''true''" by code_simp
  ultimately show ?thesis by simp
qed

text \<open>The host of what follows the scheme of a URL: after the user part, up to the port.\<close>

definition uri_host :: "string \<Rightarrow> string" where
  "uri_host rest =
     (let authority = takeWhile (\<lambda>c. c \<notin> set ''/?#'') rest;
          after_user = (case split_once (CHR ''@'') authority of Some (user, h) \<Rightarrow> h | None \<Rightarrow> authority)
      in takeWhile (\<lambda>c. c \<noteq> CHR '':'') after_user)"

text \<open>The public URL check compares only what stands before the first colon, slash or question
  mark, so a cleartext URL whose host is any other machine passes when its user part looks like
  the loopback host.\<close>

theorem public_url_userinfo:
  assumes "set host \<inter> set ''/?#@: '' = {}"
  shows "validate_public_url (''http://localhost:80@'' @ host) = Ok () \<and>
    uri_host (''localhost:80@'' @ host) = host"
proof -
  have h: "takeWhile (\<lambda>c. c \<noteq> CHR ''/'' \<and> c \<noteq> CHR ''?'' \<and> c \<noteq> CHR ''#'') host = host"
    "takeWhile (\<lambda>c. c \<noteq> CHR '':'') host = host"
    using assms by (auto simp: takeWhile_eq_all_conv)
  show ?thesis
    by (simp add: h validate_public_url_def starts_with_def strip_prefix_def url_host_chunk_def
        uri_host_def Let_def)
qed

theorem public_url_userinfo_witness:
  "validate_public_url ''http://localhost:80@evil.example'' = Ok () \<and>
   uri_host ''localhost:80@evil.example'' = ''evil.example''"
  using public_url_userinfo [of "''evil.example''"] by simp

text \<open>C31: The published document lists one verification method per secret, numbered from zero and
  named by the same references in its authentication, assertion and key agreement lists, and no
  published key has a member besides its type, curve, coordinates and key id.\<close>

theorem published_keys:
  "\<exists>methods refs. json_get (did_document_json pc m u fl) ''verificationMethod'' = Some (JArr methods) \<and>
     json_get (did_document_json pc m u fl) ''authentication'' = Some (JArr refs) \<and>
     json_get (did_document_json pc m u fl) ''keyAgreement'' = Some (JArr refs) \<and>
     json_get (did_document_json pc m u fl) ''assertionMethod'' = Some (JArr refs) \<and>
     map (\<lambda>vm. json_get vm ''id'') methods = map Some refs \<and>
     refs = map (\<lambda>i. JStr (pc_did pc @ ''#key-'' @ show_nat i)) [0 ..< length (pc_secrets pc)] \<and>
     (\<forall>vm \<in> set methods. \<exists>key. json_get vm ''publicKeyJwk'' = Some key \<and>
        (\<forall>f v. json_get key f = Some v \<longrightarrow> f \<in> {''kty'', ''crv'', ''x'', ''y'', ''kid''}))"
proof -
  let ?ms = "build_verification_methods pc"
  have ids: "map (\<lambda>vm. json_get vm ''id'') ?ms =
      map Some (map (\<lambda>i. JStr (pc_did pc @ ''#key-'' @ show_nat i)) [0 ..< length (pc_secrets pc)])"
    by (rule nth_equalityI)
      (simp_all add: build_verification_methods_def verification_method_def json_get_jobj key_ref_def
        Let_def nth_enumerate_eq split: prod.splits)
  have keys: "\<exists>key. json_get vm ''publicKeyJwk'' = Some key \<and>
      (\<forall>f v. json_get key f = Some v \<longrightarrow> f \<in> {''kty'', ''crv'', ''x'', ''y'', ''kid''})"
    if "vm \<in> set ?ms" for vm
  proof -
    have "vm \<in> verification_method (pc_did pc) ` set (enumerate 0 (pc_secrets pc))"
      using that by (simp add: build_verification_methods_def)
    then obtain i material where "vm = verification_method (pc_did pc) (i, material)"
      by (metis imageE prod.exhaust)
    then show ?thesis using public_jwk_fields
      by (cases material) (auto simp: verification_method_def json_get_jobj Let_def)
  qed
  show ?thesis
    using ids keys
    by (intro exI [of _ ?ms] exI [of _ "map (\<lambda>i. JStr (pc_did pc @ ''#key-'' @ show_nat i))
        [0 ..< length (pc_secrets pc)]"])
      (simp add: did_document_json_def Let_def json_get_jobj key_ref_def)
qed

theorem published_keys_witness:
  "\<exists>vm key. json_get (did_document_json sample_profile ''did:web:m'' None flags_default) ''verificationMethod'' =
       Some (JArr [vm]) \<and> json_get vm ''id'' = Some (JStr ''did:web:tr#key-0'') \<and>
     json_get vm ''publicKeyJwk'' = Some key \<and> json_get key ''d'' = None"
proof -
  have z: "show_nat 0 = ''0''" by code_simp
  obtain methods refs where m:
    "json_get (did_document_json sample_profile ''did:web:m'' None flags_default) ''verificationMethod'' = Some (JArr methods)"
    "map (\<lambda>vm. json_get vm ''id'') methods = map Some refs" "refs = [JStr ''did:web:tr#key-0'']"
    "\<forall>vm \<in> set methods. \<exists>key. json_get vm ''publicKeyJwk'' = Some key \<and>
       (\<forall>f v. json_get key f = Some v \<longrightarrow> f \<in> {''kty'', ''crv'', ''x'', ''y'', ''kid''})"
    using published_keys [of sample_profile "''did:web:m''" None flags_default]
    by (auto simp: sample_profile_def z)
  obtain vm where vm: "methods = [vm]" "json_get vm ''id'' = Some (JStr ''did:web:tr#key-0'')"
    using m(2,3) by (cases methods) auto
  obtain key where key: "json_get vm ''publicKeyJwk'' = Some key"
    "\<And>f v. json_get key f = Some v \<Longrightarrow> f \<in> {''kty'', ''crv'', ''x'', ''y'', ''kid''}"
    using m(4) vm(1) by auto
  have "json_get key ''d'' = None"
  proof (cases "json_get key ''d''")
    case (Some v) then show ?thesis using key(2) [OF Some] by simp
  qed simp
  then show ?thesis using m(1) vm key(1) by blast
qed

section \<open>Replies and waiters\<close>

text \<open>C20: Whatever the interleaving of concurrent exchanges, failed sends, timeouts, inbound documents and
  callers that drop their exchange: an exchange that ended with a reply has the one whose thread is its own request id;
  a reply whose exchange still waits, even one that comes before its send has returned, is handed
  to exactly that exchange; a wait never sees its channel closed; and the table of waiters keeps
  no entry of an exchange that has ended, only those of exchanges in flight or dropped.\<close>

theorem replies_reach_their_waiters:
  assumes "demux_reachable k t x"
  shows "(\<forall>n i d. dx_exchange x n = Some (Finished i (Ok d)) \<longrightarrow> tk_thread d = Some i) \<and>
    (\<forall>n i doc. dx_exchange x n \<in> {Some (Sending i), Some (Waiting i)} \<and> dx_sent x n = None \<and>
      tk_thread doc = Some i \<longrightarrow> fst (route doc x) \<and>
      dx_sent (snd (route doc x)) = (dx_sent x)(n \<mapsto> doc) \<and> dx_exchange (snd (route doc x)) = dx_exchange x) \<and>
    (\<forall>n i. dx_exchange x n = Some (Waiting i) \<longrightarrow> \<not> sender_gone n x) \<and>
    (\<forall>i n. dx_pending x i = Some n \<longrightarrow> (\<exists>e. dx_exchange x n = Some e \<and> unfinished e \<and> exchange_id e = i))"
proof -
  note good = demux_reachable_inv [OF assms]
  have "tk_thread d = Some i" if "dx_exchange x n = Some (Finished i (Ok d))" for n i d
    by (rule inv_finished [OF good that])
  moreover have "fst (route doc x) \<and> dx_sent (snd (route doc x)) = (dx_sent x)(n \<mapsto> doc) \<and>
      dx_exchange (snd (route doc x)) = dx_exchange x"
    if "dx_exchange x n \<in> {Some (Sending i), Some (Waiting i)}" "dx_sent x n = None" "tk_thread doc = Some i" for n i doc
    using that inv_waiter [OF good, of n "Sending i"] inv_waiter [OF good, of n "Waiting i"]
    by (auto simp: route_def Let_def)
  moreover have "\<not> sender_gone n x" if "dx_exchange x n = Some (Waiting i)" for n i
    using inv_waiter [OF good that] by (auto simp: sender_gone_def)
  moreover have "\<exists>e. dx_exchange x n = Some e \<and> unfinished e \<and> exchange_id e = i" if "dx_pending x i = Some n" for i n
    using inv_pending [OF good that] by blast
  ultimately show ?thesis by blast
qed

definition two_waiting :: demux where
  "two_waiting = set_exchange 0 (Waiting ''a'') (snd (register ''b'' (snd (register ''a'' (demux_new Didcomm 60)))))"

lemma two_waiting_reachable: "demux_reachable Didcomm 60 two_waiting"
proof -
  let ?x = "snd (register ''a'' (demux_new Didcomm 60))"
  have 1: "demux_reachable Didcomm 60 ?x"
    by (rule demux_reachable.Step [OF demux_reachable.Start Register]) (simp add: used_ids_def demux_new_def)
  have 2: "demux_reachable Didcomm 60 (snd (register ''b'' ?x))"
    by (rule demux_reachable.Step [OF 1 Register]) (simp add: used_ids_def demux_new_def register_def)
  show ?thesis unfolding two_waiting_def
    by (rule demux_reachable.Step [OF 2 Sent]) (simp add: demux_new_def register_def)
qed

theorem replies_reach_their_waiters_witness:
  "\<exists>doc. tk_thread doc = Some ''b'' \<and> fst (route doc two_waiting) \<and>
     dx_sent (snd (route doc two_waiting)) 1 = Some doc \<and> dx_sent (snd (route doc two_waiting)) 0 = None"
proof -
  define doc :: document where "doc = \<lparr>tk_id = ''r'', tk_type = AUTHORIZATION, tk_thread = Some ''b'',
    tk_issuer = None, tk_recipient = None, tk_payload = JNull, tk_proof = None, tk_issued = None\<rparr>"
  have "dx_exchange two_waiting 1 = Some (Sending ''b'')" "dx_sent two_waiting = Map.empty"
    by (simp_all add: two_waiting_def set_exchange_def register_def demux_new_def)
  moreover have t: "tk_thread doc = Some ''b''" by (simp add: doc_def)
  ultimately have "fst (route doc two_waiting) \<and> dx_sent (snd (route doc two_waiting)) = [1 \<mapsto> doc]"
    using conjunct1 [OF conjunct2 [OF replies_reach_their_waiters [OF two_waiting_reachable]]]
    by (metis insertI1)
  then show ?thesis using t by (intro exI [of _ doc]) simp
qed

end
