(* ===== verification/Didcomm_Base.thy ===== *)
theory Didcomm_Base
  imports Domain
begin

text \<open>
  DIDComm messages and how the registry answers them: thread ids (\<open>didcomm/mod.rs\<close>), building and
  sending a response (\<open>didcomm/transport.rs\<close>) and problem reports (\<open>didcomm/problem_report.rs\<close>,
  \<open>didcomm/handlers/problem_report/mod.rs\<close>).  Packing and forwarding through the mediator are the
  messaging SDK's, parameters that may fail; what was handed to the mediator is a list.
\<close>

section \<open>Messages\<close>

record message =
  msg_id :: string
  msg_type :: string
  msg_from :: "string option"
  msg_to :: "string list"
  msg_thid :: "string option"
  msg_pthid :: "string option"
  msg_body :: json

definition get_thread_id :: "message \<Rightarrow> string option" where
  "get_thread_id m = (case msg_thid m of Some t \<Rightarrow> Some t | None \<Rightarrow> Some (msg_id m))"

definition get_parent_thread_id :: "message \<Rightarrow> string option" where
  "get_parent_thread_id m = (case msg_pthid m of Some t \<Rightarrow> Some t | None \<Rightarrow> get_thread_id m)"

record handler_context =
  hx_did :: string
  hx_alias :: string
  hx_sender_did :: string
  hx_thid :: "string option"
  hx_pthid :: "string option"

section \<open>Sending\<close>

datatype didcomm_error =
    AtmFailed string
  | MissingMediator
  | ElapsedTimeout string
  | TdkFailed string
  | MissingATM
  | UnreachableDidDocument
  | InvalidDid
  | HttpRequest string

fun didcomm_error_str :: "didcomm_error \<Rightarrow> string" where
  "didcomm_error_str (AtmFailed e) = ''ATM error: '' @ e"
| "didcomm_error_str MissingMediator = ''Mediator not configured''"
| "didcomm_error_str (ElapsedTimeout e) = ''Timeout: '' @ e"
| "didcomm_error_str (TdkFailed e) = ''TDK error: '' @ e"
| "didcomm_error_str MissingATM = ''Missing ATM instance''"
| "didcomm_error_str UnreachableDidDocument =
     ''Trust Registry DID document is unreachable at /.well-known/did.json''"
| "didcomm_error_str InvalidDid = ''Invalid DID format''"
| "didcomm_error_str (HttpRequest e) = ''HTTP request error: '' @ e"

text \<open>
  The messaging SDK: packing for a recipient, the mediator of the profile, forwarding a packed
  message; \<open>at_ids\<close> supplies fresh message ids.
\<close>

record atm =
  at_pack :: "message \<Rightarrow> string \<Rightarrow> (string, string) result"
  at_mediator :: "string option"
  at_forward :: "string \<Rightarrow> string \<Rightarrow> string \<Rightarrow> (unit, string) result"
  at_ids :: "nat \<Rightarrow> string"

text \<open>Pack and forward: how far it got, an error of packing or of the mediator before the last step.\<close>

datatype delivery = Not_Packed didcomm_error | Not_Forwarded didcomm_error | Delivered

definition pack_and_forward :: "atm \<Rightarrow> message \<Rightarrow> string \<Rightarrow> delivery" where
  "pack_and_forward a m recipient =
     (case at_pack a m recipient of
        Err e \<Rightarrow> Not_Packed (AtmFailed e)
      | Ok packed \<Rightarrow>
          (case at_mediator a of
             None \<Rightarrow> Not_Packed MissingMediator
           | Some mediator \<Rightarrow>
               (case at_forward a packed mediator recipient of
                  Err e \<Rightarrow> Not_Forwarded (AtmFailed e)
                | Ok _ \<Rightarrow> Delivered)))"

definition build_response ::
  "atm \<Rightarrow> string \<Rightarrow> string \<Rightarrow> string \<Rightarrow> json \<Rightarrow> string option \<Rightarrow> string option \<Rightarrow> message" where
  "build_response a typ sender recipient body thid pthid =
     \<lparr>msg_id = at_ids a 0, msg_type = typ, msg_from = Some sender, msg_to = [recipient],
      msg_thid = Some (case thid of Some t \<Rightarrow> t | None \<Rightarrow> at_ids a 1),
      msg_pthid = pthid, msg_body = body\<rparr>"

definition send_message :: "atm \<Rightarrow> message \<Rightarrow> string \<Rightarrow> (unit, didcomm_error) result \<times> message list" where
  "send_message a m recipient =
     (case pack_and_forward a m recipient of
        Not_Packed e \<Rightarrow> (Err e, [])
      | Not_Forwarded e \<Rightarrow> (Err e, [])
      | Delivered \<Rightarrow> (Ok (), [m]))"

definition send_response ::
  "atm \<Rightarrow> handler_context \<Rightarrow> string \<Rightarrow> json \<Rightarrow> (unit, didcomm_error) result \<times> message list" where
  "send_response a ctx message_type body =
     send_message a (build_response a message_type (hx_did ctx) (hx_sender_did ctx) body (hx_thid ctx) (hx_pthid ctx))
       (hx_sender_did ctx)"

section \<open>Problem reports\<close>

definition ERROR_UNAUTHORIZED :: string where "ERROR_UNAUTHORIZED = ''e.p.msg.unauthorized''"
definition ERROR_BAD_REQUEST :: string where "ERROR_BAD_REQUEST = ''e.p.msg.bad-request''"
definition ERROR_NOT_FOUND :: string where "ERROR_NOT_FOUND = ''e.p.msg.not-found''"
definition ERROR_CONFLICT :: string where "ERROR_CONFLICT = ''e.p.msg.conflict''"
definition ERROR_INTERNAL :: string where "ERROR_INTERNAL = ''e.p.msg.internal-error''"

definition PROBLEM_REPORT_TYPE :: string where
  "PROBLEM_REPORT_TYPE = ''https://didcomm.org/report-problem/2.0/problem-report''"

record problem_report =
  pr_code :: string
  pr_comment :: string
  pr_args :: "string list option"
  pr_escalate_to :: "string option"

definition problem_report_new :: "string \<Rightarrow> string \<Rightarrow> problem_report" where
  "problem_report_new code comment =
     \<lparr>pr_code = code, pr_comment = comment, pr_args = None, pr_escalate_to = None\<rparr>"

definition pr_unauthorized :: "string \<Rightarrow> problem_report" where
  "pr_unauthorized c = problem_report_new ERROR_UNAUTHORIZED c"

definition pr_bad_request :: "string \<Rightarrow> problem_report" where
  "pr_bad_request c = problem_report_new ERROR_BAD_REQUEST c"

definition pr_not_found :: "string \<Rightarrow> problem_report" where
  "pr_not_found c = problem_report_new ERROR_NOT_FOUND c"

definition pr_conflict :: "string \<Rightarrow> problem_report" where
  "pr_conflict c = problem_report_new ERROR_CONFLICT c"

definition pr_internal_error :: "string \<Rightarrow> problem_report" where
  "pr_internal_error c = problem_report_new ERROR_INTERNAL c"

definition pr_with_args :: "string list \<Rightarrow> problem_report \<Rightarrow> problem_report" where
  "pr_with_args args p = p\<lparr>pr_args := Some args\<rparr>"

definition pr_with_escalate_to :: "string \<Rightarrow> problem_report \<Rightarrow> problem_report" where
  "pr_with_escalate_to e p = p\<lparr>pr_escalate_to := Some e\<rparr>"

definition report_body :: "problem_report \<Rightarrow> json" where
  "report_body p = jobj (
     [(''code'', JStr (pr_code p)), (''comment'', JStr (pr_comment p))] @
     (case pr_args p of Some args \<Rightarrow> [(''args'', JArr (map JStr args))] | None \<Rightarrow> []) @
     (case pr_escalate_to p of Some e \<Rightarrow> [(''escalate_to'', JStr e)] | None \<Rightarrow> []))"

definition build_problem_report :: "atm \<Rightarrow> handler_context \<Rightarrow> problem_report \<Rightarrow> message" where
  "build_problem_report a ctx p =
     build_response a PROBLEM_REPORT_TYPE (hx_did ctx) (hx_sender_did ctx) (report_body p) (hx_thid ctx) (hx_pthid ctx)"

definition send_problem_report ::
  "atm \<Rightarrow> handler_context \<Rightarrow> problem_report \<Rightarrow> (unit, didcomm_error) result \<times> message list" where
  "send_problem_report a ctx p = send_message a (build_problem_report a ctx p) (hx_sender_did ctx)"

text \<open>What the handler of received problem reports logs: code, comment, arguments, escalation.\<close>

definition received_report ::
  "(json \<Rightarrow> string) \<Rightarrow> message \<Rightarrow> string \<times> string \<times> string option \<times> string option" where
  "received_report to_string m =
     ((case get_str (msg_body m) ''code'' of Some c \<Rightarrow> c | None \<Rightarrow> ''unknown''),
      (case get_str (msg_body m) ''comment'' of Some c \<Rightarrow> c | None \<Rightarrow> ''no comment''),
      map_option to_string (json_get (msg_body m) ''args''),
      get_str (msg_body m) ''escalate_to'')"

section \<open>Lemmas\<close>

text \<open>A report reads back as what was sent.\<close>

lemma report_roundtrip:
  "msg_body m = report_body p \<Longrightarrow>
   received_report ts m = (pr_code p, pr_comment p, map_option (\<lambda>as. ts (JArr (map JStr as))) (pr_args p),
     pr_escalate_to p)"
  by (auto simp: received_report_def report_body_def get_str_def json_get_jobj split: option.splits)

lemma send_message_out:
  "snd (send_message a m r) = (if fst (send_message a m r) = Ok () then [m] else [])"
  by (simp add: send_message_def split: delivery.splits)

lemma response_threads:
  "msg_thid (build_response a t s r b (Some i) p) = Some i"
  "msg_to (build_response a t s r b th p) = [r]" "msg_type (build_response a t s r b th p) = t"
  "msg_body (build_response a t s r b th p) = b" "msg_pthid (build_response a t s r b th p) = p"
  by (simp_all add: build_response_def)

end
