(* ===== verification/Didcomm_Admin.thy ===== *)
theory Didcomm_Admin
  imports Didcomm_Base Audit_Trail Repository_Spec
begin

text \<open>
  Record administration over DIDComm: the request bodies and their handlers of
  \<open>didcomm/handlers/admin/messages.rs\<close>, and the handler of the protocol in
  \<open>didcomm/handlers/admin/mod.rs\<close>: the administrator check, the audit entry and the response or
  problem report of every request.  A body with several faults is refused with one of them; the
  text of a fault is the JSON library's, a parameter.  The lemmas relate the handlers to the map.
\<close>

section \<open>Requests\<close>

record create_request =
  cq_entity :: string
  cq_authority :: string
  cq_action :: string
  cq_resource :: string
  cq_recognized :: bool
  cq_authorized :: bool
  cq_context :: "json option"
  cq_record_type :: string

record ids_request =
  iq_entity :: string
  iq_authority :: string
  iq_action :: string
  iq_resource :: string

definition de_bool_field :: "json \<Rightarrow> string \<Rightarrow> (bool, de_error) result" where
  "de_bool_field j k =
     bind_ok (ok_or (json_get j k) (MissingField k)) (\<lambda>v. ok_or (as_bool v) (InvalidType ''a boolean''))"

fun de_opt_value :: "json option \<Rightarrow> json option" where
  "de_opt_value None = None"
| "de_opt_value (Some JNull) = None"
| "de_opt_value (Some v) = Some v"

definition create_fields :: "json \<Rightarrow> (create_request, de_error) result" where
  "create_fields j =
     bind_ok (de_string_field j ''entity_id'') (\<lambda>e.
     bind_ok (de_string_field j ''authority_id'') (\<lambda>a.
     bind_ok (de_string_field j ''action'') (\<lambda>act.
     bind_ok (de_string_field j ''resource'') (\<lambda>r.
     bind_ok (de_bool_field j ''recognized'') (\<lambda>rec.
     bind_ok (de_bool_field j ''authorized'') (\<lambda>auth.
     bind_ok (de_string_field j ''record_type'') (\<lambda>t.
     Ok \<lparr>cq_entity = e, cq_authority = a, cq_action = act, cq_resource = r, cq_recognized = rec,
         cq_authorized = auth, cq_context = de_opt_value (json_get j ''context''), cq_record_type = t\<rparr>)))))))"

fun create_request_from_json :: "json \<Rightarrow> (create_request, de_error) result" where
  "create_request_from_json (JObj m) = create_fields (JObj m)"
| "create_request_from_json (JArr [e, a, act, r, rec, auth, c, t]) =
     create_fields (jobj [(''entity_id'', e), (''authority_id'', a), (''action'', act), (''resource'', r),
       (''recognized'', rec), (''authorized'', auth), (''context'', c), (''record_type'', t)])"
| "create_request_from_json (JArr xs) = Err (InvalidLength (length xs))"
| "create_request_from_json _ = Err (InvalidType ''struct CreateRecordRequest'')"

definition ids_fields :: "json \<Rightarrow> (ids_request, de_error) result" where
  "ids_fields j =
     bind_ok (de_string_field j ''entity_id'') (\<lambda>e.
     bind_ok (de_string_field j ''authority_id'') (\<lambda>a.
     bind_ok (de_string_field j ''action'') (\<lambda>act.
     bind_ok (de_string_field j ''resource'') (\<lambda>r.
     Ok \<lparr>iq_entity = e, iq_authority = a, iq_action = act, iq_resource = r\<rparr>))))"

fun ids_request_from_json :: "json \<Rightarrow> (ids_request, de_error) result" where
  "ids_request_from_json (JObj m) = ids_fields (JObj m)"
| "ids_request_from_json (JArr [e, a, act, r]) =
     ids_fields (jobj [(''entity_id'', e), (''authority_id'', a), (''action'', act), (''resource'', r)])"
| "ids_request_from_json (JArr xs) = Err (InvalidLength (length xs))"
| "ids_request_from_json _ = Err (InvalidType ''struct'')"

definition request_query :: "ids_request \<Rightarrow> trust_record_query" where
  "request_query q = query_new (EntityId (iq_entity q)) (AuthorityId (iq_authority q))
     (Action (iq_action q)) (Resource (iq_resource q))"

section \<open>The operations\<close>

definition request_builder :: "create_request \<Rightarrow> record_type \<Rightarrow> trust_record_builder" where
  "request_builder q t =
     (let builder =
        with_type t (with_authorized (cq_authorized q) (with_recognized (cq_recognized q)
          (with_resource (Resource (cq_resource q)) (with_action (Action (cq_action q))
            (with_authority (AuthorityId (cq_authority q)) (with_entity (EntityId (cq_entity q)) builder_new))))))
      in case cq_context q of Some ctx \<Rightarrow> with_context (Context ctx) builder | None \<Rightarrow> builder)"

text \<open>Request body to record, the part create and update share.\<close>

definition request_record ::
  "(de_error \<Rightarrow> string) \<Rightarrow> json \<Rightarrow> (create_request \<times> trust_record, string) result" where
  "request_record de_str body =
     bind_ok (map_err de_str (create_request_from_json body)) (\<lambda>q.
     bind_ok (map_err trust_record_error_str (record_type_from_str (cq_record_type q))) (\<lambda>t.
     bind_ok (map_err trust_record_error_str (builder_build (request_builder q t))) (\<lambda>r.
     Ok (q, r))))"

definition ids_json :: "string \<Rightarrow> string \<Rightarrow> string \<Rightarrow> string \<Rightarrow> json" where
  "ids_json e a act r = jobj [(''entity_id'', JStr e), (''authority_id'', JStr a),
     (''action'', JStr act), (''resource'', JStr r)]"

definition handle_create_record ::
  "(de_error \<Rightarrow> string) \<Rightarrow> 's trust_repo \<Rightarrow> json \<Rightarrow> 's \<Rightarrow> (json, string) result \<times> 's" where
  "handle_create_record de_str repo body s =
     (case request_record de_str body of
        Err e \<Rightarrow> (Err e, s)
      | Ok (q, record) \<Rightarrow>
          (case repo_create repo record s of
             (Err e, s1) \<Rightarrow> (Err (repository_error_str e), s1)
           | (Ok _, s1) \<Rightarrow>
               (Ok (ids_json (cq_entity q) (cq_authority q) (cq_action q) (cq_resource q)), s1)))"

definition handle_update_record ::
  "(de_error \<Rightarrow> string) \<Rightarrow> 's trust_repo \<Rightarrow> json \<Rightarrow> 's \<Rightarrow> (json, string) result \<times> 's" where
  "handle_update_record de_str repo body s =
     (case request_record de_str body of
        Err e \<Rightarrow> (Err e, s)
      | Ok (q, record) \<Rightarrow>
          (case repo_update repo record s of
             (Err e, s1) \<Rightarrow> (Err (repository_error_str e), s1)
           | (Ok _, s1) \<Rightarrow>
               (Ok (ids_json (cq_entity q) (cq_authority q) (cq_action q) (cq_resource q)), s1)))"

definition handle_delete_record ::
  "(de_error \<Rightarrow> string) \<Rightarrow> 's trust_repo \<Rightarrow> json \<Rightarrow> 's \<Rightarrow> (json, string) result \<times> 's" where
  "handle_delete_record de_str repo body s =
     (case map_err de_str (ids_request_from_json body) of
        Err e \<Rightarrow> (Err e, s)
      | Ok q \<Rightarrow>
          (case repo_delete repo (request_query q) s of
             (Err e, s1) \<Rightarrow> (Err (repository_error_str e), s1)
           | (Ok _, s1) \<Rightarrow>
               (Ok (ids_json (iq_entity q) (iq_authority q) (iq_action q) (iq_resource q)), s1)))"

definition admin_record_json :: "trust_record \<Rightarrow> json" where
  "admin_record_json r =
     jobj [(''entity_id'', JStr (entity_str (tr_entity r))), (''authority_id'', JStr (authority_str (tr_authority r))),
       (''action'', JStr (action_str (tr_action r))), (''resource'', JStr (resource_str (tr_resource r))),
       (''recognized'', JBool (is_recognized r)), (''authorized'', JBool (is_authorized r)),
       (''context'', context_value (tr_context r))]"

definition handle_read_record ::
  "(de_error \<Rightarrow> string) \<Rightarrow> 's trust_repo \<Rightarrow> json \<Rightarrow> 's \<Rightarrow> (json, string) result \<times> 's" where
  "handle_read_record de_str repo body s =
     (case map_err de_str (ids_request_from_json body) of
        Err e \<Rightarrow> (Err e, s)
      | Ok q \<Rightarrow>
          (case repo_read repo (request_query q) s of
             (Err e, s1) \<Rightarrow> (Err (repository_error_str e), s1)
           | (Ok record, s1) \<Rightarrow> (Ok (admin_record_json record), s1)))"

definition handle_list_records :: "'s trust_repo \<Rightarrow> 's \<Rightarrow> (json, string) result \<times> 's" where
  "handle_list_records repo s =
     (case repo_list repo s of
        (Err e, s1) \<Rightarrow> (Err (repository_error_str e), s1)
      | (Ok records, s1) \<Rightarrow>
          (let records_json = map admin_record_json records in
           (Ok (jobj [(''records'', JArr records_json),
              (''count'', JNum (NInt (int (length records_json))))]), s1)))"

section \<open>The protocol\<close>

definition admin_type :: "string \<Rightarrow> string" where
  "admin_type name = ''https://affinidi.com/didcomm/protocols/tr-admin/1.0/'' @ name"

definition CREATE_RECORD :: string where "CREATE_RECORD = admin_type ''create-record''"
definition UPDATE_RECORD :: string where "UPDATE_RECORD = admin_type ''update-record''"
definition DELETE_RECORD :: string where "DELETE_RECORD = admin_type ''delete-record''"
definition READ_RECORD :: string where "READ_RECORD = admin_type ''read-record''"
definition LIST_RECORDS :: string where "LIST_RECORDS = admin_type ''list-records''"

lemmas admin_types = CREATE_RECORD_def UPDATE_RECORD_def DELETE_RECORD_def READ_RECORD_def
  LIST_RECORDS_def admin_type_def

definition operation_of :: "string \<Rightarrow> audit_operation" where
  "operation_of t =
     (if t = CREATE_RECORD then OpCreate
      else if t = UPDATE_RECORD then OpUpdate
      else if t = DELETE_RECORD then OpDelete
      else if t = READ_RECORD then OpRead
      else if t = LIST_RECORDS then OpList
      else OpCreate)"

definition extract_audit_resource :: "message \<Rightarrow> audit_resource" where
  "extract_audit_resource m =
     (if is_object (msg_body m)
      then
        let e = map_option EntityId (get_str (msg_body m) ''entity_id'');
            a = map_option AuthorityId (get_str (msg_body m) ''authority_id'');
            act = map_option Action (get_str (msg_body m) ''action'');
            r = map_option Resource (get_str (msg_body m) ''resource'')
        in if e \<noteq> None \<or> a \<noteq> None \<or> act \<noteq> None \<or> r \<noteq> None
           then audit_resource_new e a act r else audit_resource_empty
      else audit_resource_empty)"

record admin_config =
  ac_admin_dids :: "string list"
  ac_de_error :: "de_error \<Rightarrow> string"

definition validate_admin_did :: "admin_config \<Rightarrow> string \<Rightarrow> (unit, string) result" where
  "validate_admin_did cfg sender_did =
     (if sender_did \<in> set (ac_admin_dids cfg) then Ok ()
      else Err (''Unauthorized: DID '' @ sender_did @ '' is not in admin list''))"

text \<open>What a request leaves behind: audit entries and messages handed to the mediator.\<close>

type_synonym effects = "audit_log list \<times> message list"

definition audit_entry :: "handler_context \<Rightarrow> audit_operation \<Rightarrow> audit_resource \<Rightarrow> int \<Rightarrow> audit_log" where
  "audit_entry ctx operation rsc now =
     with_thread_id (hx_thid ctx) (with_audit_resource rsc (with_actor (hx_sender_did ctx)
       (with_operation operation (audit_new now))))"

definition handle_success ::
  "atm \<Rightarrow> handler_context \<Rightarrow> int \<Rightarrow> string \<Rightarrow> json \<Rightarrow> audit_operation \<Rightarrow> audit_resource \<Rightarrow> effects" where
  "handle_success a ctx now response_message_type response_body operation rsc =
     ([build_success now (audit_entry ctx operation rsc now)],
      snd (send_response a ctx response_message_type response_body))"

definition handle_failure ::
  "atm \<Rightarrow> handler_context \<Rightarrow> int \<Rightarrow> string \<Rightarrow> audit_operation \<Rightarrow> audit_resource \<Rightarrow> effects" where
  "handle_failure a ctx now error_msg operation rsc =
     ([build_failure error_msg now (audit_entry ctx operation rsc now)],
      snd (send_problem_report a ctx (pr_internal_error error_msg)))"

definition handle_unauthorized :: "atm \<Rightarrow> handler_context \<Rightarrow> int \<Rightarrow> string \<Rightarrow> string \<Rightarrow> effects" where
  "handle_unauthorized a ctx now auth_error message_type =
     ([build_unauthorized auth_error now
         (audit_entry ctx (operation_of message_type) audit_resource_empty now)],
      snd (send_problem_report a ctx (pr_unauthorized auth_error)))"

definition run_admin ::
  "admin_config \<Rightarrow> 's trust_repo \<Rightarrow> string \<Rightarrow> json \<Rightarrow> 's \<Rightarrow> ((json, string) result \<times> 's) option" where
  "run_admin cfg repo message_type body s =
     (if message_type = CREATE_RECORD then Some (handle_create_record (ac_de_error cfg) repo body s)
      else if message_type = UPDATE_RECORD then Some (handle_update_record (ac_de_error cfg) repo body s)
      else if message_type = DELETE_RECORD then Some (handle_delete_record (ac_de_error cfg) repo body s)
      else if message_type = READ_RECORD then Some (handle_read_record (ac_de_error cfg) repo body s)
      else if message_type = LIST_RECORDS then Some (handle_list_records repo s)
      else None)"

definition handle_request ::
  "admin_config \<Rightarrow> 's trust_repo \<Rightarrow> atm \<Rightarrow> handler_context \<Rightarrow> int \<Rightarrow> message \<Rightarrow> 's \<Rightarrow> effects \<times> 's" where
  "handle_request cfg repo a ctx now m s =
     (let operation = operation_of (msg_type m);
          rsc = extract_audit_resource m
      in case run_admin cfg repo (msg_type m) (msg_body m) s of
           None \<Rightarrow> (([], snd (send_problem_report a ctx
                      (pr_bad_request (''Unknown message type: '' @ msg_type m)))), s)
         | Some (Ok response_body, s1) \<Rightarrow>
             (handle_success a ctx now (msg_type m @ ''/response'') response_body operation rsc, s1)
         | Some (Err error_msg, s1) \<Rightarrow> (handle_failure a ctx now error_msg operation rsc, s1))"

definition handle_admin ::
  "admin_config \<Rightarrow> 's trust_repo \<Rightarrow> atm \<Rightarrow> handler_context \<Rightarrow> int \<Rightarrow> message \<Rightarrow> 's \<Rightarrow> effects \<times> 's" where
  "handle_admin cfg repo a ctx now m s =
     (case validate_admin_did cfg (hx_sender_did ctx) of
        Err auth_error \<Rightarrow> (handle_unauthorized a ctx now auth_error (msg_type m), s)
      | Ok _ \<Rightarrow> handle_request cfg repo a ctx now m s)"

definition admin_message_types :: "string list" where
  "admin_message_types = [CREATE_RECORD, UPDATE_RECORD, DELETE_RECORD, READ_RECORD, LIST_RECORDS]"

section \<open>Lemmas\<close>

text \<open>The change an operation asks for, as one from map to map.\<close>

definition carried_out ::
  "(de_error \<Rightarrow> string) \<Rightarrow> (trust_record \<Rightarrow> 'k) \<Rightarrow> (trust_record_query \<Rightarrow> 'k) \<Rightarrow> audit_operation \<Rightarrow> json \<Rightarrow>
   ('k \<rightharpoonup> trust_record) \<Rightarrow> ('k \<rightharpoonup> trust_record) \<Rightarrow> bool" where
  "carried_out de_str kr kq operation body m m' \<longleftrightarrow>
     (case operation of
        OpCreate \<Rightarrow> \<exists>q r. request_record de_str body = Ok (q, r) \<and> m (kr r) = None \<and> m' = m(kr r \<mapsto> r)
      | OpUpdate \<Rightarrow> \<exists>q r. request_record de_str body = Ok (q, r) \<and> m (kr r) \<noteq> None \<and> m' = m(kr r \<mapsto> r)
      | OpDelete \<Rightarrow> \<exists>q. ids_request_from_json body = Ok q \<and> m (kq (request_query q)) \<noteq> None \<and>
          m' = m(kq (request_query q) := None)
      | OpRead \<Rightarrow> \<exists>q. ids_request_from_json body = Ok q \<and> m (kq (request_query q)) \<noteq> None \<and> m' = m
      | OpList \<Rightarrow> m' = m)"

lemma request_record_Ok:
  "request_record de_str body = Ok (q, r) \<longleftrightarrow>
     create_request_from_json body = Ok q \<and>
     (\<exists>t. to_lowercase (cq_record_type q) = record_type_str t \<and>
       r = \<lparr>tr_entity = EntityId (cq_entity q), tr_authority = AuthorityId (cq_authority q),
            tr_action = Action (cq_action q), tr_resource = Resource (cq_resource q),
            tr_recognized = Some (cq_recognized q), tr_authorized = Some (cq_authorized q),
            tr_context = (case cq_context q of Some c \<Rightarrow> Context c | None \<Rightarrow> context_empty), tr_type = t\<rparr>)"
proof -
  have "builder_build (request_builder q t) = Ok
      \<lparr>tr_entity = EntityId (cq_entity q), tr_authority = AuthorityId (cq_authority q),
       tr_action = Action (cq_action q), tr_resource = Resource (cq_resource q),
       tr_recognized = Some (cq_recognized q), tr_authorized = Some (cq_authorized q),
       tr_context = (case cq_context q of Some c \<Rightarrow> Context c | None \<Rightarrow> context_empty), tr_type = t\<rparr>" for t
    by (simp add: builder_build_def request_builder_def Let_def builder_defs split: option.split)
  then show ?thesis
    by (auto simp: request_record_def record_type_from_str_Ok)
qed

lemma response_types:
  "admin_type n @ ''/response'' = admin_type (n @ ''/response'')"
  by (simp add: admin_type_def)

context trust_repository
begin

lemma admin_run_law:
  assumes "inv s" "run_admin cfg repo t body s = Some (res, s')"
  shows "inv s'"
    and "res = Ok j \<Longrightarrow> carried_out (ac_de_error cfg) kr kq (operation_of t) body (view s) (view s')"
    and "res = Err e \<Longrightarrow> view s' = view s \<or>
      \<not> atomic \<and> carried_out (ac_de_error cfg) kr kq (operation_of t) body (view s) (view s')"
proof -
  have d: "CREATE_RECORD \<noteq> UPDATE_RECORD" "CREATE_RECORD \<noteq> DELETE_RECORD" "CREATE_RECORD \<noteq> READ_RECORD"
    "CREATE_RECORD \<noteq> LIST_RECORDS" "UPDATE_RECORD \<noteq> DELETE_RECORD" "UPDATE_RECORD \<noteq> READ_RECORD"
    "UPDATE_RECORD \<noteq> LIST_RECORDS" "DELETE_RECORD \<noteq> READ_RECORD" "DELETE_RECORD \<noteq> LIST_RECORDS"
    "READ_RECORD \<noteq> LIST_RECORDS"
    by (simp_all add: admin_types)
  note laws = create_law [OF assms(1)] update_law [OF assms(1)] delete_law [OF assms(1)]
    read_law [OF assms(1)] list_law [OF assms(1)]
  note defs = run_admin_def handle_create_record_def handle_update_record_def handle_delete_record_def
    handle_read_record_def handle_list_records_def Let_def
  show "inv s'"
    using assms by (fastforce simp: defs split: if_splits result.splits prod.splits dest: laws(1) laws(5) laws(9) laws(13) laws(17))
  have types: "t = CREATE_RECORD \<or> t = UPDATE_RECORD \<or> t = DELETE_RECORD \<or> t = READ_RECORD \<or> t = LIST_RECORDS"
    using assms(2) by (auto simp: run_admin_def split: if_splits)
  have ok: "carried_out (ac_de_error cfg) kr kq (operation_of t) body (view s) (view s')" if "res = Ok j" for j
    using types
  proof (elim disjE)
    assume "t = CREATE_RECORD"
    then show ?thesis using assms that d by (fastforce simp: carried_out_def operation_of_def defs
        split: if_splits result.splits prod.splits dest: create_law(2))
  next
    assume "t = UPDATE_RECORD"
    then show ?thesis using assms that d by (fastforce simp: carried_out_def operation_of_def defs
        split: if_splits result.splits prod.splits dest: update_law(2))
  next
    assume "t = DELETE_RECORD"
    then show ?thesis using assms that d by (fastforce simp: carried_out_def operation_of_def defs
        split: if_splits result.splits prod.splits dest: delete_law(2))
  next
    assume "t = READ_RECORD"
    then show ?thesis using assms that d by (fastforce simp: carried_out_def operation_of_def defs
        split: if_splits result.splits prod.splits dest: read_law(2,3))
  next
    assume "t = LIST_RECORDS"
    then show ?thesis using assms that d by (fastforce simp: carried_out_def operation_of_def defs
        split: if_splits result.splits prod.splits dest: list_law(2))
  qed
  then show "res = Ok j \<Longrightarrow> carried_out (ac_de_error cfg) kr kq (operation_of t) body (view s) (view s')" .
  have "view s' = view s \<or> \<not> atomic \<and> carried_out (ac_de_error cfg) kr kq (operation_of t) body (view s) (view s')"
    if "res = Err e" for e
    using types
  proof (elim disjE)
    assume "t = CREATE_RECORD"
    then show ?thesis using assms that d by (fastforce simp: carried_out_def operation_of_def defs
        split: if_splits result.splits prod.splits dest: create_law(4))
  next
    assume "t = UPDATE_RECORD"
    then show ?thesis using assms that d by (fastforce simp: carried_out_def operation_of_def defs
        split: if_splits result.splits prod.splits dest: update_law(4))
  next
    assume "t = DELETE_RECORD"
    then show ?thesis using assms that d by (fastforce simp: carried_out_def operation_of_def defs
        split: if_splits result.splits prod.splits dest: delete_law(4))
  qed (use assms that d in \<open>fastforce simp: defs split: if_splits result.splits prod.splits
      dest: read_law(2) list_law(2)\<close>)+
  then show "res = Err e \<Longrightarrow> view s' = view s \<or>
      \<not> atomic \<and> carried_out (ac_de_error cfg) kr kq (operation_of t) body (view s) (view s')" .
qed

end

end
