(* ===== verification/Didcomm_Handlers.thy ===== *)
theory Didcomm_Handlers
  imports Trqp Didcomm_Admin Bindings
begin

text \<open>
  The DIDComm side of the registry: the TRQP protocol (\<open>didcomm/handlers/trqp/mod.rs\<close>), the
  replies of the trust-task handler (\<open>didcomm/handlers/trust_tasks/mod.rs\<close>, \<open>send\<close> and
  \<open>try_send\<close>), and the routing of a received message to the first handler that supports its type
  (\<open>didcomm/handlers/mod.rs\<close>, \<open>build.rs\<close>).  A node is the configuration and the parameters the
  handlers share; a message runs on the store of message ids, the records and the capability set.
\<close>

section \<open>The node\<close>

record ('s, 'c, 'd) node =
  nd_repo :: "'s trust_repo"
  nd_store :: "'c cap_store"
  nd_ids :: "'d message_store"
  nd_fw :: framework
  nd_wire :: wire
  nd_deployment :: deployment
  nd_de_error :: "de_error \<Rightarrow> string"
  nd_atm :: atm
  nd_rfc3339 :: "int \<Rightarrow> string"
  nd_envelope_type :: string
  nd_alias :: string

definition node_admin :: "('s, 'c, 'd) node \<Rightarrow> admin_config" where
  "node_admin nd = \<lparr>ac_admin_dids = dp_admins (nd_deployment nd), ac_de_error = nd_de_error nd\<rparr>"

section \<open>TRQP\<close>

definition trqp_type :: "string \<Rightarrow> string" where
  "trqp_type name = ''https://affinidi.com/didcomm/protocols/trqp/1.0/'' @ name"

definition QUERY_AUTHORIZATION :: string where "QUERY_AUTHORIZATION = trqp_type ''query-authorization''"
definition QUERY_RECOGNITION :: string where "QUERY_RECOGNITION = trqp_type ''query-recognition''"

definition query_from_json :: "json \<Rightarrow> (trust_record_query, de_error) result" where
  "query_from_json j = bind_ok (ids_request_from_json j) (\<lambda>q. Ok (request_query q))"

definition trqp_output_body ::
  "(int \<Rightarrow> string) \<Rightarrow> bool \<Rightarrow> int \<Rightarrow> int \<Rightarrow> trust_record option \<Rightarrow> json" where
  "trqp_output_body rfc3339 is_authorization requested_at evaluated_at record =
     (case record of
        None \<Rightarrow> jobj []
      | Some r \<Rightarrow>
          (let tr = (if is_authorization then none_recognized r else none_authorized r);
               message_text = (if is_authorization then authorized_message tr else recognized_message tr)
           in case record_to_json tr of
                JObj m \<Rightarrow> JObj (bt_insert ''message'' (JStr message_text)
                   (bt_insert ''time_evaluated'' (JStr (rfc3339 evaluated_at))
                   (bt_insert ''time_requested'' (JStr (rfc3339 requested_at)) m)))
              | j \<Rightarrow> j))"

definition handle_trqp_message ::
  "('s, 'c, 'd) node \<Rightarrow> handler_context \<Rightarrow> int \<Rightarrow> int \<Rightarrow> message \<Rightarrow> 's \<Rightarrow>
   (unit, string) result \<times> message list \<times> 's" where
  "handle_trqp_message nd ctx requested_at evaluated_at m s =
     (let is_authorization = (msg_type m = QUERY_AUTHORIZATION);
          output_message_type = msg_type m @ ''/response''
      in case query_from_json (msg_body m) of
           Err e \<Rightarrow> (Err (nd_de_error nd e), [], s)
         | Ok query \<Rightarrow>
             (case repo_find (nd_repo nd) query s of
                (Err e, s1) \<Rightarrow> (Err (repository_error_str e), [], s1)
              | (Ok record, s1) \<Rightarrow>
                  (let output_message =
                     \<lparr>msg_id = at_ids (nd_atm nd) 0, msg_type = output_message_type,
                      msg_from = Some (hx_did ctx), msg_to = [hx_sender_did ctx], msg_thid = None,
                      msg_pthid = None,
                      msg_body = trqp_output_body (nd_rfc3339 nd) is_authorization requested_at evaluated_at record\<rparr>
                   in case pack_and_forward (nd_atm nd) output_message (hx_sender_did ctx) of
                        Not_Packed e \<Rightarrow> (Err (didcomm_error_str e), [], s1)
                      | Not_Forwarded e \<Rightarrow> (Ok (), [], s1)
                      | Delivered \<Rightarrow> (Ok (), [output_message], s1))))"

section \<open>Replies to trust tasks\<close>

definition reply_json :: "wire \<Rightarrow> reply \<Rightarrow> (json, string) result" where
  "reply_json wi r = (case r of ReplyDoc d \<Rightarrow> wi_document_json wi d | ReplyErr e \<Rightarrow> wi_error_json wi e)"

definition try_send ::
  "('s, 'c, 'd) node \<Rightarrow> handler_context \<Rightarrow> reply \<Rightarrow> (unit, string) result \<times> message list" where
  "try_send nd ctx r =
     (case reply_json (nd_wire nd) r of
        Err e \<Rightarrow> (Err e, [])
      | Ok body \<Rightarrow>
          (let envelope = \<lparr>msg_id = at_ids (nd_atm nd) 0, msg_type = nd_envelope_type nd,
                 msg_from = Some (hx_did ctx), msg_to = [hx_sender_did ctx],
                 msg_thid = get_str body ''threadId'', msg_pthid = None, msg_body = body\<rparr>
           in case send_message (nd_atm nd) envelope (hx_sender_did ctx) of
                (Err e, out) \<Rightarrow> (Err (didcomm_error_str e), out)
              | (Ok _, out) \<Rightarrow> (Ok (), out)))"

definition handle_task_message ::
  "('s, 'c, 'd) node \<Rightarrow> handler_context \<Rightarrow> call_env \<Rightarrow> int \<Rightarrow> message \<Rightarrow> 'd \<Rightarrow> ('s, 'c) registry \<Rightarrow>
   message list \<times> 'd \<times> ('s, 'c) registry" where
  "handle_task_message nd ctx ce t2 m d w =
     (case didcomm_trust_task (nd_fw nd) (nd_wire nd) (nd_repo nd) (nd_store nd) (nd_ids nd)
             (nd_deployment nd) ce t2 (hx_sender_did ctx) (msg_body m) d w of
        (None, d1, w1) \<Rightarrow> ([], d1, w1)
      | (Some r, d1, w1) \<Rightarrow> (snd (try_send nd ctx r), d1, w1))"

section \<open>Routing\<close>

datatype protocol = P_Trqp | P_Admin | P_Problem_Report | P_Trust_Tasks

definition protocols_handlers :: "protocol list" where
  "protocols_handlers = [P_Trqp, P_Admin, P_Problem_Report, P_Trust_Tasks]"

fun supported_types :: "('s, 'c, 'd) node \<Rightarrow> protocol \<Rightarrow> string list" where
  "supported_types nd P_Trqp = [QUERY_AUTHORIZATION, QUERY_RECOGNITION]"
| "supported_types nd P_Admin = admin_message_types"
| "supported_types nd P_Problem_Report = [PROBLEM_REPORT_TYPE]"
| "supported_types nd P_Trust_Tasks = [nd_envelope_type nd]"

definition route_message :: "('s, 'c, 'd) node \<Rightarrow> message \<Rightarrow> protocol option" where
  "route_message nd m = List.find (\<lambda>p. msg_type m \<in> set (supported_types nd p)) protocols_handlers"

definition base_context :: "('s, 'c, 'd) node \<Rightarrow> message \<Rightarrow> handler_context" where
  "base_context nd m =
     \<lparr>hx_did = dp_my_did (nd_deployment nd), hx_alias = nd_alias nd,
      hx_sender_did = (case msg_from m of Some f \<Rightarrow> f | None \<Rightarrow> ''anon''),
      hx_thid = (case get_thread_id m of Some t \<Rightarrow> Some t | None \<Rightarrow> Some (msg_id m)),
      hx_pthid = get_parent_thread_id m\<rparr>"

text \<open>The result, the audit entries, the messages handed to the mediator, and the new state.\<close>

definition base_handle ::
  "('s, 'c, 'd) node \<Rightarrow> call_env \<Rightarrow> int \<Rightarrow> message \<Rightarrow> 'd \<Rightarrow> ('s, 'c) registry \<Rightarrow>
   (unit, string) result \<times> effects \<times> 'd \<times> ('s, 'c) registry" where
  "base_handle nd ce t2 m d w =
     (let ctx = base_context nd m in
      case w of (s, cs) \<Rightarrow>
        (case route_message nd m of
           None \<Rightarrow> (Ok (), ([], []), d, w)
         | Some P_Trqp \<Rightarrow>
             (case handle_trqp_message nd ctx (ce_now ce) t2 m s of
                (res, out, s1) \<Rightarrow> (res, ([], out), d, (s1, cs)))
         | Some P_Admin \<Rightarrow>
             (case handle_admin (node_admin nd) (nd_repo nd) (nd_atm nd) ctx (ce_now ce) m s of
                (eff, s1) \<Rightarrow> (Ok (), eff, d, (s1, cs)))
         | Some P_Problem_Report \<Rightarrow> (Ok (), ([], []), d, w)
         | Some P_Trust_Tasks \<Rightarrow>
             (case handle_task_message nd ctx ce t2 m d w of
                (out, d1, w1) \<Rightarrow> (Ok (), ([], out), d1, w1))))"

section \<open>Lemmas\<close>

lemma didcomm_types:
  "QUERY_AUTHORIZATION \<noteq> QUERY_RECOGNITION" "QUERY_AUTHORIZATION \<notin> set admin_message_types"
  "QUERY_RECOGNITION \<notin> set admin_message_types" "PROBLEM_REPORT_TYPE \<notin> set admin_message_types"
  "PROBLEM_REPORT_TYPE \<noteq> QUERY_AUTHORIZATION" "PROBLEM_REPORT_TYPE \<noteq> QUERY_RECOGNITION"
  by (simp_all add: QUERY_AUTHORIZATION_def QUERY_RECOGNITION_def trqp_type_def admin_message_types_def
      admin_types PROBLEM_REPORT_TYPE_def)

lemma route_message_cases:
  "route_message nd m =
     (if msg_type m \<in> {QUERY_AUTHORIZATION, QUERY_RECOGNITION} then Some P_Trqp
      else if msg_type m \<in> set admin_message_types then Some P_Admin
      else if msg_type m = PROBLEM_REPORT_TYPE then Some P_Problem_Report
      else if msg_type m = nd_envelope_type nd then Some P_Trust_Tasks else None)"
  by (simp add: route_message_def protocols_handlers_def)

lemma base_context_thread [simp]: "hx_thid (base_context nd m) = get_thread_id m"
  by (simp add: base_context_def get_thread_id_def split: option.split)

text \<open>Both TRQP bindings put the same members into their answer.\<close>

lemma trqp_bodies_agree:
  "trqp_output_body rfc True t1 t2 (Some r) =
     output_json \<lparr>out_record = none_recognized r, out_requested = rfc t1, out_evaluated = rfc t2,
       out_message = authorized_message (none_recognized r)\<rparr>"
  "trqp_output_body rfc False t1 t2 (Some r) =
     output_json \<lparr>out_record = none_authorized r, out_requested = rfc t1, out_evaluated = rfc t2,
       out_message = recognized_message (none_authorized r)\<rparr>"
  by (simp_all add: trqp_output_body_def output_json_def Let_def split: json.split)

context trust_repository
begin

lemma trqp_message_law:
  assumes "inv s" "nd_repo nd = repo" "handle_trqp_message nd ctx t1 t2 m s = (res, out, s')"
  shows "inv s'" "view s' = view s"
    "\<forall>o1 \<in> set out. \<exists>q. query_from_json (msg_body m) = Ok q \<and>
       msg_type o1 = msg_type m @ ''/response'' \<and> msg_to o1 = [hx_sender_did ctx] \<and>
       msg_body o1 = trqp_output_body (nd_rfc3339 nd) (msg_type m = QUERY_AUTHORIZATION) t1 t2 (view s (kq q))"
proof -
  have "inv s' \<and> view s' = view s \<and>
    (\<forall>o1 \<in> set out. \<exists>q. query_from_json (msg_body m) = Ok q \<and>
       msg_type o1 = msg_type m @ ''/response'' \<and> msg_to o1 = [hx_sender_did ctx] \<and>
       msg_body o1 = trqp_output_body (nd_rfc3339 nd) (msg_type m = QUERY_AUTHORIZATION) t1 t2 (view s (kq q)))"
  proof (cases "query_from_json (msg_body m)")
    case (Ok q)
    obtain f s1 where f: "repo_find repo q s = (f, s1)" by fastforce
    note l = find_law [OF assms(1) f]
    show ?thesis using assms(2,3) Ok f l
      by (auto simp: handle_trqp_message_def Let_def split: result.splits delivery.splits)
  qed (use assms in \<open>auto simp: handle_trqp_message_def Let_def\<close>)
  then show "inv s'" "view s' = view s"
    "\<forall>o1 \<in> set out. \<exists>q. query_from_json (msg_body m) = Ok q \<and>
       msg_type o1 = msg_type m @ ''/response'' \<and> msg_to o1 = [hx_sender_did ctx] \<and>
       msg_body o1 = trqp_output_body (nd_rfc3339 nd) (msg_type m = QUERY_AUTHORIZATION) t1 t2 (view s (kq q))"
    by blast+
qed

end

text \<open>Whatever its type, a message changes something only for an administrator.\<close>

lemma base_handle_gate:
  assumes "trust_repository repo atomic kr kq view good" "nd_repo nd = repo" "framework_ok (nd_fw nd)"
    and "good s" "git_only cs" "cap_in_force sts cs"
    and "base_handle nd ce t2 m d (s, cs) = (res, eff, d', s', cs')"
  shows "view s' = view s \<and> cs' = cs \<and> d' = d \<or>
    (\<exists>sender \<in> set (dp_admins (nd_deployment nd)).
       msg_from m = Some sender \<or> msg_from m = None \<and> sender = ''anon'') \<and>
    (msg_type m \<in> set admin_message_types \<or>
     msg_type m = nd_envelope_type nd \<and>
       (\<exists>doc. wi_parse_value (nd_wire nd) (msg_body m) = Ok doc \<and> is_write (nd_fw nd) doc \<and>
          tk_proof doc \<noteq> None \<and> fw_verify (nd_fw nd) doc = Ok ()))"
proof (cases "route_message nd m")
  case None
  then show ?thesis using assms(7) by (simp add: base_handle_def Let_def)
next
  case (Some p)
  let ?ctx = "base_context nd m"
  have f: "\<exists>sender \<in> set (dp_admins (nd_deployment nd)). msg_from m = Some sender \<or> msg_from m = None \<and> sender = ''anon''"
    if "hx_sender_did ?ctx \<in> set (dp_admins (nd_deployment nd))"
    using that by (cases "msg_from m") (auto simp: base_context_def)
  show ?thesis
  proof (cases p)
    case P_Trqp
    obtain r o1 s1 where t: "handle_trqp_message nd ?ctx (ce_now ce) t2 m s = (r, o1, s1)" by (metis prod.exhaust)
    show ?thesis
      using trust_repository.trqp_message_law(2) [OF assms(1,4,2) t] assms(7) Some P_Trqp t
      by (simp add: base_handle_def Let_def)
  next
    case P_Admin
    obtain e1 s1 where t: "handle_admin (node_admin nd) (nd_repo nd) (nd_atm nd) ?ctx (ce_now ce) m s = (e1, s1)"
      by fastforce
    have "s1 = s" if "hx_sender_did ?ctx \<notin> set (dp_admins (nd_deployment nd))"
      using t that by (simp add: handle_admin_def validate_admin_did_def node_admin_def)
    moreover have "msg_type m \<in> set admin_message_types"
      using Some P_Admin by (auto simp: route_message_cases split: if_splits)
    ultimately show ?thesis using assms(7) Some P_Admin t f by (auto simp: base_handle_def Let_def)
  next
    case P_Problem_Report
    then show ?thesis using assms(7) Some by (simp add: base_handle_def Let_def)
  next
    case P_Trust_Tasks
    obtain rep d1 s1 cs1 where t: "didcomm_trust_task (nd_fw nd) (nd_wire nd) repo (nd_store nd) (nd_ids nd)
        (nd_deployment nd) ce t2 (hx_sender_did ?ctx) (msg_body m) d (s, cs) = (rep, d1, s1, cs1)"
      by (metis prod.exhaust)
    have "(d', s', cs') = (d1, s1, cs1)"
      using assms(2,7) Some P_Trust_Tasks t
      by (auto simp: base_handle_def Let_def handle_task_message_def split: option.splits)
    moreover have "msg_type m = nd_envelope_type nd"
      using Some P_Trust_Tasks by (auto simp: route_message_cases split: if_splits)
    ultimately show ?thesis
      using trust_repository.task_message_gate [OF assms(1,4,3,5,6) t] f by auto
  qed
qed

end
