(* ===== verification/Node_Properties.thy ===== *)
theory Node_Properties
  imports Didcomm_Handlers Samples
begin

text \<open>
  Properties of the TRQP endpoints, of the record administration over DIDComm with its audit
  trail, and of the routing of received DIDComm messages.
\<close>

section \<open>TRQP\<close>

text \<open>C24: The HTTP authorization endpoint leaves the records alone and answers 400 to a body it cannot
  read.  For one it reads it answers 500 exactly when the backend's lookup fails; when the lookup
  succeeds it answers 404 if there is no record for the four identifiers and otherwise 200, with
  the record's authorised flag and no recognised flag, and with the record's context merged with
  the one of the request.\<close>

theorem trqp_authorization_endpoint:
  assumes "trust_repository repo atomic kr kq view good" "good s"
    and "handle_trqp_authorization rfc3339 repo t1 t2 (extract_input ex body) s = (res, s')"
  shows "good s' \<and> view s' = view s \<and>
    (case extract_input ex body of
       Err e \<Rightarrow> rp_status (trqp_response res) = 400
     | Ok input \<Rightarrow>
         let reply = trqp_response res; found = view s (kq (query_from_ids (in_ids input))) in
         (case fst (repo_find repo (query_from_ids (in_ids input)) s) of
            Err e \<Rightarrow> rp_status reply = 500
          | Ok _ \<Rightarrow>
              (case found of
                 None \<Rightarrow> rp_status reply = 404
               | Some r \<Rightarrow> rp_status reply = 200 \<and>
                   json_get (rp_body reply) ''authorized'' = map_option JBool (tr_authorized r) \<and>
                   json_get (rp_body reply) ''recognized'' = None \<and>
                   json_get (rp_body reply) ''context'' = Some (context_value
                     (case in_context input of Some c \<Rightarrow> context_merge (tr_context r) c | None \<Rightarrow> tr_context r)))))"
proof -
  obtain r1 s1 where t: "handle_trqp repo (extract_input ex body) s = (r1, s1)" by fastforce
  note l = trust_repository.trqp_law [OF assms(1,2) t]
  have s1: "s' = s1" using assms(3) t
    by (auto simp: handle_trqp_authorization_def Let_def split: result.splits)
  show ?thesis
  proof (cases "extract_input ex body")
    case (Err e)
    then show ?thesis using l s1 assms(3)
      by (auto simp: handle_trqp_authorization_def handle_trqp_def trqp_response_def app_error_response_def)
  next
    case (Ok input)
    obtain f s2 where f: "repo_find repo (query_from_ids (in_ids input)) s = (f, s2)" by fastforce
    note fl = trust_repository.find_law [OF assms(1,2) f]
    have res: "res = (case f of
        Err e \<Rightarrow> Err (Internal (repository_error_str e) None)
      | Ok None \<Rightarrow> Err (NotFound ''Trust record not found'' None)
      | Ok (Some r) \<Rightarrow>
          let r1 = none_recognized (case in_context input of Some c \<Rightarrow> merge_contexts r c | None \<Rightarrow> r) in
          Ok \<lparr>out_record = r1, out_requested = rfc3339 t1, out_evaluated = rfc3339 t2,
              out_message = authorized_message r1\<rparr>)"
      using assms(3) Ok f
      by (auto simp: handle_trqp_authorization_def handle_trqp_def Let_def split: result.splits option.splits)
    show ?thesis using l(1,2) fl f Ok s1
      by (auto simp: res Let_def trqp_response_def app_error_status output_json_get record_to_json_get
          none_recognized_def merge_contexts_def split: result.splits option.splits)
  qed
qed

definition sample_extractor :: extractor where
  "sample_extractor = \<lparr>ex_json = (\<lambda>s. if s = ''query'' then Ok (record_member ''did:e'' ''did:a'') else Err s),
     ex_data_error = (\<lambda>e. ''missing'')\<rparr>"

theorem trqp_authorization_endpoint_witness:
  "let reply = trqp_response (fst (handle_trqp_authorization (\<lambda>t. ''now'') local_repo 1 2
       (extract_input sample_extractor ''query'') (local_with_records [sample_record]))) in
   rp_status reply = 200 \<and> json_get (rp_body reply) ''authorized'' = Some (JBool True) \<and>
   json_get (rp_body reply) ''recognized'' = None"
proof -
  obtain res s' where r: "handle_trqp_authorization (\<lambda>t. ''now'') local_repo 1 2
      (extract_input sample_extractor ''query'') (local_with_records [sample_record]) = (res, s')" by fastforce
  have "local_inv (local_with_records [sample_record])"
    using local_with_records_fold [OF local_new_inv(1), of "[sample_record]"]
    by (simp add: local_with_records_def Let_def)
  note t = trqp_authorization_endpoint [OF local.trust_repository_axioms this r]
  have i: "extract_input sample_extractor ''query'' =
      Ok \<lparr>in_ids = \<lparr>ids_entity = EntityId ''did:e'', ids_authority = AuthorityId ''did:a'',
        ids_action = Action ''sign'', ids_resource = Resource ''repo''\<rparr>, in_context = Some (Context (JObj []))\<rparr>"
    by code_simp
  have v: "local_view (local_with_records [sample_record]) (key_from_query (query_from_ids
      \<lparr>ids_entity = EntityId ''did:e'', ids_authority = AuthorityId ''did:a'',
        ids_action = Action ''sign'', ids_resource = Resource ''repo''\<rparr>)) = Some sample_record"
    by code_simp
  have fl: "tr_authorized sample_record = Some True" by (simp add: sample_record_def trust_record_new_def)
  have f: "is_ok (fst (repo_find local_repo (query_from_ids \<lparr>ids_entity = EntityId ''did:e'', ids_authority = AuthorityId ''did:a'',
        ids_action = Action ''sign'', ids_resource = Resource ''repo''\<rparr>) (local_with_records [sample_record])))"
    by code_simp
  show ?thesis
    using t [unfolded i] f unfolding r fst_conv Let_def
    by (auto simp: fl v Let_def split: result.splits)
qed

text \<open>C25: Both TRQP bindings agree: a query without a context that DIDComm answers carries the body HTTP
  would have sent for the same identifiers at the same times, for authorization and for
  recognition, or an empty object where HTTP says not found; neither changes the records.\<close>

theorem trqp_bindings_agree:
  assumes "trust_repository repo atomic kr kq view good" "good s" "nd_repo nd = repo"
    and "msg_type m \<in> {QUERY_AUTHORIZATION, QUERY_RECOGNITION}"
    and "handle_trqp_message nd ctx t1 t2 m s = (res, out, s')" "reply \<in> set out"
    and "query_from_json (msg_body m) = Ok (query_from_ids ids)"
    and "(if msg_type m = QUERY_AUTHORIZATION then handle_trqp_authorization else handle_trqp_recognition)
           (nd_rfc3339 nd) repo t1 t2 (Ok \<lparr>in_ids = ids, in_context = None\<rparr>) s = (http, s'')"
  shows "view s' = view s \<and> view s'' = view s \<and>
    (case http of
       Ok o1 \<Rightarrow> msg_body reply = output_json o1
     | Err (NotFound e d) \<Rightarrow> msg_body reply = JObj []
     | Err e \<Rightarrow> True)"
proof -
  let ?i = "\<lparr>in_ids = ids, in_context = None\<rparr>"
  let ?auth = "msg_type m = QUERY_AUTHORIZATION"
  note l = trust_repository.trqp_message_law [OF assms(1,2,3,5)]
  have body: "msg_body reply = trqp_output_body (nd_rfc3339 nd) ?auth t1 t2 (view s (kq (query_from_ids ids)))"
    using l(3) assms(6,7) by auto
  obtain r1 s1 where t: "handle_trqp repo (Ok ?i) s = (r1, s1)" by fastforce
  note tl = trust_repository.trqp_law [OF assms(1,2) t]
  have s1: "s'' = s1" using assms(8) t
    by (auto simp: handle_trqp_authorization_def handle_trqp_recognition_def Let_def
        split: result.splits if_splits)
  show ?thesis
  proof (cases r1)
    case r: (Ok r)
    have v: "view s (kq (query_from_ids ids)) = Some r" using tl(3) [of ?i r] r by simp
    have "http = Ok \<lparr>out_record = (if ?auth then none_recognized r else none_authorized r),
        out_requested = nd_rfc3339 nd t1, out_evaluated = nd_rfc3339 nd t2,
        out_message = (if ?auth then authorized_message (none_recognized r)
                       else recognized_message (none_authorized r))\<rparr>"
      using assms(8) t r
      by (auto simp: handle_trqp_authorization_def handle_trqp_recognition_def Let_def split: if_splits)
    then show ?thesis using body v l(2) tl(2) s1 by (simp add: trqp_bodies_agree)
  next
    case e: (Err e)
    have h: "http = Err e" using assms(8) t e
      by (auto simp: handle_trqp_authorization_def handle_trqp_recognition_def split: if_splits)
    show ?thesis
      using h e body l(2) tl(2) tl(4) [of ?i] s1
      by (cases e) (auto simp: trqp_output_body_def jobj_def bt_of_def)
  qed
qed

definition sample_atm :: atm where
  "sample_atm = \<lparr>at_pack = (\<lambda>m r. Ok (msg_id m)), at_mediator = Some ''did:mediator'',
     at_forward = (\<lambda>p m r. Ok ()), at_ids = (\<lambda>n. ''out'' @ show_nat n)\<rparr>"

definition sample_node :: "(local_storage, cap_states, memory_store) node" where
  "sample_node = \<lparr>nd_repo = local_repo, nd_store = memory_cap_store, nd_ids = memory_ids,
     nd_fw = sample_framework, nd_wire = sample_wire, nd_deployment = sample_deployment,
     nd_de_error = (\<lambda>e. ''invalid body''), nd_atm = sample_atm, nd_rfc3339 = (\<lambda>t. ''now''),
     nd_envelope_type = ''envelope'', nd_alias = ''tr''\<rparr>"

definition didcomm_msg :: "string \<Rightarrow> string \<Rightarrow> json \<Rightarrow> message" where
  "didcomm_msg sender typ body = \<lparr>msg_id = ''m7'', msg_type = typ, msg_from = Some sender,
     msg_to = [''did:registry''], msg_thid = None, msg_pthid = None, msg_body = body\<rparr>"

definition query_message :: message where
  "query_message = didcomm_msg ''did:peer'' QUERY_AUTHORIZATION (record_member ''did:e'' ''did:a'')"

theorem trqp_bindings_agree_witness:
  "\<exists>reply o1. snd (handle_trqp_message sample_node (base_context sample_node query_message) 1 2
       query_message (local_with_records [sample_record])) =
       ([reply], local_with_records [sample_record]) \<and> msg_body reply = output_json o1"
proof -
  let ?s = "local_with_records [sample_record]" and ?nd = sample_node
  let ?ids = "\<lparr>ids_entity = EntityId ''did:e'', ids_authority = AuthorityId ''did:a'',
    ids_action = Action ''sign'', ids_resource = Resource ''repo''\<rparr>"
  have inv: "local_inv ?s"
    using local_with_records_fold [OF local_new_inv(1), of "[sample_record]"]
    by (simp add: local_with_records_def Let_def)
  define x where "x = handle_trqp_message ?nd (base_context ?nd query_message) 1 2 query_message ?s"
  have "fst x = Ok ()" "length (fst (snd x)) = 1" "snd (snd x) = ?s"
    unfolding x_def by (code_simp, code_simp, code_simp)
  then obtain reply where m: "handle_trqp_message ?nd (base_context ?nd query_message) 1 2 query_message ?s =
      (Ok (), [reply], ?s)"
    unfolding x_def [symmetric] by (metis One_nat_def length_0_conv length_Suc_conv prod.collapse)
  have q: "query_from_json (msg_body query_message) = Ok (query_from_ids ?ids)"
    "msg_type query_message \<in> {QUERY_AUTHORIZATION, QUERY_RECOGNITION}"
    "msg_type query_message = QUERY_AUTHORIZATION" "nd_repo ?nd = local_repo"
    by (code_simp, simp_all add: query_message_def didcomm_msg_def sample_node_def)
  define h where "h = handle_trqp_authorization (nd_rfc3339 ?nd) local_repo 1 2
      (Ok \<lparr>in_ids = ?ids, in_context = None\<rparr>) ?s"
  have "is_ok (fst h)" unfolding h_def by code_simp
  then obtain o1 s2 where h: "handle_trqp_authorization (nd_rfc3339 ?nd) local_repo 1 2
      (Ok \<lparr>in_ids = ?ids, in_context = None\<rparr>) ?s = (Ok o1, s2)"
    unfolding h_def [symmetric] by (metis is_ok.elims(2) prod.collapse)
  show ?thesis
    using trqp_bindings_agree [OF local.trust_repository_axioms inv q(4,2) m _ q(1), of reply "Ok o1" s2] h q(3) m
    by auto
qed

section \<open>Record administration\<close>

text \<open>C26: A record-administration message from a sender that is not a configured administrator changes
  nothing, is written to the audit trail once, as unauthorised, with the sender and the thread,
  and is answered with at most a problem report to the sender, in the thread of the message.\<close>

theorem non_admin_refused:
  assumes "hx_sender_did ctx \<notin> set (ac_admin_dids cfg)"
    and "handle_admin cfg repo a ctx now m s = ((logs, out), s')"
  shows "s' = s \<and>
    (\<exists>entry. logs = [entry] \<and> al_status entry = AuditUnauthorized \<and> al_actor entry = hx_sender_did ctx \<and>
       al_operation entry = operation_of (msg_type m) \<and> al_thread_id entry = hx_thid ctx) \<and>
    (\<forall>o1 \<in> set out. msg_type o1 = PROBLEM_REPORT_TYPE \<and> msg_to o1 = [hx_sender_did ctx] \<and>
       (\<forall>t. hx_thid ctx = Some t \<longrightarrow> msg_thid o1 = Some t) \<and>
       get_str (msg_body o1) ''code'' = Some ERROR_UNAUTHORIZED)"
proof -
  have "out = [] \<or> out = [build_problem_report a ctx (pr_unauthorized
      (''Unauthorized: DID '' @ hx_sender_did ctx @ '' is not in admin list''))]"
    using assms by (auto simp: handle_admin_def validate_admin_did_def handle_unauthorized_def
        send_problem_report_def send_message_out split: if_splits)
  then show ?thesis
    using assms
    by (auto simp: handle_admin_def validate_admin_did_def handle_unauthorized_def audit_entry_def
        audit_builder build_problem_report_def response_threads report_body_def get_str_def json_get_jobj
        pr_unauthorized_def problem_report_new_def)
qed

definition create_message :: "string \<Rightarrow> message" where
  "create_message sender = didcomm_msg sender CREATE_RECORD (record_member ''did:e'' ''did:a'')"

theorem non_admin_refused_witness:
  "let ((logs, out), s') = handle_admin (node_admin sample_node) local_repo sample_atm
       (base_context sample_node (create_message ''did:peer'')) 5 (create_message ''did:peer'') local_new in
   s' = local_new \<and> length logs = 1"
proof -
  obtain logs out s' where r: "handle_admin (node_admin sample_node) local_repo sample_atm
      (base_context sample_node (create_message ''did:peer'')) 5 (create_message ''did:peer'') local_new =
      ((logs, out), s')" by (metis prod.exhaust)
  have "hx_sender_did (base_context sample_node (create_message ''did:peer'')) \<notin>
      set (ac_admin_dids (node_admin sample_node))" by code_simp
  from non_admin_refused [OF this r] show ?thesis by (auto simp: r)
qed

text \<open>C27: Every record-administration request of an administrator writes exactly one audit entry, with
  the operation, the sender and the thread.  The entry says success exactly when the operation
  reported success, and then the request was carried out: a created record was absent and is
  there, an updated one was there and is replaced, a deleted one was there and is gone, a record
  read was there, and reads and lists change nothing.  It says failure exactly when the operation
  reported an error; then the records are unchanged on a backend whose failed writes have no
  effect, and on the others (CSV file, Redis, fjall), where a write may take effect although it
  fails, they are unchanged or the request was carried out.\<close>

theorem admin_requests_audited:
  assumes "trust_repository repo atomic kr kq view good" "good s"
    and "hx_sender_did ctx \<in> set (ac_admin_dids cfg)" "msg_type m \<in> set admin_message_types"
    and "handle_admin cfg repo a ctx now m s = ((logs, out), s')"
  shows "good s' \<and> (\<exists>entry. logs = [entry] \<and> al_actor entry = hx_sender_did ctx \<and>
     al_operation entry = operation_of (msg_type m) \<and> al_thread_id entry = hx_thid ctx \<and>
     (al_status entry = AuditSuccess \<longleftrightarrow> (\<exists>j. run_admin cfg repo (msg_type m) (msg_body m) s = Some (Ok j, s'))) \<and>
     (al_status entry = AuditFailure \<longleftrightarrow> (\<exists>e. run_admin cfg repo (msg_type m) (msg_body m) s = Some (Err e, s'))) \<and>
     (al_status entry = AuditSuccess \<and>
        carried_out (ac_de_error cfg) kr kq (operation_of (msg_type m)) (msg_body m) (view s) (view s') \<or>
      al_status entry = AuditFailure \<and>
        (view s' = view s \<or> \<not> atomic \<and>
           carried_out (ac_de_error cfg) kr kq (operation_of (msg_type m)) (msg_body m) (view s) (view s'))))"
proof -
  obtain res s1 where run: "run_admin cfg repo (msg_type m) (msg_body m) s = Some (res, s1)"
  proof -
    have "run_admin cfg repo (msg_type m) (msg_body m) s \<noteq> None"
      using assms(4) by (auto simp: run_admin_def admin_message_types_def)
    then show thesis using that by fastforce
  qed
  have h: "handle_request cfg repo a ctx now m s = ((logs, out), s')"
    using assms(3,5) by (simp add: handle_admin_def validate_admin_did_def)
  note l = trust_repository.admin_run_law [OF assms(1,2) run]
  show ?thesis
  proof (cases res)
    case (Ok j)
    have "logs = [build_success now (audit_entry ctx (operation_of (msg_type m)) (extract_audit_resource m) now)]"
      "s' = s1"
      using h run Ok by (simp_all add: handle_request_def Let_def handle_success_def)
    then show ?thesis using l(1) l(2) [OF Ok] run Ok by (simp add: audit_entry_def audit_builder)
  next
    case (Err e)
    have "logs = [build_failure e now (audit_entry ctx (operation_of (msg_type m)) (extract_audit_resource m) now)]"
      "s' = s1"
      using h run Err by (simp_all add: handle_request_def Let_def handle_failure_def)
    then show ?thesis using l(1) l(3) [OF Err] run Err by (simp add: audit_entry_def audit_builder)
  qed
qed

theorem admin_requests_audited_witness:
  "let ((logs, out), s') = handle_admin (node_admin sample_node) local_repo sample_atm
       (base_context sample_node (create_message ''did:admin'')) 5 (create_message ''did:admin'') local_new in
   al_status (hd logs) = AuditSuccess \<and> (\<exists>k r. local_view s' = (local_view local_new)(k \<mapsto> r))"
proof -
  let ?m = "create_message ''did:admin''"
  define x where "x = handle_admin (node_admin sample_node) local_repo sample_atm (base_context sample_node ?m) 5 ?m local_new"
  obtain logs out s' where r: "x = ((logs, out), s')" by (metis prod.exhaust)
  have c: "hx_sender_did (base_context sample_node ?m) \<in> set (ac_admin_dids (node_admin sample_node))"
    "msg_type ?m \<in> set admin_message_types" "operation_of (msg_type ?m) = OpCreate"
    "al_status (hd (fst (fst x))) = AuditSuccess"
    unfolding x_def by (code_simp, code_simp, code_simp, code_simp)
  show ?thesis
    using admin_requests_audited [OF local.trust_repository_axioms local_new_inv(1) c(1,2) r [unfolded x_def]] c(3,4)
    unfolding x_def [symmetric] r by (auto simp: carried_out_def)
qed

text \<open>The JSON audit entry of a failed or refused request is always written, but its error member
  holds the message only up to the first equality sign; the text entry ends with the whole
  message and its key twice.\<close>

theorem audit_failure_formats:
  "(\<exists>j. audit_emit rfc LogJson (build_failure e now b) = EmittedJson j \<and>
      json_get j ''audit.error'' = Some (JStr (takeWhile (\<lambda>c. c \<noteq> CHR ''='') e)) \<and>
      json_get j ''status'' = Some (JStr ''FAILURE'')) \<and>
   (\<exists>p. audit_emit rfc LogText (build_failure e now b) =
      EmittedText (p @ '' audit.error=audit.error='' @ e))"
proof -
  have t: "emit_text rfc (build_failure e now b) = (audit_headline (build_failure e now b) @ ''FAILURE: '' @
      (''audit.error='' @ e) @ '' | '' @ join_str '' '' (audit_log_parts rfc (build_failure e now b))) @
      '' audit.error=audit.error='' @ e"
  proof -
    have "text_and_extra (build_failure e now b) =
        (audit_headline (build_failure e now b) @ ''FAILURE: '' @ (''audit.error='' @ e),
         Some (''audit.error'', ''audit.error='' @ e))"
      by (simp add: text_and_extra_def build_failure_def)
    then show ?thesis by (simp add: emit_text_def join_str_snoc)
  qed
  have "\<exists>j. emit_json rfc (build_failure e now b) = Some j \<and>
      json_get j ''audit.error'' = Some (JStr (takeWhile (\<lambda>c. c \<noteq> CHR ''='') e)) \<and>
      json_get j ''status'' = Some (JStr ''FAILURE'')"
    using extra_of_failure(1) [of e now b]
    by (simp add: emit_json_def json_get_jobj) (simp add: build_failure_def)
  then show ?thesis using exI [of _ "_ @ _"] t by (auto simp: audit_emit_def simp del: append.simps append_assoc)
qed

section \<open>The whole node\<close>

text \<open>C18: Any DIDComm message a node receives, whatever its type, changes the trust records, the
  capability set or the store of message ids only if its sender is a configured administrator and
  it is either a record-administration message or a trust task that is a write with a proof that
  verifies; TRQP queries, problem reports and unknown types change nothing.\<close>

theorem didcomm_node_gate:
  assumes "trust_repository repo atomic kr kq view good" "nd_repo nd = repo" "framework_ok (nd_fw nd)"
    and "good s" "git_only cs" "cap_in_force sts cs"
    and "base_handle nd ce t2 m d (s, cs) = (res, eff, d', s', cs')"
  shows "view s' = view s \<and> cs' = cs \<and> d' = d \<or>
    (\<exists>sender \<in> set (dp_admins (nd_deployment nd)).
       msg_from m = Some sender \<or> msg_from m = None \<and> sender = ''anon'') \<and>
    (msg_type m \<in> set admin_message_types \<or>
     msg_type m = nd_envelope_type nd \<and>
       (\<exists>doc. wi_parse_value (nd_wire nd) (msg_body m) = Ok doc \<and> is_write (nd_fw nd) doc \<and>
          tk_proof doc \<noteq> None \<and> fw_verify (nd_fw nd) doc = Ok ()))"
  by (rule base_handle_gate [OF assms])

theorem didcomm_node_gate_witness:
  "\<not> (local_view (fst (snd (snd (snd (base_handle sample_node sample_call 2000 (create_message ''did:peer'')
        memory_default (local_new, cap_set_of [])))))) \<noteq> local_view local_new)"
proof -
  obtain res eff d' s' cs' where r: "base_handle sample_node sample_call 2000 (create_message ''did:peer'')
      memory_default (local_new, cap_set_of []) = (res, eff, d', s', cs')" by (metis prod.exhaust)
  have n: "nd_repo sample_node = local_repo" "framework_ok (nd_fw sample_node)"
    "dp_admins (nd_deployment sample_node) = [''did:admin'']" "msg_from (create_message ''did:peer'') = Some ''did:peer''"
    by (simp_all add: sample_node_def sample_framework_ok sample_deployment_def create_message_def didcomm_msg_def)
  show ?thesis
    using didcomm_node_gate [OF local.trust_repository_axioms n(1,2) local_new_inv(1) cap_set_of_simps(1,2) r] n(3,4)
    by (simp add: r)
qed

end
