(* ===== verification/Listener.thy ===== *)
theory Listener
  imports Configuration Didcomm_Handlers
begin

text \<open>
  The DIDComm listener, \<open>didcomm/listener\<close>: the check that the DID document can be fetched, with
  doubling delays at 64 bits; building the listener and attaching the TSP route; the access list;
  what a frame of the live stream and an offline delivery spawn and acknowledge.  The web client,
  the mediator protocols and URL decoding are parameters.
\<close>

section \<open>Is the DID document published?\<close>

record web =
  web_decode :: "string \<Rightarrow> string option"
  web_client :: "(unit, string) result"
  web_get :: "string \<Rightarrow> nat \<Rightarrow> (nat, string) result"

definition did_document_url :: "web \<Rightarrow> string \<Rightarrow> (string option, didcomm_error) result" where
  "did_document_url web did =
     (case strip_prefix ''did:web:'' did of
        None \<Rightarrow> Ok None
      | Some did_path \<Rightarrow>
          (let parts = split_char (CHR '':'') did_path in
           bind_ok (ok_or (web_decode web (hd parts)) InvalidDid) (\<lambda>domain.
           Ok (Some (if length parts > 1
                     then ''https://'' @ domain @ ''/'' @ join_str ''/'' (tl parts) @ ''/did.json''
                     else ''https://'' @ domain @ ''/.well-known/did.json'')))))"

definition is_success :: "nat \<Rightarrow> bool" where
  "is_success status \<longleftrightarrow> 200 \<le> status \<and> status < 300"

text \<open>
  The attempts that are left, the current one, and the delay before the next.  The answer, the
  delays that were slept and the number of requests.
\<close>

fun check_attempts ::
  "(nat \<Rightarrow> (nat, string) result) \<Rightarrow> 64 word \<Rightarrow> nat \<Rightarrow> nat \<Rightarrow> 64 word \<Rightarrow>
   (unit, didcomm_error) result \<times> 64 word list \<times> nat" where
  "check_attempts get max_delay 0 attempt delay = (Err UnreachableDidDocument, [], 0)"
| "check_attempts get max_delay (Suc left) attempt delay =
     (if case get attempt of Ok status \<Rightarrow> is_success status | Err e \<Rightarrow> False then (Ok (), [], 1)
      else if left = 0 then (Err UnreachableDidDocument, [], 1)
      else case check_attempts get max_delay left (Suc attempt) (min (delay * 2) max_delay) of
             (res, delays, n) \<Rightarrow> (res, delay # delays, Suc n))"

definition check_did_document ::
  "web \<Rightarrow> string \<Rightarrow> retry_config \<Rightarrow> (unit, didcomm_error) result \<times> 64 word list \<times> nat" where
  "check_did_document web did rc =
     (case did_document_url web did of
        Err e \<Rightarrow> (Err e, [], 0)
      | Ok None \<Rightarrow> (Ok (), [], 0)
      | Ok (Some url) \<Rightarrow>
          (case web_client web of
             Err e \<Rightarrow> (Err (HttpRequest e), [], 0)
           | Ok _ \<Rightarrow> check_attempts (web_get web url) (rt_max_delay rc) (unat (rt_max_attempts rc)) 1 (rt_initial_delay rc)))"

section \<open>Building and starting\<close>

text \<open>The SDK calls that build a listener: any of them may fail, the last two may time out.\<close>

record listener_sdk =
  ls_config :: "(unit, string) result"
  ls_tdk :: "(unit, string) result"
  ls_atm :: bool
  ls_profile :: "(unit, string) result"
  ls_profile_add :: "((unit, string) result, string) result"

definition build_listener :: "listener_sdk \<Rightarrow> (unit, didcomm_error) result" where
  "build_listener sdk =
     bind_ok (map_err TdkFailed (ls_config sdk)) (\<lambda>_.
     bind_ok (map_err TdkFailed (ls_tdk sdk)) (\<lambda>_.
     bind_ok (if ls_atm sdk then Ok () else Err MissingATM) (\<lambda>_.
     bind_ok (map_err AtmFailed (ls_profile sdk)) (\<lambda>_.
     bind_ok (map_err ElapsedTimeout (ls_profile_add sdk)) (\<lambda>added.
     map_err AtmFailed added)))))"

text \<open>
  The same calls for a client of the registry: every error becomes a text, and the alias is quoted
  (\<open>dbg\<close>) in that of the timeout.
\<close>

definition prepare_atm_and_profile :: "(string \<Rightarrow> string) \<Rightarrow> listener_sdk \<Rightarrow> string \<Rightarrow> (unit, string) result" where
  "prepare_atm_and_profile dbg sdk alias =
     bind_ok (ls_config sdk) (\<lambda>_.
     bind_ok (ls_tdk sdk) (\<lambda>_.
     bind_ok (if ls_atm sdk then Ok () else Err ''Failed to initialize ATM client'') (\<lambda>_.
     bind_ok (ls_profile sdk) (\<lambda>_.
     (case ls_profile_add sdk of
        Err e \<Rightarrow> Err (''Failed to add profile: '' @ dbg alias @ '', error: '' @ e)
      | Ok added \<Rightarrow> added)))))"

record tsp_context =
  tc_admin_dids :: "string list"

record listener =
  li_tsp :: "tsp_context option"
  li_acl_mode :: acl_mode

datatype listener_outcome = Stopped didcomm_error | Listening listener

definition attach_tsp :: "bool \<Rightarrow> didcomm_config \<Rightarrow> tsp_context option" where
  "attach_tsp tsp_built cfg =
     (if tsp_built \<and> tf_tsp (dm_flags cfg) then Some \<lparr>tc_admin_dids = dm_admin_dids cfg\<rparr> else None)"

definition start_one_did_listener ::
  "bool \<Rightarrow> web \<Rightarrow> listener_sdk \<Rightarrow> didcomm_config \<Rightarrow> listener_outcome" where
  "start_one_did_listener tsp_built web sdk cfg =
     (case fst (check_did_document web (pc_did (dm_profile cfg)) (dm_retry cfg)) of
        Err e \<Rightarrow> Stopped e
      | Ok _ \<Rightarrow>
          (case build_listener sdk of
             Err e \<Rightarrow> Stopped e
           | Ok _ \<Rightarrow> Listening \<lparr>li_tsp = attach_tsp tsp_built cfg,
               li_acl_mode = (if dm_acl_mode cfg = ExplicitAllow then ExplicitAllow else ExplicitDeny)\<rparr>))"

text \<open>The access list of the account at the mediator.\<close>

record 'a mediator =
  md_account_get :: "(nat option, string) result"
  md_set_mode :: "nat \<Rightarrow> acl_mode \<Rightarrow> (nat, string) result"
  md_acls_set :: "nat \<Rightarrow> 'a \<Rightarrow> (unit, string) result \<times> 'a"

definition set_acls_mode :: "'a mediator \<Rightarrow> string \<Rightarrow> acl_mode \<Rightarrow> 'a \<Rightarrow> (unit, string) result \<times> 'a" where
  "set_acls_mode md alias mode a =
     (case bind_ok (md_account_get md) (\<lambda>info.
           bind_ok (ok_or info (''[profile = '' @ alias @ ''] Failed to get account info'')) (\<lambda>acls.
           md_set_mode md acls mode)) of
        Err e \<Rightarrow> (Err e, a)
      | Ok acls \<Rightarrow> md_acls_set md acls a)"

section \<open>Frames\<close>

datatype frame = F_Didcomm message | F_Tsp string | F_Other

datatype job = Handle_Didcomm message | Handle_Tsp string "string list"

definition frame_job :: "bool \<Rightarrow> listener \<Rightarrow> frame option \<Rightarrow> job option" where
  "frame_job tsp_built li f =
     (case f of
        Some (F_Didcomm m) \<Rightarrow> Some (Handle_Didcomm m)
      | Some (F_Tsp packed) \<Rightarrow>
          if tsp_built then map_option (\<lambda>t. Handle_Tsp packed (tc_admin_dids t)) (li_tsp li) else None
      | Some F_Other \<Rightarrow> None
      | None \<Rightarrow> None)"

text \<open>One turn of the receive loop: an error of the stream is logged.\<close>

definition process_next_message :: "bool \<Rightarrow> listener \<Rightarrow> (frame option, string) result \<Rightarrow> job list" where
  "process_next_message tsp_built li frame =
     (case frame of Err e \<Rightarrow> [] | Ok f \<Rightarrow> (case frame_job tsp_built li f of Some j \<Rightarrow> [j] | None \<Rightarrow> []))"

text \<open>
  The periodic synchronisation: the number of queued messages, at most one hundred of them with
  their ids, and the acknowledgement.  What is spawned, and the ids the mediator is told to delete.
  Without the \<open>tsp\<close> feature the delivery holds DIDComm messages only, with the ids of the messages.
\<close>

definition MESSAGES_LIMIT :: nat where "MESSAGES_LIMIT = 100"

record pickup =
  pk_status :: "(nat option, string) result"
  pk_delivery :: "nat \<Rightarrow> ((frame option \<times> string) list, string) result"
  pk_received :: "string list \<Rightarrow> (bool, string) result"

definition sync_offline :: "bool \<Rightarrow> listener \<Rightarrow> pickup \<Rightarrow> (unit, string) result \<times> job list \<times> string list" where
  "sync_offline tsp_built li pk =
     (case pk_status pk of
        Err e \<Rightarrow> (Err e, [], [])
      | Ok status \<Rightarrow>
          if (case status of Some n \<Rightarrow> n | None \<Rightarrow> 0) = 0 then (Ok (), [], [])
          else case pk_delivery pk MESSAGES_LIMIT of
            Err e \<Rightarrow> (Err e, [], [])
          | Ok frames \<Rightarrow>
              (let ids = map snd frames;
                   jobs = List.map_filter (\<lambda>(f, i). frame_job tsp_built li f) frames
               in case pk_received pk ids of
                    Err e \<Rightarrow> (Err e, jobs, ids)
                  | Ok replied \<Rightarrow> (Ok (), jobs, ids)))"

section \<open>Running the jobs\<close>

text \<open>A spawned job on the node; its replies go out, its errors are logged.\<close>

definition run_job ::
  "('s, 'c, 'd) node \<Rightarrow> call_env \<Rightarrow> int \<Rightarrow> (string \<Rightarrow> nat \<Rightarrow> (string \<times> string, atm_error) result) \<Rightarrow> job \<Rightarrow>
   'd \<Rightarrow> ('s, 'c) registry \<Rightarrow> 'd \<times> ('s, 'c) registry" where
  "run_job nd ce t2 unpack j d w =
     (case j of
        Handle_Didcomm m \<Rightarrow> (case base_handle nd ce t2 m d w of (res, eff, d1, w1) \<Rightarrow> (d1, w1))
      | Handle_Tsp packed admins \<Rightarrow>
          (case process_tsp_frame (nd_fw nd) (nd_wire nd) (nd_repo nd) (nd_store nd) (nd_ids nd)
                  (nd_deployment nd\<lparr>dp_admins := admins\<rparr>) ce t2 (unpack packed) d w of
             (out, d1, w1) \<Rightarrow> (d1, w1)))"

text \<open>Who may have sent a frame: the sender of the message, whoever an unpacking names.\<close>

definition message_sender :: "message \<Rightarrow> string" where
  "message_sender m = (case msg_from m of Some f \<Rightarrow> f | None \<Rightarrow> ''anon'')"

fun frame_senders :: "(string \<Rightarrow> nat \<Rightarrow> (string \<times> string, atm_error) result) \<Rightarrow> frame \<Rightarrow> string set" where
  "frame_senders unpack (F_Didcomm m) = {message_sender m}"
| "frame_senders unpack (F_Tsp packed) = {sender. \<exists>n payload. unpack packed n = Ok (payload, sender)}"
| "frame_senders unpack F_Other = {}"

section \<open>Lemmas\<close>

text \<open>The availability check: what it answers, how often it asks, how long it waits.\<close>

lemma check_attempts_spec:
  assumes "check_attempts get m left a d = (res, delays, n)"
  shows "n \<le> left \<and> (left > 0 \<longrightarrow> 0 < n \<and> length delays = n - 1) \<and> (left = 0 \<longrightarrow> n = 0 \<and> delays = []) \<and>
    (res = Ok () \<longrightarrow> 0 < n \<and> (\<exists>st. get (a + n - 1) = Ok st \<and> is_success st)) \<and>
    (res \<noteq> Ok () \<longrightarrow> res = Err UnreachableDidDocument \<and> n = left) \<and>
    (\<forall>i. i + 1 < n \<or> res \<noteq> Ok () \<and> i < n \<longrightarrow> (\<forall>st. get (a + i) = Ok st \<longrightarrow> \<not> is_success st)) \<and>
    (delays \<noteq> [] \<longrightarrow> delays ! 0 = d) \<and> (\<forall>i < length delays. 0 < i \<longrightarrow> delays ! i \<le> m)"
  using assms
proof (induction get m left a d arbitrary: res delays n rule: check_attempts.induct)
  case (2 get m left a d)
  let ?ok = "case get a of Ok status \<Rightarrow> is_success status | Err e \<Rightarrow> False"
  show ?case
  proof (cases "?ok \<or> left = 0")
    case True
    then show ?thesis using "2.prems" by (auto split: result.splits if_splits)
  next
    case False
    obtain r ds k where c: "check_attempts get m left (Suc a) (min (d * 2) m) = (r, ds, k)"
      by (metis prod.exhaust)
    have e: "res = r" "delays = d # ds" "n = Suc k"
      using "2.prems" False c by (simp_all split: if_splits)
    have nok: "\<not> ?ok" and l: "left \<noteq> 0" using False by auto
    note ih = "2.IH" [OF nok l c]
    have fail: "\<forall>st. get a = Ok st \<longrightarrow> \<not> is_success st" using nok by auto
    have ds: "ds ! i \<le> m" if "i < length ds" for i
      using ih that by (cases i) (auto simp: min_le_iff_disj)
    have "(\<forall>i. i + 1 < n \<or> res \<noteq> Ok () \<and> i < n \<longrightarrow> (\<forall>st. get (a + i) = Ok st \<longrightarrow> \<not> is_success st))"
    proof (intro allI impI)
      fix i st assume i: "i + 1 < n \<or> res \<noteq> Ok () \<and> i < n" and g: "get (a + i) = Ok st"
      show "\<not> is_success st"
      proof (cases i)
        case 0
        then show ?thesis using fail g by simp
      next
        case (Suc j)
        then have "j + 1 < k \<or> r \<noteq> Ok () \<and> j < k" using i e by auto
        then show ?thesis using ih g Suc by auto
      qed
    qed
    moreover have "delays ! i \<le> m" if "i < length delays" "0 < i" for i
      using ds [of "i - 1"] that e by (cases i) auto
    ultimately show ?thesis using ih e l by auto
  qed
qed simp

text \<open>Without overflow the delays double up to the cap.\<close>

lemma min_double: "min (2 ^ j * min (x * 2) m) m = min (2 ^ Suc j * x) (m :: nat)"
proof (cases "x * 2 \<le> m")
  case True
  then have "2 ^ j * min (x * 2) m = 2 ^ Suc j * x" by (simp add: min_absorb1)
  then show ?thesis by simp
next
  case False
  have "x * 2 \<le> 2 ^ j * (x * 2)" by simp
  then have "m \<le> 2 ^ Suc j * x" using False by (simp only: power_Suc mult.assoc mult.commute mult.left_commute)
  moreover have "m \<le> 2 ^ j * m" by simp
  ultimately show ?thesis using False by (simp add: min_absorb2)
qed

lemma check_attempts_doubling:
  assumes "check_attempts get m left a d = (res, delays, n)" "i < length delays"
    and "unat d < 2 ^ 63" "unat m < 2 ^ 63"
  shows "unat (delays ! i) = (if i = 0 then unat d else min (2 ^ i * unat d) (unat m))"
  using assms
proof (induction get m left a d arbitrary: res delays n i rule: check_attempts.induct)
  case (2 get m left a d)
  let ?ok = "case get a of Ok status \<Rightarrow> is_success status | Err e \<Rightarrow> False"
  have f: "\<not> ?ok" "left \<noteq> 0" using "2.prems"(1,2) by (auto split: if_splits)
  obtain r ds k where c: "check_attempts get m left (Suc a) (min (d * 2) m) = (r, ds, k)"
    by (metis prod.exhaust)
  have e: "delays = d # ds" using "2.prems"(1) f c by (simp split: if_splits)
  have dbl: "unat (d * 2) = unat d * 2"
    using "2.prems"(3) by (subst unat_mult_lem [THEN iffD1]) auto
  have mn: "unat (min (d * 2) m) = min (unat d * 2) (unat m)"
    using dbl by (auto simp: min_def word_le_nat_alt)
  have lt: "unat (min (d * 2) m) < 2 ^ 63" using mn "2.prems"(4) by simp
  show ?case
  proof (cases i)
    case 0
    then show ?thesis using e by simp
  next
    case (Suc j)
    have "j < length ds" using "2.prems"(2) e Suc by simp
    from "2.IH" [OF f c this lt "2.prems"(4)] show ?thesis
      using e Suc min_double [of j "unat d" "unat m"] unfolding mn by (cases j) (simp_all add: mult.commute)
  qed
qed simp

text \<open>A client connects exactly when a listener is built.\<close>

lemma prepare_iff_build:
  "prepare_atm_and_profile dbg sdk alias = Ok () \<longleftrightarrow> build_listener sdk = Ok ()"
  by (auto simp: prepare_atm_and_profile_def build_listener_def split: result.splits)

text \<open>A job whose sender is no administrator changes nothing.\<close>

context trust_repository
begin

lemma dispatch_outsider:
  assumes "inv s" "framework_ok fw" "git_only cs" "cap_in_force sts cs"
    and "admit fw dp ce sender doc = Ok u" "sender \<notin> set (dp_admins dp)"
    and "dispatch_admin fw repo store ids ce t2 doc d (s, cs) = (out, d', s', cs')"
  shows "inv s' \<and> view s' = view s \<and> cs' = cs \<and> d' = d"
  using admin_change_needs_write [OF assms(1-4) _ assms(7)] admit_Ok(1) [OF assms(5)] assms(6) by blast

lemma run_job_outsider:
  assumes "inv s" "nd_repo nd = repo" "framework_ok (nd_fw nd)" "git_only cs" "cap_in_force sts cs"
    and "frame_job built li (Some f) = Some j" "li_tsp li = None \<or> li_tsp li = Some \<lparr>tc_admin_dids = dp_admins (nd_deployment nd)\<rparr>"
    and "frame_senders unpack f \<inter> set (dp_admins (nd_deployment nd)) = {}"
    and "run_job nd ce t2 unpack j d (s, cs) = (d', s', cs')"
  shows "inv s' \<and> view s' = view s \<and> cs' = cs \<and> d' = d"
proof (cases f)
  case (F_Didcomm m)
  let ?ctx = "base_context nd m"
  have j: "j = Handle_Didcomm m" using assms(6) F_Didcomm by (simp add: frame_job_def)
  have sd: "hx_sender_did ?ctx \<notin> set (dp_admins (nd_deployment nd))"
    using assms(8) F_Didcomm by (simp add: message_sender_def base_context_def)
  obtain res eff where b: "base_handle nd ce t2 m d (s, cs) = (res, eff, d', s', cs')"
    using assms(9) j by (auto simp: run_job_def split: prod.splits)
  show ?thesis
  proof (cases "route_message nd m")
    case None
    then show ?thesis using b assms(1) by (simp add: base_handle_def Let_def)
  next
    case (Some p)
    show ?thesis
    proof (cases p)
      case P_Trqp
      obtain r o1 s1 where t: "handle_trqp_message nd ?ctx (ce_now ce) t2 m s = (r, o1, s1)" by (metis prod.exhaust)
      show ?thesis using trqp_message_law(1,2) [OF assms(1,2) t] b Some P_Trqp t by (simp add: base_handle_def Let_def)
    next
      case P_Admin
      show ?thesis using b Some P_Admin sd assms(1)
        by (auto simp: base_handle_def Let_def handle_admin_def validate_admin_did_def node_admin_def)
    next
      case P_Problem_Report
      then show ?thesis using b Some assms(1) by (simp add: base_handle_def Let_def)
    next
      case P_Trust_Tasks
      obtain rep d1 s1 cs1 where t: "didcomm_trust_task (nd_fw nd) (nd_wire nd) repo (nd_store nd) (nd_ids nd)
          (nd_deployment nd) ce t2 (hx_sender_did ?ctx) (msg_body m) d (s, cs) = (rep, d1, s1, cs1)"
        by (metis prod.exhaust)
      have e: "(d', s', cs') = (d1, s1, cs1)"
        using assms(2) b Some P_Trust_Tasks t
        by (auto simp: base_handle_def Let_def handle_task_message_def split: option.splits)
      show ?thesis
      proof (cases "wi_parse_value (nd_wire nd) (msg_body m)")
        case (Err x)
        then show ?thesis using t e assms(1) by (simp add: didcomm_trust_task_def)
      next
        case (Ok doc)
        show ?thesis
        proof (cases "admit (nd_fw nd) (nd_deployment nd) ce (hx_sender_did ?ctx) doc")
          case (Err x)
          then show ?thesis using t e assms(1) Ok by (simp add: didcomm_trust_task_def)
        next
          case a: (Ok u)
          obtain o2 d2 s2 cs2 where r: "dispatch_admin (nd_fw nd) repo (nd_store nd) (nd_ids nd) ce t2 doc d (s, cs) =
              (o2, d2, s2, cs2)" by (metis prod.exhaust)
          show ?thesis using dispatch_outsider [OF assms(1,3-5) a sd r] t e assms(1) Ok a r
            by (auto simp: didcomm_trust_task_def split: if_splits)
        qed
      qed
    qed
  qed
next
  case (F_Tsp packed)
  have j: "j = Handle_Tsp packed (dp_admins (nd_deployment nd))"
    using assms(6,7) F_Tsp by (auto simp: frame_job_def split: if_splits)
  have dp: "nd_deployment nd\<lparr>dp_admins := dp_admins (nd_deployment nd)\<rparr> = nd_deployment nd" by simp
  obtain out where p: "process_tsp_frame (nd_fw nd) (nd_wire nd) repo (nd_store nd) (nd_ids nd) (nd_deployment nd)
      ce t2 (unpack packed) d (s, cs) = (out, d', s', cs')"
    using assms(2,9) j by (auto simp: run_job_def split: prod.splits)
  obtain res n sl where u: "retry_transient UNPACK_MAX_ATTEMPTS UNPACK_INITIAL_BACKOFF UNPACK_MAX_BACKOFF
      (unpack packed) = (res, n, sl)" by (metis prod.exhaust)
  show ?thesis
  proof (cases res)
    case (Err e)
    then show ?thesis using p u assms(1) by (simp add: process_tsp_frame_def)
  next
    case (Ok ps)
    obtain payload sender where ps: "ps = (payload, sender)" by fastforce
    have "unpack packed n = Ok (payload, sender)"
      using retry_loop_spec [OF u [unfolded retry_transient_def]] Ok ps
      by (auto simp: UNPACK_MAX_ATTEMPTS_def UNPACK_INITIAL_BACKOFF_def UNPACK_MAX_BACKOFF_def)
    then have sd: "sender \<notin> set (dp_admins (nd_deployment nd))" using assms(8) F_Tsp by auto
    show ?thesis
    proof (cases "parse_envelope (nd_wire nd) payload")
      case (Err e)
      then show ?thesis using p u Ok ps assms(1) by (simp add: process_tsp_frame_def)
    next
      case doc: (Ok doc)
      show ?thesis
      proof (cases "admit (nd_fw nd) (nd_deployment nd) ce sender doc")
        case (Err x)
        then show ?thesis using p u Ok ps doc assms(1) by (simp add: process_tsp_frame_def tsp_inbound_def)
      next
        case a: (Ok v)
        obtain o2 d2 s2 cs2 where r: "dispatch_admin (nd_fw nd) repo (nd_store nd) (nd_ids nd) ce t2 doc d (s, cs) =
            (o2, d2, s2, cs2)" by (metis prod.exhaust)
        show ?thesis using dispatch_outsider [OF assms(1,3-5) a sd r] p u Ok ps doc a r
          by (simp add: process_tsp_frame_def tsp_inbound_def)
      qed
    qed
  qed
qed (use assms(6) in \<open>simp add: frame_job_def\<close>)

end

end
