(* ===== verification/Server.thy ===== *)
theory Server
  imports Listener Trqp
begin

text \<open>
  The server as a whole: health of the write path (\<open>health.rs\<close>), supervision of the two tasks, CORS,
  the routes and the start sequence of \<open>server.rs\<close>.  Sockets and the CORS layer of the web framework
  are parameters; the order in which the tasks end is a list of events.
\<close>

section \<open>Health\<close>

datatype write_status = Writes_Ok | Writes_Disabled | Writes_Unavailable

fun write_status_str :: "write_status \<Rightarrow> string" where
  "write_status_str Writes_Ok = ''ok''"
| "write_status_str Writes_Disabled = ''disabled''"
| "write_status_str Writes_Unavailable = ''unavailable''"

fun is_degraded :: "write_status \<Rightarrow> bool" where
  "is_degraded Writes_Unavailable = True"
| "is_degraded _ = False"

record health =
  he_status :: write_status
  he_detail :: "string option"

definition health_new :: "bool \<Rightarrow> health" where
  "health_new didcomm_enabled =
     \<lparr>he_status = (if didcomm_enabled then Writes_Ok else Writes_Disabled), he_detail = None\<rparr>"

definition mark_writes_unavailable :: "string \<Rightarrow> health \<Rightarrow> health" where
  "mark_writes_unavailable detail h = h\<lparr>he_status := Writes_Unavailable, he_detail := Some detail\<rparr>"

definition health_json :: "health \<Rightarrow> json" where
  "health_json h = jobj (
     [(''status'', JStr (if is_degraded (he_status h) then ''degraded'' else ''OK'')),
      (''writes'', JStr (write_status_str (he_status h)))] @
     (case he_detail h of Some d \<Rightarrow> [(''detail'', JStr d)] | None \<Rightarrow> []))"

section \<open>Supervision\<close>

datatype task_exit = Exited | Failed string | Panicked string

fun describe_task_exit :: "task_exit \<Rightarrow> string" where
  "describe_task_exit Exited = ''didcomm listener exited cleanly''"
| "describe_task_exit (Failed e) = ''didcomm listener failed: '' @ e"
| "describe_task_exit (Panicked e) = ''didcomm listener panicked: '' @ e"

text \<open>
  The listener runs in a task of its own, joined by \<open>start_didcomm_listener\<close>: a panic there is a
  failure of the outer task, the listener's own result is dropped.
\<close>

datatype 'a join = Joined 'a | Join_Error string

text \<open>
  The task of the listener, joined: it panics, it stops before it listens, or it never ends, since the
  receive loop of \<open>Listener_Run\<close> has no exit.
\<close>

definition start_didcomm_listener :: "string option \<Rightarrow> listener_outcome \<Rightarrow> (unit, didcomm_error) result join option" where
  "start_didcomm_listener panic outcome =
     (case panic of
        Some p \<Rightarrow> Some (Join_Error p)
      | None \<Rightarrow> (case outcome of Stopped e \<Rightarrow> Some (Joined (Err e)) | Listening li \<Rightarrow> None))"

definition start_didcomm_server :: "(unit, didcomm_error) result join \<Rightarrow> task_exit" where
  "start_didcomm_server r = (case r of Join_Error e \<Rightarrow> Failed e | Joined _ \<Rightarrow> Exited)"

datatype task_event = Http_Exit task_exit | Didcomm_Exit task_exit

text \<open>
  \<open>ServerHandle::join\<close>: whether it returned, and the health it leaves, after the events so far.  The
  first argument says whether the listener task is still awaited.
\<close>

fun join_tasks :: "bool \<Rightarrow> task_event list \<Rightarrow> health \<Rightarrow> bool \<times> health" where
  "join_tasks didcomm [] h = (False, h)"
| "join_tasks didcomm (Http_Exit r # es) h = (True, h)"
| "join_tasks didcomm (Didcomm_Exit r # es) h =
     (if didcomm then join_tasks False es (mark_writes_unavailable (describe_task_exit r) h)
      else join_tasks False es h)"

text \<open>The health of the write path learns nothing of why a listener stopped.\<close>

lemma listener_task_result:
  "start_didcomm_listener None outcome = Some r \<Longrightarrow>
     describe_task_exit (start_didcomm_server r) = ''didcomm listener exited cleanly''"
  by (auto simp: start_didcomm_listener_def start_didcomm_server_def split: listener_outcome.splits)

section \<open>CORS\<close>

datatype cors = Permissive | Allowed_Origins "string list"

definition build_cors_layer :: "(string \<Rightarrow> string option) \<Rightarrow> string list \<Rightarrow> cors" where
  "build_cors_layer parse allowed_origins =
     (if allowed_origins = [] then Permissive
      else if length allowed_origins = 1 \<and> hd allowed_origins = ''*'' then Permissive
      else Allowed_Origins (List.map_filter parse allowed_origins))"

section \<open>Starting\<close>

datatype server_target = T_Health | T_App route_target

definition build_router :: "((string \<times> string) \<times> server_target) list" where
  "build_router = ((''GET'', ''/health''), T_Health) #
     map (\<lambda>(k, t). (k, T_App t)) (application_routes [])"

record 'c server =
  srv_http_addr :: string
  srv_caps :: "'c cap_set"
  srv_health :: health
  srv_cors :: cors
  srv_dedup :: memory_store
  srv_didcomm :: bool

definition capability_state_path :: "environment \<Rightarrow> string" where
  "capability_state_path env = env_or env ''TR_CAPABILITY_STATE'' ''./.trust-registry/capabilities.json''"

definition serve ::
  "(string \<Rightarrow> (string, string) result) \<Rightarrow> (string \<Rightarrow> string option) \<Rightarrow> environment \<Rightarrow>
   (string \<Rightarrow> 'c cap_store) \<Rightarrow> registry_config \<Rightarrow> 'c \<Rightarrow> ('c server, string) result" where
  "serve bind_addr parse_origin env store_at cfg c =
     bind_ok (bind_addr (sv_listen_address (rgc_server cfg))) (\<lambda>addr.
     bind_ok (cap_new (store_at (capability_state_path env)) [git_definition] build_dispatcher build_query_dispatcher c) (\<lambda>caps.
     Ok \<lparr>srv_http_addr = addr, srv_caps = caps,
         srv_health = health_new (dm_enabled (rgc_didcomm cfg)),
         srv_cors = build_cors_layer parse_origin (sv_cors_allowed_origins (rgc_server cfg)),
         srv_dedup = memory_default,
         srv_didcomm = dm_enabled (rgc_didcomm cfg)\<rparr>))"

definition base_url :: "'c server \<Rightarrow> string" where
  "base_url s = ''http://'' @ srv_http_addr s"

datatype 'a startup = Startup_Panic string | Serving 'a

definition start_registry ::
  "('v, 'b, 'l, 'h, 'k) config_sources \<Rightarrow> bool \<Rightarrow> 'r openers \<Rightarrow> (string \<Rightarrow> (string, string) result) \<Rightarrow>
   (string \<Rightarrow> string option) \<Rightarrow> (string \<Rightarrow> 'c cap_store) \<Rightarrow> 'k \<Rightarrow> 'c \<Rightarrow> ('r \<times> registry_config \<times> 'c server) startup" where
  "start_registry x fjall_built op bind_addr parse_origin store_at k c =
     (case fst (load_registry_config x k) of
        Err e \<Rightarrow> Startup_Panic ''Failed to load configs''
      | Ok cfg \<Rightarrow>
          (case create_repository fjall_built op (rgc_storage cfg) of
             Err e \<Rightarrow> Startup_Panic (''Failed to initialize trust record repository: '' @ e)
           | Ok repo \<Rightarrow>
               (case serve bind_addr parse_origin (so_env x) store_at cfg c of
                  Err e \<Rightarrow> Startup_Panic (''Failed to start Trust Registry server: '' @ e)
                | Ok srv \<Rightarrow> Serving (repo, cfg, srv))))"

end
