(* ===== verification/Listener_Run.thy ===== *)
theory Listener_Run
  imports Listener "HOL-Library.Multiset"
begin

text \<open>
  The listener at work: \<open>start_listening\<close> and the task of \<open>spawn_periodic_offline_sync\<close>.  The receive
  loop, the periodic synchronisation, the shutdown token and the spawned tasks run side by side; a
  step of one of them is a step of the system, labelled with the frames it took from the mediator.
  A task is one step here: how the requests of two tasks interleave inside the stores and the
  deduplication is the subject of \<open>Store_Concurrent\<close>, \<open>Csv_Concurrent\<close> and \<open>Dedup_Concurrent\<close>.
\<close>

section \<open>The running listener\<close>

text \<open>
  The token, whether the synchronisation task still runs, the spawned tasks that have not run yet and
  those that have, the queued messages (by id) the mediator was told to delete, the live frames it
  deleted by itself, and what the tasks work on.
\<close>

record ('s, 'c, 'd) listening =
  lg_listener :: listener
  lg_cancelled :: bool
  lg_syncing :: bool
  lg_spawned :: "job list"
  lg_done :: "job list"
  lg_deleted :: "string list"
  lg_taken :: "frame list"
  lg_ids :: 'd
  lg_registry :: "('s, 'c) registry"

text \<open>The access list is set once; a failure is logged.  Then the synchronisation is spawned.\<close>

definition start_listening ::
  "'a mediator \<Rightarrow> didcomm_config \<Rightarrow> listener \<Rightarrow> 'd \<Rightarrow> ('s, 'c) registry \<Rightarrow> 'a \<Rightarrow> ('s, 'c, 'd) listening \<times> 'a" where
  "start_listening md cfg li d w acl =
     (case set_acls_mode md (pc_alias (dm_profile cfg))
             (if dm_acl_mode cfg = ExplicitAllow then ExplicitAllow else ExplicitDeny) acl of
        (res, acl') \<Rightarrow>
          (\<lparr>lg_listener = li, lg_cancelled = False, lg_syncing = True, lg_spawned = [], lg_done = [],
             lg_deleted = [], lg_taken = [], lg_ids = d, lg_registry = w\<rparr>, acl'))"

definition turn_frames :: "(frame option, string) result \<Rightarrow> frame list" where
  "turn_frames r = (case r of Ok (Some f) \<Rightarrow> [f] | _ \<Rightarrow> [])"

definition interval_frames :: "pickup \<Rightarrow> frame list" where
  "interval_frames pk =
     (case pk_status pk of
        Ok (Some n) \<Rightarrow>
          if n = 0 then []
          else (case pk_delivery pk MESSAGES_LIMIT of Ok fs \<Rightarrow> List.map_filter fst fs | Err e \<Rightarrow> [])
      | _ \<Rightarrow> [])"

text \<open>
  \<open>Turn\<close> is an iteration of the receive loop, which does not look at the token.  It fetches a live
  frame with \<open>auto_delete\<close> set, so that the mediator deletes its copy on receipt, before the task of
  the frame has run and also when the frame is ignored.  \<open>Interval\<close> and
  \<open>Sync_stops\<close> are the two arms of the synchronisation's \<open>select!\<close>; when the token is cancelled
  while the timer is ready, either may be taken.
\<close>

inductive listening_step ::
  "bool \<Rightarrow> ('s, 'c, 'd) node \<Rightarrow> (string \<Rightarrow> nat \<Rightarrow> (string \<times> string, atm_error) result) \<Rightarrow>
   ('s, 'c, 'd) listening \<Rightarrow> frame list \<Rightarrow> ('s, 'c, 'd) listening \<Rightarrow> bool" for built nd unpack where
  Turn: "listening_step built nd unpack S (turn_frames r)
    (S\<lparr>lg_spawned := lg_spawned S @ process_next_message built (lg_listener S) r,
        lg_taken := lg_taken S @ turn_frames r\<rparr>)"
| Interval: "lg_syncing S \<Longrightarrow> sync_offline built (lg_listener S) pk = (res, jobs, acked) \<Longrightarrow>
    listening_step built nd unpack S (interval_frames pk)
      (S\<lparr>lg_spawned := lg_spawned S @ jobs, lg_deleted := lg_deleted S @ acked\<rparr>)"
| Shutdown: "listening_step built nd unpack S [] (S\<lparr>lg_cancelled := True\<rparr>)"
| Sync_stops: "lg_syncing S \<Longrightarrow> lg_cancelled S \<Longrightarrow> listening_step built nd unpack S [] (S\<lparr>lg_syncing := False\<rparr>)"
| Task: "lg_spawned S = xs @ j # ys \<Longrightarrow> run_job nd ce t2 unpack j (lg_ids S) (lg_registry S) = (d, w) \<Longrightarrow>
    listening_step built nd unpack S []
      (S\<lparr>lg_spawned := xs @ ys, lg_done := lg_done S @ [j], lg_ids := d, lg_registry := w\<rparr>)"

inductive listening_run ::
  "bool \<Rightarrow> ('s, 'c, 'd) node \<Rightarrow> (string \<Rightarrow> nat \<Rightarrow> (string \<times> string, atm_error) result) \<Rightarrow>
   ('s, 'c, 'd) listening \<Rightarrow> frame list \<Rightarrow> ('s, 'c, 'd) listening \<Rightarrow> bool" for built nd unpack S0 where
  Run_start: "listening_run built nd unpack S0 [] S0"
| Run_step: "listening_run built nd unpack S0 fs S \<Longrightarrow> listening_step built nd unpack S gs T \<Longrightarrow>
    listening_run built nd unpack S0 (fs @ gs) T"

lemma run_of_step: "listening_step built nd unpack S gs T \<Longrightarrow> listening_run built nd unpack S gs T"
  using Run_step [OF Run_start] by fastforce

lemma run_extend:
  "listening_run built nd unpack S fs T \<Longrightarrow> listening_step built nd unpack T gs U \<Longrightarrow> hs = fs @ gs \<Longrightarrow>
     listening_run built nd unpack S hs U"
  by (simp add: Run_step)

lemma run_trans:
  "listening_run built nd unpack T gs U \<Longrightarrow> listening_run built nd unpack S fs T \<Longrightarrow> hs = fs @ gs \<Longrightarrow>
     listening_run built nd unpack S hs U"
  by (induction arbitrary: hs rule: listening_run.induct) (auto intro: run_extend)

section \<open>Where a task comes from\<close>

definition frames_jobs :: "bool \<Rightarrow> listener \<Rightarrow> frame list \<Rightarrow> job list" where
  "frames_jobs built li fs = List.map_filter (\<lambda>f. frame_job built li (Some f)) fs"

lemma frames_jobs_simps [simp]:
  "frames_jobs built li [] = []" "frames_jobs built li (fs @ gs) = frames_jobs built li fs @ frames_jobs built li gs"
  by (simp_all add: frames_jobs_def List.map_filter_def)

lemma turn_jobs: "process_next_message built li r = frames_jobs built li (turn_frames r)"
  by (auto simp: process_next_message_def turn_frames_def frame_job_def frames_jobs_def List.map_filter_def
      split: result.split option.split)

lemma queued_jobs:
  "List.map_filter (\<lambda>(f, i). frame_job built li f) fs = frames_jobs built li (List.map_filter fst fs)"
  by (induction fs) (auto simp: frames_jobs_def List.map_filter_def frame_job_def split: option.splits)

lemma interval_jobs:
  "sync_offline built li pk = (res, jobs, acked) \<Longrightarrow> jobs = frames_jobs built li (interval_frames pk)"
  by (auto simp: sync_offline_def Let_def interval_frames_def queued_jobs split: result.splits option.splits if_splits)

text \<open>Every frame that was taken has one task, which is pending or has run; a frame that is ignored has none.\<close>

definition accounted :: "bool \<Rightarrow> frame list \<Rightarrow> ('s, 'c, 'd) listening \<Rightarrow> bool" where
  "accounted built fs S \<longleftrightarrow>
     mset (lg_spawned S) + mset (lg_done S) = mset (frames_jobs built (lg_listener S) fs)"

lemma accounted_step:
  assumes "accounted built fs S" "listening_step built nd unpack S gs T"
  shows "accounted built (fs @ gs) T \<and> lg_listener T = lg_listener S"
  using assms(2)
proof (cases rule: listening_step.cases)
  case (Interval pk res jobs acked)
  then show ?thesis using assms(1) interval_jobs [OF Interval(4)] by (simp add: accounted_def)
next
  case (Task xs j ys ce t2 d w)
  then show ?thesis using assms(1) by (simp add: accounted_def)
qed (use assms(1) in \<open>simp_all add: accounted_def turn_jobs\<close>)

lemma accounted_run:
  "listening_run built nd unpack S0 fs S \<Longrightarrow> accounted built [] S0 \<Longrightarrow>
     accounted built fs S \<and> lg_listener S = lg_listener S0"
  by (induction rule: listening_run.induct) (auto dest: accounted_step)

lemma accounted_frame:
  assumes "accounted built fs S" "j \<in> set (lg_spawned S)"
  shows "\<exists>f \<in> set fs. frame_job built (lg_listener S) (Some f) = Some j"
proof -
  have "j \<in># mset (lg_spawned S) + mset (lg_done S)" using assms(2) by simp
  then have "j \<in> set (frames_jobs built (lg_listener S) fs)"
    using assms(1) unfolding accounted_def by (metis set_mset_mset)
  then show ?thesis by (auto simp: frames_jobs_def List.map_filter_def)
qed

section \<open>What a run keeps\<close>

context trust_repository
begin

lemma step_outsiders:
  assumes "nd_repo nd = repo" "framework_ok (nd_fw nd)"
    and "accounted built fs S" "\<forall>f \<in> set fs. frame_senders unpack f \<inter> set (dp_admins (nd_deployment nd)) = {}"
    and "li_tsp (lg_listener S) = None \<or> li_tsp (lg_listener S) = Some \<lparr>tc_admin_dids = dp_admins (nd_deployment nd)\<rparr>"
    and "inv (fst (lg_registry S))" "git_only (snd (lg_registry S))" "cap_in_force sts (snd (lg_registry S))"
    and "listening_step built nd unpack S gs T"
  shows "inv (fst (lg_registry T)) \<and> view (fst (lg_registry T)) = view (fst (lg_registry S)) \<and>
    snd (lg_registry T) = snd (lg_registry S) \<and> lg_ids T = lg_ids S"
  using assms(9)
proof (cases rule: listening_step.cases)
  case (Task xs j ys ce t2 d w)
  obtain s cs where w: "lg_registry S = (s, cs)" by fastforce
  obtain s' cs' where w': "w = (s', cs')" by fastforce
  have "j \<in> set (lg_spawned S)" using Task(3) by simp
  then obtain f where f: "f \<in> set fs" "frame_job built (lg_listener S) (Some f) = Some j"
    using accounted_frame [OF assms(3)] by blast
  show ?thesis
    using run_job_outsider [OF _ assms(1,2) _ _ f(2) assms(5) bspec [OF assms(4) f(1)] Task(4) [unfolded w w']]
      assms(6-8) Task(2) w w' by simp
qed (use assms(6) in auto)

lemma run_outsiders:
  assumes "nd_repo nd = repo" "framework_ok (nd_fw nd)"
    and "li_tsp (lg_listener S0) = None \<or> li_tsp (lg_listener S0) = Some \<lparr>tc_admin_dids = dp_admins (nd_deployment nd)\<rparr>"
    and "lg_spawned S0 = []" "lg_done S0 = []"
    and "inv (fst (lg_registry S0))" "git_only (snd (lg_registry S0))" "cap_in_force sts (snd (lg_registry S0))"
  shows "listening_run built nd unpack S0 fs S \<Longrightarrow>
    \<forall>f \<in> set fs. frame_senders unpack f \<inter> set (dp_admins (nd_deployment nd)) = {} \<Longrightarrow>
    inv (fst (lg_registry S)) \<and> view (fst (lg_registry S)) = view (fst (lg_registry S0)) \<and>
    snd (lg_registry S) = snd (lg_registry S0) \<and> lg_ids S = lg_ids S0"
proof (induction rule: listening_run.induct)
  case (Run_step fs S gs T)
  have a: "accounted built fs S" "lg_listener S = lg_listener S0"
    using accounted_run [OF Run_step(1)] assms(4,5) by (auto simp: accounted_def [of _ "[]"])
  have fs: "\<forall>f \<in> set fs. frame_senders unpack f \<inter> set (dp_admins (nd_deployment nd)) = {}"
    using Run_step.prems by simp
  show ?case
    using step_outsiders [OF assms(1,2) a(1) fs _ _ _ _ Run_step(2)] Run_step.IH [OF fs] assms(3,7,8) a(2) by simp
qed (use assms(6) in simp)

end

section \<open>Shutting down\<close>

text \<open>Only the synchronisation acknowledges queued messages, and it stops for good.\<close>

lemma stopped_sync_step:
  "listening_step built nd unpack S gs T \<Longrightarrow> \<not> lg_syncing S \<Longrightarrow>
     \<not> lg_syncing T \<and> lg_deleted T = lg_deleted S"
  by (erule listening_step.cases) auto

lemma stopped_sync:
  "listening_run built nd unpack S fs T \<Longrightarrow> \<not> lg_syncing S \<Longrightarrow>
     \<not> lg_syncing T \<and> lg_deleted T = lg_deleted S"
  by (induction rule: listening_run.induct) (auto dest: stopped_sync_step)

text \<open>The receive loop takes a frame in every state; the mediator has deleted it before its task runs.\<close>

lemma takes_frame:
  "listening_step built nd unpack S [f]
     (S\<lparr>lg_spawned := lg_spawned S @ frames_jobs built (lg_listener S) [f], lg_taken := lg_taken S @ [f]\<rparr>)"
  using Turn [of built nd unpack S "Ok (Some f)"] by (simp add: turn_jobs) (simp add: turn_frames_def)

text \<open>Every pending task can run.\<close>

lemma runs_task:
  assumes "j \<in> set (lg_spawned S)" "run_job nd ce t2 unpack j (lg_ids S) (lg_registry S) = (d, w)"
  obtains T where "listening_step built nd unpack S [] T" "lg_done T = lg_done S @ [j]" "lg_ids T = d" "lg_registry T = w"
    "mset (lg_spawned T) = mset (lg_spawned S) - {#j#}"
proof -
  obtain xs ys where "lg_spawned S = xs @ j # ys" using assms(1) by (meson split_list)
  from that [OF Task [OF this assms(2)]] this show thesis by simp
qed

text \<open>The receive loop takes and serves a message in every state.\<close>

lemma serves_message:
  assumes "base_handle nd ce t2 m (lg_ids S) (lg_registry S) = (res, eff, d, w)"
  shows "listening_run built nd unpack S [F_Didcomm m]
    (S\<lparr>lg_ids := d, lg_registry := w, lg_taken := lg_taken S @ [F_Didcomm m], lg_done := lg_done S @ [Handle_Didcomm m]\<rparr>)"
proof -
  let ?T = "S\<lparr>lg_spawned := lg_spawned S @ [Handle_Didcomm m], lg_taken := lg_taken S @ [F_Didcomm m]\<rparr>"
  have "listening_step built nd unpack S [F_Didcomm m] ?T"
    using takes_frame [of built nd unpack S "F_Didcomm m"]
    by (simp add: frames_jobs_def List.map_filter_def frame_job_def)
  moreover have "listening_step built nd unpack ?T []
      (?T\<lparr>lg_spawned := lg_spawned S @ [], lg_done := lg_done ?T @ [Handle_Didcomm m], lg_ids := d, lg_registry := w\<rparr>)"
    by (rule Task [of _ _ "Handle_Didcomm m" "[]" _ ce t2]) (simp_all add: run_job_def assms)
  ultimately have "listening_run built nd unpack S [F_Didcomm m]
      (?T\<lparr>lg_spawned := lg_spawned S @ [], lg_done := lg_done ?T @ [Handle_Didcomm m], lg_ids := d, lg_registry := w\<rparr>)"
    by (rule run_extend [OF run_of_step]) simp
  moreover have "?T\<lparr>lg_spawned := lg_spawned S @ [], lg_done := lg_done ?T @ [Handle_Didcomm m], lg_ids := d, lg_registry := w\<rparr> =
      S\<lparr>lg_ids := d, lg_registry := w, lg_taken := lg_taken S @ [F_Didcomm m], lg_done := lg_done S @ [Handle_Didcomm m]\<rparr>" by simp
  ultimately show ?thesis by (simp only:)
qed

text \<open>A queued message is acknowledged before the task that handles it has run.\<close>

lemma interval_acknowledges:
  assumes "lg_syncing S" "pk_status pk = Ok (Some n)" "0 < n"
    and "pk_delivery pk MESSAGES_LIMIT = Ok frames" "(Some (F_Didcomm m), i) \<in> set frames"
  shows "\<exists>T. listening_step built nd unpack S (interval_frames pk) T \<and> i \<in> set (lg_deleted T) \<and>
    Handle_Didcomm m \<in> set (lg_spawned T) \<and> lg_ids T = lg_ids S \<and> lg_registry T = lg_registry S"
proof -
  obtain res jobs acked where s: "sync_offline built (lg_listener S) pk = (res, jobs, acked)" by (metis prod.exhaust)
  have a: "acked = map snd frames" and
    j: "jobs = List.map_filter (\<lambda>(f, i). frame_job built (lg_listener S) f) frames"
    using s assms(2-4) by (auto simp: sync_offline_def Let_def split: result.splits)
  have "Handle_Didcomm m \<in> set jobs"
    unfolding j using assms(5) by (force simp: List.map_filter_def frame_job_def)
  moreover have "i \<in> set acked" unfolding a using assms(5) by force
  ultimately show ?thesis using Interval [OF assms(1) s, where nd = nd and unpack = unpack]
    by (intro exI [of _ "S\<lparr>lg_spawned := lg_spawned S @ jobs, lg_deleted := lg_deleted S @ acked\<rparr>"]) simp
qed

end
