(* ===== verification/Operation_Properties.thy ===== *)
theory Operation_Properties
  imports Server Listener_Run Node_Properties
begin

text \<open>
  Properties of starting and running the service: how the configuration is read, how long the
  listener waits for its DID document, what frames from outsiders can do, and how the server
  behaves when a task ends.
\<close>

section \<open>Waiting for the DID document\<close>

text \<open>C32: The check that the DID document is published makes at most the configured number of requests
  and stops at the first success; between requests it waits, first for the configured initial
  delay, then never longer than the configured maximum, and doubling up to it as long as 64 bits
  hold the doubled delay.  It fails exactly when every request failed.\<close>

theorem did_check_backoff:
  assumes "check_did_document web did rc = (res, delays, n)" "did_document_url web did = Ok (Some url)"
    and "web_client web = Ok ()"
  shows "n \<le> unat (rt_max_attempts rc) \<and> length delays = n - 1 \<and>
    (res = Ok () \<longleftrightarrow> (\<exists>i \<in> {1 .. unat (rt_max_attempts rc)}. \<exists>st. web_get web url i = Ok st \<and> is_success st)) \<and>
    (\<forall>i. 1 \<le> i \<and> i < n \<longrightarrow> (\<forall>st. web_get web url i = Ok st \<longrightarrow> \<not> is_success st)) \<and>
    (delays \<noteq> [] \<longrightarrow> delays ! 0 = rt_initial_delay rc) \<and>
    (\<forall>i < length delays. 0 < i \<longrightarrow> delays ! i \<le> rt_max_delay rc) \<and>
    (unat (rt_initial_delay rc) < 2 ^ 63 \<and> unat (rt_max_delay rc) < 2 ^ 63 \<longrightarrow>
       (\<forall>i < length delays. 0 < i \<longrightarrow>
          unat (delays ! i) = min (2 ^ i * unat (rt_initial_delay rc)) (unat (rt_max_delay rc))))"
proof -
  let ?get = "web_get web url" and ?m = "unat (rt_max_attempts rc)"
  have c: "check_attempts ?get (rt_max_delay rc) ?m 1 (rt_initial_delay rc) = (res, delays, n)"
    using assms by (simp add: check_did_document_def)
  note sp = check_attempts_spec [OF c]
  have fails: "\<not> is_success st" if "1 \<le> i" "i < n \<or> res \<noteq> Ok () \<and> i \<le> n" "?get i = Ok st" for i st
  proof -
    obtain j where j: "i = 1 + j" using \<open>1 \<le> i\<close> by (metis le_iff_add)
    have "j + 1 < n \<or> res \<noteq> Ok () \<and> j < n" using that(2) j by auto
    then show ?thesis using sp that(3) j by blast
  qed
  have iff: "res = Ok () \<longleftrightarrow> (\<exists>i \<in> {1 .. ?m}. \<exists>st. ?get i = Ok st \<and> is_success st)"
  proof
    assume r: "res = Ok ()"
    then obtain st where st: "0 < n" "?get (1 + n - 1) = Ok st" "is_success st" using sp by blast
    then show "\<exists>i \<in> {1 .. ?m}. \<exists>st. ?get i = Ok st \<and> is_success st"
      using sp by (intro bexI [of _ n]) auto
  next
    assume "\<exists>i \<in> {1 .. ?m}. \<exists>st. ?get i = Ok st \<and> is_success st"
    then obtain i st where i: "1 \<le> i" "i \<le> ?m" "?get i = Ok st" "is_success st" by auto
    show "res = Ok ()"
    proof (rule ccontr)
      assume r: "res \<noteq> Ok ()"
      then have "n = ?m" using sp by blast
      then show False using fails [OF i(1) _ i(3)] r i(2,4) by blast
    qed
  qed
  have dbl: "unat (delays ! i) = min (2 ^ i * unat (rt_initial_delay rc)) (unat (rt_max_delay rc))"
    if "unat (rt_initial_delay rc) < 2 ^ 63" "unat (rt_max_delay rc) < 2 ^ 63" "i < length delays" "0 < i" for i
    using check_attempts_doubling [OF c that(3,1,2)] that(4) by simp
  have len: "n \<le> ?m" "length delays = n - 1" using sp by (cases "?m = 0"; simp)+
  have fst0: "delays \<noteq> [] \<longrightarrow> delays ! 0 = rt_initial_delay rc"
    "\<forall>i < length delays. 0 < i \<longrightarrow> delays ! i \<le> rt_max_delay rc" using sp by blast+
  show ?thesis using len fst0 iff fails dbl by blast
qed

definition sample_web :: web where
  "sample_web = \<lparr>web_decode = Some, web_client = Ok (), web_get = (\<lambda>url n. if n < 4 then Err ''refused'' else Ok 200)\<rparr>"

theorem did_check_backoff_witness:
  "\<exists>res delays n. check_did_document sample_web ''did:web:registry.example'' (retry_from_env Map.empty) = (res, delays, n) \<and>
     n \<le> 10 \<and> length delays = n - 1 \<and> (\<forall>i < length delays. 0 < i \<longrightarrow> delays ! i \<le> 20)"
proof -
  obtain res delays n where c: "check_did_document sample_web ''did:web:registry.example'' (retry_from_env Map.empty) =
      (res, delays, n)" by (metis prod.exhaust)
  have u: "did_document_url sample_web ''did:web:registry.example'' =
      Ok (Some ''https://registry.example/.well-known/did.json'')" by code_simp
  have w: "web_client sample_web = Ok ()" by (simp add: sample_web_def)
  have r: "rt_max_attempts (retry_from_env Map.empty) = 10" "rt_max_delay (retry_from_env Map.empty) = 20"
    by (simp_all add: retry_from_env_def env_or_def parse_or_def parse_word_def parse_unsigned_def
        strip_prefix_def starts_with_def digit_value_def Let_def)
  show ?thesis using did_check_backoff [OF c u w] c r by auto
qed

section \<open>Identity and administrators\<close>

text \<open>The identity comes from the most preferred source that is configured: the VTA when the build
  has it and its credential is set, else the secret store when a remote backend is selected and
  holds a bundle, else \<open>PROFILE_CONFIG\<close>.  A source that fails stops the start, it is never
  skipped; and a store configured only by its keyring service is not consulted.\<close>

theorem identity_precedence:
  assumes "profile_text x k = (res, k')"
  shows "let env = so_env x; cfg = secrets_config_from_env (sl_default_keyring (so_secrets x)) env;
      vta = (so_vta_built x \<and> env ''TR_VTA_CREDENTIAL'' \<noteq> None);
      stored = read_profile (so_secrets x) cfg (data_dir env) k;
      inline = bind_ok (required_env env ''PROFILE_CONFIG'') (load_uri (so_loaders x)) in
    (vta \<longrightarrow> (case fst (startup_profile_json (so_vta x) (so_secrets x) (so_loaders x) env k) of
                Err e \<Rightarrow> res = Err e | Ok b \<Rightarrow> b = Some (the b) \<and> res = Ok (the b))) \<and>
    (\<not> vta \<and> backend_selected cfg \<longrightarrow>
       (case stored of Err e \<Rightarrow> res = Err e | Ok (Some b) \<Rightarrow> res = Ok b | Ok None \<Rightarrow> res = inline) \<and> k' = k) \<and>
    (\<not> vta \<and> \<not> backend_selected cfg \<longrightarrow> res = inline \<and> k' = k) \<and>
    ((\<forall>v. env v \<noteq> None \<longrightarrow> starts_with ''TR_SECRETS_'' v \<longrightarrow> v = ''TR_SECRETS_KEYRING_SERVICE'') \<longrightarrow>
       \<not> backend_selected cfg)"
proof -
  let ?env = "so_env x"
  let ?cfg = "secrets_config_from_env (sl_default_keyring (so_secrets x)) ?env"
  let ?vta = "so_vta_built x \<and> ?env ''TR_VTA_CREDENTIAL'' \<noteq> None"
  let ?st = "startup_profile_json (so_vta x) (so_secrets x) (so_loaders x) ?env k"
  have some: "b \<noteq> None" if "?vta" "fst ?st = Ok b" for b
    using that
    by (auto simp: startup_profile_json_def vta_config_from_env_def split: result.splits option.splits prod.splits
        elim!: bind_ok.elims)
  have none: "load_profile_from_vta x k = (Ok None, k)" if "\<not> ?vta"
    using that by (auto simp: load_profile_from_vta_def startup_profile_json_def vta_config_from_env_def)
  have key: "\<not> backend_selected ?cfg"
    if "\<forall>v. ?env v \<noteq> None \<longrightarrow> starts_with ''TR_SECRETS_'' v \<longrightarrow> v = ''TR_SECRETS_KEYRING_SERVICE''"
  proof -
    have "?env v = None" if "v \<in> {''TR_SECRETS_SEED'', ''TR_SECRETS_AWS_SECRET_NAME'', ''TR_SECRETS_GCP_SECRET_NAME'',
        ''TR_SECRETS_AZURE_SECRET_NAME'', ''TR_SECRETS_VAULT_SECRET_PATH'', ''TR_SECRETS_K8S_SECRET_NAME''}" for v
      using that \<open>\<forall>v. _ v\<close> by (auto simp: starts_with_def)
    then show ?thesis by (simp add: backend_selected_def secrets_config_from_env_def env_set_def)
  qed
  have v: "case fst ?st of Err e \<Rightarrow> res = Err e | Ok b \<Rightarrow> b = Some (the b) \<and> res = Ok (the b)" if "?vta"
    using some [OF that] that assms
    by (cases "fst ?st"; cases ?st) (auto simp: profile_text_def load_profile_from_vta_def split: option.splits)
  have s: "(case read_profile (so_secrets x) ?cfg (data_dir ?env) k of Err e \<Rightarrow> res = Err e | Ok (Some b) \<Rightarrow> res = Ok b
      | Ok None \<Rightarrow> res = bind_ok (required_env ?env ''PROFILE_CONFIG'') (load_uri (so_loaders x))) \<and> k' = k"
    if "\<not> ?vta" "backend_selected ?cfg"
    using none [OF that(1)] that(2) assms
    by (auto simp: profile_text_def load_profile_from_secret_store_def Let_def split: result.splits option.splits)
  have i: "res = bind_ok (required_env ?env ''PROFILE_CONFIG'') (load_uri (so_loaders x)) \<and> k' = k"
    if "\<not> ?vta" "\<not> backend_selected ?cfg"
    using none [OF that(1)] that(2) assms
    by (auto simp: profile_text_def load_profile_from_secret_store_def Let_def)
  show ?thesis unfolding Let_def using v s i key by blast
qed

text \<open>Sources in which only the inline profile and the keyring service are configured.\<close>

definition keyring_env :: environment where
  "keyring_env = [''MEDIATOR_DID'' \<mapsto> ''did:mediator'', ''PROFILE_CONFIG'' \<mapsto> ''profile'',
     ''TR_SECRETS_KEYRING_SERVICE'' \<mapsto> ''registry'']"

definition no_vta :: "(unit, unit, unit, unit) vta_lib" where
  "no_vta = \<lparr>vt_credential = (\<lambda>t. Err ''none''), vt_startup = (\<lambda>c st ld k. (Err ''none'', k)), vt_secrets = (\<lambda>b. Err ''none''),
     vt_bundle_text = (\<lambda>b. Err ''none''), vt_bundle_parse = (\<lambda>t. Err ''none''), vt_client = (\<lambda>c u. Err ''none''),
     vt_rotate = (\<lambda>l c s n t. Err ''none''), vt_json_text = (\<lambda>j. [])\<rparr>"

definition empty_store :: "(unit, unit) secret_lib" where
  "empty_store = \<lparr>sl_default_keyring = ''vta'', sl_open = (\<lambda>c d. Ok ()), sl_get = (\<lambda>h k. Ok (Some ''stored'')),
     sl_set = (\<lambda>h b k. (Ok (), k)), sl_utf8_error = (\<lambda>b. ''invalid'')\<rparr>"

definition sample_sources :: "(unit, unit, unit, unit, unit) config_sources" where
  "sample_sources = \<lparr>so_vta_built = True, so_tsp_built = False, so_env = keyring_env,
     so_loaders = \<lparr>ld_file = (\<lambda>p. Err ''none''), ld_aws_secret = (\<lambda>p. Err ''none''), ld_aws_parameter = (\<lambda>p. Err ''none'')\<rparr>,
     so_vta = no_vta, so_secrets = empty_store,
     so_profile_parse = (\<lambda>t. Ok \<lparr>pc_alias = ''Trust Registry'', pc_did = ''did:web:registry.example'', pc_secrets = []\<rparr>),
     so_json_text = (\<lambda>j. []), so_default_acl = ExplicitAllow\<rparr>"

lemma sample_sources_env [simp]: "so_env sample_sources = keyring_env"
  by (simp add: sample_sources_def)

lemma sample_inline:
  "bind_ok (required_env keyring_env ''PROFILE_CONFIG'') (load_uri (so_loaders sample_sources)) = Ok ''profile''"
  by (simp add: keyring_env_def required_env_def load_uri_def strip_prefix_def starts_with_def)

theorem identity_precedence_witness: "fst (profile_text sample_sources ()) = Ok ''profile''"
proof -
  obtain res k' where p: "profile_text sample_sources () = (res, k')" by (metis prod.exhaust)
  have e: "so_env sample_sources = keyring_env" by (simp add: sample_sources_def)
  have v: "\<not> (so_vta_built sample_sources \<and> keyring_env ''TR_VTA_CREDENTIAL'' \<noteq> None)"
    by (simp add: keyring_env_def)
  have k: "\<forall>v. keyring_env v \<noteq> None \<longrightarrow> starts_with ''TR_SECRETS_'' v \<longrightarrow> v = ''TR_SECRETS_KEYRING_SERVICE''"
    by (simp add: keyring_env_def starts_with_def)
  show ?thesis using identity_precedence [OF p, unfolded e Let_def] v k sample_inline p by auto
qed

text \<open>When \<open>ADMIN_DIDS\<close> is not set, the list of administrators is not empty: it holds the empty text,
  and a record-administration message whose sender is given as the empty text passes the check
  and is carried out.\<close>

theorem missing_admins_admit:
  assumes "load_didcomm_config x k = (Ok cfg, k')" "dm_enabled cfg" "so_env x ''ADMIN_DIDS'' = None"
    and "ac_admin_dids ac = dm_admin_dids cfg" "msg_from m = Some []"
  shows "dm_admin_dids cfg = [[]] \<and>
    handle_admin ac repo a (base_context nd m) now m s = handle_request ac repo a (base_context nd m) now m s"
proof -
  have "dm_admin_dids cfg = admin_dids_from_env (so_env x)"
    using assms(1,2) by (auto simp: load_didcomm_config_def Let_def split: result.splits if_splits prod.splits
        elim!: bind_ok.elims)
  moreover have "trim_str [] = []" by code_simp
  ultimately have "dm_admin_dids cfg = [[]]" using assms(3) by (simp add: admin_dids_from_env_def)
  then show ?thesis using assms(4,5) by (simp add: handle_admin_def validate_admin_did_def base_context_def)
qed

lemma sample_didcomm_config:
  "\<exists>cfg k'. load_didcomm_config sample_sources () = (Ok cfg, k') \<and> dm_enabled cfg"
proof -
  have f: "flags_from_env (so_tsp_built sample_sources) keyring_env =
      Ok \<lparr>tf_rest = True, tf_didcomm = True, tf_tsp = False\<rparr>"
    by (simp add: sample_sources_def keyring_env_def flags_from_env_def env_flag_def validate_flags_def)
  have m: "required_env keyring_env ''MEDIATOR_DID'' = Ok ''did:mediator''"
    by (simp add: required_env_def keyring_env_def)
  have "load_profile_from_vta sample_sources () = (Ok None, ())"
    by (simp add: load_profile_from_vta_def startup_profile_json_def vta_config_from_env_def keyring_env_def
        sample_sources_def)
  moreover have "load_profile_from_secret_store (so_secrets sample_sources) keyring_env () = Ok None"
    by (simp add: load_profile_from_secret_store_def backend_selected_def secrets_config_from_env_def env_set_def
        keyring_env_def Let_def)
  ultimately have p: "profile_text sample_sources () = (Ok ''profile'', ())"
    by (simp add: profile_text_def sample_inline)
  have u: "public_url_from_env keyring_env = None" "keyring_env ''DID_DOCUMENT'' = None"
    by (simp_all add: public_url_from_env_def keyring_env_def)
  have r: "so_profile_parse sample_sources t = Ok \<lparr>pc_alias = ''Trust Registry'', pc_did = ''did:web:registry.example'',
      pc_secrets = []\<rparr>" for t
    by (simp add: sample_sources_def)
  show ?thesis unfolding load_didcomm_config_def Let_def sample_sources_env f m p by (simp add: u r)
qed

theorem missing_admins_admit_witness:
  "\<exists>cfg m. fst (load_didcomm_config sample_sources ()) = Ok cfg \<and> msg_from m = Some [] \<and>
     (\<forall>nd :: (local_storage, cap_states, memory_store) node. \<forall>a.
        let ac = \<lparr>ac_admin_dids = dm_admin_dids cfg, ac_de_error = (\<lambda>e. [])\<rparr> in
        handle_admin ac local_repo a (base_context nd m) 5 m local_new =
        handle_request ac local_repo a (base_context nd m) 5 m local_new)"
proof -
  define m where "m = \<lparr>msg_id = ''m1'', msg_type = CREATE_RECORD, msg_from = Some [], msg_to = [], msg_thid = None,
    msg_pthid = None, msg_body = record_member ''did:e'' ''did:a''\<rparr>"
  obtain cfg k' where l: "load_didcomm_config sample_sources () = (Ok cfg, k')" and cfg: "dm_enabled cfg"
    using sample_didcomm_config by blast
  have e: "so_env sample_sources ''ADMIN_DIDS'' = None" by (simp add: sample_sources_def keyring_env_def)
  have f: "msg_from m = Some []" by (simp add: m_def)
  have "handle_admin ac local_repo a (base_context nd m) 5 m local_new =
      handle_request ac local_repo a (base_context nd m) 5 m local_new"
    if "ac_admin_dids ac = dm_admin_dids cfg" for ac a and nd :: "(local_storage, cap_states, memory_store) node"
    by (rule missing_admins_admit [OF l cfg e that f, THEN conjunct2])
  then show ?thesis using l f by (intro exI [of _ cfg] exI [of _ m]) simp
qed

section \<open>Storage\<close>

text \<open>The backend opened at the start is the one \<open>TR_STORAGE_BACKEND\<close> names, in any case of its
  letters, and it is opened with the settings of the environment, never with the empty defaults of
  a backend that was not selected; any other name selects the CSV file.  A missing table name,
  a missing Redis URL or an interval that is not a 64-bit number is refused before anything is
  opened.\<close>

theorem storage_from_environment:
  assumes "load_storage_config env = res"
  shows "case res of
      Ok cfg \<Rightarrow> (case stc_backend cfg of
          B_Csv \<Rightarrow> \<exists>w. parse_word (env_or env ''FILE_STORAGE_UPDATE_INTERVAL_SEC'' ''60'') = Ok w \<and>
            create_repository built op cfg = op_csv op (env_or env ''FILE_STORAGE_PATH'' ''trust_records.csv'') w
        | B_DynamoDb \<Rightarrow> \<exists>table. env ''DDB_TABLE_NAME'' = Some table \<and> create_repository built op cfg = op_ddb op
            \<lparr>dbc_enabled = True, dbc_table = table, dbc_region = Some (env_or env ''AWS_REGION'' ''ap-southeast-1''),
             dbc_profile = env ''AWS_PROFILE'',
             dbc_endpoint = (if env ''AWS_ENDPOINT'' = None then env ''DYNAMODB_ENDPOINT'' else env ''AWS_ENDPOINT'')\<rparr>
        | B_Redis \<Rightarrow> \<exists>url. env ''REDIS_URL'' = Some url \<and> create_repository built op cfg = op_redis op url
        | B_Fjall \<Rightarrow> (if built then create_repository built op cfg =
              op_fjall op (env_or env ''TR_FJALL_PATH'' ''./trust_records.fjall'')
            else \<exists>e. create_repository built op cfg = Err e)) \<and>
        stc_backend cfg = (if env ''TR_STORAGE_BACKEND'' = None then B_Csv else
          let b = to_lowercase (the (env ''TR_STORAGE_BACKEND'')) in
          if b \<in> {''dynamodb'', ''ddb''} then B_DynamoDb else if b = ''redis'' then B_Redis
          else if b = ''fjall'' then B_Fjall else B_Csv)
    | Err e \<Rightarrow> load_storage_backend env = B_DynamoDb \<and> env ''DDB_TABLE_NAME'' = None \<or>
        load_storage_backend env = B_Redis \<and> env ''REDIS_URL'' = None \<or>
        load_storage_backend env = B_Csv \<and>
          (\<forall>w. parse_word (env_or env ''FILE_STORAGE_UPDATE_INTERVAL_SEC'' ''60'') \<noteq> (Ok w :: (64 word, _) result))"
proof -
  have b: "load_storage_backend env = (if env ''TR_STORAGE_BACKEND'' = None then B_Csv else
      let b = to_lowercase (the (env ''TR_STORAGE_BACKEND'')) in
      if b \<in> {''dynamodb'', ''ddb''} then B_DynamoDb else if b = ''redis'' then B_Redis
      else if b = ''fjall'' then B_Fjall else B_Csv)"
    by (cases "env ''TR_STORAGE_BACKEND''")
      (simp_all add: load_storage_backend_def env_or_def to_lowercase_def ascii_lower_def Let_def)
  note defs = load_storage_config_def load_ddb_config_def load_file_config_def load_redis_config_def
    load_fjall_config_def create_repository_def required_env_def
  show ?thesis
  proof (cases "load_storage_backend env")
    case B_Csv
    then show ?thesis using assms b [symmetric]
      by (cases "parse_word (env_or env ''FILE_STORAGE_UPDATE_INTERVAL_SEC'' ''60'') :: (64 word, _) result")
        (auto simp: defs simp del: b)
  next
    case B_DynamoDb
    then show ?thesis using assms b [symmetric] by (cases "env ''DDB_TABLE_NAME''"; cases "env ''AWS_ENDPOINT''") (auto simp: defs)
  next
    case B_Redis
    then show ?thesis using assms b [symmetric] by (cases "env ''REDIS_URL''") (auto simp: defs)
  next
    case B_Fjall
    then show ?thesis using assms b [symmetric] by (auto simp: defs)
  qed
qed

theorem storage_from_environment_witness:
  "\<exists>cfg. load_storage_config [''TR_STORAGE_BACKEND'' \<mapsto> ''Redis'', ''REDIS_URL'' \<mapsto> ''redis://host''] = Ok cfg \<and>
     stc_backend cfg = B_Redis"
proof -
  define e where "e = [''TR_STORAGE_BACKEND'' \<mapsto> ''Redis'', ''REDIS_URL'' \<mapsto> ''redis://host'']"
  have b: "load_storage_backend e = B_Redis" "e ''REDIS_URL'' \<noteq> None" unfolding e_def by (code_simp, simp)
  show ?thesis
    using storage_from_environment [OF refl, of e True "\<lparr>op_csv = (\<lambda>p w. Ok ()), op_ddb = (\<lambda>d. Ok ()),
        op_redis = (\<lambda>u. Ok ()), op_fjall = (\<lambda>p. Ok ())\<rparr>"] b
    unfolding e_def [symmetric]
    by (cases "load_storage_config e") (auto simp: load_storage_config_def load_ddb_config_def load_file_config_def
        load_redis_config_def load_fjall_config_def required_env_def)
qed

section \<open>The running listener\<close>

text \<open>C17: Once the listener runs, whatever live frames and queued messages arrive, over DIDComm or TSP,
  in whatever order the jobs they spawn are carried out, and before or after a shutdown: as long as
  no configured administrator sent any of them, the trust records, the capability set and the
  store of message ids stay as they were.  TSP frames spawn a job only when the build and the flags
  enable TSP, and are then checked against the same list of administrators.\<close>

theorem outsiders_change_nothing:
  assumes "trust_repository repo atomic kr kq view good" "nd_repo nd = repo" "framework_ok (nd_fw nd)"
    and "good s" "git_only cs" "cap_in_force sts cs"
    and "start_one_did_listener built web sdk cfg = Listening li" "dp_admins (nd_deployment nd) = dm_admin_dids cfg"
    and "start_listening md cfg li d (s, cs) acl = (S0, acl')" "listening_run built nd unpack S0 fs S"
    and "\<forall>f \<in> set fs. frame_senders unpack f \<inter> set (dm_admin_dids cfg) = {}"
  shows "good (fst (lg_registry S)) \<and> view (fst (lg_registry S)) = view s \<and> snd (lg_registry S) = cs \<and>
    lg_ids S = d \<and>
    (\<forall>packed admins. Handle_Tsp packed admins \<in> set (lg_spawned S) \<longrightarrow>
       built \<and> tf_tsp (dm_flags cfg) \<and> admins = dm_admin_dids cfg)"
proof -
  have t: "li_tsp li = attach_tsp built cfg"
    using assms(7) by (auto simp: start_one_did_listener_def split: result.splits)
  have s0: "lg_listener S0 = li" "lg_spawned S0 = []" "lg_ids S0 = d" "lg_registry S0 = (s, cs)" "lg_done S0 = []"
    using assms(9) by (auto simp: start_listening_def split: prod.splits)
  have l: "li_tsp (lg_listener S0) = None \<or>
      li_tsp (lg_listener S0) = Some \<lparr>tc_admin_dids = dp_admins (nd_deployment nd)\<rparr>"
    using t s0(1) by (simp add: attach_tsp_def assms(8))
  have a: "accounted built fs S \<and> lg_listener S = li"
    using accounted_run [OF assms(10)] s0 by (auto simp: accounted_def [of _ "[]"])
  have "built \<and> tf_tsp (dm_flags cfg) \<and> admins = dm_admin_dids cfg"
    if sp: "Handle_Tsp packed admins \<in> set (lg_spawned S)" for packed admins
  proof -
    obtain f where "frame_job built li (Some f) = Some (Handle_Tsp packed admins)"
      using a accounted_frame [OF _ sp] by blast
    then show ?thesis using t by (auto simp: frame_job_def attach_tsp_def split: frame.splits if_splits)
  qed
  then show ?thesis
    using trust_repository.run_outsiders [OF assms(1-3) l s0(2,5) _ _ _ assms(10) assms(11) [folded assms(8)]]
      assms(4-6) s0(3,4) by simp
qed

definition sample_listener_config :: didcomm_config where
  "sample_listener_config = \<lparr>dm_enabled = True, dm_flags = flags_default, dm_acl_mode = ExplicitDeny,
     dm_profile = \<lparr>pc_alias = ''Trust Registry'', pc_did = ''did:key:z6Mk'', pc_secrets = []\<rparr>,
     dm_mediator_did = ''did:mediator'', dm_did_document = [], dm_admin_dids = [''did:admin''],
     dm_log_format = LogText, dm_retry = retry_default\<rparr>"

definition sample_sdk :: listener_sdk where
  "sample_sdk = \<lparr>ls_config = Ok (), ls_tdk = Ok (), ls_atm = True, ls_profile = Ok (), ls_profile_add = Ok (Ok ())\<rparr>"

text \<open>An access list that cannot be read, as when the mediator is busy.\<close>

definition sample_mediator :: "unit mediator" where
  "sample_mediator = \<lparr>md_account_get = Err ''busy'', md_set_mode = (\<lambda>n mode. Ok n), md_acls_set = (\<lambda>n a. (Ok (), a))\<rparr>"

theorem outsiders_change_nothing_witness:
  "\<exists>li S0 S. start_one_did_listener True sample_web sample_sdk sample_listener_config = Listening li \<and>
    start_listening sample_mediator sample_listener_config li memory_default (local_new, cap_set_of []) () = (S0, ()) \<and>
    listening_run True sample_node (\<lambda>p n. Err (DIDError ''resolver'')) S0 [F_Didcomm (create_message ''did:peer'')] S \<and>
    lg_cancelled S \<and> local_view (fst (lg_registry S)) = local_view local_new"
proof -
  let ?unpack = "\<lambda>p n. Err (DIDError ''resolver'')" and ?m = "create_message ''did:peer''"
  obtain li where li: "start_one_did_listener True sample_web sample_sdk sample_listener_config = Listening li"
    by (simp add: start_one_did_listener_def check_did_document_def did_document_url_def sample_listener_config_def
        strip_prefix_def starts_with_def build_listener_def sample_sdk_def)
  obtain S0 where s0: "start_listening sample_mediator sample_listener_config li memory_default
      (local_new, cap_set_of []) () = (S0, ())" by (metis prod.exhaust old.unit.exhaust)
  obtain res eff d w where b: "base_handle sample_node sample_call 5 ?m (lg_ids S0) (lg_registry S0) = (res, eff, d, w)"
    by (metis prod.exhaust)
  let ?S = "S0\<lparr>lg_ids := d, lg_registry := w, lg_taken := lg_taken S0 @ [F_Didcomm ?m],
    lg_done := lg_done S0 @ [Handle_Didcomm ?m]\<rparr>\<lparr>lg_cancelled := True\<rparr>"
  have r: "listening_run True sample_node ?unpack S0 [F_Didcomm ?m] ?S"
    by (rule run_extend [OF serves_message [OF b] listening_step.Shutdown]) simp
  have n: "nd_repo sample_node = local_repo" "framework_ok (nd_fw sample_node)"
    "dp_admins (nd_deployment sample_node) = dm_admin_dids sample_listener_config"
    by (simp_all add: sample_node_def sample_framework_ok sample_deployment_def sample_listener_config_def)
  have j: "\<forall>f \<in> set [F_Didcomm ?m]. frame_senders ?unpack f \<inter> set (dm_admin_dids sample_listener_config) = {}"
    by (simp add: message_sender_def create_message_def didcomm_msg_def sample_listener_config_def)
  have "local_view (fst (lg_registry ?S)) = local_view local_new"
    using outsiders_change_nothing [OF local.trust_repository_axioms n(1,2) local_new_inv(1) cap_set_of_simps(1,2) li n(3) s0 r j] by simp
  then show ?thesis using li s0 r by (intro exI conjI) (assumption | simp)+
qed

text \<open>C40: The shutdown token stops the offline synchronisation and nothing else of the listener.  The
  synchronisation runs until the token is cancelled; then it can stop, and once it has, no queued
  message is acknowledged any more.  But in every state, cancelled or not, the receive loop takes the
  next live frame, which the mediator deletes on receipt; every task that was spawned can still be
  carried out on the registry, writes included; and the tasks that are pending or have run are
  exactly those of the frames taken so far, each once.  A live frame is deleted at the mediator, and a
  queued message acknowledged, before its task has run: a process that ends there has lost it.\<close>

theorem shutdown_stops_only_sync:
  assumes "start_listening md cfg li d0 w0 acl = (S0, acl')" "listening_run built nd unpack S0 fs S"
  shows "(\<not> lg_syncing S \<longrightarrow> lg_cancelled S) \<and>
    (lg_cancelled S \<longrightarrow> listening_run built nd unpack S [] (S\<lparr>lg_syncing := False\<rparr>)) \<and>
    (\<not> lg_syncing S \<longrightarrow> (\<forall>gs T. listening_run built nd unpack S gs T \<longrightarrow> \<not> lg_syncing T \<and> lg_deleted T = lg_deleted S)) \<and>
    mset (lg_spawned S) + mset (lg_done S) = mset (frames_jobs built li fs) \<and>
    (\<forall>f. \<exists>T. listening_run built nd unpack S [f] T \<and> lg_taken T = lg_taken S @ [f] \<and>
       lg_spawned T = lg_spawned S @ frames_jobs built li [f] \<and> lg_done T = lg_done S \<and>
       lg_ids T = lg_ids S \<and> lg_registry T = lg_registry S) \<and>
    (\<forall>j \<in> set (lg_spawned S). \<forall>ce t2 d w. run_job nd ce t2 unpack j (lg_ids S) (lg_registry S) = (d, w) \<longrightarrow>
       (\<exists>T. listening_run built nd unpack S [] T \<and> lg_done T = lg_done S @ [j] \<and> lg_ids T = d \<and> lg_registry T = w)) \<and>
    (\<forall>pk n frames m i. lg_syncing S \<and> pk_status pk = Ok (Some n) \<and> 0 < n \<and>
       pk_delivery pk MESSAGES_LIMIT = Ok frames \<and> (Some (F_Didcomm m), i) \<in> set frames \<longrightarrow>
       (\<exists>T. listening_run built nd unpack S (interval_frames pk) T \<and> i \<in> set (lg_deleted T) \<and>
          Handle_Didcomm m \<in> set (lg_spawned T) \<and> lg_registry T = lg_registry S))"
proof -
  have s0: "lg_listener S0 = li" "lg_spawned S0 = []" "lg_done S0 = []"
    using assms(1) by (auto simp: start_listening_def split: prod.splits)
  have acc: "lg_listener S = li" "mset (lg_spawned S) + mset (lg_done S) = mset (frames_jobs built li fs)"
    using accounted_run [OF assms(2)] s0 by (simp_all add: accounted_def)
  have "\<not> lg_syncing S \<longrightarrow> lg_cancelled S"
    using assms(2,1) by (induction rule: listening_run.induct)
      (auto simp: start_listening_def split: prod.splits elim: listening_step.cases)
  moreover have "listening_run built nd unpack S [] (S\<lparr>lg_syncing := False\<rparr>)" if "lg_cancelled S"
  proof (cases "lg_syncing S")
    case True
    then show ?thesis by (rule run_of_step [OF listening_step.Sync_stops [OF _ that]])
  next
    case False
    then have "S\<lparr>lg_syncing := False\<rparr> = S" by (cases S) simp
    then show ?thesis by (simp add: listening_run.Run_start)
  qed
  moreover have "\<exists>T. listening_run built nd unpack S [f] T \<and> lg_taken T = lg_taken S @ [f] \<and>
      lg_spawned T = lg_spawned S @ frames_jobs built li [f] \<and> lg_done T = lg_done S \<and>
      lg_ids T = lg_ids S \<and> lg_registry T = lg_registry S" for f
    using run_of_step [OF takes_frame [of built nd unpack S f]] acc(1)
    by (intro exI [of _ "S\<lparr>lg_spawned := lg_spawned S @ frames_jobs built li [f], lg_taken := lg_taken S @ [f]\<rparr>"]) simp
  moreover have "\<exists>T. listening_run built nd unpack S [] T \<and> lg_done T = lg_done S @ [j] \<and> lg_ids T = d \<and> lg_registry T = w"
    if "j \<in> set (lg_spawned S)" "run_job nd ce t2 unpack j (lg_ids S) (lg_registry S) = (d, w)" for j ce t2 d w
    using runs_task [OF that, of built] run_of_step by metis
  moreover have "\<exists>T. listening_run built nd unpack S (interval_frames pk) T \<and> i \<in> set (lg_deleted T) \<and>
      Handle_Didcomm m \<in> set (lg_spawned T) \<and> lg_registry T = lg_registry S"
    if "lg_syncing S" "pk_status pk = Ok (Some n)" "0 < n" "pk_delivery pk MESSAGES_LIMIT = Ok frames"
      "(Some (F_Didcomm m), i) \<in> set frames" for pk n frames m i
    using interval_acknowledges [OF that] run_of_step by metis
  ultimately show ?thesis
    using acc(2) stopped_sync by (intro conjI allI impI ballI) blast+
qed

text \<open>After the shutdown a create request is taken, deleted at the mediator, and carried out later.\<close>

theorem shutdown_stops_only_sync_witness:
  "\<exists>S T U. listening_run True sample_node (\<lambda>p n. Err (DIDError ''resolver''))
      (fst (start_listening sample_mediator sample_listener_config \<lparr>li_tsp = None, li_acl_mode = ExplicitDeny\<rparr>
         memory_default (local_new, cap_set_of []) ())) [] S \<and>
    lg_cancelled S \<and> \<not> lg_syncing S \<and>
    listening_run True sample_node (\<lambda>p n. Err (DIDError ''resolver'')) S [F_Didcomm (create_message ''did:admin'')] T \<and>
    lg_taken T = [F_Didcomm (create_message ''did:admin'')] \<and> ls_records (fst (lg_registry T)) = [] \<and>
    listening_run True sample_node (\<lambda>p n. Err (DIDError ''resolver'')) T [] U \<and>
    ls_records (fst (lg_registry U)) \<noteq> []"
proof -
  let ?unpack = "\<lambda>p n. Err (DIDError ''resolver'')" and ?m = "create_message ''did:admin''"
  let ?run = "listening_run True sample_node ?unpack"
  obtain S0 where s0: "start_listening sample_mediator sample_listener_config
      \<lparr>li_tsp = None, li_acl_mode = ExplicitDeny\<rparr> memory_default (local_new, cap_set_of []) () = (S0, ())"
    by (metis prod.exhaust old.unit.exhaust)
  let ?C = "S0\<lparr>lg_cancelled := True\<rparr>" and ?S = "S0\<lparr>lg_cancelled := True\<rparr>\<lparr>lg_syncing := False\<rparr>"
  have f: "lg_ids S0 = memory_default" "lg_registry S0 = (local_new, cap_set_of [])" "lg_syncing S0" "lg_taken S0 = []"
    using s0 by (auto simp: start_listening_def split: prod.splits)
  have c: "?run S0 [] ?C" by (rule run_of_step [OF listening_step.Shutdown])
  have r: "?run S0 [] ?S"
    by (rule run_extend [OF c listening_step.Sync_stops]) (simp_all add: f)
  obtain T where t: "?run ?S [F_Didcomm ?m] T" "lg_taken T = lg_taken ?S @ [F_Didcomm ?m]"
    "lg_spawned T = lg_spawned ?S @ frames_jobs True \<lparr>li_tsp = None, li_acl_mode = ExplicitDeny\<rparr> [F_Didcomm ?m]"
    "lg_ids T = lg_ids ?S" "lg_registry T = lg_registry ?S"
    using shutdown_stops_only_sync [OF s0 r] by metis
  have st: "?run S0 [F_Didcomm ?m] T" by (rule run_trans [OF t(1) r]) simp
  have j: "Handle_Didcomm ?m \<in> set (lg_spawned T)"
    by (simp add: t(3) frames_jobs_def List.map_filter_def frame_job_def)
  obtain d w where b: "run_job sample_node sample_call 5 ?unpack (Handle_Didcomm ?m) memory_default (local_new, cap_set_of []) = (d, w)"
    by (metis prod.exhaust)
  obtain U where u: "?run T [] U" "lg_registry U = w"
    using shutdown_stops_only_sync [OF s0 st] j b t(4,5) f by (simp, metis)
  have "ls_records (fst (snd (run_job sample_node sample_call 5 (\<lambda>p n. Err (DIDError ''resolver'')) (Handle_Didcomm ?m)
      memory_default (local_new, cap_set_of [])))) \<noteq> []"
    by code_simp
  then have "ls_records (fst w) \<noteq> []" using b by simp
  moreover have "ls_records (fst (lg_registry T)) = []" by (simp add: t(5) f local_new_def)
  ultimately show ?thesis using r s0 t(1,2) u f
    by (intro exI [of _ ?S] exI [of _ T] exI [of _ U]) simp
qed

section \<open>Supervision\<close>

text \<open>The server goes on until its HTTP task ends, whatever the listener does; a listener that stops
  before that degrades the reported health, for good.  But a listener that fails to start, for
  whatever reason, is reported as one that exited cleanly.\<close>

theorem listener_exit_keeps_reads:
  assumes "join_tasks didcomm es (health_new didcomm) = (returned, h)"
  shows "(returned \<longleftrightarrow> (\<exists>r. Http_Exit r \<in> set es)) \<and>
    (is_degraded (he_status h) \<longleftrightarrow>
       didcomm \<and> (\<exists>r. Didcomm_Exit r \<in> set (takeWhile (\<lambda>e. \<forall>r. e \<noteq> Http_Exit r) es))) \<and>
    json_get (health_json h) ''status'' = Some (JStr (if is_degraded (he_status h) then ''degraded'' else ''OK'')) \<and>
    (\<forall>e es'. didcomm \<and> start_one_did_listener built web sdk cfg = Stopped e \<and>
       es = Didcomm_Exit (start_didcomm_server (Joined (Err e))) # es' \<longrightarrow>
       json_get (health_json h) ''detail'' = Some (JStr ''didcomm listener exited cleanly''))"
proof -
  have off: "fst (join_tasks False es h0) = (\<exists>r. Http_Exit r \<in> set es) \<and> snd (join_tasks False es h0) = h0" for es h0
    by (induction es) (auto split: task_event.splits, (metis join_tasks.simps(2,3) fst_conv snd_conv task_event.exhaust)+)
  have on: "fst (join_tasks True es h0) = (\<exists>r. Http_Exit r \<in> set es) \<and>
      (is_degraded (he_status (snd (join_tasks True es h0))) \<longleftrightarrow> is_degraded (he_status h0) \<or>
        (\<exists>r. Didcomm_Exit r \<in> set (takeWhile (\<lambda>e. \<forall>r. e \<noteq> Http_Exit r) es)))" for es h0
  proof (cases es)
    case (Cons e es')
    then show ?thesis using off [of es'] by (cases e) (auto simp: mark_writes_unavailable_def)
  qed simp
  have st: "json_get (health_json h) ''status'' = Some (JStr (if is_degraded (he_status h) then ''degraded'' else ''OK''))"
    by (simp add: health_json_def json_get_jobj split: option.split)
  have "json_get (health_json h) ''detail'' = Some (JStr ''didcomm listener exited cleanly'')"
    if "didcomm" "es = Didcomm_Exit (start_didcomm_server (Joined (Err e))) # es'" for e es'
  proof -
    have "h = mark_writes_unavailable ''didcomm listener exited cleanly'' (health_new True)"
      using off [of es' "mark_writes_unavailable ''didcomm listener exited cleanly'' (health_new True)"] assms that
      by (simp add: start_didcomm_server_def)
    then show ?thesis by (simp add: health_json_def json_get_jobj mark_writes_unavailable_def)
  qed
  then show ?thesis
    using on [of es "health_new True"] off [of es "health_new False"] assms st
    by (cases didcomm) (auto simp: health_new_def)
qed

theorem listener_exit_keeps_reads_witness:
  "let (returned, h) = join_tasks True [Didcomm_Exit (start_didcomm_server (Joined (Err InvalidDid))), Http_Exit Exited]
       (health_new True) in
   returned \<and> json_get (health_json h) ''status'' = Some (JStr ''degraded'') \<and>
   json_get (health_json h) ''detail'' = Some (JStr ''didcomm listener exited cleanly'')"
proof -
  let ?es = "[Didcomm_Exit (start_didcomm_server (Joined (Err InvalidDid))), Http_Exit Exited]"
  define web where "web = sample_web\<lparr>web_decode := (\<lambda>s. None)\<rparr>"
  define cfg where "cfg = sample_listener_config\<lparr>dm_profile := \<lparr>pc_alias = [], pc_did = ''did:web:%'', pc_secrets = []\<rparr>\<rparr>"
  have st: "start_one_did_listener True web sample_sdk cfg = Stopped InvalidDid"
    by (simp add: start_one_did_listener_def check_did_document_def did_document_url_def web_def cfg_def
        strip_prefix_def starts_with_def)
  obtain returned h where j: "join_tasks True ?es (health_new True) = (returned, h)" by fastforce
  show ?thesis
    using listener_exit_keeps_reads [OF j, of True web sample_sdk cfg] st j by auto
qed

end
