(* ===== verification/Setup_Tool.thy ===== *)
theory Setup_Tool
  imports Configuration "HOL-Library.Multiset"
begin

text \<open>
  The provisioning tools, \<open>bin/setup_trust_registry.rs\<close> and \<open>bin/generate_secrets.rs\<close>: they make the
  registry's DID and keys, write the environment files and the DID document, and put the profile
  into a configured secret store.  Key generation, the DID libraries, the mediator and the JSON
  printers are parameters; the file system is a map from paths to texts whose calls may fail.
  Terminal output is not modelled.
\<close>

section \<open>Steps\<close>

text \<open>An \<open>expect\<close> or \<open>unwrap\<close> that fails ends the process, an error is returned.\<close>

datatype setup_error = Setup_Panic string | Setup_Failed string

type_synonym ('a, 'w) provision = "'w \<Rightarrow> ('a, setup_error) result \<times> 'w"

definition sbind :: "('a, 'w) provision \<Rightarrow> ('a \<Rightarrow> ('b, 'w) provision) \<Rightarrow> ('b, 'w) provision" where
  "sbind m f w = (case m w of (Ok a, w1) \<Rightarrow> f a w1 | (Err e, w1) \<Rightarrow> (Err e, w1))"

definition sreturn :: "'a \<Rightarrow> ('a, 'w) provision" where
  "sreturn a w = (Ok a, w)"

definition slift :: "('e \<Rightarrow> setup_error) \<Rightarrow> ('a, 'e) result \<Rightarrow> ('a, 'w) provision" where
  "slift f r w = (map_err f r, w)"

abbreviation or_panic :: "string \<Rightarrow> ('a, string) result \<Rightarrow> ('a, 'w) provision" where
  "or_panic m \<equiv> slift (\<lambda>e. Setup_Panic (m @ '': '' @ e))"

abbreviation or_fail :: "('a, string) result \<Rightarrow> ('a, 'w) provision" where
  "or_fail \<equiv> slift Setup_Failed"

lemma sbind_Ok: "sbind m f w = (Ok b, w2) \<longleftrightarrow> (\<exists>a w1. m w = (Ok a, w1) \<and> f a w1 = (Ok b, w2))"
  by (auto simp: sbind_def split: prod.splits result.splits)

lemma sbind_step [simp]: "m w = (Ok a, w1) \<Longrightarrow> sbind m f w = f a w1"
  by (simp add: sbind_def)

lemma sreturn_eq [simp]: "sreturn a w = (r, w1) \<longleftrightarrow> r = Ok a \<and> w1 = w"
  by (auto simp: sreturn_def)

lemma slift_eq [simp]: "slift f r w = (r1, w1) \<longleftrightarrow> r1 = map_err f r \<and> w1 = w"
  by (auto simp: slift_def)

section \<open>Files\<close>

record setup_files =
  sf_text :: "string \<rightharpoonup> string"
  sf_script :: "io_outcome list"

definition sf_next :: "setup_files \<Rightarrow> io_outcome \<times> setup_files" where
  "sf_next fs = (case sf_script fs of [] \<Rightarrow> (IoOk, fs) | o1 # os \<Rightarrow> (o1, fs\<lparr>sf_script := os\<rparr>))"

text \<open>\<open>sf_put\<close>: a call that leaves \<open>new\<close> in a file; a failing one may leave something else.\<close>

definition sf_put :: "string \<Rightarrow> string \<Rightarrow> setup_files \<Rightarrow> (unit, string) result \<times> setup_files" where
  "sf_put path new fs =
     (case sf_next fs of
        (IoOk, fs1) \<Rightarrow> (Ok (), fs1\<lparr>sf_text := (sf_text fs1)(path \<mapsto> new)\<rparr>)
      | (IoFails m, fs1) \<Rightarrow> (Err m, fs1)
      | (IoFailsLeaving m c, fs1) \<Rightarrow> (Err m, fs1\<lparr>sf_text := (sf_text fs1)(path \<mapsto> c)\<rparr>))"

definition sf_read :: "string \<Rightarrow> setup_files \<Rightarrow> (string, string) result \<times> setup_files" where
  "sf_read path fs =
     (case sf_next fs of
        (IoOk, fs1) \<Rightarrow> (ok_or (sf_text fs1 path) ''No such file or directory'', fs1)
      | (IoFails m, fs1) \<Rightarrow> (Err m, fs1)
      | (IoFailsLeaving m c, fs1) \<Rightarrow> (Err m, fs1))"

text \<open>\<open>BufRead::lines\<close>: lines end at a newline, a carriage return before it is dropped.\<close>

definition strip_cr :: "string \<Rightarrow> string" where
  "strip_cr l = (if l \<noteq> [] \<and> last l = char_of (13 :: nat) then butlast l else l)"

definition text_lines :: "string \<Rightarrow> string list" where
  "text_lines t =
     (let ls = split_char (CHR 0x0A) t in map strip_cr (if last ls = [] then butlast ls else ls))"

definition env_line :: "string \<times> string \<Rightarrow> string" where
  "env_line p = fst p @ CHR ''='' # snd p @ [CHR 0x0A]"

fun read_vars :: "string list \<Rightarrow> (string, string) hmap \<Rightarrow> ((string, string) hmap, string) result" where
  "read_vars [] m = Ok m"
| "read_vars (l # ls) m =
     (if \<not> utf8_ok (map of_char l) then Err ''stream did not contain valid UTF-8''
      else read_vars ls
        (case split_once (CHR ''='') l of
           Some (key, v) \<Rightarrow> AList.update (trim_str key) (trim_str v) m | None \<Rightarrow> m))"

fun write_lines :: "string \<Rightarrow> (string \<times> string) list \<Rightarrow> string \<Rightarrow> setup_files \<Rightarrow> (unit, string) result \<times> setup_files" where
  "write_lines path [] done_so_far fs = (Ok (), fs)"
| "write_lines path (p # ps) done_so_far fs =
     (case sf_put path (done_so_far @ env_line p) fs of
        (Err e, fs1) \<Rightarrow> (Err e, fs1)
      | (Ok _, fs1) \<Rightarrow> write_lines path ps (done_so_far @ env_line p) fs1)"

text \<open>
  \<open>insert_env_vars\<close>, the same function in both tools.  \<open>iter\<close> is the order in which the hash map
  is written out.
\<close>

definition merge_vars :: "(string \<times> string) list \<Rightarrow> (string, string) hmap \<Rightarrow> (string, string) hmap" where
  "merge_vars new_vars m = fold (\<lambda>(k, v) m. AList.update k v m) new_vars m"

definition insert_env_vars ::
  "((string, string) hmap \<Rightarrow> (string \<times> string) list) \<Rightarrow> string \<Rightarrow> (string \<times> string) list \<Rightarrow> string option \<Rightarrow>
   setup_files \<Rightarrow> (unit, string) result \<times> setup_files" where
  "insert_env_vars iter path new_vars example fs =
     (case (case (sf_text fs path, Option.bind example (sf_text fs)) of
              (None, Some t) \<Rightarrow> sf_put path t fs
            | _ \<Rightarrow> (Ok (), fs)) of
        (Err e, fs1) \<Rightarrow> (Err e, fs1)
      | (Ok _, fs1) \<Rightarrow>
          (case (if sf_text fs1 path = None then (Ok [], fs1)
                 else case sf_read path fs1 of (r, fs2) \<Rightarrow> (bind_ok r (\<lambda>t. read_vars (text_lines t) []), fs2)) of
             (Err e, fs2) \<Rightarrow> (Err e, fs2)
           | (Ok existing, fs2) \<Rightarrow>
               (case sf_put path [] fs2 of
                  (Err e, fs3) \<Rightarrow> (Err e, fs3)
                | (Ok _, fs3) \<Rightarrow> write_lines path (iter (merge_vars new_vars existing)) [] fs3)))"

section \<open>The outside world\<close>

text \<open>A generated key: its public multibase form and the key itself; an update key has no JWK.\<close>

record gen_key =
  gk_multibase :: string
  gk_material :: secret_material

record setup_secret =
  ss_id :: string
  ss_material :: secret_material

text \<open>A service of a \<open>did:peer\<close>, and the document of the DID library.\<close>

datatype peer_service =
    Peer_Uri "string option" string string
  | Peer_Long string "string list"

record generated_method =
  gm_id :: string
  gm_controller :: string
  gm_multibase :: string

record generated_service =
  gs_id :: string
  gs_type :: string
  gs_endpoint :: string

record generated_doc =
  gd_id :: string
  gd_context :: "string list"
  gd_methods :: "generated_method list"
  gd_authentication :: "string list"
  gd_assertion :: "string list"
  gd_key_agreement :: "string list"
  gd_services :: "generated_service list"

text \<open>The first entry of a \<open>did:webvh\<close> log.\<close>

record webvh_entry =
  we_id :: string
  we_log :: string
  we_document :: "(generated_doc, string) result"

record ('g, 'm) setup_libs =
  lb_p256 :: "'g \<Rightarrow> (gen_key, string) result \<times> 'g"
  lb_ed25519 :: "'g \<Rightarrow> gen_key \<times> 'g"
  lb_key_hash :: "gen_key \<Rightarrow> string"
  lb_peer :: "string \<Rightarrow> string \<Rightarrow> peer_service list \<Rightarrow> (string, string) result"
  lb_parse_url :: "string \<Rightarrow> (string, string) result"
  lb_webvh_url :: "string \<Rightarrow> (string, string) result"
  lb_webvh_entry :: "generated_doc \<Rightarrow> string \<Rightarrow> string \<Rightarrow> gen_key \<Rightarrow> (webvh_entry, string) result"
  lb_doc_json :: "generated_doc \<Rightarrow> json"
  lb_secret_json :: "setup_secret \<Rightarrow> json"
  lb_secrets_parse :: "string \<Rightarrow> (setup_secret list, string) result"
  lb_text :: "json \<Rightarrow> string"
  lb_pretty :: "json \<Rightarrow> string"
  lb_key_press :: "(unit, string) result"
  lb_tdk :: "(unit, string) result"
  lb_profile :: "string \<Rightarrow> string \<Rightarrow> (unit, string) result"
  lb_account :: "string \<Rightarrow> 'm \<Rightarrow> (nat option, string) result"
  lb_mode :: "nat \<Rightarrow> acl_mode"
  lb_set_mode :: "nat \<Rightarrow> acl_mode \<Rightarrow> (nat, string) result"
  lb_acls_set :: "string \<Rightarrow> nat \<Rightarrow> 'm \<Rightarrow> (unit, string) result \<times> 'm"
  lb_iter :: "(string, string) hmap \<Rightarrow> (string \<times> string) list"

record ('g, 'm, 'k) setup_world =
  sw_gen :: 'g
  sw_files :: setup_files
  sw_mediator :: 'm
  sw_blobs :: 'k

definition on_files ::
  "(setup_files \<Rightarrow> (unit, string) result \<times> setup_files) \<Rightarrow> (unit, ('g, 'm, 'k) setup_world) provision" where
  "on_files f w = (case f (sw_files w) of (r, fs) \<Rightarrow> (map_err Setup_Failed r, w\<lparr>sw_files := fs\<rparr>))"

definition fresh_p256 :: "('g, 'm) setup_libs \<Rightarrow> string \<Rightarrow> (gen_key, ('g, 'm, 'k) setup_world) provision" where
  "fresh_p256 lb msg w =
     (case lb_p256 lb (sw_gen w) of (r, g) \<Rightarrow> (map_err (\<lambda>e. Setup_Panic (msg @ '': '' @ e)) r, w\<lparr>sw_gen := g\<rparr>))"

definition fresh_ed25519 :: "('g, 'm) setup_libs \<Rightarrow> (gen_key, ('g, 'm, 'k) setup_world) provision" where
  "fresh_ed25519 lb w = (case lb_ed25519 lb (sw_gen w) of (k, g) \<Rightarrow> (Ok k, w\<lparr>sw_gen := g\<rparr>))"

section \<open>The access list at the mediator\<close>

text \<open>Errors of the connection and of the account query are printed; the others end the process.\<close>

definition set_acl :: "('g, 'm) setup_libs \<Rightarrow> string \<Rightarrow> string \<Rightarrow> (unit, ('g, 'm, 'k) setup_world) provision" where
  "set_acl lb did mediator_did =
     sbind (or_panic ''unwrap'' (lb_tdk lb)) (\<lambda>_ w.
       case bind_ok (lb_profile lb did mediator_did) (\<lambda>_. lb_account lb did (sw_mediator w)) of
         Err e \<Rightarrow> (Ok (), w)
       | Ok None \<Rightarrow> (Ok (), w)
       | Ok (Some acls) \<Rightarrow>
           if lb_mode lb acls = ExplicitAllow
           then (case lb_set_mode lb acls ExplicitDeny of
                   Err e \<Rightarrow> (Err (Setup_Panic (''unwrap: '' @ e)), w)
                 | Ok acls1 \<Rightarrow>
                     (case lb_acls_set lb did acls1 (sw_mediator w) of
                        (r, m) \<Rightarrow> (map_err (\<lambda>e. Setup_Panic (''unwrap: '' @ e)) r, w\<lparr>sw_mediator := m\<rparr>)))
           else (Ok (), w))"

fun set_acls :: "('g, 'm) setup_libs \<Rightarrow> string \<Rightarrow> string list \<Rightarrow> (unit, ('g, 'm, 'k) setup_world) provision" where
  "set_acls lb mediator_did [] = sreturn ()"
| "set_acls lb mediator_did (d # ds) = sbind (set_acl lb d mediator_did) (\<lambda>_. set_acls lb mediator_did ds)"

section \<open>DIDs\<close>

definition peer_secrets :: "string \<Rightarrow> gen_key \<Rightarrow> gen_key \<Rightarrow> setup_secret list" where
  "peer_secrets did v e =
     [\<lparr>ss_id = did @ ''#key-1'', ss_material = gk_material v\<rparr>, \<lparr>ss_id = did @ ''#key-2'', ss_material = gk_material e\<rparr>]"

definition create_peer ::
  "('g, 'm) setup_libs \<Rightarrow> peer_service list \<Rightarrow> (string \<times> setup_secret list, ('g, 'm, 'k) setup_world) provision" where
  "create_peer lb services =
     sbind (fresh_p256 lb ''Couldn't create P256 secret'') (\<lambda>v.
     sbind (fresh_p256 lb ''Couldn't create P256 secret'') (\<lambda>e.
     sbind (or_panic ''Failed to create did:peer'' (lb_peer lb (gk_multibase v) (gk_multibase e) services)) (\<lambda>did.
     sreturn (did, peer_secrets did v e))))"

definition create_did ::
  "('g, 'm) setup_libs \<Rightarrow> string \<Rightarrow> (string \<times> setup_secret list, ('g, 'm, 'k) setup_world) provision" where
  "create_did lb mediator_did = create_peer lb [Peer_Uri None ''dm'' mediator_did]"

definition create_keys :: "('g, 'm) setup_libs \<Rightarrow> (gen_key \<times> gen_key, ('g, 'm, 'k) setup_world) provision" where
  "create_keys lb =
     sbind (fresh_p256 lb ''Failed to generate P256 key'') (\<lambda>v.
     sbind (fresh_p256 lb ''Failed to generate P256 key'') (\<lambda>e. sreturn (v, e)))"

text \<open>\<open>str::replace\<close> for a pattern that is not empty.\<close>

function replace_str :: "string \<Rightarrow> string \<Rightarrow> string \<Rightarrow> string" where
  "replace_str p r [] = []"
| "replace_str p r (c # s) =
     (if p \<noteq> [] \<and> starts_with p (c # s) then r @ replace_str p r (drop (length p) (c # s))
      else c # replace_str p r s)"
  by pat_completeness auto
termination
  by (relation "measure (\<lambda>(p, r, s). length s)") auto

definition setup_did_peer_tr ::
  "('g, 'm) setup_libs \<Rightarrow> string \<Rightarrow> (string \<times> setup_secret list, ('g, 'm, 'k) setup_world) provision" where
  "setup_did_peer_tr lb mediator_did = create_did lb mediator_did"

text \<open>The document for \<open>did:web\<close> and \<open>did:webvh\<close>: keys, then a service per transport that is on.\<close>

definition generated_service_entry ::
  "('g, 'm) setup_libs \<Rightarrow> string \<Rightarrow> string \<Rightarrow> string \<Rightarrow> string \<Rightarrow> (generated_service, string) result" where
  "generated_service_entry lb did fragment service_type endpoint =
     bind_ok (lb_parse_url lb endpoint) (\<lambda>ep.
     bind_ok (lb_parse_url lb (did @ fragment)) (\<lambda>sid.
     Ok \<lparr>gs_id = sid, gs_type = service_type, gs_endpoint = ep\<rparr>))"

definition generated_services ::
  "('g, 'm) setup_libs \<Rightarrow> string \<Rightarrow> string \<Rightarrow> string option \<Rightarrow> transport_flags \<Rightarrow> (generated_service list, string) result" where
  "generated_services lb did mediator_did public_url flags =
     bind_ok (if tf_didcomm flags
              then bind_ok (generated_service_entry lb did DIDCOMM_SERVICE_FRAGMENT DIDCOMM_SERVICE_TYPE mediator_did) (\<lambda>s. Ok [s])
              else Ok []) (\<lambda>didcomm.
     bind_ok (case (tf_rest flags, public_url) of
                (True, Some url) \<Rightarrow>
                  bind_ok (validate_public_url url) (\<lambda>_.
                  bind_ok (generated_service_entry lb did REST_SERVICE_FRAGMENT REST_SERVICE_TYPE (trim_end_slash url)) (\<lambda>s. Ok [s]))
              | _ \<Rightarrow> Ok []) (\<lambda>rest.
     bind_ok (if tf_tsp flags
              then bind_ok (generated_service_entry lb did TSP_SERVICE_FRAGMENT TSP_SERVICE_TYPE mediator_did) (\<lambda>s. Ok [s])
              else Ok []) (\<lambda>tsp.
     Ok (didcomm @ rest @ tsp))))"

definition generate_document ::
  "bool \<Rightarrow> environment \<Rightarrow> ('g, 'm) setup_libs \<Rightarrow> string \<Rightarrow> string \<Rightarrow> gen_key \<Rightarrow> gen_key \<Rightarrow> (generated_doc, string) result" where
  "generate_document tsp_built env lb did mediator_did v e =
     bind_ok (lb_parse_url lb did) (\<lambda>controller.
     bind_ok (lb_parse_url lb (did @ ''#key-1'')) (\<lambda>v_id.
     bind_ok (lb_parse_url lb (did @ ''#key-2'')) (\<lambda>e_id.
     bind_ok (flags_from_env tsp_built env) (\<lambda>flags.
     bind_ok (generated_services lb did mediator_did (public_url_from_env env) flags) (\<lambda>services.
     Ok \<lparr>gd_id = controller,
         gd_context = [''https://www.w3.org/ns/did/v1'', ''https://w3id.org/security/multikey/v1''],
         gd_methods = [\<lparr>gm_id = v_id, gm_controller = controller, gm_multibase = gk_multibase v\<rparr>,
                       \<lparr>gm_id = e_id, gm_controller = controller, gm_multibase = gk_multibase e\<rparr>],
         gd_authentication = [v_id], gd_assertion = [v_id], gd_key_agreement = [e_id],
         gd_services = services\<rparr>)))))"

definition jwk_secrets :: "string \<Rightarrow> gen_key \<Rightarrow> gen_key \<Rightarrow> setup_secret list" where
  "jwk_secrets did v e =
     (case gk_material v of MaterialJwk k \<Rightarrow> [\<lparr>ss_id = did @ ''#key-1'', ss_material = MaterialJwk k\<rparr>] | MaterialOther \<Rightarrow> []) @
     (case gk_material e of MaterialJwk k \<Rightarrow> [\<lparr>ss_id = did @ ''#key-2'', ss_material = MaterialJwk k\<rparr>] | MaterialOther \<Rightarrow> [])"

text \<open>
  \<open>did:webvh\<close> puts the document into the first entry of a log, which fixes the DID; the log is
  saved beside the document.
\<close>

definition webvh_document ::
  "('g, 'm) setup_libs \<Rightarrow> generated_doc \<Rightarrow> (string \<times> generated_doc, ('g, 'm, 'k) setup_world) provision" where
  "webvh_document lb doc =
     sbind (fresh_ed25519 lb) (\<lambda>update.
     sbind (fresh_ed25519 lb) (\<lambda>next_update.
     sbind (or_fail (lb_webvh_entry lb doc (gk_multibase update) (lb_key_hash lb next_update) update)) (\<lambda>entry.
     sbind (on_files (sf_put ''did.jsonl'' (we_log entry))) (\<lambda>_.
     sbind (or_fail (we_document entry)) (\<lambda>final.
     sreturn (filter (\<lambda>c. c \<noteq> CHR 0x22) (we_id entry), final))))))"

definition setup_did_web_tr ::
  "bool \<Rightarrow> environment \<Rightarrow> ('g, 'm) setup_libs \<Rightarrow> string \<Rightarrow> string \<Rightarrow> string \<Rightarrow> bool \<Rightarrow>
   (string \<times> setup_secret list, ('g, 'm, 'k) setup_world) provision" where
  "setup_did_web_tr tsp_built env lb mediator_did web_url did_method non_interactive =
     sbind (or_fail (bind_ok (lb_parse_url lb web_url) (lb_webvh_url lb))) (\<lambda>raw.
     let first_did = (if did_method = ''web'' then replace_str ''webvh:{SCID}'' ''web'' raw else raw) in
     sbind (create_keys lb) (\<lambda>(v, e).
     sbind (or_fail (generate_document tsp_built env lb first_did mediator_did v e)) (\<lambda>doc.
     sbind (if did_method = ''webvh'' then webvh_document lb doc else sreturn (first_did, doc)) (\<lambda>(did, final).
     sbind (on_files (sf_put ''did.json'' (lb_pretty lb (lb_doc_json lb final)))) (\<lambda>_.
     sbind (if non_interactive then sreturn () else or_fail (lb_key_press lb)) (\<lambda>_.
     sreturn (did, jwk_secrets did v e)))))))"

section \<open>Profiles and the test registry\<close>

definition profile_json :: "('g, 'm) setup_libs \<Rightarrow> string \<Rightarrow> string \<Rightarrow> setup_secret list \<Rightarrow> json" where
  "profile_json lb alias did secrets =
     jobj [(''alias'', JStr alias), (''did'', JStr did), (''secrets'', JArr (map (lb_secret_json lb) secrets))]"

definition single_quoted :: "string \<Rightarrow> string" where
  "single_quoted s = [CHR 0x27] @ s @ [CHR 0x27]"

definition test_vars ::
  "('g, 'm) setup_libs \<Rightarrow> string \<times> setup_secret list \<Rightarrow> string \<times> setup_secret list \<Rightarrow> (string \<times> string) list" where
  "test_vars lb tr client =
     [(''TRUST_REGISTRY_DID'', fst tr), (''CLIENT_DID'', fst client), (''ADMIN_DIDS'', fst client),
      (''CLIENT_SECRETS'', lb_text lb (JStr (lb_text lb (JArr (map (lb_secret_json lb) (snd client)))))),
      (''PROFILE_CONFIG'', single_quoted (lb_text lb (profile_json lb ''Test Trust Registry'' (fst tr) (snd tr))))]"

definition setup_test_trust_registry ::
  "('g, 'm) setup_libs \<Rightarrow> string \<Rightarrow> bool \<Rightarrow> (unit, ('g, 'm, 'k) setup_world) provision" where
  "setup_test_trust_registry lb mediator_did in_pipeline =
     sbind (create_did lb mediator_did) (\<lambda>tr.
     sbind (create_did lb mediator_did) (\<lambda>client.
     sbind (if in_pipeline
            then on_files (insert_env_vars (lb_iter lb) ''./.env.pipeline'' (test_vars lb tr client) None)
            else on_files (insert_env_vars (lb_iter lb) ''./.env.test''
                   (test_vars lb tr client @ [(''MEDIATOR_DID'', mediator_did)]) (Some ''./testing/.env.test.example''))) (\<lambda>_.
     set_acls lb mediator_did [fst tr, fst client])))"

section \<open>The tool\<close>

text \<open>The arguments as the command-line parser hands them over, defaults filled in.\<close>

record setup_args =
  sa_mediator_did :: "string option"
  sa_did_method :: "string option"
  sa_didweb_url :: "string option"
  sa_profile :: "string option"
  sa_storage_backend :: string
  sa_file_storage_path :: "string option"
  sa_ddb_table_name :: "string option"
  sa_redis_url :: "string option"
  sa_admin_dids :: "string option"
  sa_tr_did :: "string option"
  sa_tr_did_secret :: "string option"
  sa_test_in_pipeline :: "bool option"
  sa_audit_log_format :: "string option"
  sa_acl_mode :: "string option"
  sa_non_interactive :: bool

definition or_empty :: "string option \<Rightarrow> string" where
  "or_empty x = (case x of Some s \<Rightarrow> s | None \<Rightarrow> [])"

text \<open>The profile of the registry: an existing DID, a new one, or a location that is taken as it is.\<close>

definition setup_profile ::
  "bool \<Rightarrow> environment \<Rightarrow> ('g, 'm) setup_libs \<Rightarrow> setup_args \<Rightarrow> string \<Rightarrow> (string, ('g, 'm, 'k) setup_world) provision" where
  "setup_profile tsp_built env lb args mediator_did =
     (let profile = or_empty (sa_profile args); did_method = or_empty (sa_did_method args);
          tr_did = or_empty (sa_tr_did args); tr_secret = or_empty (sa_tr_did_secret args) in
      if tr_did \<noteq> [] \<and> tr_secret \<noteq> []
      then sbind (or_fail (map_err (\<lambda>e. ''Failed to parse existing_tr_did_secret as JSON: '' @ e) (lb_secrets_parse lb tr_secret))) (\<lambda>secrets.
           sreturn (single_quoted (lb_text lb (profile_json lb ''Trust Registry'' tr_did secrets))))
      else if did_method \<noteq> []
      then sbind (if did_method = ''peer'' then setup_did_peer_tr lb mediator_did
                  else if did_method = ''web'' \<or> did_method = ''webvh''
                  then sbind (or_fail (ok_or (sa_didweb_url args) (''--didweb-url is required when using did:'' @ did_method @ '' method.''))) (\<lambda>url.
                       setup_did_web_tr tsp_built env lb mediator_did url did_method (sa_non_interactive args))
                  else or_fail (Err (''Unsupported DID method: '' @ did_method @ ''.''))) (\<lambda>(did, secrets).
           sreturn (if profile = [] then single_quoted (lb_text lb (profile_json lb ''Trust Registry'' did secrets)) else profile))
      else sreturn profile)"

definition trim_quotes :: "string \<Rightarrow> string" where
  "trim_quotes s = rev (dropWhile (\<lambda>c. c = CHR 0x27) (rev (dropWhile (\<lambda>c. c = CHR 0x27) s)))"

text \<open>A failure to write the secret store is printed.\<close>

definition provision_secret_store ::
  "('h, 'k) secret_lib \<Rightarrow> environment \<Rightarrow> string \<Rightarrow> (unit, ('g, 'm, 'k) setup_world) provision" where
  "provision_secret_store sl env profile w =
     (let cfg = secrets_config_from_env (sl_default_keyring sl) env in
      if backend_selected cfg
      then (Ok (), w\<lparr>sw_blobs := snd (write_profile sl cfg (data_dir env) (trim_quotes profile) (sw_blobs w))\<rparr>)
      else (Ok (), w))"

definition storage_vars :: "setup_args \<Rightarrow> ((string \<times> string) list, string) result" where
  "storage_vars args =
     bind_ok
       (if sa_storage_backend args = ''csv''
        then bind_ok (ok_or (sa_file_storage_path args) ''Error: --file-storage-path is required when using csv storage'')
               (\<lambda>p. Ok [(''FILE_STORAGE_PATH'', p)])
        else if sa_storage_backend args = ''ddb''
        then bind_ok (ok_or (sa_ddb_table_name args) ''Error: --ddb-table-name is required when using ddb storage'')
               (\<lambda>p. Ok [(''DDB_TABLE_NAME'', p)])
        else if sa_storage_backend args = ''redis''
        then bind_ok (ok_or (sa_redis_url args) ''Error: --redis-url is required when using redis storage'')
               (\<lambda>p. Ok [(''REDIS_URL'', p)])
        else Ok [])
       (\<lambda>vars. Ok ((''TR_STORAGE_BACKEND'', sa_storage_backend args) # vars))"

definition server_vars :: "setup_args \<Rightarrow> string \<Rightarrow> (string \<times> string) list \<Rightarrow> string \<Rightarrow> (string \<times> string) list" where
  "server_vars args profile storage audit =
     [(''PROFILE_CONFIG'', profile), (''MEDIATOR_DID'', or_empty (sa_mediator_did args)),
      (''ADMIN_DIDS'', or_empty (sa_admin_dids args)),
      (''ACL_MODE'', (case sa_acl_mode args of Some a \<Rightarrow> a | None \<Rightarrow> ''ExplicitDeny''))] @ storage @
     [(''AUDIT_LOG_FORMAT'', audit)]"

definition setup_main ::
  "bool \<Rightarrow> environment \<Rightarrow> ('g, 'm) setup_libs \<Rightarrow> ('h, 'k) secret_lib \<Rightarrow> setup_args \<Rightarrow>
   (unit, ('g, 'm, 'k) setup_world) provision" where
  "setup_main tsp_built env lb sl args =
     (let mediator_did = or_empty (sa_mediator_did args) in
      sbind (if mediator_did = [] then sreturn (or_empty (sa_profile args))
             else sbind (setup_profile tsp_built env lb args mediator_did) (\<lambda>profile.
                  sbind (setup_test_trust_registry lb mediator_did (case sa_test_in_pipeline args of Some b \<Rightarrow> b | None \<Rightarrow> False)) (\<lambda>_.
                  sreturn profile))) (\<lambda>profile.
      sbind (provision_secret_store sl env profile) (\<lambda>_.
      sbind (or_fail (storage_vars args)) (\<lambda>storage.
      sbind (or_panic ''unwrap'' (ok_or (sa_audit_log_format args) ''None'')) (\<lambda>audit.
      on_files (insert_env_vars (lb_iter lb) ''./.env''
        (server_vars args profile storage audit) (Some ''./.env.example'')))))))"

section \<open>The second tool\<close>

definition gs_create_did ::
  "('g, 'm) setup_libs \<Rightarrow> string list option \<Rightarrow> bool \<Rightarrow> (string \<times> setup_secret list, ('g, 'm, 'k) setup_world) provision" where
  "gs_create_did lb service auth_service =
     sbind (fresh_p256 lb ''Couldn't create P256 secret'') (\<lambda>v.
     sbind (fresh_p256 lb ''Couldn't create P256 secret'') (\<lambda>e.
     sbind (or_panic ''unwrap''
        (case service of
           Some uris \<Rightarrow>
             if \<not> auth_service then Ok [Peer_Long ''dm'' uris]
             else (case uris of
                     u # us \<Rightarrow> Ok [Peer_Long ''dm'' uris, Peer_Uri (Some ''#auth'') ''Authentication'' (u @ ''/authenticate'')]
                   | [] \<Rightarrow> Err ''index out of bounds'')
         | None \<Rightarrow> if auth_service then Err ''None'' else Ok [])) (\<lambda>services.
     sbind (or_panic ''Failed to create did:peer'' (lb_peer lb (gk_multibase v) (gk_multibase e) services)) (\<lambda>did.
     sreturn (did, peer_secrets did v e)))))"

definition gs_main :: "environment \<Rightarrow> ('g, 'm) setup_libs \<Rightarrow> (unit, ('g, 'm, 'k) setup_world) provision" where
  "gs_main env lb =
     sbind (or_panic ''MEDIATOR_URL not set'' (ok_or (env ''MEDIATOR_URL'') ''NotPresent'')) (\<lambda>url.
     sbind (or_panic ''MEDIATOR_DID not set'' (ok_or (env ''MEDIATOR_DID'') ''NotPresent'')) (\<lambda>mediator_did.
     sbind (gs_create_did lb (Some [url]) True) (\<lambda>tr.
     sbind (gs_create_did lb (Some [url]) True) (\<lambda>test_tr.
     sbind (gs_create_did lb (Some [url]) True) (\<lambda>client.
     sbind (set_acls lb mediator_did [fst tr, fst test_tr, fst client]) (\<lambda>_.
     if to_lowercase (env_or env ''IN_PIPELINE'' ''false'') = ''true''
     then on_files (insert_env_vars (lb_iter lb) ''./.env.pipeline'' (test_vars lb test_tr client) None)
     else sbind (on_files (insert_env_vars (lb_iter lb) ''./.env''
                  [(''PROFILE_CONFIG'', single_quoted (lb_text lb (profile_json lb ''Trust Registry'' (fst tr) (snd tr)))),
                   (''MEDIATOR_DID'', mediator_did)] (Some ''./.env.example''))) (\<lambda>_.
          on_files (insert_env_vars (lb_iter lb) ''./.env.test''
            (test_vars lb test_tr client @ [(''MEDIATOR_DID'', mediator_did)]) (Some ''./testing/.env.test.example'')))))))))"

section \<open>Lemmas\<close>

subsection \<open>Environment files\<close>

text \<open>What a file says: the last line for a key counts; a line without an equality sign says nothing.\<close>

definition line_var :: "string \<Rightarrow> (string \<times> string) option" where
  "line_var l = map_option (\<lambda>(a, b). (trim_str a, trim_str b)) (split_once (CHR ''='') l)"

definition file_vars :: "string \<Rightarrow> string \<rightharpoonup> string" where
  "file_vars t = map_of (rev (List.map_filter line_var (text_lines t)))"

definition clean_part :: "string \<Rightarrow> bool" where
  "clean_part s \<longleftrightarrow> trim_str s = s \<and> CHR 0x0A \<notin> set s"

definition iter_law :: "((string, string) hmap \<Rightarrow> (string \<times> string) list) \<Rightarrow> bool" where
  "iter_law iter \<longleftrightarrow> (\<forall>m. mset (iter m) = mset m)"

lemma split_char_pieces: "p \<in> set (split_char c s) \<Longrightarrow> c \<notin> set p"
  by (induction s arbitrary: p) (auto split: list.splits if_splits)

lemma text_lines_no_newline: "l \<in> set (text_lines t) \<Longrightarrow> CHR 0x0A \<notin> set l"
proof -
  assume "l \<in> set (text_lines t)"
  then obtain p where p: "p \<in> set (split_char (CHR 0x0A) t)" "l = strip_cr p"
    by (auto simp: text_lines_def Let_def split: if_splits dest: in_set_butlastD)
  then show ?thesis using split_char_pieces [OF p(1)] by (auto simp: strip_cr_def dest: in_set_butlastD)
qed

lemma set_trim: "set (trim_str s) \<subseteq> set s"
  by (auto simp: trim_str_def trim_start_def dest!: set_dropWhileD)

lemma trim_trim [simp]: "trim_str (trim_str s) = trim_str s"
proof -
  let ?a = "trim_start s"
  let ?r = "rev (trim_start (rev ?a))"
  show ?thesis
  proof (cases "?r = []")
    case False
    obtain z where z: "rev ?a = z @ trim_start (rev ?a)"
      unfolding trim_start_def using takeWhile_dropWhile_id by metis
    then have "?a = ?r @ rev z" by (metis rev_append rev_rev_ident)
    moreover have "hd (?r @ rev z) = hd ?r" using False by (rule hd_append2)
    ultimately have "hd ?r = hd ?a" "?a \<noteq> []" using False by (metis, metis append_is_Nil_conv)
    then have "\<not> is_space (hd ?r)" by (metis hd_dropWhile trim_start_def)
    then have "trim_start ?r = ?r" using False by (cases ?r) (simp_all add: trim_start_def)
    moreover have "trim_start (trim_start (rev ?a)) = trim_start (rev ?a)" by (simp add: trim_start_def)
    ultimately show ?thesis by (simp add: trim_str_def)
  next
    case True
    then have "trim_str s = []" by (simp add: trim_str_def)
    then show ?thesis by (simp add: trim_str_def [of "[]"] trim_start_def)
  qed
qed

lemma clean_part_trim: "CHR 0x0A \<notin> set s \<Longrightarrow> clean_part (trim_str s)"
  using set_trim by (auto simp: clean_part_def)

lemma clean_no_cr: "clean_part s \<Longrightarrow> s \<noteq> [] \<Longrightarrow> last s \<noteq> char_of (13 :: nat)"
proof
  assume s: "clean_part s" "s \<noteq> []" and l: "last s = char_of (13 :: nat)"
  have "s = rev (trim_start (rev (trim_start s)))" using s(1) by (simp add: clean_part_def trim_str_def)
  then have r: "rev s = trim_start (rev (trim_start s))" by (metis rev_rev_ident)
  then have "\<not> is_space (hd (rev s))" using s(2) by (metis hd_dropWhile rev_is_Nil_conv trim_start_def)
  then show False using l s(2) by (simp add: hd_rev is_space_def)
qed

lemma strip_cr_line: "clean_part v \<Longrightarrow> strip_cr (k @ CHR ''='' # v) = k @ CHR ''='' # v"
  using clean_no_cr [of v] char_of_eq_iff [of "13 :: nat" "CHR ''=''"] by (cases "v = []") (auto simp: strip_cr_def)

lemma split_lines:
  "\<forall>(k, v) \<in> set ps. CHR 0x0A \<notin> set k \<and> CHR 0x0A \<notin> set v \<Longrightarrow>
   split_char (CHR 0x0A) (concat (map env_line ps)) = map (\<lambda>(k, v). k @ CHR ''='' # v) ps @ [[]]"
proof (induction ps)
  case (Cons p ps)
  obtain k v where p: "p = (k, v)" by (cases p)
  have "CHR 0x0A \<notin> set (k @ CHR ''='' # v)" using Cons.prems p by auto
  from split_char_append [OF this, of "concat (map env_line ps)"] show ?case
    using Cons p by (simp add: env_line_def [of "(k, v)"])
qed simp

lemma file_vars_lines:
  assumes "\<forall>(k, v) \<in> set ps. clean_part k \<and> CHR ''='' \<notin> set k \<and> clean_part v"
  shows "file_vars (concat (map env_line ps)) = map_of (rev ps)"
proof -
  have "split_char (CHR 0x0A) (concat (map env_line ps)) = map (\<lambda>(k, v). k @ CHR ''='' # v) ps @ [[]]"
    by (rule split_lines) (use assms in \<open>auto simp: clean_part_def\<close>)
  then have "text_lines (concat (map env_line ps)) = map (\<lambda>(k, v). k @ CHR ''='' # v) ps"
    using assms by (auto simp: text_lines_def strip_cr_line)
  moreover have "List.map_filter line_var (map (\<lambda>(k, v). k @ CHR ''='' # v) ps) = ps"
    using assms by (induction ps) (auto simp: List.map_filter_def line_var_def split_once_append clean_part_def)
  ultimately show ?thesis by (simp add: file_vars_def)
qed

lemma read_vars_spec:
  assumes "read_vars ls m = Ok m'" "hm_ok m" "\<forall>l \<in> set ls. CHR 0x0A \<notin> set l"
    and "\<forall>(k, v) \<in> set m. clean_part k \<and> CHR ''='' \<notin> set k \<and> clean_part v"
  shows "hm_ok m' \<and> map_of m' = map_of m ++ map_of (rev (List.map_filter line_var ls)) \<and>
    (\<forall>(k, v) \<in> set m'. clean_part k \<and> CHR ''='' \<notin> set k \<and> clean_part v)"
  using assms
proof (induction ls arbitrary: m)
  case (Cons l ls)
  show ?case
  proof (cases "split_once (CHR ''='') l")
    case None
    then show ?thesis using Cons by (auto simp: List.map_filter_def line_var_def split: if_splits)
  next
    case (Some kv)
    obtain a b where kv: "kv = (a, b)" by (cases kv)
    note so = split_once_Some [OF Some [unfolded kv]]
    let ?m = "AList.update (trim_str a) (trim_str b) m"
    have r: "read_vars ls ?m = Ok m'" using Cons.prems(1) Some kv by (auto split: if_splits)
    have c: "clean_part (trim_str a)" "clean_part (trim_str b)" "CHR ''='' \<notin> set (trim_str a)"
      using so Cons.prems(3) set_trim [of a] by (auto intro!: clean_part_trim)
    have "set ?m \<subseteq> insert (trim_str a, trim_str b) (set m)" by (induction m) auto
    then have cl: "\<forall>(k, v) \<in> set ?m. clean_part k \<and> CHR ''='' \<notin> set k \<and> clean_part v"
      using c Cons.prems(4) by blast
    have "hm_ok m' \<and> map_of m' = map_of ?m ++ map_of (rev (List.map_filter line_var ls)) \<and>
        (\<forall>(k, v) \<in> set m'. clean_part k \<and> CHR ''='' \<notin> set k \<and> clean_part v)"
      by (rule Cons.IH [OF r _ _ cl]) (use Cons.prems(2,3) in simp_all)
    moreover have "List.map_filter line_var (l # ls) = (trim_str a, trim_str b) # List.map_filter line_var ls"
      using Some kv by (simp add: List.map_filter_def line_var_def)
    moreover have "map_of ?m ++ map_of (rev xs) = map_of m ++ map_of (rev ((trim_str a, trim_str b) # xs))" for xs
      by (auto simp: map_add_def fun_eq_iff split: option.splits)
    ultimately show ?thesis by simp
  qed
qed simp

lemma map_of_merge_vars: "map_of (merge_vars new_vars m) = map_of m ++ map_of (rev new_vars)"
  by (induction new_vars arbitrary: m) (auto simp: merge_vars_def map_add_def fun_eq_iff split: option.splits)

lemma merge_vars_keeps:
  assumes "hm_ok m" "\<forall>p \<in> set m. P p" "\<forall>p \<in> set new_vars. P p"
  shows "hm_ok (merge_vars new_vars m) \<and> (\<forall>p \<in> set (merge_vars new_vars m). P p)"
  using assms
proof (induction new_vars arbitrary: m)
  case (Cons p new_vars)
  have "set (AList.update (fst p) (snd p) m) \<subseteq> insert p (set m)" by (induction m) auto
  then have "\<forall>q \<in> set (AList.update (fst p) (snd p) m). P q" using Cons.prems(2,3) by auto
  with Cons.IH [of "AList.update (fst p) (snd p) m"] Cons.prems show ?case
    by (simp add: merge_vars_def case_prod_beta)
qed (simp add: merge_vars_def)

lemma map_of_rev_iter: "iter_law iter \<Longrightarrow> hm_ok m \<Longrightarrow> map_of (rev (iter m)) = map_of m"
proof -
  assume i: "iter_law iter" and m: "hm_ok m"
  have e: "mset (iter m) = mset m" using i by (simp add: iter_law_def)
  then have "mset (map fst (rev (iter m))) = mset (map fst m)" by simp
  then have d: "distinct (map fst (rev (iter m)))" using m mset_eq_imp_distinct_iff by (fastforce simp: hm_ok_def)
  have "set (rev (iter m)) = set m" using mset_eq_setD [OF e] by simp
  then show ?thesis using map_of_inject_set [OF d m [unfolded hm_ok_def]] by simp
qed

lemma sf_put_Ok: "sf_put path x fs = (Ok (), fs1) \<Longrightarrow> sf_text fs1 = (sf_text fs)(path \<mapsto> x)"
  by (auto simp: sf_put_def sf_next_def split: list.splits io_outcome.splits prod.splits)

lemma sf_read_Ok: "sf_read path fs = (Ok t, fs1) \<Longrightarrow> sf_text fs path = Some t \<and> sf_text fs1 = sf_text fs"
  by (auto simp: sf_read_def sf_next_def split: list.splits io_outcome.splits prod.splits)

lemma write_lines_Ok:
  "write_lines path ps x fs = (Ok (), fs1) \<Longrightarrow> sf_text fs path = Some x \<Longrightarrow>
   sf_text fs1 = (sf_text fs)(path \<mapsto> x @ concat (map env_line ps))"
proof (induction ps arbitrary: x fs)
  case (Cons p ps)
  obtain r fs2 where s: "sf_put path (x @ env_line p) fs = (r, fs2)" by (metis prod.exhaust)
  then have r: "r = Ok ()" using Cons.prems by (cases r) auto
  have "sf_text fs2 = (sf_text fs)(path \<mapsto> x @ env_line p)" using sf_put_Ok s r by blast
  then show ?case using Cons.IH [of "x @ env_line p" fs2] Cons.prems s r by (simp add: fun_eq_iff)
qed (auto simp: fun_upd_idem)

text \<open>The text the merge starts from: the file, or the example in its place, or nothing.\<close>

definition prior_text :: "setup_files \<Rightarrow> string \<Rightarrow> string option \<Rightarrow> string" where
  "prior_text fs path example =
     (case sf_text fs path of Some t \<Rightarrow> t
      | None \<Rightarrow> (case Option.bind example (sf_text fs) of Some t \<Rightarrow> t | None \<Rightarrow> []))"

lemma file_vars_Nil [simp]: "file_vars [] = Map.empty"
  by (simp add: file_vars_def text_lines_def List.map_filter_def)

lemma insert_env_vars_spec:
  assumes "iter_law iter" "\<forall>(k, v) \<in> set new_vars. clean_part k \<and> CHR ''='' \<notin> set k \<and> clean_part v"
    and "insert_env_vars iter path new_vars example fs = (Ok (), fs')"
  shows "\<exists>ps. sf_text fs' = (sf_text fs)(path \<mapsto> concat (map env_line ps)) \<and>
    (\<forall>(k, v) \<in> set ps. clean_part k \<and> CHR ''='' \<notin> set k \<and> clean_part v) \<and> distinct (map fst ps) \<and>
    map_of ps = file_vars (prior_text fs path example) ++ map_of (rev new_vars)"
proof -
  let ?copy = "case (sf_text fs path, Option.bind example (sf_text fs)) of
      (None, Some t) \<Rightarrow> sf_put path t fs | _ \<Rightarrow> (Ok (), fs)"
  obtain r1 fs1 where c: "?copy = (r1, fs1)" by (metis prod.exhaust)
  have r1: "r1 = Ok ()" using assms(3) c by (cases r1) (auto simp: insert_env_vars_def)
  have t1: "sf_text fs1 path = (case sf_text fs path of Some t \<Rightarrow> Some t | None \<Rightarrow> Option.bind example (sf_text fs))"
    "(sf_text fs1)(path := x) = (sf_text fs)(path := x)" for x
    using c r1 sf_put_Ok by (auto split: option.splits)
  let ?read = "if sf_text fs1 path = None then (Ok [], fs1)
    else case sf_read path fs1 of (r, fs2) \<Rightarrow> (bind_ok r (\<lambda>t. read_vars (text_lines t) []), fs2)"
  obtain r2 fs2 where d: "?read = (r2, fs2)" by (metis prod.exhaust)
  obtain ex where r2: "r2 = Ok ex" using assms(3) c r1 d by (cases r2) (auto simp: insert_env_vars_def)
  have t2: "sf_text fs2 = sf_text fs1" using d r2 sf_read_Ok by (auto split: if_splits prod.splits)
  have ex: "hm_ok ex" "map_of ex = file_vars (prior_text fs path example)"
    "\<forall>(k, v) \<in> set ex. clean_part k \<and> CHR ''='' \<notin> set k \<and> clean_part v"
  proof -
    have "hm_ok ex \<and> map_of ex = file_vars (prior_text fs path example) \<and>
        (\<forall>(k, v) \<in> set ex. clean_part k \<and> CHR ''='' \<notin> set k \<and> clean_part v)"
    proof (cases "sf_text fs1 path")
      case None
      then show ?thesis using d r2 t1(1) by (auto simp: prior_text_def split: option.splits)
    next
      case (Some t)
      obtain r fs3 where rd: "sf_read path fs1 = (r, fs3)" by (metis prod.exhaust)
      then have "bind_ok r (\<lambda>t. read_vars (text_lines t) []) = Ok ex" using d r2 Some by simp
      then obtain t' where "r = Ok t'" "read_vars (text_lines t') [] = Ok ex" by auto
      then have "read_vars (text_lines t) [] = Ok ex" using sf_read_Ok rd Some by fastforce
      moreover have "prior_text fs path example = t"
        using Some t1(1) by (auto simp: prior_text_def split: option.splits)
      ultimately show ?thesis
        using read_vars_spec [of "text_lines t" "[]" ex] text_lines_no_newline by (simp add: file_vars_def)
    qed
    then show "hm_ok ex" "map_of ex = file_vars (prior_text fs path example)"
      "\<forall>(k, v) \<in> set ex. clean_part k \<and> CHR ''='' \<notin> set k \<and> clean_part v" by auto
  qed
  obtain r3 fs3 where e: "sf_put path [] fs2 = (r3, fs3)" by (metis prod.exhaust)
  have r3: "r3 = Ok ()" using assms(3) c r1 d r2 e by (cases r3) (auto simp: insert_env_vars_def)
  have t3: "sf_text fs3 = (sf_text fs2)(path \<mapsto> [])" using sf_put_Ok e r3 by blast
  let ?m = "merge_vars new_vars ex"
  have w: "write_lines path (iter ?m) [] fs3 = (Ok (), fs')"
    using assms(3) c r1 d r2 e r3 by (simp add: insert_env_vars_def)
  have "sf_text fs' = (sf_text fs3)(path \<mapsto> concat (map env_line (iter ?m)))"
    using write_lines_Ok [OF w] t3 by simp
  then have f: "sf_text fs' = (sf_text fs)(path \<mapsto> concat (map env_line (iter ?m)))" using t1(2) t2 t3 by simp
  have k: "hm_ok ?m" "\<forall>p \<in> set ?m. case p of (k, v) \<Rightarrow> clean_part k \<and> CHR ''='' \<notin> set k \<and> clean_part v"
    using merge_vars_keeps [OF ex(1,3) assms(2)] by auto
  have i: "set (iter ?m) = set ?m" "mset (map fst (iter ?m)) = mset (map fst ?m)"
    using assms(1) mset_eq_setD unfolding iter_law_def by (blast, simp)
  have "distinct (map fst (iter ?m))" using k(1) mset_eq_imp_distinct_iff [OF i(2)] by (simp add: hm_ok_def)
  moreover from this have "map_of (iter ?m) = map_of ?m"
    using map_of_rev_iter [OF assms(1) k(1)] map_of_rev_distinct by metis
  ultimately show ?thesis
    using f k(2) i(1) ex(2) by (intro exI [of _ "iter ?m"]) (simp add: map_of_merge_vars)
qed

end
