(* ===== verification/Setup_Properties.thy ===== *)
theory Setup_Properties
  imports Setup_Tool Served_Document
begin

text \<open>
  Properties of the provisioning tools against the parts that read what they write: the registry's
  configuration, the client's discovery, the served DID document and the secret store.
\<close>

section \<open>The generated document and the served one\<close>

text \<open>
  The printed document lists the services it was given, each with its type and its endpoint; a
  reader may find either as a value or in an array.
\<close>

definition reads_as :: "json \<Rightarrow> generated_service \<Rightarrow> bool" where
  "reads_as s g \<longleftrightarrow> (\<forall>t. service_has_type s t \<longleftrightarrow> t = gs_type g) \<and>
     Option.bind (json_get s ''serviceEndpoint'') endpoint_uri = Some (gs_endpoint g)"

definition doc_json_law :: "(generated_doc \<Rightarrow> json) \<Rightarrow> bool" where
  "doc_json_law doc_json \<longleftrightarrow>
     (\<forall>d. \<exists>svcs. json_get (doc_json d) ''service'' = Some (JArr svcs) \<and> list_all2 reads_as svcs (gd_services d))"

lemma add_service_view:
  "reads_as s g \<Longrightarrow> reads_as s' g \<Longrightarrow> add_service s = add_service s'"
  by (auto simp: reads_as_def add_service_def REST_SERVICE_TYPES_def fun_eq_iff split: option.splits)

lemma fold_services_view:
  "list_all2 reads_as ss gs \<Longrightarrow> list_all2 reads_as ss' gs \<Longrightarrow> fold add_service ss c = fold add_service ss' c"
proof (induction gs arbitrary: ss ss' c)
  case (Cons g gs)
  then obtain s t s' t' where "ss = s # t" "ss' = s' # t'" "reads_as s g" "reads_as s' g"
    "list_all2 reads_as t gs" "list_all2 reads_as t' gs" by (auto simp: list_all2_Cons2)
  then show ?case using Cons.IH [of t t'] add_service_view [of s g s'] by simp
qed simp

lemma advertised_from_env: "advertised_url (public_url_from_env env) = public_url_from_env env"
  by (auto simp: advertised_url_def public_url_from_env_def split: option.splits)

lemma served_read_as:
  "reads_as (plain_service i t e) \<lparr>gs_id = g, gs_type = t, gs_endpoint = e\<rparr>"
  "reads_as (didcomm_service did m) \<lparr>gs_id = g, gs_type = DIDCOMM_SERVICE_TYPE, gs_endpoint = m\<rparr>"
  by (auto simp: reads_as_def service_has_type_def plain_service_def didcomm_service_def json_get_jobj
      map_of_bt_of jobj_def)

lemma generated_document_services:
  assumes "generate_document built env lb did mediator v e = Ok doc" "flags_from_env built env = Ok flags"
    and "doc_json_law (lb_doc_json lb)" "lb_parse_url lb mediator = Ok mediator"
    and "\<forall>url. public_url_from_env env = Some url \<longrightarrow>
      lb_parse_url lb (trim_end_slash url) = Ok (trim_end_slash url)"
  shows "from_document (lb_doc_json lb doc) =
    from_document (did_document_json pc mediator (public_url_from_env env) flags)"
proof -
  let ?served = "build_services (pc_did pc) mediator (public_url_from_env env) flags"
  have "\<exists>ss. generated_services lb did mediator (public_url_from_env env) flags = Ok ss \<and> gd_services doc = ss"
    using assms(1,2) by (auto simp: generate_document_def)
  then have s: "generated_services lb did mediator (public_url_from_env env) flags = Ok (gd_services doc)" by simp
  have "list_all2 reads_as ?served ss"
    if "generated_services lb did mediator (public_url_from_env env) flags = Ok ss" for ss
    using that assms(4,5) served_read_as advertised_from_env [of env]
    by (auto simp: generated_services_def generated_service_entry_def build_services_def
        split: option.splits if_splits bool.splits intro!: list_all2_appendI)
  then have served: "list_all2 reads_as ?served (gd_services doc)" using s .
  obtain svcs where svcs: "json_get (lb_doc_json lb doc) ''service'' = Some (JArr svcs)"
    "list_all2 reads_as svcs (gd_services doc)" using assms(3) by (auto simp: doc_json_law_def)
  show ?thesis
    using fold_services_view [OF svcs(2) served, of no_capabilities] svcs(1)
    by (simp add: from_document_def did_document_service)
qed

text \<open>C30: The setup tool and the registry run in the same environment, with no \<open>DID_DOCUMENT\<close> and with
  addresses that parsing a URL leaves as they are.  With DIDComm on and the mediator the document
  was made for, the document the tool makes for a hosted DID (what it writes for \<open>did:web\<close>; for
  \<open>did:webvh\<close> the library wraps it into a log entry) and the one the registry serves offer a client
  the same transports at the same addresses.  With DIDComm off they differ: the registry serves an
  empty document, while the tool's offers HTTPS, and only that, at the public URL if one is set.\<close>

theorem generated_document_read_alike:
  assumes "load_didcomm_config x k = (Ok cfg, k')" "so_env x ''DID_DOCUMENT'' = None"
    and "json_text_law (so_json_text x) from_str"
    and "generate_document (so_tsp_built x) (so_env x) lb did mediator v e = Ok doc"
    and "doc_json_law (lb_doc_json lb)" "lb_parse_url lb mediator = Ok mediator"
    and "\<forall>url. public_url_from_env (so_env x) = Some url \<longrightarrow>
      lb_parse_url lb (trim_end_slash url) = Ok (trim_end_slash url)"
  shows "(dm_enabled cfg \<longrightarrow> dm_mediator_did cfg = mediator \<longrightarrow>
      from_document (lb_doc_json lb doc) = from_document (served_document from_str cfg)) \<and>
    (\<not> dm_enabled cfg \<longrightarrow>
      from_document (served_document from_str cfg) = no_capabilities \<and>
      from_document (lb_doc_json lb doc) =
        no_capabilities\<lparr>sc_https := non_empty (map_option trim_end_slash (public_url_from_env (so_env x)))\<rparr>)"
proof -
  note fl = didcomm_config_flags [OF assms(1)]
  have g: "from_document (lb_doc_json lb doc) =
      from_document (did_document_json (dm_profile cfg) mediator (public_url_from_env (so_env x)) (dm_flags cfg))"
    by (rule generated_document_services [OF assms(4) fl(1) assms(5-7)])
  have off: "tf_rest (dm_flags cfg) \<and> \<not> tf_tsp (dm_flags cfg)" if "\<not> dm_enabled cfg"
    using that fl by (auto simp: flags_from_env_Ok validate_flags_Ok)
  show ?thesis
    using served_document_read [OF assms(1-3)] g off fl(2) advertised_from_env [of "so_env x"]
    by (auto simp: registry_document_read no_capabilities_def)
qed

text \<open>A tool chain to run the tool on: keys are numbered, documents are printed as they are.\<close>

definition sample_key :: "nat \<Rightarrow> gen_key" where
  "sample_key n = \<lparr>gk_multibase = ''z'' @ show_nat n,
     gk_material = MaterialJwk \<lparr>jk_params = OKP_Params ''Ed25519'' (show_nat n) None, jk_key_id = None\<rparr>\<rparr>"

definition sample_doc_json :: "generated_doc \<Rightarrow> json" where
  "sample_doc_json d = jobj [(''id'', JStr (gd_id d)),
     (''service'', JArr (map (\<lambda>g. plain_service (gs_id g) (gs_type g) (gs_endpoint g)) (gd_services d)))]"

definition sample_libs :: "(nat, nat list) setup_libs" where
  "sample_libs = \<lparr>lb_p256 = (\<lambda>g. (Ok (sample_key g), Suc g)), lb_ed25519 = (\<lambda>g. (sample_key g, Suc g)),
     lb_key_hash = gk_multibase, lb_peer = (\<lambda>v e ss. Ok (''did:peer:2.'' @ v @ ''.'' @ e)),
     lb_parse_url = Ok, lb_webvh_url = (\<lambda>u. Ok (''did:webvh:{SCID}:'' @ u)), lb_webvh_entry = (\<lambda>d u n k. Err ''offline''),
     lb_doc_json = sample_doc_json, lb_secret_json = (\<lambda>s. JStr (ss_id s)), lb_secrets_parse = (\<lambda>t. Ok []),
     lb_text = (\<lambda>j. ''x''), lb_pretty = (\<lambda>j. ''x''), lb_key_press = Ok (), lb_tdk = Ok (),
     lb_profile = (\<lambda>d m. Ok ()), lb_account = (\<lambda>d m. Ok None), lb_mode = (\<lambda>n. ExplicitDeny),
     lb_set_mode = (\<lambda>n m. Ok n), lb_acls_set = (\<lambda>d n m. (Ok (), n # m)), lb_iter = id\<rparr>"

lemma sample_doc_law: "doc_json_law (lb_doc_json sample_libs)"
proof -
  have "list_all2 reads_as (map (\<lambda>g. plain_service (gs_id g) (gs_type g) (gs_endpoint g)) gs) gs" for gs
    by (induction gs) (auto simp: reads_as_def service_has_type_def)
  then show ?thesis by (simp add: doc_json_law_def sample_libs_def sample_doc_json_def json_get_jobj)
qed

definition hosted_env :: environment where
  "hosted_env = [''TR_PUBLIC_URL'' \<mapsto> ''https://tr.example/trqp/'', ''ENABLE_TSP'' \<mapsto> ''true'']"

lemma hosted_env_reads:
  "public_url_from_env hosted_env = Some ''https://tr.example/trqp/''"
  "flags_from_env True hosted_env = Ok \<lparr>tf_rest = True, tf_didcomm = True, tf_tsp = True\<rparr>"
  by code_simp+

text \<open>Both cases: every transport on, and DIDComm off.\<close>

theorem generated_document_read_alike_witness:
  "(\<exists>cfg k' doc. load_didcomm_config (env_sources served_env) () = (Ok cfg, k') \<and> dm_enabled cfg \<and>
     generate_document True served_env sample_libs ''did:web:tr'' ''did:web:mediator'' (sample_key 0) (sample_key 1) = Ok doc \<and>
     from_document (sample_doc_json doc) = from_document (served_document read_coded cfg)) \<and>
   (\<exists>cfg k' doc. load_didcomm_config (env_sources rest_only_env) () = (Ok cfg, k') \<and>
     generate_document True rest_only_env sample_libs ''did:web:tr'' ''did:web:mediator'' (sample_key 0) (sample_key 1) = Ok doc \<and>
     from_document (served_document read_coded cfg) = no_capabilities \<and>
     from_document (sample_doc_json doc) \<noteq> no_capabilities)"
proof
  note ev = generate_document_def generated_services_def generated_service_entry_def
    sample_libs_def validate_public_url_Ok starts_with_def bind_ok_eq_Err
  have l: "json_text_law (so_json_text (env_sources env)) read_coded" for env using coded_text_law by simp
  obtain cfg k' where c: "load_didcomm_config (env_sources served_env) () = (Ok cfg, k')" "dm_enabled cfg"
    "dm_mediator_did cfg = ''did:web:mediator''" by (rule served_env_loads)
  obtain doc where d: "generate_document (so_tsp_built (env_sources served_env)) (so_env (env_sources served_env)) sample_libs
      ''did:web:tr'' ''did:web:mediator'' (sample_key 0) (sample_key 1) = Ok doc"
    by (cases "generate_document True served_env sample_libs ''did:web:tr'' ''did:web:mediator'' (sample_key 0) (sample_key 1)")
      (simp_all add: ev served_env_reads split: if_splits)
  show "\<exists>cfg k' doc. load_didcomm_config (env_sources served_env) () = (Ok cfg, k') \<and> dm_enabled cfg \<and>
     generate_document True served_env sample_libs ''did:web:tr'' ''did:web:mediator'' (sample_key 0) (sample_key 1) = Ok doc \<and>
     from_document (sample_doc_json doc) = from_document (served_document read_coded cfg)"
    using generated_document_read_alike [OF c(1) _ l d sample_doc_law] c d
    by (auto simp: served_env_reads sample_libs_def)
next
  note ev = generate_document_def generated_services_def generated_service_entry_def
    sample_libs_def validate_public_url_Ok starts_with_def bind_ok_eq_Err
  have l: "json_text_law (so_json_text (env_sources env)) read_coded" for env using coded_text_law by simp
  obtain cfg k' where c: "load_didcomm_config (env_sources rest_only_env) () = (Ok cfg, k')" "\<not> dm_enabled cfg"
    by (rule rest_only_loads)
  obtain doc where d: "generate_document (so_tsp_built (env_sources rest_only_env)) (so_env (env_sources rest_only_env)) sample_libs
      ''did:web:tr'' ''did:web:mediator'' (sample_key 0) (sample_key 1) = Ok doc"
    by (cases "generate_document True rest_only_env sample_libs ''did:web:tr'' ''did:web:mediator'' (sample_key 0) (sample_key 1)")
      (simp_all add: ev rest_only_reads split: if_splits)
  have "non_empty (Some (trim_end_slash ''https://tr.example/trqp/'')) \<noteq> None" by code_simp
  then show "\<exists>cfg k' doc. load_didcomm_config (env_sources rest_only_env) () = (Ok cfg, k') \<and>
     generate_document True rest_only_env sample_libs ''did:web:tr'' ''did:web:mediator'' (sample_key 0) (sample_key 1) = Ok doc \<and>
     from_document (served_document read_coded cfg) = no_capabilities \<and>
     from_document (sample_doc_json doc) \<noteq> no_capabilities"
    using generated_document_read_alike [OF c(1) _ l d sample_doc_law] c d
    by (auto simp: rest_only_reads sample_libs_def no_capabilities_def)
qed

text \<open>The keys of a hosted DID are numbered from one in the profile and in the document the
  setup tool writes, and from zero in the document the registry serves from that profile: there
  \<open>#key-1\<close> is the encryption key, \<open>#key-2\<close> is missing, and every key is listed for every purpose.\<close>

theorem served_keys_renumbered:
  assumes "gk_material v = MaterialJwk kv" "gk_material e = MaterialJwk ke"
    and "generate_document built env lb did mediator v e = Ok doc"
    and "\<forall>k \<in> {did @ ''#key-1'', did @ ''#key-2''}. lb_parse_url lb k = Ok k"
    and "pc_did pc = did" "pc_secrets pc = map ss_material (jwk_secrets did v e)"
  shows "map ss_id (jwk_secrets did v e) = [did @ ''#key-1'', did @ ''#key-2''] \<and>
    map (\<lambda>m. (gm_id m, gm_multibase m)) (gd_methods doc) =
      [(did @ ''#key-1'', gk_multibase v), (did @ ''#key-2'', gk_multibase e)] \<and>
    gd_authentication doc = [did @ ''#key-1''] \<and> gd_key_agreement doc = [did @ ''#key-2''] \<and>
    (\<exists>ms refs. json_get (did_document_json pc mediator url flags) ''verificationMethod'' = Some (JArr ms) \<and>
       map (\<lambda>m. (json_get m ''id'', json_get m ''publicKeyJwk'')) ms =
         [(Some (JStr (did @ ''#key-0'')), Some (build_public_jwk kv)),
          (Some (JStr (did @ ''#key-1'')), Some (build_public_jwk ke))] \<and>
       refs = JArr [JStr (did @ ''#key-0''), JStr (did @ ''#key-1'')] \<and>
       json_get (did_document_json pc mediator url flags) ''authentication'' = Some refs \<and>
       json_get (did_document_json pc mediator url flags) ''keyAgreement'' = Some refs)"
proof -
  have n: "show_nat 0 = ''0''" "show_nat (Suc 0) = ''1''" by code_simp+
  have s: "pc_secrets pc = [MaterialJwk kv, MaterialJwk ke]" using assms(1,2,6) by (simp add: jwk_secrets_def)
  show ?thesis
    using assms s n
    by (auto simp: jwk_secrets_def generate_document_def did_document_json_def json_get_jobj Let_def
        build_verification_methods_def verification_method_def key_ref_def)
qed

theorem served_keys_renumbered_witness:
  "\<exists>doc. generate_document True hosted_env sample_libs ''did:web:tr'' ''did:web:m'' (sample_key 0) (sample_key 1) = Ok doc \<and>
     gd_authentication doc = [''did:web:tr#key-1''] \<and>
     json_get (did_document_json \<lparr>pc_alias = [], pc_did = ''did:web:tr'', pc_secrets = map ss_material
       (jwk_secrets ''did:web:tr'' (sample_key 0) (sample_key 1))\<rparr> ''did:web:m'' None flags_default) ''authentication'' =
       Some (JArr [JStr ''did:web:tr#key-0'', JStr ''did:web:tr#key-1''])"
proof -
  obtain doc where d: "generate_document True hosted_env sample_libs ''did:web:tr'' ''did:web:m''
      (sample_key 0) (sample_key 1) = Ok doc"
    by (cases "generate_document True hosted_env sample_libs ''did:web:tr'' ''did:web:m'' (sample_key 0) (sample_key 1)")
      (simp_all add: generate_document_def hosted_env_reads generated_services_def generated_service_entry_def
        sample_libs_def validate_public_url_Ok starts_with_def bind_ok_eq_Err split: if_splits)
  have k: "gk_material (sample_key n) = MaterialJwk \<lparr>jk_params = OKP_Params ''Ed25519'' (show_nat n) None, jk_key_id = None\<rparr>"
    for n by (simp add: sample_key_def)
  note r = served_keys_renumbered [OF k k d, where url = None and flags = flags_default
     and pc = "\<lparr>pc_alias = [], pc_did = ''did:web:tr'', pc_secrets = map ss_material
       (jwk_secrets ''did:web:tr'' (sample_key 0) (sample_key 1))\<rparr>"]
  show ?thesis using d r by (auto simp: sample_libs_def)
qed

section \<open>The secret store\<close>

text \<open>Run without a mediator while a secret store is configured, the setup tool replaces the
  identity the store holds by the text of the profile argument, which is a location or nothing at
  all; the registry reads that text back as its profile, whatever \<open>PROFILE_CONFIG\<close> says.\<close>

theorem setup_replaces_identity:
  assumes "setup_main built env lb sl args w = (res, w')" "or_empty (sa_mediator_did args) = []"
    and "backend_selected (secrets_config_from_env (sl_default_keyring sl) env)"
    and "sl_open sl (secrets_config_from_env (sl_default_keyring sl) env) (data_dir env) = Ok h"
    and "sl_set sl h (trim_quotes (or_empty (sa_profile args))) (sw_blobs w) = (Ok (), k)"
    and "sl_get sl h k = Ok (Some (trim_quotes (or_empty (sa_profile args))))"
    and "utf8_ok (map of_char (trim_quotes (or_empty (sa_profile args))))"
    and "so_env x = env" "so_secrets x = sl" "\<not> so_vta_built x"
  shows "sw_blobs w' = k \<and> fst (profile_text x (sw_blobs w')) = Ok (trim_quotes (or_empty (sa_profile args)))"
proof -
  have "sw_blobs w' = k"
    using assms(1-5)
    by (auto simp: setup_main_def sbind_def sreturn_def slift_def provision_secret_store_def Let_def
        write_profile_def on_files_def split: prod.splits result.splits)
  then show ?thesis
    using assms(3-10)
    by (simp add: profile_text_def load_profile_from_vta_def load_profile_from_secret_store_def Let_def read_profile_def)
qed

definition blob_store :: "(unit, string option) secret_lib" where
  "blob_store = \<lparr>sl_default_keyring = ''vta'', sl_open = (\<lambda>c d. Ok ()), sl_get = (\<lambda>h k. Ok k),
     sl_set = (\<lambda>h b k. (Ok (), Some b)), sl_utf8_error = (\<lambda>b. ''invalid'')\<rparr>"

definition seed_env :: environment where
  "seed_env = [''TR_SECRETS_SEED'' \<mapsto> ''s'']"

definition csv_args :: setup_args where
  "csv_args = \<lparr>sa_mediator_did = None, sa_did_method = Some ''peer'', sa_didweb_url = None,
     sa_profile = Some ''file:///p'', sa_storage_backend = ''csv'', sa_file_storage_path = Some ''./data.csv'',
     sa_ddb_table_name = Some ''test'', sa_redis_url = Some ''redis://localhost:6379'', sa_admin_dids = None,
     sa_tr_did = None, sa_tr_did_secret = None, sa_test_in_pipeline = Some False,
     sa_audit_log_format = Some ''json'', sa_acl_mode = Some ''ExplicitDeny'', sa_non_interactive = False\<rparr>"

definition stored_world :: "(nat, nat list, string option) setup_world" where
  "stored_world = \<lparr>sw_gen = 0, sw_files = \<lparr>sf_text = Map.empty, sf_script = []\<rparr>, sw_mediator = [],
     sw_blobs = Some ''identity''\<rparr>"

definition blob_sources :: "(unit, unit, unit, unit, string option) config_sources" where
  "blob_sources = \<lparr>so_vta_built = False, so_tsp_built = False, so_env = seed_env,
     so_loaders = \<lparr>ld_file = (\<lambda>p. Err ''none''), ld_aws_secret = (\<lambda>p. Err ''none''), ld_aws_parameter = (\<lambda>p. Err ''none'')\<rparr>,
     so_vta = \<lparr>vt_credential = (\<lambda>t. Err ''none''), vt_startup = (\<lambda>c st ld k. (Err ''none'', k)), vt_secrets = (\<lambda>b. Err ''none''),
       vt_bundle_text = (\<lambda>b. Err ''none''), vt_bundle_parse = (\<lambda>t. Err ''none''), vt_client = (\<lambda>c u. Err ''none''),
       vt_rotate = (\<lambda>l c s n t. Err ''none''), vt_json_text = (\<lambda>j. [])\<rparr>,
     so_secrets = blob_store, so_profile_parse = (\<lambda>t. Err ''not a profile''), so_json_text = (\<lambda>j. []),
     so_default_acl = ExplicitAllow\<rparr>"

lemma seed_selected: "backend_selected (secrets_config_from_env d seed_env)"
  by (simp add: backend_selected_def secrets_config_from_env_def env_set_def seed_env_def)

lemma location_text: "trim_quotes (or_empty (sa_profile csv_args)) = ''file:///p''"
  "trim_quotes ''file:///p'' = ''file:///p''" "utf8_ok (map of_char ''file:///p'')"
  by code_simp+

theorem setup_replaces_identity_witness:
  "sw_blobs stored_world = Some ''identity'' \<and>
   sw_blobs (snd (setup_main False seed_env sample_libs blob_store csv_args stored_world)) = Some ''file:///p'' \<and>
   fst (profile_text blob_sources (Some ''file:///p'')) = Ok ''file:///p''"
proof -
  obtain res w' where r: "setup_main False seed_env sample_libs blob_store csv_args stored_world = (res, w')"
    by (metis prod.exhaust)
  have "sw_blobs w' = Some ''file:///p'' \<and> fst (profile_text blob_sources (sw_blobs w')) = Ok ''file:///p''"
    unfolding location_text(1) [symmetric]
    by (rule setup_replaces_identity [OF r _ seed_selected, where h = "()"])
      (simp_all add: location_text blob_store_def blob_sources_def csv_args_def or_empty_def)
  moreover have "sw_blobs stored_world = Some ''identity''" by (simp add: stored_world_def)
  ultimately show ?thesis using r by auto
qed

section \<open>The environment file\<close>

text \<open>
  What the \<open>dotenv\<close> library documents of the lines the tool writes: a value in single quotes is
  taken literally, a value without white space, quotes, backslashes, dollar and hash signs too.
  For other values nothing is assumed.
\<close>

definition plain_text :: "string \<Rightarrow> bool" where
  "plain_text v \<longleftrightarrow> (\<forall>c \<in> set v. \<not> is_space c \<and> of_char c \<notin> {34, 35, 36, 39, 92 :: nat})"

definition dotenv_value :: "string \<Rightarrow> string option" where
  "dotenv_value v =
     (if plain_text v then Some v
      else if single_quoted (butlast (tl v)) = v \<and> CHR 0x27 \<notin> set (butlast (tl v)) then Some (butlast (tl v))
      else None)"

definition env_name :: "string \<Rightarrow> bool" where
  "env_name k \<longleftrightarrow> k \<noteq> [] \<and> plain_text k \<and> CHR ''='' \<notin> set k"

definition readable :: "string \<Rightarrow> bool" where
  "readable t \<longleftrightarrow> (\<forall>k v. file_vars t k = Some v \<longrightarrow> env_name k \<and> dotenv_value v \<noteq> None)"

definition dotenv_law :: "(string \<Rightarrow> environment) \<Rightarrow> bool" where
  "dotenv_law dotenv \<longleftrightarrow>
     (\<forall>ps. distinct (map fst ps) \<and> (\<forall>(k, v) \<in> set ps. env_name k \<and> clean_part v \<and> dotenv_value v \<noteq> None) \<longrightarrow>
        dotenv (concat (map env_line ps)) = (\<lambda>k. Option.bind (map_of ps k) dotenv_value))"

text \<open>The file does not override a variable that is set.\<close>

definition env_with_file :: "(string \<Rightarrow> environment) \<Rightarrow> environment \<Rightarrow> string \<Rightarrow> environment" where
  "env_with_file dotenv outer t v = (case outer v of Some a \<Rightarrow> Some a | None \<Rightarrow> dotenv t v)"

definition written_names :: "string list" where
  "written_names = [''PROFILE_CONFIG'', ''MEDIATOR_DID'', ''ADMIN_DIDS'', ''ACL_MODE'', ''TR_STORAGE_BACKEND'',
     ''FILE_STORAGE_PATH'', ''DDB_TABLE_NAME'', ''REDIS_URL'', ''AUDIT_LOG_FORMAT'']"

definition arg_texts :: "setup_args \<Rightarrow> string list" where
  "arg_texts args = sa_storage_backend args # map or_empty [sa_mediator_did args, sa_profile args, sa_admin_dids args,
     sa_acl_mode args, sa_file_storage_path args, sa_ddb_table_name args, sa_redis_url args, sa_audit_log_format args]"

lemma plain_clean: "plain_text v \<Longrightarrow> clean_part v"
proof -
  assume p: "plain_text v"
  have "trim_start v = v" "trim_start (rev v) = rev v"
    using p by (auto simp: trim_start_def plain_text_def dropWhile_eq_self_iff hd_rev)
  moreover have "CHR 0x0A \<notin> set v" using p by (auto simp: plain_text_def is_space_def)
  ultimately show ?thesis by (simp add: clean_part_def trim_str_def)
qed

lemma quoted_tl [simp]: "butlast (tl (single_quoted t)) = t"
  by (simp add: single_quoted_def butlast_append)

lemma not_plain_quoted: "\<not> plain_text (single_quoted t)"
  by (simp add: plain_text_def single_quoted_def)

lemma dotenv_value_quoted: "dotenv_value (single_quoted t) = (if CHR 0x27 \<in> set t then None else Some t)"
  by (simp add: dotenv_value_def not_plain_quoted)

lemma dotenv_value_plain: "plain_text v \<Longrightarrow> dotenv_value v = Some v"
  by (simp add: dotenv_value_def)

lemma quoted_clean: "CHR 0x0A \<notin> set t \<Longrightarrow> clean_part (single_quoted t)"
proof -
  assume n: "CHR 0x0A \<notin> set t"
  have "trim_start (single_quoted t) = single_quoted t" "trim_start (rev (single_quoted t)) = rev (single_quoted t)"
    by (simp_all add: single_quoted_def trim_start_def is_space_def)
  then show ?thesis using n by (simp add: clean_part_def trim_str_def) (simp add: single_quoted_def)
qed

text \<open>A file the tool has merged variables into is read with those variables as they were given.\<close>

lemma file_read_back:
  assumes "insert_env_vars iter path vars example fs = (Ok (), fs')" "iter_law iter" "dotenv_law dotenv"
    and "\<forall>(k, v) \<in> set vars. env_name k \<and> clean_part v" "sf_text fs' path = Some t" "readable t"
    and "outer n = None" "map_of (rev vars) n = Some v"
  shows "env_with_file dotenv outer t n = dotenv_value v \<and> dotenv_value v \<noteq> None"
proof -
  have c: "\<forall>(k, v) \<in> set vars. clean_part k \<and> CHR ''='' \<notin> set k \<and> clean_part v"
    using assms(4) plain_clean by (auto simp: env_name_def)
  obtain ps where ps: "sf_text fs' = (sf_text fs)(path \<mapsto> concat (map env_line ps))"
    "\<forall>(k, v) \<in> set ps. clean_part k \<and> CHR ''='' \<notin> set k \<and> clean_part v" "distinct (map fst ps)"
    "map_of ps = file_vars (prior_text fs path example) ++ map_of (rev vars)"
    using insert_env_vars_spec [OF assms(2) c assms(1)] by blast
  have t: "t = concat (map env_line ps)" using ps(1) assms(5) by simp
  have f: "file_vars t = map_of ps"
    using file_vars_lines [OF ps(2)] map_of_rev_distinct [OF ps(3)] t by simp
  have "env_name k \<and> clean_part a \<and> dotenv_value a \<noteq> None" if "(k, a) \<in> set ps" for k a
    using that ps(2) assms(6) f map_of_is_SomeI [OF ps(3) that] by (auto simp: readable_def)
  then have "dotenv t = (\<lambda>k. Option.bind (map_of ps k) dotenv_value)"
    using assms(3) ps(3) t unfolding dotenv_law_def by blast
  moreover have "map_of ps n = Some v" using ps(4) assms(8) by simp
  moreover have "dotenv_value v \<noteq> None" using assms(6) f calculation(2) by (auto simp: readable_def)
  ultimately show ?thesis using assms(7) by (simp add: env_with_file_def)
qed

lemma setup_main_writes:
  assumes "setup_main built env lb sl args w = (Ok (), w')"
  obtains profile storage audit w1 fs where
    "(if or_empty (sa_mediator_did args) = [] then profile = or_empty (sa_profile args)
      else setup_profile built env lb args (or_empty (sa_mediator_did args)) w = (Ok profile, w1))"
    "storage_vars args = Ok storage" "sa_audit_log_format args = Some audit"
    "insert_env_vars (lb_iter lb) ''./.env'' (server_vars args profile storage audit) (Some ''./.env.example'') fs = (Ok (), sw_files w')"
proof -
  let ?m = "or_empty (sa_mediator_did args)"
  obtain profile w2 where p: "(if ?m = [] then sreturn (or_empty (sa_profile args))
      else sbind (setup_profile built env lb args ?m) (\<lambda>profile.
           sbind (setup_test_trust_registry lb ?m (case sa_test_in_pipeline args of Some b \<Rightarrow> b | None \<Rightarrow> False)) (\<lambda>_.
           sreturn profile))) w = (Ok profile, w2)"
    "sbind (provision_secret_store sl env profile) (\<lambda>_.
      sbind (or_fail (storage_vars args)) (\<lambda>storage.
      sbind (or_panic ''unwrap'' (ok_or (sa_audit_log_format args) ''None'')) (\<lambda>audit.
      on_files (insert_env_vars (lb_iter lb) ''./.env'' (server_vars args profile storage audit) (Some ''./.env.example''))))) w2 =
      (Ok (), w')"
    using assms unfolding setup_main_def Let_def sbind_Ok by blast
  obtain storage audit w3 where s: "map_err Setup_Failed (storage_vars args) = Ok storage"
    "sa_audit_log_format args = Some audit"
    "on_files (insert_env_vars (lb_iter lb) ''./.env'' (server_vars args profile storage audit) (Some ''./.env.example'')) w3 = (Ok (), w')"
    using p(2) unfolding sbind_Ok by (cases "sa_audit_log_format args"; cases "storage_vars args") auto
  have f: "insert_env_vars (lb_iter lb) ''./.env'' (server_vars args profile storage audit) (Some ''./.env.example'') (sw_files w3)
      = (Ok (), sw_files w')"
    using s(3) by (auto simp: on_files_def split: prod.splits)
  have "storage_vars args = Ok storage" using s(1) by (cases "storage_vars args") auto
  moreover obtain w1 where "if ?m = [] then profile = or_empty (sa_profile args) else setup_profile built env lb args ?m w = (Ok profile, w1)"
    using p(1) by (auto simp: sbind_Ok split: if_splits)
  ultimately show thesis using that s(2) f by blast
qed

lemma setup_profile_cases:
  assumes "setup_profile built env lb args mediator w = (Ok profile, w1)"
  shows "profile = or_empty (sa_profile args) \<or>
    (\<exists>did secrets. profile = single_quoted (lb_text lb (profile_json lb ''Trust Registry'' did secrets)))"
  using assms by (auto simp: setup_profile_def Let_def sbind_Ok split: if_splits)

lemma storage_vars_cases:
  assumes "storage_vars args = Ok storage"
  shows "sa_storage_backend args = ''csv'' \<Longrightarrow>
      storage = [(''TR_STORAGE_BACKEND'', ''csv''), (''FILE_STORAGE_PATH'', or_empty (sa_file_storage_path args))]"
    "sa_storage_backend args = ''ddb'' \<Longrightarrow>
      storage = [(''TR_STORAGE_BACKEND'', ''ddb''), (''DDB_TABLE_NAME'', or_empty (sa_ddb_table_name args))]"
    "sa_storage_backend args = ''redis'' \<Longrightarrow>
      storage = [(''TR_STORAGE_BACKEND'', ''redis''), (''REDIS_URL'', or_empty (sa_redis_url args))]"
    "sa_storage_backend args \<notin> {''csv'', ''ddb'', ''redis''} \<Longrightarrow>
      storage = [(''TR_STORAGE_BACKEND'', sa_storage_backend args)]"
  using assms by (auto simp: storage_vars_def or_empty_def split: option.splits)

lemma server_vars_clean:
  assumes "\<forall>a \<in> set (arg_texts args). plain_text a" "\<forall>j. CHR 0x0A \<notin> set (lb_text lb j)"
    and "if or_empty (sa_mediator_did args) = [] then profile = or_empty (sa_profile args)
      else setup_profile built env lb args (or_empty (sa_mediator_did args)) w = (Ok profile, w1)"
    and "storage_vars args = Ok storage" "sa_audit_log_format args = Some audit"
  shows "\<forall>(k, v) \<in> set (server_vars args profile storage audit). env_name k \<and> clean_part v"
proof -
  have n: "\<forall>k \<in> set written_names. env_name k" by code_simp
  have a: "\<forall>a \<in> set (arg_texts args). clean_part a" using assms(1) plain_clean by blast
  then have "clean_part (or_empty (sa_profile args))" by (simp add: arg_texts_def)
  moreover have "profile = or_empty (sa_profile args) \<or> (\<exists>j. profile = single_quoted (lb_text lb j))"
    using assms(3) setup_profile_cases by (cases "or_empty (sa_mediator_did args) = []") (simp, fastforce)
  ultimately have p: "clean_part profile" using quoted_clean assms(2) by auto
  have s: "\<forall>(k, v) \<in> set storage. k \<in> set written_names \<and> clean_part v"
    using storage_vars_cases [OF assms(4)] a
    by (cases "sa_storage_backend args \<in> {''csv'', ''ddb'', ''redis''}") (auto simp: arg_texts_def written_names_def)
  have d: "clean_part ''ExplicitDeny''" by code_simp
  then have m: "clean_part (case sa_acl_mode args of Some a \<Rightarrow> a | None \<Rightarrow> ''ExplicitDeny'')"
    using a d by (cases "sa_acl_mode args") (simp_all add: arg_texts_def or_empty_def)
  have "clean_part audit" using a assms(5) by (simp add: arg_texts_def or_empty_def)
  then have "\<forall>(k, v) \<in> set (server_vars args profile storage audit). k \<in> set written_names \<and> clean_part v"
    using a p s m by (auto simp: server_vars_def arg_texts_def written_names_def)
  then show ?thesis using n by blast
qed

lemma server_vars_lookup:
  fixes profile audit :: string
  assumes "storage_vars args = Ok storage" "sa_storage_backend args \<in> {''csv'', ''ddb'', ''redis''}"
  defines "vars \<equiv> map_of (rev (server_vars args profile storage audit))"
  shows "vars ''PROFILE_CONFIG'' = Some profile" "vars ''MEDIATOR_DID'' = Some (or_empty (sa_mediator_did args))"
    "vars ''ADMIN_DIDS'' = Some (or_empty (sa_admin_dids args))"
    "vars ''ACL_MODE'' = Some (case sa_acl_mode args of Some a \<Rightarrow> a | None \<Rightarrow> ''ExplicitDeny'')"
    "vars ''TR_STORAGE_BACKEND'' = Some (sa_storage_backend args)" "vars ''AUDIT_LOG_FORMAT'' = Some audit"
    "sa_storage_backend args = ''csv'' \<Longrightarrow> vars ''FILE_STORAGE_PATH'' = Some (or_empty (sa_file_storage_path args))"
    "sa_storage_backend args = ''ddb'' \<Longrightarrow> vars ''DDB_TABLE_NAME'' = Some (or_empty (sa_ddb_table_name args))"
    "sa_storage_backend args = ''redis'' \<Longrightarrow> vars ''REDIS_URL'' = Some (or_empty (sa_redis_url args))"
proof -
  note c = storage_vars_cases [OF assms(1)]
  have "\<exists>n v. storage = [(''TR_STORAGE_BACKEND'', sa_storage_backend args), (n, v)] \<and>
      n \<in> {''FILE_STORAGE_PATH'', ''DDB_TABLE_NAME'', ''REDIS_URL''}"
  proof -
    consider "sa_storage_backend args = ''csv''" | "sa_storage_backend args = ''ddb''"
      | "sa_storage_backend args = ''redis''" using assms(2) by auto
    then show ?thesis
    proof cases
      case 1
      then show ?thesis using c(1) [OF 1] by simp
    next
      case 2
      then show ?thesis using c(2) [OF 2] by simp
    next
      case 3
      then show ?thesis using c(3) [OF 3] by simp
    qed
  qed
  then obtain n v where s: "storage = [(''TR_STORAGE_BACKEND'', sa_storage_backend args), (n, v)]"
    "n \<in> {''FILE_STORAGE_PATH'', ''DDB_TABLE_NAME'', ''REDIS_URL''}" by blast
  show "vars ''PROFILE_CONFIG'' = Some profile" "vars ''MEDIATOR_DID'' = Some (or_empty (sa_mediator_did args))"
    "vars ''ADMIN_DIDS'' = Some (or_empty (sa_admin_dids args))"
    "vars ''ACL_MODE'' = Some (case sa_acl_mode args of Some a \<Rightarrow> a | None \<Rightarrow> ''ExplicitDeny'')"
    "vars ''TR_STORAGE_BACKEND'' = Some (sa_storage_backend args)" "vars ''AUDIT_LOG_FORMAT'' = Some audit"
    using s(2) by (auto simp: vars_def server_vars_def s(1))
next
  assume "sa_storage_backend args = ''csv''"
  from storage_vars_cases(1) [OF assms(1) this]
  show "vars ''FILE_STORAGE_PATH'' = Some (or_empty (sa_file_storage_path args))" by (simp add: vars_def server_vars_def)
next
  assume "sa_storage_backend args = ''ddb''"
  from storage_vars_cases(2) [OF assms(1) this]
  show "vars ''DDB_TABLE_NAME'' = Some (or_empty (sa_ddb_table_name args))" by (simp add: vars_def server_vars_def)
next
  assume "sa_storage_backend args = ''redis''"
  from storage_vars_cases(3) [OF assms(1) this]
  show "vars ''REDIS_URL'' = Some (or_empty (sa_redis_url args))" by (simp add: vars_def server_vars_def)
qed

text \<open>What the loading makes of the variables.\<close>

lemma lowered_backends: "to_lowercase ''csv'' = ''csv''" "to_lowercase ''ddb'' = ''ddb''" "to_lowercase ''redis'' = ''redis''"
  by code_simp+

lemma backend_from_file:
  assumes "env ''TR_STORAGE_BACKEND'' = Some b"
  shows "b = ''csv'' \<Longrightarrow> load_storage_backend env = B_Csv" "b = ''ddb'' \<Longrightarrow> load_storage_backend env = B_DynamoDb"
    "b = ''redis'' \<Longrightarrow> load_storage_backend env = B_Redis"
  using assms by (simp_all add: load_storage_backend_def env_or_def lowered_backends Let_def)

lemma didcomm_from_file:
  assumes "load_didcomm_config x k = (Ok dm, k')" "dm_enabled dm"
  shows "so_env x ''MEDIATOR_DID'' = Some m \<Longrightarrow> dm_mediator_did dm = m"
    "so_env x ''ADMIN_DIDS'' = Some a \<Longrightarrow> dm_admin_dids dm = map trim_str (split_char (CHR '','') a)"
    "so_env x ''ACL_MODE'' = Some c \<Longrightarrow> dm_acl_mode dm = (if c = ''ExplicitAllow'' then ExplicitAllow else ExplicitDeny)"
    "so_env x ''AUDIT_LOG_FORMAT'' = Some l \<Longrightarrow>
       dm_log_format dm = (case audit_log_format_from_str l of Ok f \<Rightarrow> f | Err e \<Rightarrow> LogText)"
  using assms
  by (auto simp: load_didcomm_config_def Let_def required_env_def admin_dids_from_env_def env_or_def
      split: result.splits if_splits prod.splits elim!: bind_ok.elims)

text \<open>C28: The registry started with the environment file the setup tool wrote uses the storage that
  was asked for and, with DIDComm on, the mediator, the administrators, the access mode and the
  audit format that were asked for, and it is given the profile the tool produced: whatever the
  file held before, as long as it can be read and the variables are not set elsewhere.\<close>

theorem setup_configures_server:
  assumes "setup_main built env lb sl args w = (Ok (), w')"
    and "iter_law (lb_iter lb)" "dotenv_law dotenv" "\<forall>j. CHR 0x0A \<notin> set (lb_text lb j)"
    and "\<forall>a \<in> set (arg_texts args). plain_text a" "sa_storage_backend args \<in> {''csv'', ''ddb'', ''redis''}"
    and "sf_text (sw_files w') ''./.env'' = Some t" "readable t"
    and "\<forall>n \<in> set written_names. outer n = None" "so_env x = env_with_file dotenv outer t"
  shows "(sa_storage_backend args = ''csv'' \<longrightarrow> load_storage_backend (so_env x) = B_Csv \<and>
        (\<forall>f. load_file_config (so_env x) = Ok f \<longrightarrow> fc_path f = or_empty (sa_file_storage_path args))) \<and>
    (sa_storage_backend args = ''ddb'' \<longrightarrow>
        (\<exists>d. load_ddb_config (so_env x) = Ok d \<and> dbc_enabled d \<and> dbc_table d = or_empty (sa_ddb_table_name args))) \<and>
    (sa_storage_backend args = ''redis'' \<longrightarrow>
        load_redis_config (so_env x) = Ok \<lparr>rdc_enabled = True, rdc_url = or_empty (sa_redis_url args)\<rparr>) \<and>
    (\<forall>k k' dm. load_didcomm_config x k = (Ok dm, k') \<and> dm_enabled dm \<longrightarrow>
        dm_mediator_did dm = or_empty (sa_mediator_did args) \<and>
        dm_admin_dids dm = map trim_str (split_char (CHR '','') (or_empty (sa_admin_dids args))) \<and>
        dm_acl_mode dm = (if sa_acl_mode args = Some ''ExplicitAllow'' then ExplicitAllow else ExplicitDeny) \<and>
        dm_log_format dm = (case audit_log_format_from_str (or_empty (sa_audit_log_format args)) of
          Ok f \<Rightarrow> f | Err e \<Rightarrow> LogText)) \<and>
    (\<exists>profile w1. (if or_empty (sa_mediator_did args) = [] then profile = or_empty (sa_profile args)
        else setup_profile built env lb args (or_empty (sa_mediator_did args)) w = (Ok profile, w1)) \<and>
      so_env x ''PROFILE_CONFIG'' = dotenv_value profile \<and> dotenv_value profile \<noteq> None)"
proof -
  obtain profile storage audit w1 fs where m:
    "if or_empty (sa_mediator_did args) = [] then profile = or_empty (sa_profile args)
      else setup_profile built env lb args (or_empty (sa_mediator_did args)) w = (Ok profile, w1)"
    "storage_vars args = Ok storage" "sa_audit_log_format args = Some audit"
    "insert_env_vars (lb_iter lb) ''./.env'' (server_vars args profile storage audit) (Some ''./.env.example'') fs = (Ok (), sw_files w')"
    using setup_main_writes [OF assms(1)] by metis
  let ?vars = "server_vars args profile storage audit"
  have r: "so_env x n = dotenv_value v \<and> dotenv_value v \<noteq> None"
    if "n \<in> set written_names" "map_of (rev ?vars) n = Some v" for n v
    using file_read_back [OF m(4) assms(2,3) server_vars_clean [OF assms(5,4) m(1-3)] assms(7,8), of outer n v]
      that assms(9,10) by simp
  have p: "dotenv_value a = Some a" if "a \<in> set (arg_texts args)" for a
    using assms(5) that dotenv_value_plain by blast
  note v = server_vars_lookup [OF m(2) assms(6), where profile = profile and audit = audit]
  have e: "so_env x n = Some a" if "n \<in> set written_names" "map_of (rev ?vars) n = Some a" "a \<in> set (arg_texts args)" for n a
    using r [OF that(1,2)] p [OF that(3)] by simp
  have a: "so_env x ''MEDIATOR_DID'' = Some (or_empty (sa_mediator_did args))"
    "so_env x ''ADMIN_DIDS'' = Some (or_empty (sa_admin_dids args))"
    "so_env x ''TR_STORAGE_BACKEND'' = Some (sa_storage_backend args)"
    "so_env x ''AUDIT_LOG_FORMAT'' = Some (or_empty (sa_audit_log_format args))"
    using e v m(3) by (simp_all add: written_names_def arg_texts_def or_empty_def)
  have acl: "so_env x ''ACL_MODE'' = Some (case sa_acl_mode args of Some a \<Rightarrow> a | None \<Rightarrow> ''ExplicitDeny'')"
  proof (cases "sa_acl_mode args")
    case None
    have "dotenv_value ''ExplicitDeny'' = Some ''ExplicitDeny''" by code_simp
    then show ?thesis using r [OF _ v(4)] None by (simp add: written_names_def)
  next
    case (Some c)
    then show ?thesis using e [OF _ v(4)] by (simp add: written_names_def arg_texts_def or_empty_def)
  qed
  have profile: "so_env x ''PROFILE_CONFIG'' = dotenv_value profile \<and> dotenv_value profile \<noteq> None"
    by (rule r [OF _ v(1)]) (simp add: written_names_def)
  have csv: "load_storage_backend (so_env x) = B_Csv \<and>
      (\<forall>f. load_file_config (so_env x) = Ok f \<longrightarrow> fc_path f = or_empty (sa_file_storage_path args))"
    if "sa_storage_backend args = ''csv''"
    using backend_from_file(1) [where env = "so_env x", OF a(3)] that e [OF _ v(7) [OF that]]
    by (auto simp: written_names_def arg_texts_def load_file_config_def env_or_def)
  have ddb: "\<exists>d. load_ddb_config (so_env x) = Ok d \<and> dbc_enabled d \<and> dbc_table d = or_empty (sa_ddb_table_name args)"
    if "sa_storage_backend args = ''ddb''"
    using backend_from_file(2) [where env = "so_env x", OF a(3)] that e [OF _ v(8) [OF that]]
    by (simp add: written_names_def arg_texts_def load_ddb_config_def required_env_def)
  have redis: "load_redis_config (so_env x) = Ok \<lparr>rdc_enabled = True, rdc_url = or_empty (sa_redis_url args)\<rparr>"
    if "sa_storage_backend args = ''redis''"
    using backend_from_file(3) [where env = "so_env x", OF a(3)] that e [OF _ v(9) [OF that]]
    by (simp add: written_names_def arg_texts_def load_redis_config_def required_env_def)
  have dm: "dm_mediator_did dm = or_empty (sa_mediator_did args) \<and>
      dm_admin_dids dm = map trim_str (split_char (CHR '','') (or_empty (sa_admin_dids args))) \<and>
      dm_acl_mode dm = (if sa_acl_mode args = Some ''ExplicitAllow'' then ExplicitAllow else ExplicitDeny) \<and>
      dm_log_format dm = (case audit_log_format_from_str (or_empty (sa_audit_log_format args)) of
        Ok f \<Rightarrow> f | Err e \<Rightarrow> LogText)"
    if "load_didcomm_config x k = (Ok dm, k')" "dm_enabled dm" for k k' dm
    using didcomm_from_file(1) [OF that a(1)] didcomm_from_file(2) [OF that a(2)] didcomm_from_file(3) [OF that acl]
      didcomm_from_file(4) [OF that a(4)] by (simp split: option.splits)
  show ?thesis using csv ddb redis dm m(1) profile by blast
qed

text \<open>A run that makes a peer DID and chooses Redis.\<close>

definition redis_args :: setup_args where
  "redis_args = csv_args\<lparr>sa_mediator_did := Some ''did:m'', sa_profile := None, sa_storage_backend := ''redis'',
     sa_redis_url := Some ''redis://r'', sa_admin_dids := Some ''did:a,did:b''\<rparr>"

definition redis_file :: string where
  "redis_file = concat (map env_line [(''PROFILE_CONFIG'', single_quoted ''x''), (''MEDIATOR_DID'', ''did:m''),
     (''ADMIN_DIDS'', ''did:a,did:b''), (''ACL_MODE'', ''ExplicitDeny''), (''TR_STORAGE_BACKEND'', ''redis''),
     (''REDIS_URL'', ''redis://r''), (''AUDIT_LOG_FORMAT'', ''json'')])"

definition sample_dotenv :: "string \<Rightarrow> environment" where
  "sample_dotenv t = (\<lambda>k. Option.bind (file_vars t k) dotenv_value)"

lemma sample_dotenv_law: "dotenv_law sample_dotenv"
proof -
  have "file_vars (concat (map env_line ps)) = map_of ps"
    if "distinct (map fst ps)" "\<forall>(k, v) \<in> set ps. env_name k \<and> clean_part v \<and> dotenv_value v \<noteq> None" for ps
  proof -
    have "\<forall>(k, v) \<in> set ps. clean_part k \<and> CHR ''='' \<notin> set k \<and> clean_part v"
      using that(2) plain_clean by (auto simp: env_name_def)
    from file_vars_lines [OF this] show ?thesis using map_of_rev_distinct [OF that(1)] by simp
  qed
  then show ?thesis by (simp add: dotenv_law_def sample_dotenv_def)
qed

lemma readable_lines:
  "list_all (\<lambda>(k, v). env_name k \<and> dotenv_value v \<noteq> None) (List.map_filter line_var (text_lines t)) \<Longrightarrow> readable t"
  unfolding readable_def file_vars_def list_all_iff using map_of_SomeD by fastforce

lemma redis_run:
  "fst (setup_main False Map.empty sample_libs blob_store redis_args stored_world) = Ok ()"
  "sf_text (sw_files (snd (setup_main False Map.empty sample_libs blob_store redis_args stored_world))) ''./.env'' =
     Some redis_file"
  "list_all plain_text (arg_texts redis_args)" "sa_storage_backend redis_args = ''redis''"
  "sa_redis_url redis_args = Some ''redis://r''"
  by code_simp+

lemma redis_file_readable: "readable redis_file"
  by (rule readable_lines) code_simp

theorem setup_configures_server_witness:
  "load_redis_config (env_with_file sample_dotenv Map.empty redis_file) = Ok \<lparr>rdc_enabled = True, rdc_url = ''redis://r''\<rparr>"
proof -
  let ?x = "blob_sources\<lparr>so_env := env_with_file sample_dotenv Map.empty redis_file\<rparr>"
  obtain res w' where r: "setup_main False Map.empty sample_libs blob_store redis_args stored_world = (res, w')"
    by (metis prod.exhaust)
  have o: "res = Ok ()" "sf_text (sw_files w') ''./.env'' = Some redis_file" using redis_run(1,2) r by simp_all
  have l: "iter_law (lb_iter sample_libs)" "\<forall>j. CHR 0x0A \<notin> set (lb_text sample_libs j)"
    by (simp_all add: sample_libs_def iter_law_def)
  have a: "\<forall>a \<in> set (arg_texts redis_args). plain_text a" "sa_storage_backend redis_args \<in> {''csv'', ''ddb'', ''redis''}"
    using redis_run(3,4) by (simp_all add: list_all_iff)
  show ?thesis
    using setup_configures_server [OF r [unfolded o(1)] l(1) sample_dotenv_law l(2) a o(2) redis_file_readable, of Map.empty ?x]
      redis_run(4,5) by (simp add: or_empty_def)
qed

end
