(* ===== verification/Test_Clients.thy ===== *)
theory Test_Clients
  imports Setup_Tool Server Didcomm_Handlers Local_Store
begin

text \<open>
  The repository's own clients of the registry: the administration demo of \<open>src/test-client/\<close>, which
  sends the record-administration messages over DIDComm, and the in-process fixture of
  \<open>src/test-trust-registry/\<close>, which starts a registry over the in-memory backend.  Connecting to the
  mediator and the library that reads the JSON files are parameters; pauses and other output are not
  modelled.
\<close>

section \<open>Administration messages\<close>

record crud_input =
  ci_entity :: string
  ci_authority :: string
  ci_action :: string
  ci_resource :: string
  ci_record_type :: string

definition crud_record_body :: "crud_input \<Rightarrow> bool \<Rightarrow> bool \<Rightarrow> json option \<Rightarrow> json" where
  "crud_record_body ci recognized authorized ctx = jobj (
     [(''entity_id'', JStr (ci_entity ci)), (''authority_id'', JStr (ci_authority ci)),
      (''action'', JStr (ci_action ci)), (''resource'', JStr (ci_resource ci)),
      (''recognized'', JBool recognized), (''authorized'', JBool authorized),
      (''record_type'', JStr (ci_record_type ci))] @
     (case ctx of Some c \<Rightarrow> [(''context'', c)] | None \<Rightarrow> []))"

definition crud_ids_body :: "crud_input \<Rightarrow> json" where
  "crud_ids_body ci = jobj [(''entity_id'', JStr (ci_entity ci)), (''authority_id'', JStr (ci_authority ci)),
     (''action'', JStr (ci_action ci)), (''resource'', JStr (ci_resource ci))]"

datatype admin_call =
    Create_Record crud_input bool bool "json option"
  | Update_Record crud_input bool bool "json option"
  | Delete_Record crud_input
  | Read_Record crud_input
  | List_Records

fun call_type :: "admin_call \<Rightarrow> string" where
  "call_type (Create_Record _ _ _ _) = ''https://affinidi.com/didcomm/protocols/tr-admin/1.0/create-record''"
| "call_type (Update_Record _ _ _ _) = ''https://affinidi.com/didcomm/protocols/tr-admin/1.0/update-record''"
| "call_type (Delete_Record _) = ''https://affinidi.com/didcomm/protocols/tr-admin/1.0/delete-record''"
| "call_type (Read_Record _) = ''https://affinidi.com/didcomm/protocols/tr-admin/1.0/read-record''"
| "call_type List_Records = ''https://affinidi.com/didcomm/protocols/tr-admin/1.0/list-records''"

fun call_body :: "admin_call \<Rightarrow> json" where
  "call_body (Create_Record ci r a c) = crud_record_body ci r a c"
| "call_body (Update_Record ci r a c) = crud_record_body ci r a c"
| "call_body (Delete_Record ci) = crud_ids_body ci"
| "call_body (Read_Record ci) = crud_ids_body ci"
| "call_body List_Records = jobj []"

definition admin_message :: "string \<Rightarrow> string \<Rightarrow> string \<Rightarrow> admin_call \<Rightarrow> message" where
  "admin_message i did registry c =
     \<lparr>msg_id = i, msg_type = call_type c, msg_from = Some did, msg_to = [registry],
      msg_thid = None, msg_pthid = None, msg_body = call_body c\<rparr>"

definition send_admin_message ::
  "atm \<Rightarrow> string \<Rightarrow> string \<Rightarrow> string \<Rightarrow> admin_call \<Rightarrow> (unit, didcomm_error) result \<times> message list" where
  "send_admin_message a i did registry c = send_message a (admin_message i did registry c) registry"

text \<open>The calls of the demo; each is printed when it fails and the next one is made.\<close>

definition demo_input :: crud_input where
  "demo_input = \<lparr>ci_entity = ''did:example:entity123'', ci_authority = ''did:example:authority456'',
     ci_action = ''action_xyz'', ci_resource = ''resource_abc'', ci_record_type = ''authorization''\<rparr>"

definition demo_context :: "string \<Rightarrow> string \<Rightarrow> string list \<Rightarrow> json" where
  "demo_context description version tags =
     jobj [(''description'', JStr description), (''version'', JStr version), (''tags'', JArr (map JStr tags))]"

definition demo_calls :: "admin_call list" where
  "demo_calls =
     [Create_Record demo_input True True (Some (demo_context ''Test credential type'' ''1.0'' [''test'', ''demo''])),
      Read_Record demo_input,
      Update_Record demo_input False True
        (Some (demo_context ''Updated test credential type'' ''2.0'' [''test'', ''demo'', ''updated''])),
      List_Records, Delete_Record demo_input, Read_Record demo_input]"

fun send_calls :: "atm \<Rightarrow> string list \<Rightarrow> string \<Rightarrow> string \<Rightarrow> admin_call list \<Rightarrow> message list" where
  "send_calls a (i # is) did registry (c # cs) =
     snd (send_admin_message a i did registry c) @ send_calls a is did registry cs"
| "send_calls a _ did registry _ = []"

section \<open>The demo program\<close>

record user_config =
  uc_alias :: string
  uc_secrets :: "setup_secret list"

definition load_users ::
  "environment \<Rightarrow> (string \<Rightarrow> (string, string) result) \<Rightarrow> (string \<Rightarrow> ((string \<times> user_config) list, string) result) \<Rightarrow>
   ((string \<times> user_config) list, string) result" where
  "load_users env read_file parse =
     bind_ok (read_file (env_or env ''SERVICE_CONFIG_PATH'' ''./conf/user_config.json'')) parse"

definition registry_did :: "environment \<Rightarrow> (string \<Rightarrow> (json, string) result) \<Rightarrow> string option" where
  "registry_did env parse_json =
     (case env ''TRUST_REGISTRY_DID'' of
        Some d \<Rightarrow> Some d
      | None \<Rightarrow> Option.bind (env ''PROFILE_CONFIG'') (\<lambda>t.
          case parse_json t of Ok j \<Rightarrow> get_str j ''did'' | Err e \<Rightarrow> None))"

definition set_public_acls_mode ::
  "('g, 'm) setup_libs \<Rightarrow> string \<Rightarrow> string \<Rightarrow> 'm \<Rightarrow> (unit, string) result \<times> 'm" where
  "set_public_acls_mode lb alias did m =
     (case bind_ok (bind_ok (lb_account lb did m)
              (\<lambda>acc. ok_or acc (''[profile = '' @ alias @ ''] Failed to get account info'')))
            (\<lambda>acls. lb_set_mode lb acls ExplicitDeny) of
        Err e \<Rightarrow> (Err e, m)
      | Ok acls1 \<Rightarrow> lb_acls_set lb did acls1 m)"

text \<open>How the program ends: it listens for replies for good once it has found the administrator.\<close>

datatype client_end = Client_Panic string | Client_Failed string | Client_Done | Client_Listens string

fun run_users ::
  "('g, 'm) setup_libs \<Rightarrow> (string \<Rightarrow> user_config \<Rightarrow> string \<Rightarrow> (atm, string) result) \<Rightarrow> string list \<Rightarrow> string \<Rightarrow> string \<Rightarrow>
   (string \<times> user_config) list \<Rightarrow> 'm \<Rightarrow> client_end \<times> message list \<times> 'm" where
  "run_users lb connect is registry mediator [] m = (Client_Done, [], m)"
| "run_users lb connect is registry mediator ((did, uc) # us) m =
     (case connect did uc mediator of
        Err e \<Rightarrow> (Client_Failed e, [], m)
      | Ok a \<Rightarrow>
          if uc_alias uc = ''SampleTRAdmin''
          then (case set_public_acls_mode lb (uc_alias uc) did m of
                  (Err e, m1) \<Rightarrow> (Client_Failed e, [], m1)
                | (Ok _, m1) \<Rightarrow> (Client_Listens did, send_calls a is did registry demo_calls, m1))
          else run_users lb connect is registry mediator us m)"

definition test_client_main ::
  "('g, 'm) setup_libs \<Rightarrow> (string \<Rightarrow> user_config \<Rightarrow> string \<Rightarrow> (atm, string) result) \<Rightarrow> string list \<Rightarrow> environment \<Rightarrow>
   (string \<Rightarrow> (string, string) result) \<Rightarrow> (string \<Rightarrow> ((string \<times> user_config) list, string) result) \<Rightarrow>
   (string \<Rightarrow> (json, string) result) \<Rightarrow> 'm \<Rightarrow> client_end \<times> message list \<times> 'm" where
  "test_client_main lb connect is env read_file parse_users parse_json m =
     (case load_users env read_file parse_users of
        Err e \<Rightarrow> (Client_Done, [], m)
      | Ok users \<Rightarrow>
          (case registry_did env parse_json of
             None \<Rightarrow> (Client_Panic ''TRUST_REGISTRY_DID environment variable is not set'', [], m)
           | Some registry \<Rightarrow>
               (case env ''MEDIATOR_DID'' of
                  None \<Rightarrow> (Client_Panic ''MEDIATOR_DID environment variable is not set'', [], m)
                | Some mediator \<Rightarrow> run_users lb connect is registry mediator users m)))"

section \<open>Requests and replies\<close>

text \<open>
  The sender of the client stamps a message with the time and lets it expire after ten seconds; the
  body goes through its text.  The listener prints what it picks up and goes on after an error.
\<close>

record timed_message = message +
  tm_created :: nat
  tm_expires :: nat

definition build_message ::
  "(nat, string) result \<Rightarrow> string \<Rightarrow> (string \<Rightarrow> (json, string) result) \<Rightarrow>
   string \<Rightarrow> string \<Rightarrow> string \<Rightarrow> string \<Rightarrow> string option \<Rightarrow> (timed_message, string) result" where
  "build_message clock fresh_id parse service_did issuer_did body message_type id_given =
     bind_ok clock (\<lambda>now.
     bind_ok (parse body) (\<lambda>b.
     Ok \<lparr>msg_id = (case id_given of Some i \<Rightarrow> i | None \<Rightarrow> fresh_id), msg_type = message_type,
         msg_from = Some issuer_did, msg_to = [service_did], msg_thid = None, msg_pthid = None, msg_body = b,
         tm_created = now, tm_expires = now + 10\<rparr>))"

record request_sdk =
  rq_pack :: "timed_message \<Rightarrow> string \<Rightarrow> (string, string) result"
  rq_forward :: "string \<Rightarrow> string \<Rightarrow> string \<Rightarrow> (string \<times> string, string) result"
  rq_send :: "string \<Rightarrow> string \<Rightarrow> (unit, string) result"

definition send_request ::
  "request_sdk \<Rightarrow> (nat, string) result \<Rightarrow> string \<Rightarrow> (string \<Rightarrow> (json, string) result) \<Rightarrow> (json \<Rightarrow> string) \<Rightarrow>
   string \<Rightarrow> string \<Rightarrow> string \<Rightarrow> json \<Rightarrow> string \<Rightarrow> (unit, string) result" where
  "send_request sdk clock fresh_id parse to_text issuer_did service_did mediator_did body operation =
     bind_ok (build_message clock fresh_id parse service_did issuer_did (to_text body)
                (''https://affinidi.com/didcomm/protocols/'' @ operation) None) (\<lambda>m.
     bind_ok (rq_pack sdk m service_did) (\<lambda>packed.
     bind_ok (rq_forward sdk packed mediator_did service_did) (\<lambda>(forward_id, forward_msg).
     rq_send sdk forward_msg forward_id)))"

fun printed_replies :: "(message option, string) result list \<Rightarrow> message list" where
  "printed_replies [] = []"
| "printed_replies (Ok (Some m) # rs) = m # printed_replies rs"
| "printed_replies (Ok None # rs) = printed_replies rs"
| "printed_replies (Err e # rs) = printed_replies rs"

lemma request_keeps_body:
  "parse (to_text body) = Ok body \<Longrightarrow>
   \<exists>m. build_message (Ok now) i parse service issuer (to_text body) typ None = Ok m \<and> msg_body m = body \<and>
     msg_id m = i \<and> tm_expires m = tm_created m + 10"
  by (simp add: build_message_def)

section \<open>The fixture\<close>

record test_builder =
  tb_records :: "trust_record list"
  tb_admin_dids :: "string list"

definition tb_new :: test_builder where
  "tb_new = \<lparr>tb_records = [], tb_admin_dids = []\<rparr>"

definition tb_with_records :: "trust_record list \<Rightarrow> test_builder \<Rightarrow> test_builder" where
  "tb_with_records rs b = b\<lparr>tb_records := rs\<rparr>"

definition tb_with_record :: "trust_record \<Rightarrow> test_builder \<Rightarrow> test_builder" where
  "tb_with_record r b = b\<lparr>tb_records := tb_records b @ [r]\<rparr>"

definition tb_with_admin_dids :: "string list \<Rightarrow> test_builder \<Rightarrow> test_builder" where
  "tb_with_admin_dids ds b = b\<lparr>tb_admin_dids := ds\<rparr>"

definition test_server_config :: server_config where
  "test_server_config = \<lparr>sv_listen_address = ''127.0.0.1:0'', sv_cors_allowed_origins = []\<rparr>"

definition storage_config_default :: storage_config where
  "storage_config_default =
     \<lparr>stc_ddb = \<lparr>dbc_enabled = False, dbc_table = [], dbc_region = None, dbc_profile = None, dbc_endpoint = None\<rparr>,
      stc_file = \<lparr>fc_enabled = False, fc_path = [], fc_interval = 0\<rparr>,
      stc_redis = \<lparr>rdc_enabled = False, rdc_url = []\<rparr>, stc_fjall = \<lparr>fjc_enabled = False, fjc_path = []\<rparr>,
      stc_backend = B_Csv\<rparr>"

definition didcomm_config_default :: "acl_mode \<Rightarrow> didcomm_config" where
  "didcomm_config_default default_acl =
     \<lparr>dm_enabled = False, dm_flags = flags_default, dm_acl_mode = default_acl,
      dm_profile = \<lparr>pc_alias = [], pc_did = [], pc_secrets = []\<rparr>, dm_mediator_did = [], dm_did_document = [],
      dm_admin_dids = [], dm_log_format = LogText, dm_retry = retry_default\<rparr>"

definition spawn_config :: "acl_mode \<Rightarrow> registry_config" where
  "spawn_config default_acl =
     \<lparr>rgc_server = test_server_config, rgc_storage = storage_config_default,
      rgc_didcomm = didcomm_config_default default_acl\<rparr>"

definition mediator_config :: "acl_mode \<Rightarrow> profile_config \<Rightarrow> string \<Rightarrow> string list \<Rightarrow> registry_config" where
  "mediator_config default_acl profile mediator_did admin_dids =
     \<lparr>rgc_server = test_server_config, rgc_storage = storage_config_default,
      rgc_didcomm = (didcomm_config_default default_acl)\<lparr>dm_enabled := True, dm_acl_mode := ExplicitDeny,
        dm_profile := profile, dm_mediator_did := mediator_did, dm_admin_dids := admin_dids\<rparr>\<rparr>"

record 'c test_handle =
  th_server :: "'c server"
  th_repository :: local_storage
  th_did :: "string option"

definition tb_spawn ::
  "(string \<Rightarrow> (string, string) result) \<Rightarrow> (string \<Rightarrow> string option) \<Rightarrow> environment \<Rightarrow> (string \<Rightarrow> 'c cap_store) \<Rightarrow>
   acl_mode \<Rightarrow> 'c \<Rightarrow> test_builder \<Rightarrow> ('c test_handle, string) result" where
  "tb_spawn bind_addr parse_origin env store_at default_acl c b =
     bind_ok (serve bind_addr parse_origin env store_at (spawn_config default_acl) c) (\<lambda>srv.
     Ok \<lparr>th_server = srv, th_repository = local_with_records (tb_records b), th_did = None\<rparr>)"

definition tb_spawn_with_mediator ::
  "(string \<Rightarrow> (string, string) result) \<Rightarrow> (string \<Rightarrow> string option) \<Rightarrow> environment \<Rightarrow> (string \<Rightarrow> 'c cap_store) \<Rightarrow>
   acl_mode \<Rightarrow> (string \<Rightarrow> (string \<times> secret_material list, string) result) \<Rightarrow> string \<Rightarrow> 'c \<Rightarrow> test_builder \<Rightarrow>
   ('c test_handle, string) result" where
  "tb_spawn_with_mediator bind_addr parse_origin env store_at default_acl add_user mediator_did c b =
     bind_ok (add_user ''trust-registry'') (\<lambda>(did, secrets).
     bind_ok (serve bind_addr parse_origin env store_at
        (mediator_config default_acl \<lparr>pc_alias = ''Trust Registry'', pc_did = did, pc_secrets = secrets\<rparr>
           mediator_did (tb_admin_dids b)) c) (\<lambda>srv.
     Ok \<lparr>th_server = srv, th_repository = local_with_records (tb_records b), th_did = Some did\<rparr>))"

definition th_base_url :: "'c test_handle \<Rightarrow> string" where
  "th_base_url h = base_url (th_server h)"

end
