(* ===== verification/Fixture_Properties.thy ===== *)
theory Fixture_Properties
  imports Test_Clients Node_Properties
begin

text \<open>
  The test client against the registry's message handling, and the queries a fixture answers.
\<close>

section \<open>What an administration call means\<close>

definition call_key :: "crud_input \<Rightarrow> trust_record_key" where
  "call_key ci = \<lparr>k_authority = AuthorityId (ci_authority ci), k_action = Action (ci_action ci),
     k_resource = Resource (ci_resource ci), k_entity = EntityId (ci_entity ci)\<rparr>"

definition call_record :: "crud_input \<Rightarrow> bool \<Rightarrow> bool \<Rightarrow> json option \<Rightarrow> trust_record" where
  "call_record ci recognized authorized ctx =
     \<lparr>tr_entity = EntityId (ci_entity ci), tr_authority = AuthorityId (ci_authority ci),
      tr_action = Action (ci_action ci), tr_resource = Resource (ci_resource ci),
      tr_recognized = Some recognized, tr_authorized = Some authorized,
      tr_context = (case de_opt_value ctx of Some c \<Rightarrow> Context c | None \<Rightarrow> context_empty),
      tr_type = (if to_lowercase (ci_record_type ci) = ''recognition'' then Recognition else Authorization)\<rparr>"

definition typed :: "crud_input \<Rightarrow> bool" where
  "typed ci \<longleftrightarrow> to_lowercase (ci_record_type ci) \<in> {''authorization'', ''recognition''}"

fun call_ok :: "admin_call \<Rightarrow> bool" where
  "call_ok (Create_Record ci r a c) = typed ci"
| "call_ok (Update_Record ci r a c) = typed ci"
| "call_ok _ = True"

text \<open>The records before a call, its answer if it succeeds, and the records after it.\<close>

fun call_spec :: "admin_call \<Rightarrow> (trust_record_key \<rightharpoonup> trust_record) \<Rightarrow> json option \<Rightarrow>
    (trust_record_key \<rightharpoonup> trust_record) \<Rightarrow> bool" where
  "call_spec (Create_Record ci r a c) v ans v' =
     (if v (call_key ci) = None
      then ans = Some (crud_ids_body ci) \<and> v' = v(call_key ci \<mapsto> call_record ci r a c)
      else ans = None \<and> v' = v)"
| "call_spec (Update_Record ci r a c) v ans v' =
     (if v (call_key ci) \<noteq> None
      then ans = Some (crud_ids_body ci) \<and> v' = v(call_key ci \<mapsto> call_record ci r a c)
      else ans = None \<and> v' = v)"
| "call_spec (Delete_Record ci) v ans v' =
     (if v (call_key ci) \<noteq> None
      then ans = Some (crud_ids_body ci) \<and> v' = v(call_key ci := None)
      else ans = None \<and> v' = v)"
| "call_spec (Read_Record ci) v ans v' =
     (ans = map_option admin_record_json (v (call_key ci)) \<and> v' = v)"
| "call_spec List_Records v ans v' =
     ((\<exists>rs. set rs = ran v \<and> ans = Some (jobj [(''records'', JArr (map admin_record_json rs)),
        (''count'', JNum (NInt (int (length rs))))])) \<and> v' = v)"

fun calls_spec :: "admin_call list \<Rightarrow> (trust_record_key \<rightharpoonup> trust_record) \<Rightarrow> json option list \<Rightarrow>
    (trust_record_key \<rightharpoonup> trust_record) \<Rightarrow> bool" where
  "calls_spec (c # cs) v (x # xs) v' = (\<exists>v1. call_spec c v x v1 \<and> calls_spec cs v1 xs v')"
| "calls_spec [] v [] v' = (v' = v)"
| "calls_spec _ _ _ _ = False"

section \<open>The registry's side\<close>

text \<open>The messages handled one after the other, with what each leaves behind.\<close>

fun admin_session ::
  "('s, 'c, 'd) node \<Rightarrow> call_env \<Rightarrow> int \<Rightarrow> message list \<Rightarrow> 'd \<Rightarrow> ('s, 'c) registry \<Rightarrow>
   effects list \<times> 'd \<times> ('s, 'c) registry" where
  "admin_session nd ce t2 [] d w = ([], d, w)"
| "admin_session nd ce t2 (m # ms) d w =
     (case base_handle nd ce t2 m d w of
        (_, eff, d1, w1) \<Rightarrow> (case admin_session nd ce t2 ms d1 w1 of (effs, d2, w2) \<Rightarrow> (eff # effs, d2, w2)))"

definition answer_of :: "effects \<Rightarrow> json option" where
  "answer_of eff = (if map al_status (fst eff) = [AuditSuccess] then Some (msg_body (hd (snd eff))) else None)"

lemma crud_create_read: "create_request_from_json (crud_record_body ci r a c) =
    Ok \<lparr>cq_entity = ci_entity ci, cq_authority = ci_authority ci, cq_action = ci_action ci, cq_resource = ci_resource ci,
        cq_recognized = r, cq_authorized = a, cq_context = de_opt_value c, cq_record_type = ci_record_type ci\<rparr>"
proof -
  obtain m where m: "crud_record_body ci r a c = JObj m" by (auto simp: crud_record_body_def jobj_def)
  have "json_get (crud_record_body ci r a c) k = map_of (rev ([(''entity_id'', JStr (ci_entity ci)),
      (''authority_id'', JStr (ci_authority ci)), (''action'', JStr (ci_action ci)), (''resource'', JStr (ci_resource ci)),
      (''recognized'', JBool r), (''authorized'', JBool a), (''record_type'', JStr (ci_record_type ci))] @
      (case c of Some x \<Rightarrow> [(''context'', x)] | None \<Rightarrow> []))) k" for k
    by (simp only: crud_record_body_def json_get_jobj)
  then show ?thesis unfolding m create_request_from_json.simps
    by (cases c) (simp_all add: create_fields_def de_string_field_def de_string_def de_bool_field_def)
qed

lemma crud_ids_read: "ids_request_from_json (crud_ids_body ci) =
    Ok \<lparr>iq_entity = ci_entity ci, iq_authority = ci_authority ci, iq_action = ci_action ci, iq_resource = ci_resource ci\<rparr>"
proof -
  obtain m where m: "crud_ids_body ci = JObj m" by (auto simp: crud_ids_body_def jobj_def)
  have "json_get (crud_ids_body ci) k = map_of (rev [(''entity_id'', JStr (ci_entity ci)),
      (''authority_id'', JStr (ci_authority ci)), (''action'', JStr (ci_action ci)), (''resource'', JStr (ci_resource ci))]) k" for k
    by (simp only: crud_ids_body_def json_get_jobj)
  then show ?thesis unfolding m ids_request_from_json.simps
    by (simp add: ids_fields_def de_string_field_def de_string_def)
qed

lemma crud_ids_echo:
  "ids_json (ci_entity ci) (ci_authority ci) (ci_action ci) (ci_resource ci) = crud_ids_body ci"
  by (simp add: ids_json_def crud_ids_body_def)

lemma crud_request_record:
  assumes "typed ci"
  shows "\<exists>q. request_record de (crud_record_body ci r a c) = Ok (q, call_record ci r a c) \<and>
    ids_json (cq_entity q) (cq_authority q) (cq_action q) (cq_resource q) = crud_ids_body ci"
proof -
  let ?q = "\<lparr>cq_entity = ci_entity ci, cq_authority = ci_authority ci, cq_action = ci_action ci, cq_resource = ci_resource ci,
        cq_recognized = r, cq_authorized = a, cq_context = de_opt_value c, cq_record_type = ci_record_type ci\<rparr>"
  have "\<exists>t. to_lowercase (ci_record_type ci) = record_type_str t \<and> tr_type (call_record ci r a c) = t"
    using assms by (auto simp: typed_def call_record_def)
  then have "request_record de (crud_record_body ci r a c) = Ok (?q, call_record ci r a c)"
    by (auto simp: request_record_Ok crud_create_read call_record_def)
  then show ?thesis by (simp add: crud_ids_echo)
qed

lemma call_types:
  "call_type (Create_Record ci r a x) = CREATE_RECORD" "call_type (Update_Record ci r a x) = UPDATE_RECORD"
  "call_type (Delete_Record ci) = DELETE_RECORD" "call_type (Read_Record ci) = READ_RECORD"
  "call_type List_Records = LIST_RECORDS" "call_type c \<in> set admin_message_types"
  by (simp_all add: admin_types) (cases c; simp add: admin_types admin_message_types_def)

lemma call_keys:
  "key_from_record (call_record ci r a x) = call_key ci"
  "key_from_query (request_query \<lparr>iq_entity = ci_entity ci, iq_authority = ci_authority ci, iq_action = ci_action ci,
     iq_resource = ci_resource ci\<rparr>) = call_key ci"
  by (simp_all add: key_from_record_def call_record_def call_key_def request_query_def query_new_def key_from_query_def)

lemma local_call:
  assumes "local_inv s" "\<not> ls_poisoned s" "call_ok c"
    and "run_admin cfg local_repo (call_type c) (call_body c) s = Some (res, s')"
  shows "local_inv s' \<and> \<not> ls_poisoned s' \<and>
    call_spec c (local_view s) (case res of Ok j \<Rightarrow> Some j | Err e \<Rightarrow> None) (local_view s')"
proof (cases c)
  case (Create_Record ci r a x)
  obtain q where q: "request_record (ac_de_error cfg) (crud_record_body ci r a x) = Ok (q, call_record ci r a x)"
    "ids_json (cq_entity q) (cq_authority q) (cq_action q) (cq_resource q) = crud_ids_body ci"
    using crud_request_record assms(3) Create_Record by (metis call_ok.simps(1))
  have "(res, s') = handle_create_record (ac_de_error cfg) local_repo (crud_record_body ci r a x) s"
    using assms(4) Create_Record by (simp add: call_types run_admin_def del: call_type.simps)
  then show ?thesis using assms(1,2) q Create_Record map_inv_update [of "ls_records s" "call_record ci r a x"]
    by (auto simp: handle_create_record_def local_repo_def local_create_def local_inv_def local_view_def
        hm_contains_def call_keys Let_def split: if_splits)
next
  case (Update_Record ci r a x)
  obtain q where q: "request_record (ac_de_error cfg) (crud_record_body ci r a x) = Ok (q, call_record ci r a x)"
    "ids_json (cq_entity q) (cq_authority q) (cq_action q) (cq_resource q) = crud_ids_body ci"
    using crud_request_record assms(3) Update_Record by (metis call_ok.simps(2))
  have "(res, s') = handle_update_record (ac_de_error cfg) local_repo (crud_record_body ci r a x) s"
    using assms(4) Update_Record by (simp add: call_types run_admin_def admin_types del: call_type.simps)
  then show ?thesis using assms(1,2) q Update_Record map_inv_update [of "ls_records s" "call_record ci r a x"]
    by (auto simp: handle_update_record_def local_repo_def local_update_def local_inv_def local_view_def
        hm_contains_def call_keys Let_def split: if_splits)
next
  case (Delete_Record ci)
  have "(res, s') = handle_delete_record (ac_de_error cfg) local_repo (crud_ids_body ci) s"
    using assms(4) Delete_Record by (simp add: call_types run_admin_def admin_types del: call_type.simps)
  then show ?thesis using assms(1,2) Delete_Record
    by (auto simp: handle_delete_record_def crud_ids_read local_repo_def local_delete_def local_inv_def local_view_def
        hm_contains_def call_keys crud_ids_echo Let_def fun_eq_iff split: if_splits)
next
  case (Read_Record ci)
  have "(res, s') = handle_read_record (ac_de_error cfg) local_repo (crud_ids_body ci) s"
    using assms(4) Read_Record by (simp add: call_types run_admin_def admin_types del: call_type.simps)
  then show ?thesis using assms(1,2) Read_Record
    by (cases "map_of (ls_records s) (call_key ci)")
      (auto simp: handle_read_record_def crud_ids_read local_repo_def local_read_def local_inv_def local_view_def
        store_laws call_keys)
next
  case List_Records
  have "(res, s') = handle_list_records local_repo s"
    using assms(4) List_Records by (simp add: call_types run_admin_def admin_types del: call_type.simps)
  then show ?thesis using assms(1,2) List_Records values_ran [of "ls_records s"]
    by (auto simp: handle_list_records_def local_repo_def local_list_def local_inv_def local_view_def Let_def)
qed

lemma admin_step:
  assumes "nd_repo nd = local_repo" "did \<in> set (dp_admins (nd_deployment nd))" "call_ok c"
    and "\<forall>m r. pack_and_forward (nd_atm nd) m r = Delivered" "local_inv s" "\<not> ls_poisoned s"
    and "base_handle nd ce t2 (admin_message i did reg c) d (s, cs) = (r, eff, d', s', cs')"
  shows "d' = d \<and> cs' = cs \<and> local_inv s' \<and> \<not> ls_poisoned s' \<and> call_spec c (local_view s) (answer_of eff) (local_view s')"
proof -
  let ?m = "admin_message i did reg c" and ?cfg = "node_admin nd"
  have t: "msg_type ?m = call_type c" "msg_body ?m = call_body c" "msg_from ?m = Some did"
    by (simp_all add: admin_message_def)
  have "route_message nd ?m = Some P_Admin"
    using call_types(6) [of c] didcomm_types unfolding route_message_cases t by auto
  then have h: "handle_admin ?cfg (nd_repo nd) (nd_atm nd) (base_context nd ?m) (ce_now ce) ?m s = (eff, s')"
    "d' = d" "cs' = cs"
    using assms(7) by (simp_all add: base_handle_def split: prod.splits)
  have "validate_admin_did ?cfg (hx_sender_did (base_context nd ?m)) = Ok ()"
    using assms(2) t by (simp add: validate_admin_did_def base_context_def node_admin_def)
  then have q: "handle_request ?cfg local_repo (nd_atm nd) (base_context nd ?m) (ce_now ce) ?m s = (eff, s')"
    using h(1) assms(1) by (simp add: handle_admin_def)
  have "run_admin ?cfg local_repo (call_type c) (call_body c) s \<noteq> None"
    using call_types(6) [of c] by (auto simp: run_admin_def admin_message_types_def)
  then obtain res s1 where run: "run_admin ?cfg local_repo (call_type c) (call_body c) s = Some (res, s1)" by fastforce
  have "s1 = s' \<and> answer_of eff = (case res of Ok j \<Rightarrow> Some j | Err e \<Rightarrow> None)"
    using q run assms(4) t
    by (auto simp: handle_request_def Let_def handle_success_def handle_failure_def answer_of_def audit_builder
        send_response_def send_message_def build_response_def split: result.splits)
  then show ?thesis using local_call [OF assms(5,6,3) run] h(2,3) by simp
qed

text \<open>C29: The record-administration messages of the repository's client, sent by an administrator to a
  registry on the in-memory backend, are carried out one after the other as the calls mean: each
  answer is the one of the records at that moment, the audit trail says success exactly for the
  calls that had one, and nothing else of the registry changes.\<close>

theorem client_calls_carried_out:
  assumes "nd_repo nd = local_repo" "did \<in> set (dp_admins (nd_deployment nd))" "\<forall>c \<in> set calls. call_ok c"
    and "\<forall>m r. pack_and_forward (nd_atm nd) m r = Delivered" "\<forall>m r. pack_and_forward a m r = Delivered"
    and "length calls \<le> length is" "local_inv s" "\<not> ls_poisoned s"
    and "admin_session nd ce t2 (send_calls a is did reg calls) d (s, cs) = (effs, d', s', cs')"
  shows "calls_spec calls (local_view s) (map answer_of effs) (local_view s') \<and> d' = d \<and> cs' = cs"
  using assms(3,6-9)
proof (induction calls arbitrary: "is" s effs)
  case Nil
  then show ?case by (cases "is") auto
next
  case (Cons c calls)
  obtain i "is'" where i: "is = i # is'" using Cons.prems(2) by (cases "is") auto
  have sent: "send_calls a is did reg (c # calls) = admin_message i did reg c # send_calls a is' did reg calls"
    using assms(5) by (simp add: i send_admin_message_def send_message_def)
  obtain r eff d1 s1 cs1 where b: "base_handle nd ce t2 (admin_message i did reg c) d (s, cs) = (r, eff, d1, s1, cs1)"
    by (metis prod.exhaust)
  have ok: "call_ok c" "\<forall>c \<in> set calls. call_ok c" using Cons.prems(1) by auto
  note step = admin_step [OF assms(1,2) ok(1) assms(4) Cons.prems(3,4) b]
  obtain effs1 where e: "admin_session nd ce t2 (send_calls a is' did reg calls) d (s1, cs) = (effs1, d', s', cs')"
    "effs = eff # effs1"
    using Cons.prems(5) step by (auto simp: sent b split: prod.splits)
  have "calls_spec calls (local_view s1) (map answer_of effs1) (local_view s') \<and> d' = d \<and> cs' = cs"
    by (rule Cons.IH [OF ok(2) _ _ _ e(1)]) (use Cons.prems(2) step i in auto)
  then show ?case using step e(2) by auto
qed

lemma calls_spec_Cons:
  "calls_spec (c # cs) v xs v' \<longleftrightarrow> (\<exists>x xs1 v1. xs = x # xs1 \<and> call_spec c v x v1 \<and> calls_spec cs v1 xs1 v')"
  by (cases xs) auto

lemma calls_spec_Nil: "calls_spec [] v xs v' \<longleftrightarrow> xs = [] \<and> v' = v"
  by (cases xs) auto

lemma delivered_sample: "pack_and_forward sample_atm m r = Delivered"
  by (simp add: pack_and_forward_def sample_atm_def)

text \<open>The demo: all but the last call succeed, and the registry is left as it was.\<close>

theorem client_calls_carried_out_witness:
  "\<exists>effs d' s' cs'. admin_session sample_node sample_call 2 (send_calls sample_atm [[], [], [], [], [], []] ''did:admin'' ''did:tr'' demo_calls)
       memory_default (local_new, cap_set_of []) = (effs, d', s', cs') \<and>
     map (\<lambda>e. answer_of e = None) effs = [False, False, False, False, False, True] \<and> local_view s' = Map.empty"
proof -
  obtain effs d' s' cs' where r: "admin_session sample_node sample_call 2
      (send_calls sample_atm [[], [], [], [], [], []] ''did:admin'' ''did:tr'' demo_calls) memory_default (local_new, cap_set_of []) = (effs, d', s', cs')"
    by (metis prod.exhaust)
  have ty: "typed demo_input" "''did:admin'' \<in> set (dp_admins (nd_deployment sample_node))" by code_simp+
  have n: "nd_repo sample_node = local_repo" "nd_atm sample_node = sample_atm" "\<not> ls_poisoned local_new"
    by (simp_all add: sample_node_def local_new_def)
  have ok: "\<forall>c \<in> set demo_calls. call_ok c" "length demo_calls \<le> length [[], [], [], [], [], []]"
    using ty(1) by (simp_all add: demo_calls_def)
  have "calls_spec demo_calls (local_view local_new) (map answer_of effs) (local_view s')"
    using client_calls_carried_out [OF n(1) ty(2) ok(1) _ _ ok(2) local_new_inv(1) n(3) r] by (simp add: n(2) delivered_sample)
  then have "map (\<lambda>e. answer_of e = None) effs = [False, False, False, False, False, True] \<and> local_view s' = Map.empty"
    by (auto simp: demo_calls_def calls_spec_Cons calls_spec_Nil map_eq_Cons_conv)
  then show ?thesis using r by (intro exI [of _ effs] exI [of _ d'] exI [of _ s'] exI [of _ cs']) simp
qed

section \<open>The fixture\<close>

text \<open>A registry started by the test fixture without a mediator serves no DIDComm, reports its
  writes as disabled, admits every origin, and answers an authorization query with 200 and the
  flag of the last seed with these identifiers, or with 404 if there is none.\<close>

theorem fixture_answers_seeds:
  assumes "tb_spawn bind_addr parse_origin env store_at acl c b = Ok h"
  shows "\<not> srv_didcomm (th_server h) \<and> srv_cors (th_server h) = Permissive \<and>
    json_get (health_json (srv_health (th_server h))) ''writes'' = Some (JStr ''disabled'') \<and>
    (let reply = trqp_response (fst (handle_trqp_authorization rfc local_repo t1 t2
           (Ok \<lparr>in_ids = ids, in_context = None\<rparr>) (th_repository h)));
         seeds = filter (\<lambda>r. query_of_record r = query_from_ids ids) (tb_records b)
     in if seeds = [] then rp_status reply = 404
        else rp_status reply = 200 \<and> json_get (rp_body reply) ''authorized'' = map_option JBool (tr_authorized (last seeds)))"
proof -
  let ?rs = "tb_records b" and ?q = "query_from_ids ids"
  have h: "th_repository h = local_with_records ?rs" "\<not> srv_didcomm (th_server h)"
    "srv_cors (th_server h) = Permissive" "srv_health (th_server h) = health_new False"
    using assms by (auto simp: tb_spawn_def serve_def spawn_config_def didcomm_config_default_def
        test_server_config_def build_cors_layer_def)
  have l: "local_inv (local_with_records ?rs)" "\<not> ls_poisoned (local_with_records ?rs)"
    "local_view (local_with_records ?rs) = map_of (rev (map (\<lambda>r. (key_from_record r, r)) ?rs))"
    using local_with_records_fold [OF local_new_inv(1), of ?rs]
    by (simp_all add: local_with_records_def Let_def) (simp add: local_new_def)
  have find: "map_of (rev (map (\<lambda>r. (key_from_record r, r)) rs)) (key_from_query ?q) =
      (let seeds = filter (\<lambda>r. query_of_record r = ?q) rs in if seeds = [] then None else Some (last seeds))" for rs
  proof (induction rs rule: rev_induct)
    case (snoc r rs)
    have "key_from_record r = key_from_query ?q \<longleftrightarrow> query_of_record r = ?q"
      by (metis key_query_of_record key_from_query_inj)
    then show ?case using snoc by (auto simp: Let_def)
  qed simp
  have f: "fst (local_find ?q (local_with_records ?rs)) =
      Ok (let seeds = filter (\<lambda>r. query_of_record r = ?q) ?rs in if seeds = [] then None else Some (last seeds))"
    using local_healthy(1) [OF l(1,2)] l(3) find by simp
  obtain s1 where s: "local_find ?q (local_with_records ?rs) =
      (Ok (let seeds = filter (\<lambda>r. query_of_record r = ?q) ?rs in if seeds = [] then None else Some (last seeds)), s1)"
    using f by (metis prod.collapse)
  show ?thesis
    using h s
    by (auto simp: handle_trqp_authorization_def handle_trqp_def local_repo_def trqp_response_def app_error_status
        output_json_get record_to_json_get none_recognized_def Let_def health_json_def health_new_def json_get_jobj
        split: option.splits)
qed

definition other_ids :: trust_record_ids where
  "other_ids = \<lparr>ids_entity = EntityId ''did:e'', ids_authority = AuthorityId ''did:a'',
     ids_action = Action ''sign'', ids_resource = Resource ''other''\<rparr>"

theorem fixture_answers_seeds_witness:
  "\<exists>h. tb_spawn (\<lambda>a. Ok ''127.0.0.1:9'') Some Map.empty (\<lambda>p. memory_cap_store) ExplicitAllow []
       (tb_with_record sample_record tb_new) = Ok h \<and>
     rp_status (trqp_response (fst (handle_trqp_authorization (\<lambda>t. []) local_repo 1 2
       (Ok \<lparr>in_ids = other_ids, in_context = None\<rparr>) (th_repository h)))) = 404"
proof -
  obtain h where h: "tb_spawn (\<lambda>a. Ok ''127.0.0.1:9'') Some Map.empty (\<lambda>p. memory_cap_store) ExplicitAllow []
       (tb_with_record sample_record tb_new) = Ok h"
    by (simp add: tb_spawn_def serve_def cap_new_def memory_cap_store_def Let_def)
  have "filter (\<lambda>r. query_of_record r = query_from_ids other_ids) (tb_records (tb_with_record sample_record tb_new)) = []"
    by code_simp
  then show ?thesis using fixture_answers_seeds [OF h, of "\<lambda>t. []" 1 2 other_ids] h by (simp add: Let_def)
qed

end
