(* ===== verification/Store_Concurrent.thy ===== *)
theory Store_Concurrent
  imports Kv_Fjall
begin

text \<open>
  Concurrent requests on one backend.  The server answers every message in a task of its own, so the
  operations of \<open>redis_storage.rs\<close> and \<open>fjall_storage.rs\<close> interleave.  A create or an update (and,
  on fjall, a delete) is two commands to the store, a check and a write; every other operation is a
  single access, or runs on a snapshot.  The halves are functions, composed they are the operation;
  the interleaving is a step relation on a pool of requests, with or without a lock held between the
  halves.  \<open>RedisStorage\<close> holds the write guard of its connection for the whole operation, and its
  requests are answered as in one sequential order (\<open>locked_serialises\<close>); \<open>FjallStorage\<close> holds nothing.
\<close>

section \<open>The halves of an operation\<close>

fun redis_first :: "serde_json \<Rightarrow> 'c redis_conn \<Rightarrow> repo_cmd \<Rightarrow> 'c \<Rightarrow> (repo_out + string \<times> string) \<times> 'c" where
  "redis_first sj conn (CCreate r) c =
     (case rc_exists conn (rec_sk r) c of
        (Err e, c1) \<Rightarrow> (Inl (OFailed (query_failed ''Redis EXISTS failed: '' e)), c1)
      | (Ok ex, c1) \<Rightarrow>
          if ex then (Inl (OFailed (exists_error r)), c1)
          else (case serialize_record sj r of
                  Err e \<Rightarrow> (Inl (OFailed e), c1)
                | Ok v \<Rightarrow> (Inr (rec_sk r, v), c1)))"
| "redis_first sj conn (CUpdate r) c =
     (case rc_exists conn (rec_sk r) c of
        (Err e, c1) \<Rightarrow> (Inl (OFailed (query_failed ''Redis EXISTS failed: '' e)), c1)
      | (Ok ex, c1) \<Rightarrow>
          if \<not> ex then (Inl (OFailed (missing_error (query_of_record r))), c1)
          else (case serialize_record sj r of
                  Err e \<Rightarrow> (Inl (OFailed e), c1)
                | Ok v \<Rightarrow> (Inr (rec_sk r, v), c1)))"
| "redis_first sj conn cmd c = (case exec_cmd (redis_repo sj conn) cmd c of (out, c1) \<Rightarrow> (Inl out, c1))"

fun redis_second :: "'c redis_conn \<Rightarrow> string \<times> string \<Rightarrow> 'c \<Rightarrow> repo_out \<times> 'c" where
  "redis_second conn (key, v) c =
     (case rc_set conn key v c of
        (Err e, c1) \<Rightarrow> (OFailed (query_failed ''Redis SET failed: '' e), c1)
      | (Ok _, c1) \<Rightarrow> (ODone, c1))"

text \<open>The write that follows a check on fjall, and what the caller gets at the end of the blocking task.\<close>

datatype kv_write = KvPut string string | KvRemove string

definition fjall_answer :: "'c fjall_conn \<Rightarrow> repo_out \<Rightarrow> 'c \<Rightarrow> repo_out" where
  "fjall_answer conn out c = (case fj_join conn c of Some e \<Rightarrow> OFailed (join_error e) | None \<Rightarrow> out)"

fun fjall_first :: "serde_json \<Rightarrow> 'c fjall_conn \<Rightarrow> repo_cmd \<Rightarrow> 'c \<Rightarrow> (repo_out + kv_write) \<times> 'c" where
  "fjall_first sj conn (CCreate r) c =
     (case serialize_record sj r of
        Err e \<Rightarrow> (Inl (OFailed e), c)
      | Ok v \<Rightarrow>
          (case fj_contains conn (rec_sk r) c of
             (Err e, c1) \<Rightarrow> (Inl (fjall_answer conn (OFailed (query_error e)) c1), c1)
           | (Ok ex, c1) \<Rightarrow>
               if ex then (Inl (fjall_answer conn (OFailed (RecordAlreadyExists (rec_sk r))) c1), c1)
               else (Inr (KvPut (rec_sk r) v), c1)))"
| "fjall_first sj conn (CUpdate r) c =
     (case serialize_record sj r of
        Err e \<Rightarrow> (Inl (OFailed e), c)
      | Ok v \<Rightarrow>
          (case fj_contains conn (rec_sk r) c of
             (Err e, c1) \<Rightarrow> (Inl (fjall_answer conn (OFailed (query_error e)) c1), c1)
           | (Ok ex, c1) \<Rightarrow>
               if \<not> ex then (Inl (fjall_answer conn (OFailed (RecordNotFound (rec_sk r))) c1), c1)
               else (Inr (KvPut (rec_sk r) v), c1)))"
| "fjall_first sj conn (CDelete q) c =
     (case fj_contains conn (query_sk q) c of
        (Err e, c1) \<Rightarrow> (Inl (fjall_answer conn (OFailed (query_error e)) c1), c1)
      | (Ok ex, c1) \<Rightarrow>
          if \<not> ex then (Inl (fjall_answer conn (OFailed (RecordNotFound (query_sk q))) c1), c1)
          else (Inr (KvRemove (query_sk q)), c1))"
| "fjall_first sj conn cmd c = (case exec_cmd (fjall_repo sj conn) cmd c of (out, c1) \<Rightarrow> (Inl out, c1))"

fun fjall_second :: "'c fjall_conn \<Rightarrow> kv_write \<Rightarrow> 'c \<Rightarrow> repo_out \<times> 'c" where
  "fjall_second conn (KvPut key v) c =
     (case fj_insert conn key v c of
        (Err e, c1) \<Rightarrow> (fjall_answer conn (OFailed (query_error e)) c1, c1)
      | (Ok _, c1) \<Rightarrow> (fjall_answer conn ODone c1, c1))"
| "fjall_second conn (KvRemove key) c =
     (case fj_remove conn key c of
        (Err e, c1) \<Rightarrow> (fjall_answer conn (OFailed (query_error e)) c1, c1)
      | (Ok _, c1) \<Rightarrow> (fjall_answer conn ODone c1, c1))"

section \<open>The pool of requests\<close>

datatype 'p request_phase = Rq_Queued | Rq_Checked 'p | Rq_Answered repo_out

record ('c, 'p) store_pool =
  sp_conn :: 'c
  sp_lock :: "nat option"
  sp_phase :: "nat \<Rightarrow> 'p request_phase"
  sp_log :: "nat list"

definition store_start :: "'c \<Rightarrow> ('c, 'p) store_pool" where
  "store_start c = \<lparr>sp_conn = c, sp_lock = None, sp_phase = (\<lambda>i. Rq_Queued), sp_log = []\<rparr>"

text \<open>
  Request \<open>i\<close> is the command \<open>W i\<close>.  With \<open>locking\<close> an operation starts only when no other one is
  between its halves.  The log lists the answered requests in the order of their last access.
\<close>

inductive request_step ::
  "bool \<Rightarrow> (repo_cmd \<Rightarrow> 'c \<Rightarrow> (repo_out + 'p) \<times> 'c) \<Rightarrow> ('p \<Rightarrow> 'c \<Rightarrow> repo_out \<times> 'c) \<Rightarrow> (nat \<Rightarrow> repo_cmd) \<Rightarrow>
   ('c, 'p) store_pool \<Rightarrow> ('c, 'p) store_pool \<Rightarrow> bool"
  for locking first second W where
  At_Once: "sp_phase s i = Rq_Queued \<Longrightarrow> (locking \<longrightarrow> sp_lock s = None) \<Longrightarrow>
    first (W i) (sp_conn s) = (Inl out, c) \<Longrightarrow>
    request_step locking first second W s
      (s\<lparr>sp_conn := c, sp_phase := (sp_phase s)(i := Rq_Answered out), sp_log := sp_log s @ [i]\<rparr>)"
| Check: "sp_phase s i = Rq_Queued \<Longrightarrow> (locking \<longrightarrow> sp_lock s = None) \<Longrightarrow>
    first (W i) (sp_conn s) = (Inr p, c) \<Longrightarrow>
    request_step locking first second W s
      (s\<lparr>sp_conn := c, sp_lock := (if locking then Some i else None),
        sp_phase := (sp_phase s)(i := Rq_Checked p)\<rparr>)"
| Write: "sp_phase s i = Rq_Checked p \<Longrightarrow> second p (sp_conn s) = (out, c) \<Longrightarrow>
    request_step locking first second W s
      (s\<lparr>sp_conn := c, sp_lock := None, sp_phase := (sp_phase s)(i := Rq_Answered out),
        sp_log := sp_log s @ [i]\<rparr>)"

inductive request_reach ::
  "bool \<Rightarrow> (repo_cmd \<Rightarrow> 'c \<Rightarrow> (repo_out + 'p) \<times> 'c) \<Rightarrow> ('p \<Rightarrow> 'c \<Rightarrow> repo_out \<times> 'c) \<Rightarrow> (nat \<Rightarrow> repo_cmd) \<Rightarrow>
   ('c, 'p) store_pool \<Rightarrow> ('c, 'p) store_pool \<Rightarrow> bool"
  for locking first second W s0 where
  Started: "request_reach locking first second W s0 s0"
| Stepped: "request_reach locking first second W s0 s \<Longrightarrow> request_step locking first second W s s' \<Longrightarrow>
    request_reach locking first second W s0 s'"

fun answer_of :: "'p request_phase \<Rightarrow> repo_out option" where
  "answer_of (Rq_Answered out) = Some out"
| "answer_of _ = None"

definition answers :: "('c, 'p) store_pool \<Rightarrow> repo_out list" where
  "answers s = map (\<lambda>i. the (answer_of (sp_phase s i))) (sp_log s)"

lemma exec_cmds_append:
  "exec_cmds repo (cs @ ds) s = (case exec_cmds repo cs s of (xs, s1) \<Rightarrow>
     (case exec_cmds repo ds s1 of (ys, s2) \<Rightarrow> (xs @ ys, s2)))"
  by (induction cs arbitrary: s) (auto split: prod.splits)

lemma exec_cmds_snoc:
  "exec_cmds repo cs s = (xs, s1) \<Longrightarrow> exec_cmd repo c s1 = (x, s2) \<Longrightarrow>
   exec_cmds repo (cs @ [c]) s = (xs @ [x], s2)"
  by (simp add: exec_cmds_append)

section \<open>A lock between the halves serialises the requests\<close>

locale two_step_store =
  fixes repo :: "'c trust_repo"
    and first :: "repo_cmd \<Rightarrow> 'c \<Rightarrow> (repo_out + 'p) \<times> 'c"
    and second :: "'p \<Rightarrow> 'c \<Rightarrow> repo_out \<times> 'c"
  assumes halves: "exec_cmd repo cmd c =
      (case first cmd c of (Inl out, c1) \<Rightarrow> (out, c1) | (Inr p, c1) \<Rightarrow> second p c1)"
begin

text \<open>
  The requests of the log, run one after the other, give the answers sent and the state before the
  operation that holds the lock; that one has done its first half on this state.
\<close>

definition serial :: "(nat \<Rightarrow> repo_cmd) \<Rightarrow> 'c \<Rightarrow> ('c, 'p) store_pool \<Rightarrow> bool" where
  "serial W c0 s \<longleftrightarrow>
     distinct (sp_log s) \<and> (\<forall>i. i \<in> set (sp_log s) \<longleftrightarrow> answer_of (sp_phase s i) \<noteq> None) \<and>
     (\<forall>i p. sp_phase s i = Rq_Checked p \<longrightarrow> sp_lock s = Some i) \<and>
     (\<exists>c. exec_cmds repo (map W (sp_log s)) c0 = (answers s, c) \<and>
       (case sp_lock s of None \<Rightarrow> sp_conn s = c
        | Some i \<Rightarrow> \<exists>p. sp_phase s i = Rq_Checked p \<and> first (W i) c = (Inr p, sp_conn s)))"

lemma serial_start: "serial W c0 (store_start c0)"
  by (simp add: serial_def store_start_def answers_def)

lemma serial_answered:
  assumes "distinct (sp_log s)" "\<forall>j. j \<in> set (sp_log s) \<longleftrightarrow> answer_of (sp_phase s j) \<noteq> None"
    and "answer_of (sp_phase s i) = None" "exec_cmds repo (map W (sp_log s)) c0 = (answers s, c)"
    and "exec_cmd repo (W i) c = (out, c1)" "\<And>j p. j \<noteq> i \<Longrightarrow> sp_phase s j \<noteq> Rq_Checked p"
  shows "serial W c0 (s\<lparr>sp_conn := c1, sp_lock := None, sp_phase := (sp_phase s)(i := Rq_Answered out),
    sp_log := sp_log s @ [i]\<rparr>)"
proof -
  have i: "i \<notin> set (sp_log s)" using assms(2,3) by blast
  then have "map (\<lambda>j. the (answer_of (((sp_phase s)(i := Rq_Answered out)) j))) (sp_log s) = answers s"
    by (auto simp: answers_def)
  then show ?thesis using assms(1,2,6) i exec_cmds_snoc [OF assms(4,5)]
    by (auto simp: serial_def answers_def)
qed

lemma serial_step:
  assumes "serial W c0 s" "request_step True first second W s s'"
  shows "serial W c0 s'"
  using assms(2)
proof cases
  case (At_Once i out c)
  note s = assms(1) [unfolded serial_def]
  have l: "sp_lock s = None" using At_Once by simp
  then have e: "exec_cmds repo (map W (sp_log s)) c0 = (answers s, sp_conn s)" using s by auto
  have x: "exec_cmd repo (W i) (sp_conn s) = (out, c)" using At_Once by (simp add: halves)
  have n: "sp_phase s j \<noteq> Rq_Checked p" for j p using s l by fastforce
  have eq: "s' = s\<lparr>sp_conn := c, sp_lock := None, sp_phase := (sp_phase s)(i := Rq_Answered out),
      sp_log := sp_log s @ [i]\<rparr>"
    using At_Once l by simp
  show ?thesis unfolding eq
    using serial_answered [of s i W c0 "sp_conn s" out c] s e x n At_Once(2) by simp
next
  case (Check i p c)
  note s = assms(1) [unfolded serial_def]
  have l: "sp_lock s = None" using Check by simp
  have i: "i \<notin> set (sp_log s)" using s Check by auto
  then have "answers s' = answers s" using Check by (auto simp: answers_def)
  then show ?thesis using s l i Check by (auto simp: serial_def)
next
  case (Write i p out c)
  note s = assms(1) [unfolded serial_def]
  have l: "sp_lock s = Some i" using s Write by blast
  then obtain b where b: "exec_cmds repo (map W (sp_log s)) c0 = (answers s, b)"
    "first (W i) b = (Inr p, sp_conn s)"
    using s Write by auto
  have x: "exec_cmd repo (W i) b = (out, c)" using b Write by (simp add: halves)
  have n: "sp_phase s j \<noteq> Rq_Checked p'" if "j \<noteq> i" for j p' using s l that by fastforce
  show ?thesis using serial_answered [of s i W c0 b out c] s b x n Write by simp
qed

lemma locked_serialises:
  assumes "request_reach True first second W (store_start c0) s"
  shows "serial W c0 s"
  using assms by (induction rule: request_reach.induct) (auto intro: serial_start serial_step)

end

text \<open>The log only grows: a request answered before another one starts precedes it.\<close>

lemma request_log_grows:
  "request_reach locking first second W s t \<Longrightarrow> \<exists>later. sp_log t = sp_log s @ later"
  by (induction rule: request_reach.induct) (auto elim: request_step.cases)

text \<open>Of the creates of a key that is never deleted, one is answered with success.\<close>

lemma abs_run_kept:
  assumes "abs_run atomic kr kq cs xs m m'" "\<And>q. CDelete q \<in> set cs \<Longrightarrow> kq q \<noteq> k" "m k \<noteq> None"
  shows "\<forall>j < length cs. \<forall>r. cs ! j = CCreate r \<longrightarrow> kr r = k \<longrightarrow> xs ! j \<noteq> ODone"
  using assms
proof (induction atomic kr kq cs xs m m' rule: abs_run.induct)
  case (2 atomic kr kq c cs x xs m m')
  then obtain m1 where m1: "abs_cmd atomic kr kq c x m m1" "abs_run atomic kr kq cs xs m1 m'" by auto
  have "\<forall>q. c = CDelete q \<longrightarrow> kq q \<noteq> k" using "2.prems"(2) by auto
  then have "m1 k \<noteq> None" using m1(1) "2.prems"(3) by (cases c; cases x) (auto split: if_splits)
  then have "\<forall>j < length cs. \<forall>r. cs ! j = CCreate r \<longrightarrow> kr r = k \<longrightarrow> xs ! j \<noteq> ODone"
    using "2.IH" m1(2) "2.prems"(2) by simp
  moreover have "x \<noteq> ODone" if "c = CCreate r" "kr r = k" for r using m1(1) that "2.prems"(3) by auto
  ultimately show ?case by (auto simp: less_Suc_eq_0_disj)
qed auto

lemma abs_run_one_create:
  assumes "abs_run atomic kr kq cs xs m m'" "\<And>q. CDelete q \<in> set cs \<Longrightarrow> kq q \<noteq> k"
    and "i < j" "j < length cs" "cs ! i = CCreate r" "kr r = k" "cs ! j = CCreate r'" "kr r' = k"
    and "xs ! i = ODone"
  shows "xs ! j \<noteq> ODone"
  using assms
proof (induction atomic kr kq cs xs m m' arbitrary: i j rule: abs_run.induct)
  case (2 atomic kr kq c cs x xs m m')
  then obtain m1 where m1: "abs_cmd atomic kr kq c x m m1" "abs_run atomic kr kq cs xs m1 m'" by auto
  obtain j' where j: "j = Suc j'" "j' < length cs" using "2.prems"(3,4) by (cases j) auto
  show ?case
  proof (cases i)
    case 0
    then have "m1 k \<noteq> None" using m1(1) "2.prems"(5,6,9) by auto
    from abs_run_kept [OF m1(2) _ this] show ?thesis using "2.prems" j by auto
  next
    case (Suc i')
    then show ?thesis using "2.IH" [OF m1(2), of i' j'] "2.prems" j by auto
  qed
qed auto

section \<open>The two backends\<close>

lemma redis_halves:
  "exec_cmd (redis_repo sj conn) cmd c =
     (case redis_first sj conn cmd c of (Inl out, c1) \<Rightarrow> (out, c1) | (Inr p, c1) \<Rightarrow> redis_second conn p c1)"
  by (cases cmd) (auto simp: redis_repo_def redis_create_def redis_update_def out_of_def Let_def
      split: prod.splits result.splits)

lemma fjall_halves:
  "exec_cmd (fjall_repo sj conn) cmd c =
     (case fjall_first sj conn cmd c of (Inl out, c1) \<Rightarrow> (out, c1) | (Inr p, c1) \<Rightarrow> fjall_second conn p c1)"
  by (cases cmd) (auto simp: fjall_repo_def fjall_create_def fjall_update_def fjall_delete_def
      spawn_blocking_def fjall_answer_def out_of_def Let_def split: prod.splits result.splits option.splits)

interpretation rd_steps: two_step_store "redis_repo sj conn" "redis_first sj conn" "redis_second conn"
  for sj conn by unfold_locales (rule redis_halves)

interpretation fj_steps: two_step_store "fjall_repo sj conn" "fjall_first sj conn" "fjall_second conn"
  for sj conn by unfold_locales (rule fjall_halves)

section \<open>What a sequential order explains\<close>

text \<open>
  A list of the answered requests in an order in which the abstract map gives the same answers and
  ends in the same records.
\<close>

definition serial_order ::
  "(nat \<Rightarrow> repo_cmd) \<Rightarrow> (string \<rightharpoonup> trust_record) \<Rightarrow> (string \<rightharpoonup> trust_record) \<Rightarrow> ('c, 'p) store_pool \<Rightarrow> nat list \<Rightarrow> bool" where
  "serial_order W m m' s order \<longleftrightarrow>
     distinct order \<and> (\<forall>i. i \<in> set order \<longleftrightarrow> answer_of (sp_phase s i) \<noteq> None) \<and>
     abs_run False rec_sk query_sk (map W order) (map (\<lambda>i. the (answer_of (sp_phase s i))) order) m m'"

lemma redis_serial:
  assumes "redis_laws conn sp" "serde_laws sj" "redis_inv sj sp c0"
    and "request_reach True (redis_first sj conn) (redis_second conn) W (store_start c0) s" "sp_lock s = None"
  shows "redis_inv sj sp (sp_conn s) \<and>
    serial_order W (redis_view sj sp c0) (redis_view sj sp (sp_conn s)) s (sp_log s)"
proof -
  note l = rd_steps.locked_serialises [OF assms(4), unfolded rd_steps.serial_def assms(5) option.case]
  then have e: "exec_cmds (redis_repo sj conn) (map W (sp_log s)) c0 = (answers s, sp_conn s)" by blast
  from trust_repository.run_simulates [OF redis_repository [OF assms(1,2)] assms(3) e] l
  show ?thesis unfolding serial_order_def answers_def by blast
qed

lemma serial_one_create:
  assumes "serial_order W m m' s order" "W i = CCreate r" "W j = CCreate r'" "rec_sk r' = rec_sk r"
    and "\<And>l q. l \<in> set order \<Longrightarrow> W l = CDelete q \<Longrightarrow> query_sk q \<noteq> rec_sk r"
    and "sp_phase s i = Rq_Answered ODone" "sp_phase s j = Rq_Answered ODone"
  shows "i = j"
proof (rule ccontr)
  assume ne: "i \<noteq> j"
  note o = assms(1) [unfolded serial_order_def]
  have "i \<in> set order" "j \<in> set order" using o assms(6,7) by auto
  then obtain a b where ab: "order ! a = i" "a < length order" "order ! b = j" "b < length order"
    by (meson in_set_conv_nth)
  have run: "abs_run False rec_sk query_sk (map W order) (map (\<lambda>i. the (answer_of (sp_phase s i))) order) m m'"
    using o by blast
  have nd: "query_sk q \<noteq> rec_sk r" if "CDelete q \<in> set (map W order)" for q using assms(5) that by force
  note one = abs_run_one_create [OF run nd]
  consider "a < b" | "b < a" using ne ab by (metis linorder_neqE_nat)
  then show False
  proof cases
    case 1
    from one [OF _ this, of r r'] show ?thesis using ab assms by simp
  next
    case 2
    from one [OF _ this, of r' r] show ?thesis using ab assms by simp
  qed
qed

lemma two_orders:
  fixes order :: "nat list"
  assumes "distinct order" "\<forall>i. i \<in> set order \<longleftrightarrow> i = 0 \<or> i = 1"
  shows "order = [0, 1] \<or> order = [1, 0]"
proof -
  have s: "set order = {0, 1}" by (rule set_eqI) (simp add: assms(2))
  then have "length order = 2" using distinct_card [OF assms(1)] by simp
  then obtain a b where "order = [a, b]" by (auto simp: length_Suc_conv numeral_2_eq_2)
  then show ?thesis using s assms(1) by (auto simp: doubleton_eq_iff)
qed

text \<open>With no lock, a second request can pass its check before the first one writes.\<close>

lemma unlocked_race:
  assumes "first (W 0) c = (Inr p, c1)" "first (W 1) c1 = (Inr q, c2)"
    and "second p c2 = (x, c3)" "second q c3 = (y, c4)"
  shows "\<exists>s. request_reach False first second W (store_start c) s \<and> sp_conn s = c4 \<and>
    sp_phase s = (\<lambda>i. Rq_Queued)(0 := Rq_Answered x, 1 := Rq_Answered y)"
proof -
  let ?r = "request_reach False first second W (store_start c)"
  let ?s1 = "(store_start c)\<lparr>sp_conn := c1, sp_phase := (\<lambda>i. Rq_Queued)(0 := Rq_Checked p)\<rparr>"
  let ?s2 = "?s1\<lparr>sp_conn := c2, sp_phase := (\<lambda>i. Rq_Queued)(0 := Rq_Checked p, 1 := Rq_Checked q)\<rparr>"
  let ?s3 = "?s2\<lparr>sp_conn := c3, sp_phase := (\<lambda>i. Rq_Queued)(0 := Rq_Answered x, 1 := Rq_Checked q), sp_log := [0]\<rparr>"
  let ?s4 = "?s3\<lparr>sp_conn := c4, sp_phase := (\<lambda>i. Rq_Queued)(0 := Rq_Answered x, 1 := Rq_Answered y), sp_log := [0, 1]\<rparr>"
  note defs = store_start_def fun_upd_twist [of 0 "Suc 0"]
  have "request_step False first second W (store_start c) ?s1"
    using request_step.Check [of "store_start c" 0 False first W p c1 second] assms(1) by (simp add: defs)
  moreover have "request_step False first second W ?s1 ?s2"
    using request_step.Check [of ?s1 1 False first W q c2 second] assms(2) by (simp add: defs)
  moreover have "request_step False first second W ?s2 ?s3"
    using request_step.Write [of ?s2 0 p second x c3 False first W] assms(3) by (simp add: defs)
  moreover have "request_step False first second W ?s3 ?s4"
    using request_step.Write [of ?s3 1 q second y c4 False first W] assms(4) by (simp add: defs)
  ultimately have "?r ?s4" by (meson request_reach.intros)
  then show ?thesis by (intro exI [of _ ?s4]) simp
qed

section \<open>A healthy fjall store\<close>

text \<open>Every command of the two halves is answered, and no blocking task fails.\<close>

definition fj_healthy :: "'c fjall_conn \<Rightarrow> ('c \<Rightarrow> bool) \<Rightarrow> bool" where
  "fj_healthy conn good \<longleftrightarrow> (\<forall>c. good c \<longrightarrow> fj_join conn c = None \<and>
     (\<forall>k. \<exists>b c'. fj_contains conn k c = (Ok b, c') \<and> good c') \<and>
     (\<forall>k v. \<exists>c'. fj_insert conn k v c = (Ok (), c') \<and> good c') \<and>
     (\<forall>k. \<exists>c'. fj_remove conn k c = (Ok (), c') \<and> good c'))"

lemma fj_healthyE:
  assumes "fj_healthy conn good" "good c"
  shows "fj_join conn c = None" "\<exists>b c'. fj_contains conn k c = (Ok b, c') \<and> good c'"
    "\<exists>c'. fj_insert conn k v c = (Ok (), c') \<and> good c'" "\<exists>c'. fj_remove conn k c = (Ok (), c') \<and> good c'"
  using assms unfolding fj_healthy_def by blast+

lemma fjall_check_passes:
  assumes "fjall_laws conn st" "fj_healthy conn good" "good c" "fjall_inv sj st c"
    and "cmd = CCreate r \<and> serialize_record sj r = Ok v \<and> fjall_view sj st c (rec_sk r) = None \<and> p = KvPut (rec_sk r) v \<or>
         cmd = CUpdate r \<and> serialize_record sj r = Ok v \<and> fjall_view sj st c (rec_sk r) \<noteq> None \<and> p = KvPut (rec_sk r) v \<or>
         cmd = CDelete q \<and> fjall_view sj st c (query_sk q) \<noteq> None \<and> p = KvRemove (query_sk q)"
  shows "\<exists>c1. fjall_first sj conn cmd c = (Inr p, c1) \<and> good c1 \<and> fjall_inv sj st c1 \<and>
    fjall_view sj st c1 = fjall_view sj st c"
proof -
  have "\<exists>b c1. fj_contains conn (sk k) c = (Ok b, c1) \<and> good c1 \<and> fjall_inv sj st c1 \<and>
      fjall_view sj st c1 = fjall_view sj st c \<and> (b \<longleftrightarrow> fjall_view sj st c (sk k) \<noteq> None)" for k
  proof -
    obtain b c1 where b: "fj_contains conn (sk k) c = (Ok b, c1)" "good c1"
      using fj_healthyE(2) [OF assms(2,3)] by blast
    from fjall_contains_view [OF assms(1,4) b(1)] b show ?thesis by blast
  qed
  from this [of "key_from_record r", folded rec_sk_def] this [of "key_from_query q", folded query_sk_def]
  obtain b c1 b' c1' where
    r: "fj_contains conn (rec_sk r) c = (Ok b, c1)" "good c1" "fjall_inv sj st c1"
      "fjall_view sj st c1 = fjall_view sj st c" "b \<longleftrightarrow> fjall_view sj st c (rec_sk r) \<noteq> None" and
    q: "fj_contains conn (query_sk q) c = (Ok b', c1')" "good c1'" "fjall_inv sj st c1'"
      "fjall_view sj st c1' = fjall_view sj st c" "b' \<longleftrightarrow> fjall_view sj st c (query_sk q) \<noteq> None"
    by blast
  from assms(5) show ?thesis
    by (elim disjE conjE) (simp_all add: r q)
qed

lemma fjall_put_done:
  assumes "fjall_laws conn st" "serde_laws sj" "fj_healthy conn good" "good c" "fjall_inv sj st c"
    and "serialize_record sj r = Ok v"
  shows "\<exists>c1. fjall_second conn (KvPut (rec_sk r) v) c = (ODone, c1) \<and> good c1 \<and> fjall_inv sj st c1 \<and>
    fjall_view sj st c1 = (fjall_view sj st c)(rec_sk r \<mapsto> r)"
proof -
  obtain c1 where c1: "fj_insert conn (rec_sk r) v c = (Ok (), c1)" "good c1"
    using fj_healthyE(3) [OF assms(3,4)] by blast
  then show ?thesis using fj_healthyE(1) [OF assms(3) c1(2)] fjall_insert_view [OF assms(1,2,5,6) c1(1)]
    by (auto simp: fjall_answer_def)
qed

lemma fjall_remove_done:
  assumes "fjall_laws conn st" "fj_healthy conn good" "good c" "fjall_inv sj st c"
  shows "\<exists>c1. fjall_second conn (KvRemove (query_sk q)) c = (ODone, c1) \<and> good c1 \<and> fjall_inv sj st c1 \<and>
    fjall_view sj st c1 = (fjall_view sj st c)(query_sk q := None)"
proof -
  obtain c1 where c1: "fj_remove conn (query_sk q) c = (Ok (), c1)" "good c1"
    using fj_healthyE(4) [OF assms(2,3)] by blast
  have "st c1 = (st c)(query_sk q := None)" using fj_remove_law [OF assms(1) c1(1)] by simp
  then have "fjall_inv sj st c1" "fjall_view sj st c1 = (fjall_view sj st c)(query_sk q := None)"
    using assms(4) kv_inv_del kv_view_del by (auto simp: fjall_inv_def fjall_view_def query_sk_def)
  then show ?thesis using fj_healthyE(1) [OF assms(2) c1(2)] c1 by (auto simp: fjall_answer_def)
qed

end
