(* ===== verification/Csv_Concurrent.thy ===== *)
theory Csv_Concurrent
  imports Csv_Store
begin

text \<open>
  Requests that interleave on the CSV backend.  A create, an update or a delete changes the map
  under the write lock, releases it, takes a snapshot of the map, writes the file, and reads its new
  modification time back; the sync task reads, parses and replaces in steps of its own.  The steps
  are functions, composed they are the operations of \<open>Csv_Store\<close> (\<open>csv_acts\<close>, \<open>sync_acts\<close>); the pool
  interleaves them with the sync task, with edits of the file by somebody else and with the clock.
\<close>

section \<open>The steps of an operation\<close>

datatype csv_phase =
    Cv_Queued
  | Cv_Applied
  | Cv_Text string
  | Cv_Saved
  | Cv_Measured nat
  | Cv_Answered repo_out

definition csv_failed :: "string \<Rightarrow> string \<Rightarrow> csv_phase" where
  "csv_failed what m = Cv_Answered (OFailed (QueryFailed (what @ m)))"

text \<open>What happens under the lock: the whole of a read, the change of the map of a write.\<close>

fun csv_apply :: "csv_ext \<Rightarrow> repo_cmd \<Rightarrow> csv_storage \<Rightarrow> csv_phase \<times> csv_storage" where
  "csv_apply x (CCreate r) s =
     (if hm_contains (cs_records s) (key_from_record r)
      then (Cv_Answered (OFailed (RecordAlreadyExists (''Record already exists: '' @ trust_record_str r))), s)
      else (Cv_Applied, s\<lparr>cs_records := AList.update (key_from_record r) r (cs_records s)\<rparr>))"
| "csv_apply x (CUpdate r) s =
     (if \<not> hm_contains (cs_records s) (key_from_record r)
      then (Cv_Answered (OFailed (RecordNotFound (''Record not found: '' @ trust_record_str r))), s)
      else (Cv_Applied, s\<lparr>cs_records := AList.update (key_from_record r) r (cs_records s)\<rparr>))"
| "csv_apply x (CDelete q) s =
     (if \<not> hm_contains (cs_records s) (key_from_query q)
      then (Cv_Answered (OFailed (RecordNotFound (''Record not found: '' @ sk (key_from_query q)))), s)
      else (Cv_Applied, s\<lparr>cs_records := AList.delete (key_from_query q) (cs_records s)\<rparr>))"
| "csv_apply x cmd s = (case exec_cmd (csv_repo x) cmd s of (out, s1) \<Rightarrow> (Cv_Answered out, s1))"

fun csv_act :: "csv_ext \<Rightarrow> repo_cmd \<Rightarrow> csv_phase \<Rightarrow> csv_storage \<Rightarrow> csv_phase \<times> csv_storage" where
  "csv_act x cmd Cv_Queued s = csv_apply x cmd s"
| "csv_act x cmd Cv_Applied s =
     (case csv_print x (map (csv_from_record x) (hm_values (cs_records s))) of
        Err m \<Rightarrow> (Cv_Answered (OFailed (SerializationFailed m)), s)
      | Ok csv_data \<Rightarrow> (Cv_Text csv_data, s))"
| "csv_act x cmd (Cv_Text csv_data) s =
     (case fs_write csv_data (cs_env s) of
        (Err m, e) \<Rightarrow> (csv_failed ''Failed to write CSV file: '' m, s\<lparr>cs_env := e\<rparr>)
      | (Ok _, e) \<Rightarrow> (Cv_Saved, s\<lparr>cs_env := e\<rparr>))"
| "csv_act x cmd Cv_Saved s =
     (case fs_metadata (cs_env s) of
        (Err m, e1) \<Rightarrow> (csv_failed ''Failed to get file metadata: '' m, s\<lparr>cs_env := e1\<rparr>)
      | (Ok md, e1) \<Rightarrow>
          (case fs_modified md e1 of
             (Err m, e2) \<Rightarrow> (csv_failed ''Failed to get modified time: '' m, s\<lparr>cs_env := e2\<rparr>)
           | (Ok modified, e2) \<Rightarrow> (Cv_Measured modified, s\<lparr>cs_env := e2\<rparr>)))"
| "csv_act x cmd (Cv_Measured modified) s = (Cv_Answered ODone, s\<lparr>cs_last_modified := Some modified\<rparr>)"
| "csv_act x cmd (Cv_Answered out) s = (Cv_Answered out, s)"

fun csv_round :: "csv_ext \<Rightarrow> repo_cmd \<Rightarrow> nat \<Rightarrow> csv_phase \<Rightarrow> csv_storage \<Rightarrow> csv_phase \<times> csv_storage" where
  "csv_round x cmd 0 p s = (p, s)"
| "csv_round x cmd (Suc n) p s = (case csv_act x cmd p s of (p1, s1) \<Rightarrow> csv_round x cmd n p1 s1)"

text \<open>The steps, one after the other, are the operation.\<close>

lemma csv_round_answered: "csv_round x cmd n (Cv_Answered out) s = (Cv_Answered out, s)"
  by (induction n) simp_all

lemma csv_round_saves:
  "csv_round x cmd 4 Cv_Applied s =
     (case out_of (\<lambda>_. ODone) (write_to_file x s) of (out, s1) \<Rightarrow> (Cv_Answered out, s1))"
  by (auto simp: numeral_eq_Suc write_to_file_def out_of_def Let_def csv_failed_def csv_round_answered
      split: result.splits prod.splits)

lemma csv_acts:
  "csv_round x cmd 5 Cv_Queued s =
     (case exec_cmd (csv_repo x) cmd s of (out, s1) \<Rightarrow> (Cv_Answered out, s1))"
proof -
  have "csv_round x cmd 5 Cv_Queued s = (case csv_apply x cmd s of (p, s1) \<Rightarrow> csv_round x cmd 4 p s1)"
    using csv_round.simps(2) [of x cmd 4 Cv_Queued s] by simp
  then show ?thesis
    by (cases cmd) (auto simp: csv_round_saves csv_round_answered csv_repo_def csv_create_def csv_update_def
        csv_delete_def out_of_def [of _ "(Err _, _)"] Let_def split: prod.splits)
qed

section \<open>The steps of the sync task\<close>

datatype sync_phase =
    Sy_Asleep
  | Sy_Seen "nat option"
  | Sy_Changed nat
  | Sy_Loaded "(trust_record_key, trust_record) hmap" nat
  | Sy_Replaced nat

fun sync_act :: "csv_ext \<Rightarrow> sync_phase \<Rightarrow> csv_storage \<Rightarrow> sync_phase \<times> csv_storage" where
  "sync_act x Sy_Asleep s = (Sy_Seen (cs_last_modified s), s)"
| "sync_act x (Sy_Seen last_seen) s =
     (case fs_metadata (cs_env s) of
        (Err m, e1) \<Rightarrow> (Sy_Asleep, s\<lparr>cs_env := e1\<rparr>)
      | (Ok md, e1) \<Rightarrow>
          (case fs_modified md e1 of
             (Err m, e2) \<Rightarrow> (Sy_Asleep, s\<lparr>cs_env := e2\<rparr>)
           | (Ok modified, e2) \<Rightarrow>
               (if (case last_seen of Some previous \<Rightarrow> modified \<le> previous | None \<Rightarrow> False)
                then Sy_Asleep else Sy_Changed modified, s\<lparr>cs_env := e2\<rparr>)))"
| "sync_act x (Sy_Changed modified) s =
     (case fs_read (cs_env s) of
        (Err m, e) \<Rightarrow> (Sy_Asleep, s\<lparr>cs_env := e\<rparr>)
      | (Ok contents, e) \<Rightarrow>
          (case csv_parse x (trim_str contents) of
             Err m \<Rightarrow> (Sy_Asleep, s\<lparr>cs_env := e\<rparr>)
           | Ok records \<Rightarrow> (Sy_Loaded records modified, s\<lparr>cs_env := e\<rparr>)))"
| "sync_act x (Sy_Loaded records modified) s = (Sy_Replaced modified, s\<lparr>cs_records := records\<rparr>)"
| "sync_act x (Sy_Replaced modified) s = (Sy_Asleep, s\<lparr>cs_last_modified := Some modified\<rparr>)"

text \<open>A round of the task, with nothing in between, ends asleep in the state of \<open>csv_sync\<close>.\<close>

fun sync_round :: "csv_ext \<Rightarrow> nat \<Rightarrow> sync_phase \<Rightarrow> csv_storage \<Rightarrow> csv_storage" where
  "sync_round x 0 p s = s"
| "sync_round x (Suc n) p s =
     (case sync_act x p s of (Sy_Asleep, s1) \<Rightarrow> s1 | (p1, s1) \<Rightarrow> sync_round x n p1 s1)"

lemma sync_acts: "sync_round x 5 Sy_Asleep s = csv_sync x s"
  by (auto simp: numeral_eq_Suc csv_sync_def load_if_modified_def split: result.splits prod.splits)

section \<open>The pool\<close>

record csv_pool =
  cp_store :: csv_storage
  cp_phase :: "nat \<Rightarrow> csv_phase"
  cp_sync :: sync_phase
  cp_log :: "nat list"

definition csv_start :: "csv_storage \<Rightarrow> csv_pool" where
  "csv_start s = \<lparr>cp_store = s, cp_phase = (\<lambda>i. Cv_Queued), cp_sync = Sy_Asleep, cp_log = []\<rparr>"

text \<open>The log lists the requests in the order in which they held the lock.\<close>

inductive csv_step :: "bool \<Rightarrow> csv_ext \<Rightarrow> (nat \<Rightarrow> repo_cmd) \<Rightarrow> csv_pool \<Rightarrow> csv_pool \<Rightarrow> bool"
  for reloading x W where
  Lock: "cp_phase s i = Cv_Queued \<Longrightarrow> csv_apply x (W i) (cp_store s) = (p, t) \<Longrightarrow>
    csv_step reloading x W s (s\<lparr>cp_store := t, cp_phase := (cp_phase s)(i := p), cp_log := cp_log s @ [i]\<rparr>)"
| Save: "cp_phase s i \<noteq> Cv_Queued \<Longrightarrow> csv_act x (W i) (cp_phase s i) (cp_store s) = (p, t) \<Longrightarrow>
    csv_step reloading x W s (s\<lparr>cp_store := t, cp_phase := (cp_phase s)(i := p)\<rparr>)"
| Reload: "reloading \<Longrightarrow> sync_act x (cp_sync s) (cp_store s) = (p, t) \<Longrightarrow>
    csv_step reloading x W s (s\<lparr>cp_store := t, cp_sync := p\<rparr>)"
| Edit: "fe_clock (cs_env (cp_store s)) \<le> fe_clock e \<Longrightarrow>
    csv_step reloading x W s (s\<lparr>cp_store := (cp_store s)\<lparr>cs_env := e\<rparr>\<rparr>)"

inductive csv_reach :: "bool \<Rightarrow> csv_ext \<Rightarrow> (nat \<Rightarrow> repo_cmd) \<Rightarrow> csv_pool \<Rightarrow> csv_pool \<Rightarrow> bool"
  for reloading x W s0 where
  Csv_start: "csv_reach reloading x W s0 s0"
| Csv_step: "csv_reach reloading x W s0 s \<Longrightarrow> csv_step reloading x W s t \<Longrightarrow> csv_reach reloading x W s0 t"

section \<open>What the requests see\<close>

text \<open>A request past the lock counts as done until it fails.\<close>

definition csv_outcome :: "csv_phase \<Rightarrow> repo_out" where
  "csv_outcome p = (case p of Cv_Answered out \<Rightarrow> out | _ \<Rightarrow> ODone)"

lemma csv_apply_law:
  assumes "csv_inv s" "csv_apply x cmd s = (p, t)"
  shows "csv_inv t \<and> p \<noteq> Cv_Queued \<and>
    abs_cmd False key_from_record key_from_query cmd (csv_outcome p) (csv_view s) (csv_view t)"
proof (cases "\<exists>q r. cmd \<in> {CCreate r, CUpdate r, CDelete q}")
  case True
  then show ?thesis using assms
    by (auto simp: csv_inv_def csv_view_def hm_contains_def csv_outcome_def split: if_splits)
next
  case False
  then obtain out where e: "exec_cmd (csv_repo x) cmd s = (out, t)" "p = Cv_Answered out"
    using assms(2) by (cases cmd) (auto split: prod.splits)
  then show ?thesis using csv_simulates [OF assms(1) e(1)] by (simp add: csv_outcome_def)
qed

lemma csv_act_law:
  assumes "p \<noteq> Cv_Queued" "csv_act x cmd p s = (p', t)"
  shows "cs_records t = cs_records s \<and> p' \<noteq> Cv_Queued \<and> (csv_outcome p' = csv_outcome p \<or>
    csv_outcome p = ODone \<and> (\<exists>e. csv_outcome p' = OFailed e \<and> \<not> says_exists e \<and> \<not> says_missing e))"
  using assms
  by (cases p) (auto simp: csv_outcome_def csv_failed_def split: result.splits prod.splits)

lemma abs_cmd_may_fail:
  "abs_cmd False kr kq c ODone m m' \<Longrightarrow> \<not> says_exists e \<Longrightarrow> \<not> says_missing e \<Longrightarrow>
   abs_cmd False kr kq c (OFailed e) m m'"
  by (cases c) auto

lemma abs_run_snoc:
  "abs_run atomic kr kq cs xs m m1 \<Longrightarrow> abs_cmd atomic kr kq c x m1 m2 \<Longrightarrow>
   abs_run atomic kr kq (cs @ [c]) (xs @ [x]) m m2"
  by (induction atomic kr kq cs xs m m1 rule: abs_run.induct) auto

lemma abs_run_answers:
  assumes "abs_run atomic kr kq (map W is) (map f is) m m'"
    and "\<And>i m m'. i \<in> set is \<Longrightarrow> abs_cmd atomic kr kq (W i) (f i) m m' \<Longrightarrow> abs_cmd atomic kr kq (W i) (g i) m m'"
  shows "abs_run atomic kr kq (map W is) (map g is) m m'"
  using assms by (induction "is" arbitrary: m) (simp, fastforce)

definition csv_serial :: "(nat \<Rightarrow> repo_cmd) \<Rightarrow> csv_storage \<Rightarrow> csv_pool \<Rightarrow> bool" where
  "csv_serial W s0 s \<longleftrightarrow> csv_inv (cp_store s) \<and> distinct (cp_log s) \<and>
     (\<forall>i. i \<in> set (cp_log s) \<longleftrightarrow> cp_phase s i \<noteq> Cv_Queued) \<and>
     abs_run False key_from_record key_from_query (map W (cp_log s))
       (map (\<lambda>i. csv_outcome (cp_phase s i)) (cp_log s)) (csv_view s0) (csv_view (cp_store s))"

lemma csv_serial_step:
  assumes "csv_serial W s0 s" "csv_step False x W s t"
  shows "csv_serial W s0 t"
  using assms(2)
proof cases
  case (Lock i p u)
  note s = assms(1) [unfolded csv_serial_def]
  note l = csv_apply_law [OF _ Lock(3)]
  have i: "i \<notin> set (cp_log s)" using s Lock by simp
  have m: "map (\<lambda>j. csv_outcome (((cp_phase s)(i := p)) j)) (cp_log s) =
      map (\<lambda>j. csv_outcome (cp_phase s j)) (cp_log s)"
    using i by auto
  have "abs_run False key_from_record key_from_query (map W (cp_log s) @ [W i])
      (map (\<lambda>j. csv_outcome (((cp_phase s)(i := p)) j)) (cp_log s) @ [csv_outcome p]) (csv_view s0) (csv_view u)"
    unfolding m by (rule abs_run_snoc) (use s l in auto)
  then show ?thesis using s i Lock(1) l by (simp add: csv_serial_def)
next
  case (Save i p u)
  note s = assms(1) [unfolded csv_serial_def]
  note l = csv_act_law [OF Save(2,3)]
  have v: "csv_view u = csv_view (cp_store s)" "csv_inv u = csv_inv (cp_store s)"
    using l by (simp_all add: csv_view_def csv_inv_def)
  have "abs_run False key_from_record key_from_query (map W (cp_log s))
      (map (\<lambda>j. csv_outcome (((cp_phase s)(i := p)) j)) (cp_log s)) (csv_view s0) (csv_view (cp_store s))"
    by (rule abs_run_answers [where f = "\<lambda>j. csv_outcome (cp_phase s j)"])
      (use s l in \<open>auto intro: abs_cmd_may_fail split: if_splits\<close>)
  then show ?thesis using s Save(1,2) l v by (simp add: csv_serial_def)
next
  case (Edit e)
  then show ?thesis using assms(1) by (simp add: csv_serial_def csv_inv_def csv_view_def)
qed simp

lemma csv_serialises:
  assumes "csv_inv s0" "csv_reach False x W (csv_start s0) s"
  shows "csv_serial W s0 s"
  using assms(2)
proof (induction rule: csv_reach.induct)
  case Csv_start
  then show ?case using assms(1) by (simp add: csv_serial_def csv_start_def)
qed (rule csv_serial_step)

section \<open>Building runs\<close>

lemma reach_lock:
  assumes "csv_reach b x W p0 \<lparr>cp_store = s, cp_phase = f, cp_sync = y, cp_log = l\<rparr>"
    and "f i = Cv_Queued" "csv_apply x (W i) s = (p, t)"
  shows "csv_reach b x W p0 \<lparr>cp_store = t, cp_phase = f(i := p), cp_sync = y, cp_log = l @ [i]\<rparr>"
  using csv_reach.Csv_step [OF assms(1) csv_step.Lock [of _ i x W p t b]] assms(2,3) by simp

lemma reach_save:
  assumes "csv_reach b x W p0 \<lparr>cp_store = s, cp_phase = f, cp_sync = y, cp_log = l\<rparr>"
    and "f i \<noteq> Cv_Queued" "csv_act x (W i) (f i) s = (p, t)"
  shows "csv_reach b x W p0 \<lparr>cp_store = t, cp_phase = f(i := p), cp_sync = y, cp_log = l\<rparr>"
  using csv_reach.Csv_step [OF assms(1) csv_step.Save [of _ i x W p t b]] assms(2,3) by simp

lemma reach_reload:
  assumes "csv_reach True x W p0 \<lparr>cp_store = s, cp_phase = f, cp_sync = y, cp_log = l\<rparr>"
    and "sync_act x y s = (z, t)"
  shows "csv_reach True x W p0 \<lparr>cp_store = t, cp_phase = f, cp_sync = z, cp_log = l\<rparr>"
  using csv_reach.Csv_step [OF assms(1) csv_step.Reload [of True x _ z t W]] assms(2) by simp

text \<open>A request that has its snapshot and finds the file writable.\<close>

definition saved :: "string \<Rightarrow> csv_storage \<Rightarrow> csv_storage" where
  "saved d s = s\<lparr>cs_last_modified := Some (fe_clock (cs_env s)),
     cs_env := (cs_env s)\<lparr>fe_file := Some (d, fe_clock (cs_env s))\<rparr>\<rparr>"

lemma reach_saved:
  assumes "csv_reach b x W p0 \<lparr>cp_store = s, cp_phase = f, cp_sync = y, cp_log = l\<rparr>"
    and "f i = Cv_Text d" "fe_script (cs_env s) = []"
  shows "csv_reach b x W p0 \<lparr>cp_store = saved d s, cp_phase = f(i := Cv_Answered ODone), cp_sync = y, cp_log = l\<rparr>"
proof -
  let ?s1 = "s\<lparr>cs_env := (cs_env s)\<lparr>fe_file := Some (d, fe_clock (cs_env s))\<rparr>\<rparr>"
  let ?f1 = "f(i := Cv_Saved)" and ?f2 = "f(i := Cv_Measured (fe_clock (cs_env s)))"
  have a1: "f i \<noteq> Cv_Queued" "csv_act x (W i) (f i) s = (Cv_Saved, ?s1)" using assms(2,3) by (simp_all add: fs_defs)
  note r1 = reach_save [OF assms(1) a1]
  have a2: "?f1 i \<noteq> Cv_Queued" "csv_act x (W i) (?f1 i) ?s1 = (Cv_Measured (fe_clock (cs_env s)), ?s1)"
    using assms(3) by (simp_all add: fs_defs)
  note r2 = reach_save [OF r1 a2, unfolded fun_upd_upd]
  have a3: "?f2 i \<noteq> Cv_Queued" "csv_act x (W i) (?f2 i) ?s1 = (Cv_Answered ODone, saved d s)"
    by (simp_all add: saved_def)
  from reach_save [OF r2 a3, unfolded fun_upd_upd] show ?thesis .
qed

end
