(* ===== verification/Request_Properties.thy ===== *)
theory Request_Properties
  imports Store_Concurrent Csv_Concurrent Samples
begin

text \<open>
  Concurrent requests on one backend: what the write guard of the Redis connection gives, what its
  absence in the fjall adapter costs, and the CSV backend, whose map is guarded and whose file is not.
\<close>

text \<open>C12: However the requests of one process interleave on Redis, where an operation keeps the write
  guard of the connection until it returns, the answers and the records are those of the same
  requests one after the other in the order of their last command, an answered request stays before
  every one that had not started, and of the creates of a key nobody deletes one succeeds at most.\<close>

theorem redis_requests_serialise:
  assumes "redis_laws conn sp" "serde_laws sj" "redis_inv sj sp c"
    and "request_reach True (redis_first sj conn) (redis_second conn) W (store_start c) s" "sp_lock s = None"
  shows "redis_inv sj sp (sp_conn s) \<and>
    serial_order W (redis_view sj sp c) (redis_view sj sp (sp_conn s)) s (sp_log s) \<and>
    (\<forall>t. request_reach True (redis_first sj conn) (redis_second conn) W s t \<longrightarrow>
       (\<exists>later. sp_log t = sp_log s @ later)) \<and>
    (\<forall>i j r r'. W i = CCreate r \<and> W j = CCreate r' \<and> rec_sk r' = rec_sk r \<and>
       (\<forall>l \<in> set (sp_log s). \<forall>q. W l = CDelete q \<longrightarrow> query_sk q \<noteq> rec_sk r) \<and>
       sp_phase s i = Rq_Answered ODone \<and> sp_phase s j = Rq_Answered ODone \<longrightarrow> i = j)"
proof (intro conjI allI impI)
  note o = redis_serial [OF assms]
  show "redis_inv sj sp (sp_conn s)" using o by simp
  show "serial_order W (redis_view sj sp c) (redis_view sj sp (sp_conn s)) s (sp_log s)" using o by simp
  fix t
  assume "request_reach True (redis_first sj conn) (redis_second conn) W s t"
  then show "\<exists>later. sp_log t = sp_log s @ later" by (rule request_log_grows)
next
  fix i j r r'
  assume a: "W i = CCreate r \<and> W j = CCreate r' \<and> rec_sk r' = rec_sk r \<and>
       (\<forall>l \<in> set (sp_log s). \<forall>q. W l = CDelete q \<longrightarrow> query_sk q \<noteq> rec_sk r) \<and>
       sp_phase s i = Rq_Answered ODone \<and> sp_phase s j = Rq_Answered ODone"
  show "i = j"
    using serial_one_create [OF conjunct2 [OF redis_serial [OF assms]], of i r j r'] a by blast
qed

definition race_sample :: "nat \<Rightarrow> repo_cmd" where
  "race_sample i = CCreate sample_record"

theorem redis_requests_serialise_witness:
  "\<exists>s. request_reach True (redis_first unary_serde mem_redis) (redis_second mem_redis) race_sample
      (store_start (mem_fresh [])) s \<and>
    sp_phase s 0 = Rq_Answered ODone \<and> sp_phase s 1 \<noteq> Rq_Answered ODone \<and>
    redis_inv unary_serde mem_spec (sp_conn s)"
proof -
  let ?s0 = "store_start (mem_fresh []) :: (mem_kv, string \<times> string) store_pool"
  let ?F = "redis_first unary_serde mem_redis" and ?S = "redis_second mem_redis"
  define c1 where "c1 = snd (?F (race_sample 0) (mem_fresh []))"
  define p where "p = projr (fst (?F (race_sample 0) (mem_fresh [])))"
  define c2 where "c2 = snd (?S p c1)"
  define out where "out = projl (fst (?F (race_sample 1) c2))"
  note defs = race_sample_def mem_redis_def mk_next_def mk_reply_def mk_apply_def mem_fresh_def
    serialize_record_def unary_serde_def
  have f0: "?F (race_sample 0) (mem_fresh []) = (Inr p, c1)" by (simp add: defs c1_def p_def)
  have s0: "?S p c1 = (ODone, c2)" by (simp add: defs c1_def p_def c2_def)
  have f1: "?F (race_sample 1) c2 = (Inl out, c2) \<and> out \<noteq> ODone"
    by (simp add: defs c1_def p_def c2_def out_def)
  let ?s1 = "?s0\<lparr>sp_conn := c1, sp_lock := Some 0, sp_phase := (\<lambda>i. Rq_Queued)(0 := Rq_Checked p)\<rparr>"
  let ?s2 = "?s1\<lparr>sp_conn := c2, sp_lock := None, sp_phase := (\<lambda>i. Rq_Queued)(0 := Rq_Answered ODone), sp_log := [0]\<rparr>"
  let ?s3 = "?s2\<lparr>sp_phase := (\<lambda>i. Rq_Queued)(0 := Rq_Answered ODone, 1 := Rq_Answered out), sp_log := [0, 1]\<rparr>"
  have "request_step True ?F ?S race_sample ?s0 ?s1"
    using request_step.Check [of ?s0 0 True ?F race_sample p c1 ?S] f0 by (simp add: store_start_def)
  moreover have "request_step True ?F ?S race_sample ?s1 ?s2"
    using request_step.Write [of ?s1 0 p ?S ODone c2 True ?F race_sample] s0 by (simp add: store_start_def)
  moreover have "request_step True ?F ?S race_sample ?s2 ?s3"
    using request_step.At_Once [of ?s2 1 True ?F race_sample out c2 ?S] f1 by (simp add: store_start_def)
  ultimately have r: "request_reach True ?F ?S race_sample ?s0 ?s3" by (meson request_reach.intros)
  have l: "sp_lock ?s3 = None" by simp
  from redis_requests_serialise [OF mem_redis_laws unary_serde_laws mem_fresh_inv(1) r l]
  show ?thesis using r f1 by (intro exI [of _ ?s3]) simp
qed

text \<open>C36: On a healthy fjall store two concurrent creates of one key can both be answered with success,
  the second overwriting the first, and an update beside a delete can bring the deleted record back
  although both succeed: no order of the two requests gives these answers and this state.\<close>

theorem fjall_requests_race:
  assumes "fjall_laws conn st" "serde_laws sj" "fj_healthy conn good" "good c" "fjall_inv sj st c"
    and "serialize_record sj r = Ok v" "serialize_record sj r' = Ok v'" "rec_sk r' = rec_sk r"
    and "W = (if fjall_view sj st c (rec_sk r) = None then (\<lambda>i. CCreate (if i = 0 then r else r'))
              else (\<lambda>i. if i = 0 then CDelete (query_of_record r) else CUpdate r'))"
  shows "\<exists>s. request_reach False (fjall_first sj conn) (fjall_second conn) W (store_start c) s \<and>
    sp_phase s 0 = Rq_Answered ODone \<and> sp_phase s 1 = Rq_Answered ODone \<and>
    fjall_view sj st (sp_conn s) = (fjall_view sj st c)(rec_sk r \<mapsto> r') \<and>
    (\<forall>order. \<not> serial_order W (fjall_view sj st c) (fjall_view sj st (sp_conn s)) s order)"
proof -
  let ?k = "rec_sk r" and ?m = "fjall_view sj st c"
  let ?F = "fjall_first sj conn" and ?S = "fjall_second conn"
  note check = fjall_check_passes [OF assms(1,3)] and put = fjall_put_done [OF assms(1-3)]
  have "\<exists>p q c1 c2 c3 c4. ?F (W 0) c = (Inr p, c1) \<and> ?F (W 1) c1 = (Inr q, c2) \<and>
      ?S p c2 = (ODone, c3) \<and> ?S q c3 = (ODone, c4) \<and> fjall_view sj st c4 = ?m(?k \<mapsto> r')"
  proof (cases "?m ?k = None")
    case True
    obtain c1 where c1: "?F (CCreate r) c = (Inr (KvPut ?k v), c1)" "good c1" "fjall_inv sj st c1"
      "fjall_view sj st c1 = ?m"
      using check [of c sj "CCreate r" r v] assms(4-6) True by blast
    obtain c2 where c2: "?F (CCreate r') c1 = (Inr (KvPut ?k v'), c2)" "good c2" "fjall_inv sj st c2"
      "fjall_view sj st c2 = ?m"
      using check [of c1 sj "CCreate r'" r' v'] c1 assms(7,8) True by metis
    obtain c3 where c3: "?S (KvPut ?k v) c2 = (ODone, c3)" "good c3" "fjall_inv sj st c3"
      "fjall_view sj st c3 = ?m(?k \<mapsto> r)"
      using put [OF c2(2,3) assms(6)] c2(4) by auto
    obtain c4 where "?S (KvPut ?k v') c3 = (ODone, c4)" "fjall_view sj st c4 = ?m(?k \<mapsto> r')"
      using put [OF c3(2,3) assms(7)] c3(4) assms(8) by auto
    then show ?thesis using c1(1) c2(1) c3(1) True assms(9) by auto
  next
    case False
    obtain c1 where c1: "?F (CDelete (query_of_record r)) c = (Inr (KvRemove ?k), c1)" "good c1"
      "fjall_inv sj st c1" "fjall_view sj st c1 = ?m"
      using check [of c sj "CDelete (query_of_record r)" r v _ "query_of_record r"] assms(4,5) False
      by (metis query_sk_of_record)
    obtain c2 where c2: "?F (CUpdate r') c1 = (Inr (KvPut ?k v'), c2)" "good c2" "fjall_inv sj st c2"
      "fjall_view sj st c2 = ?m"
      using check [of c1 sj "CUpdate r'" r' v'] c1 assms(7,8) False by metis
    obtain c3 where c3: "?S (KvRemove ?k) c2 = (ODone, c3)" "good c3" "fjall_inv sj st c3"
      "fjall_view sj st c3 = ?m(?k := None)"
      using fjall_remove_done [OF assms(1,3) c2(2,3), of "query_of_record r"] c2(4) by auto
    obtain c4 where "?S (KvPut ?k v') c3 = (ODone, c4)" "fjall_view sj st c4 = ?m(?k \<mapsto> r')"
      using put [OF c3(2,3) assms(7)] c3(4) assms(8) by auto
    then show ?thesis using c1(1) c2(1) c3(1) False assms(9) by auto
  qed
  then obtain s where s: "request_reach False ?F ?S W (store_start c) s"
    "sp_phase s = (\<lambda>i. Rq_Queued)(0 := Rq_Answered ODone, 1 := Rq_Answered ODone)"
    "fjall_view sj st (sp_conn s) = ?m(?k \<mapsto> r')"
    using unlocked_race [of ?F W c _ _ _ _ ?S ODone _ ODone] by blast
  have "\<not> serial_order W ?m (?m(?k \<mapsto> r')) s order" for order
  proof
    assume o: "serial_order W ?m (?m(?k \<mapsto> r')) s order"
    then have "order = [0, 1] \<or> order = [1, 0]"
      by (intro two_orders) (simp_all add: serial_order_def s(2))
    moreover have "abs_run False rec_sk query_sk (map W order) (map (\<lambda>i. ODone) order) ?m (?m(?k \<mapsto> r'))"
    proof -
      have "map (\<lambda>i. the (answer_of (sp_phase s i))) order = map (\<lambda>i. ODone) order"
        using calculation by (auto simp: s(2))
      from o [unfolded serial_order_def, unfolded this] show ?thesis by blast
    qed
    moreover have "?m(?k \<mapsto> r') \<noteq> ?m(?k := None)" by (metis fun_upd_same option.distinct(1))
    ultimately show False using assms(8) unfolding assms(9) by (auto split: if_splits)
  qed
  with s show ?thesis by (intro exI [of _ s]) simp
qed

theorem fjall_requests_race_witness:
  "\<exists>s. request_reach False (fjall_first unary_serde mem_fjall) (fjall_second mem_fjall) race_sample
      (store_start (mem_fresh [])) s \<and>
    sp_phase s 0 = Rq_Answered ODone \<and> sp_phase s 1 = Rq_Answered ODone"
proof -
  define v where "v = unary_enc (record_to_json sample_record)"
  have v: "serialize_record unary_serde sample_record = Ok v"
    by (simp add: serialize_record_def unary_serde_def v_def)
  have h: "fj_healthy mem_fjall (\<lambda>c. mk_script c = [])"
    by (simp add: fj_healthy_def mem_fjall_def mem_redis_def mk_next_def mk_reply_def mk_apply_def)
  have "fjall_view unary_serde (rs_store mem_spec) (mem_fresh []) (rec_sk sample_record) = None"
    by (simp add: fjall_view_def kv_view_def mem_spec_def mem_fresh_def)
  then have W: "race_sample = (if fjall_view unary_serde (rs_store mem_spec) (mem_fresh []) (rec_sk sample_record) = None
      then (\<lambda>i. CCreate (if i = 0 then sample_record else sample_record))
      else (\<lambda>i. if i = 0 then CDelete (query_of_record sample_record) else CUpdate sample_record))"
    by (simp add: race_sample_def fun_eq_iff)
  have g: "mk_script (mem_fresh []) = []" by (simp add: mem_fresh_def)
  from fjall_requests_race [OF mem_fjall_laws unary_serde_laws h g mem_fresh_inv(2) v v refl W]
  show ?thesis by blast
qed

section \<open>The CSV file\<close>

text \<open>C13: However requests interleave on the CSV backend, with files that fail or are edited by others and
  a clock that runs, as long as the sync task does not reload the file: the answers and the records
  in memory are those of the requests one after the other in the order in which they held the lock,
  a request that has passed the lock counting as done until it fails.\<close>

theorem csv_requests_serialise:
  assumes "csv_inv s" "csv_reach False x W (csv_start s) p"
  shows "csv_inv (cp_store p) \<and> distinct (cp_log p) \<and>
    (\<forall>i. i \<in> set (cp_log p) \<longleftrightarrow> cp_phase p i \<noteq> Cv_Queued) \<and>
    abs_run False key_from_record key_from_query (map W (cp_log p))
      (map (\<lambda>i. csv_outcome (cp_phase p i)) (cp_log p)) (csv_view s) (csv_view (cp_store p))"
  using csv_serialises [OF assms] by (simp add: csv_serial_def)

theorem csv_requests_serialise_witness:
  "\<exists>p. csv_reach False unary_csv race_sample (csv_start (csv_fresh [])) p \<and> cp_log p = [0] \<and>
    cp_phase p 0 = Cv_Applied \<and> csv_inv (cp_store p)"
proof -
  define t where "t = snd (csv_apply unary_csv (race_sample 0) (csv_fresh []))"
  have "csv_apply unary_csv (race_sample 0) (csv_fresh []) = (Cv_Applied, t)"
    by (simp add: t_def race_sample_def csv_fresh_def hm_contains_def)
  from reach_lock [OF csv_reach.Csv_start [of False unary_csv race_sample "csv_start (csv_fresh [])", unfolded csv_start_def]
      _ this]
  have r: "csv_reach False unary_csv race_sample (csv_start (csv_fresh []))
      \<lparr>cp_store = t, cp_phase = (\<lambda>i. Cv_Queued)(0 := Cv_Applied), cp_sync = Sy_Asleep, cp_log = [0]\<rparr>"
    by (simp add: csv_start_def)
  from csv_requests_serialise [OF csv_fresh_inv(1) r] show ?thesis using r
    by (intro exI [of _ "\<lparr>cp_store = t, cp_phase = (\<lambda>i. Cv_Queued)(0 := Cv_Applied), cp_sync = Sy_Asleep, cp_log = [0]\<rparr>"]) simp
qed

text \<open>C15: Two concurrent creates of different keys can both be answered with success on the CSV backend
  while the file ends up without the second record: the writes of the file are not ordered like the
  changes of the map, and a restart no longer knows a record whose creation was acknowledged.\<close>

theorem csv_concurrent_create_lost:
  assumes "codec_laws x" "csv_text_law x" "csv_inv s" "\<forall>r \<in> ran (csv_view s). plain_fields r" "plain_fields r1"
    and "\<And>rows. \<exists>c. csv_print x rows = Ok c" "fe_script (cs_env s) = []"
    and "csv_view s (key_from_record r1) = None" "csv_view s (key_from_record r2) = None"
    and "key_from_record r1 \<noteq> key_from_record r2" "W = (\<lambda>i. CCreate (if i = 0 then r1 else r2))"
  shows "\<exists>p n. csv_reach False x W (csv_start s) p \<and>
    cp_phase p 0 = Cv_Answered ODone \<and> cp_phase p 1 = Cv_Answered ODone \<and>
    csv_view (cp_store p) (key_from_record r2) = Some r2 \<and>
    csv_try_new x (cs_env (cp_store p)) = Ok n \<and> csv_view n (key_from_record r1) = Some (csv_normal r1) \<and>
    csv_view n (key_from_record r2) = None"
proof -
  let ?k1 = "key_from_record r1" and ?k2 = "key_from_record r2"
  define m1 where "m1 = AList.update ?k1 r1 (cs_records s)"
  define m2 where "m2 = AList.update ?k2 r2 m1"
  have m1: "map_inv m1" "map_of m1 = (csv_view s)(?k1 \<mapsto> r1)" "\<forall>r \<in> ran (map_of m1). plain_fields r"
    using assms(3-5,8) by (simp_all add: m1_def csv_inv_def csv_view_def ran_map_upd)
  obtain d1 where d1: "csv_print x (map (csv_from_record x) (hm_values m1)) = Ok d1" using assms(6) by blast
  obtain d2 where d2: "csv_print x (map (csv_from_record x) (hm_values m2)) = Ok d2" using assms(6) by blast
  let ?s1 = "s\<lparr>cs_records := m1\<rparr>" and ?s2 = "s\<lparr>cs_records := m2\<rparr>" and ?f = "\<lambda>i :: nat. Cv_Queued"
  have r0: "csv_reach False x W (csv_start s) \<lparr>cp_store = s, cp_phase = ?f, cp_sync = Sy_Asleep, cp_log = []\<rparr>"
    using csv_reach.Csv_start [of False x W "csv_start s"] by (simp add: csv_start_def)
  have "csv_apply x (W 0) s = (Cv_Applied, ?s1)"
    using assms(8) by (simp add: assms(11) hm_contains_def csv_view_def m1_def)
  note r1 = reach_lock [OF r0 refl this]
  have a1: "(?f(0 := Cv_Applied)) 0 \<noteq> Cv_Queued" "csv_act x (W 0) ((?f(0 := Cv_Applied)) 0) ?s1 = (Cv_Text d1, ?s1)"
    using d1 by simp_all
  note r2 = reach_save [OF r1 a1, unfolded fun_upd_upd]
  have a2: "(?f(0 := Cv_Text d1)) 1 = Cv_Queued" "csv_apply x (W 1) ?s1 = (Cv_Applied, ?s2)"
    using assms(9,10) by (simp_all add: assms(11) hm_contains_def csv_view_def m1_def m2_def)
  note r3 = reach_lock [OF r2 a2]
  have a3: "(?f(0 := Cv_Text d1, 1 := Cv_Applied)) 1 \<noteq> Cv_Queued"
    "csv_act x (W 1) ((?f(0 := Cv_Text d1, 1 := Cv_Applied)) 1) ?s2 = (Cv_Text d2, ?s2)"
    using d2 by simp_all
  note r4 = reach_save [OF r3 a3, unfolded fun_upd_upd]
  have r5: "csv_reach False x W (csv_start s) \<lparr>cp_store = saved d2 ?s2,
      cp_phase = ?f(0 := Cv_Text d1, 1 := Cv_Answered ODone), cp_sync = Sy_Asleep, cp_log = [] @ [0] @ [1]\<rparr>"
    using reach_saved [OF r4, of 1 d2, unfolded fun_upd_upd] assms(7) by simp
  have a6: "(?f(0 := Cv_Text d1, 1 := Cv_Answered ODone)) 0 = Cv_Text d1" "fe_script (cs_env (saved d2 ?s2)) = []"
    using assms(7) by (simp_all add: saved_def)
  note r6 = reach_saved [OF r5 a6]
  let ?t = "saved d1 (saved d2 ?s2)"
  have "\<forall>r \<in> set (hm_values m1). plain_fields r" using m1(1,3) by (simp add: store_laws)
  then obtain m where m: "csv_parse x (trim_str d1) = Ok m" "map_of m = map_option csv_normal \<circ> map_of m1"
    using csv_parse_written [OF assms(1,2) m1(1) _ d1] by blast
  have "fe_file (cs_env ?t) = Some (d1, fe_clock (cs_env s))" "fe_script (cs_env ?t) = []"
    using assms(7) by (simp_all add: saved_def)
  note ld = load_fresh [OF this m(1)]
  have n: "csv_try_new x (cs_env ?t) = Ok \<lparr>cs_records = m, cs_last_modified = Some (fe_clock (cs_env s)), cs_env = cs_env ?t\<rparr>"
    by (simp add: csv_try_new_def ld)
  have v: "csv_view ?t ?k2 = Some r2" by (simp add: csv_view_def saved_def m2_def)
  have e: "map_of m ?k1 = Some (csv_normal r1)" "map_of m ?k2 = None"
    using assms(9,10) by (simp_all add: m(2) m1(2))
  show ?thesis by (intro exI conjI, rule r6) (simp_all add: n v, simp_all add: csv_view_def e)
qed

definition other_record :: trust_record where
  "other_record = sample_record\<lparr>tr_entity := EntityId ''did:other''\<rparr>"

definition no_rows :: string where
  "no_rows = unary_enc (map row_tuple [])"

definition csv_edited :: csv_storage where
  "csv_edited = \<lparr>cs_records = [], cs_last_modified = Some 3,
     cs_env = \<lparr>fe_file = Some (no_rows, 5), fe_clock = 7, fe_script = []\<rparr>\<rparr>"

theorem csv_concurrent_create_lost_witness:
  "\<exists>W p n. csv_reach False unary_csv W (csv_start (csv_fresh [])) p \<and>
    cp_phase p 0 = Cv_Answered ODone \<and> cp_phase p 1 = Cv_Answered ODone \<and>
    csv_try_new unary_csv (cs_env (cp_store p)) = Ok n \<and> csv_view n (key_from_record other_record) = None"
proof -
  have plain: "plain_fields sample_record"
    by (simp add: plain_fields_def sample_record_def trust_record_new_def trim_str_def trim_start_def is_space_def)
  have total: "\<exists>c. csv_print unary_csv rows = Ok c" for rows by (simp add: unary_csv_def)
  have "fe_script (cs_env (csv_fresh [])) = []" by (simp add: csv_fresh_def)
  moreover have "key_from_record sample_record \<noteq> key_from_record other_record"
    by (simp add: key_from_record_def other_record_def sample_record_def trust_record_new_def)
  ultimately show ?thesis
    using csv_concurrent_create_lost [OF unary_csv_laws csv_fresh_inv(1) _ plain total _ _ _ _ refl, of "[]" other_record]
    by auto
qed

text \<open>C37: A reload between the two halves of a create loses it for good: the file was edited, the sync
  task replaces the map after the record went in and before the snapshot is taken, the request
  writes the edited records back and is answered with success, and neither the memory nor the
  file has the record.\<close>

theorem csv_reload_loses_create:
  assumes "fe_file (cs_env s) = Some (c, t)" "cs_last_modified s = Some seen" "seen < t"
    and "fe_script (cs_env s) = []" "csv_parse x (trim_str c) = Ok m" "csv_print x (map (csv_from_record x) (hm_values m)) = Ok d"
    and "csv_view s (key_from_record r) = None" "map_of m (key_from_record r) = None"
  shows "\<exists>p. csv_reach True x (\<lambda>i. CCreate r) (csv_start s) p \<and> cp_phase p 0 = Cv_Answered ODone \<and>
    csv_view (cp_store p) (key_from_record r) = None \<and>
    fe_file (cs_env (cp_store p)) = Some (d, fe_clock (cs_env s)) \<and>
    cs_last_modified (cp_store p) = Some (fe_clock (cs_env s))"
proof -
  let ?W = "\<lambda>i :: nat. CCreate r" and ?f = "\<lambda>i :: nat. Cv_Queued"
  let ?s1 = "s\<lparr>cs_records := AList.update (key_from_record r) r (cs_records s)\<rparr>"
  let ?s2 = "s\<lparr>cs_records := m\<rparr>"
  let ?s3 = "?s2\<lparr>cs_last_modified := Some t\<rparr>"
  have r0: "csv_reach True x ?W (csv_start s) \<lparr>cp_store = s, cp_phase = ?f, cp_sync = Sy_Asleep, cp_log = []\<rparr>"
    using csv_reach.Csv_start [of True x ?W "csv_start s"] by (simp add: csv_start_def)
  have "csv_apply x (?W 0) s = (Cv_Applied, ?s1)" using assms(7) by (simp add: hm_contains_def csv_view_def)
  note r1 = reach_lock [OF r0 refl this]
  have y1: "sync_act x Sy_Asleep ?s1 = (Sy_Seen (Some seen), ?s1)"
    and y2: "sync_act x (Sy_Seen (Some seen)) ?s1 = (Sy_Changed t, ?s1)"
    and y3: "sync_act x (Sy_Changed t) ?s1 = (Sy_Loaded m t, ?s1)"
    and y4: "sync_act x (Sy_Loaded m t) ?s1 = (Sy_Replaced t, ?s2)"
    and y5: "sync_act x (Sy_Replaced t) ?s2 = (Sy_Asleep, ?s3)"
    using assms(1-5) by (simp_all add: fs_defs)
  note r2 = reach_reload [OF reach_reload [OF reach_reload [OF reach_reload [OF reach_reload [OF r1 y1] y2] y3] y4] y5]
  have a1: "(?f(0 := Cv_Applied)) 0 \<noteq> Cv_Queued" "csv_act x (?W 0) ((?f(0 := Cv_Applied)) 0) ?s3 = (Cv_Text d, ?s3)"
    using assms(6) by simp_all
  note r3 = reach_save [OF r2 a1, unfolded fun_upd_upd]
  have a2: "(?f(0 := Cv_Text d)) 0 = Cv_Text d" "fe_script (cs_env ?s3) = []" using assms(4) by simp_all
  note r4 = reach_saved [OF r3 a2, unfolded fun_upd_upd]
  show ?thesis
    by (intro exI conjI, rule r4) (simp_all add: saved_def csv_view_def assms(8))
qed

theorem csv_reload_loses_create_witness:
  "\<exists>p. csv_reach True unary_csv (\<lambda>i. CCreate sample_record) (csv_start csv_edited) p \<and>
    cp_phase p 0 = Cv_Answered ODone \<and> csv_view (cp_store p) (key_from_record sample_record) = None"
proof -
  have e: "fe_file (cs_env csv_edited) = Some (no_rows, 5)" "cs_last_modified csv_edited = Some 3" "(3 :: nat) < 5"
    "fe_script (cs_env csv_edited) = []" "csv_view csv_edited k = None" for k
    by (simp_all add: csv_edited_def csv_view_def)
  have p: "csv_parse unary_csv (trim_str no_rows) = Ok []"
    using unary_csv_laws(2) by (simp add: csv_text_law_def csv_parse_def unary_csv_def no_rows_def)
  have "csv_print unary_csv (map (csv_from_record unary_csv) (hm_values [])) = Ok (unary_enc (map row_tuple []))"
    by (simp add: unary_csv_def hm_values_def)
  from csv_reload_loses_create [OF e(1-4) p this e(5)] show ?thesis by auto
qed

end
