(* ===== verification/Node_Invariant.thy ===== *)
theory Node_Invariant
  imports Listener_Run
begin

text \<open>
  The invariant of a running node.  Whatever message arrives, whoever sent it and however its writes
  and the saving of its capability fail, the invariant of the backend holds and the dispatchers in
  force were composed from some capability states, so that both registry queries stay in them.
  (The states the set keeps can differ from those when a save fails.)
\<close>

definition queries_served :: "'c cap_set \<Rightarrow> bool" where
  "queries_served cs \<longleftrightarrow> git_only cs \<and> (\<exists>sts. cap_in_force sts cs)"

lemma composed_serves: "git_only cs \<Longrightarrow> cap_in_force sts cs \<Longrightarrow> queries_served cs"
  by (auto simp: queries_served_def)

lemma queries_servedD:
  assumes "queries_served cs"
  shows "map_of (cap_dispatcher cs) AUTHORIZATION = Some H_Authorization"
    "map_of (cap_dispatcher cs) RECOGNITION = Some H_Recognition"
    "map_of (cap_query_dispatcher cs) AUTHORIZATION = Some H_Authorization"
    "map_of (cap_query_dispatcher cs) RECOGNITION = Some H_Recognition"
proof -
  obtain sts where "git_only cs" "cap_in_force sts cs" using assms by (auto simp: queries_served_def)
  then have "cap_dispatcher cs = compose build_dispatcher [(''git-trust'', git_definition)] sts True"
    "cap_query_dispatcher cs = compose build_query_dispatcher [(''git-trust'', git_definition)] sts False"
    by (simp_all add: git_only_def cap_in_force_def)
  then show "map_of (cap_dispatcher cs) AUTHORIZATION = Some H_Authorization"
    "map_of (cap_dispatcher cs) RECOGNITION = Some H_Recognition"
    "map_of (cap_query_dispatcher cs) AUTHORIZATION = Some H_Authorization"
    "map_of (cap_query_dispatcher cs) RECOGNITION = Some H_Recognition"
    by (simp_all add: compose_git compose_base dispatcher_entries query_dispatcher_entries type_uris split: option.split)
qed

lemma served_fields:
  "queries_served cs \<Longrightarrow> queries_served (cs\<lparr>cap_state_map := m, cap_stored := c\<rparr>)"
  "git_only cs \<Longrightarrow> git_only (cs\<lparr>cap_state_map := m, cap_stored := c\<rparr>)"
  by (auto simp: queries_served_def git_only_def cap_in_force_def)

lemma served_rebuild: "git_only cs \<Longrightarrow> queries_served (cap_rebuild cs)"
  by (rule composed_serves [OF _ cap_rebuild_in_force]) (simp add: git_only_def)

lemma commit_serves:
  assumes "queries_served cs" "cap_commit store m cs = (res, cs')"
  shows "queries_served cs'"
proof (cases res)
  case (Ok u)
  obtain c1 where c1: "cs' = cap_rebuild (cs\<lparr>cap_state_map := m, cap_stored := c1\<rparr>)"
    using assms(2) [unfolded Ok] by (rule cap_commit_Ok)
  have "git_only cs" using assms(1) by (simp add: queries_served_def)
  then show ?thesis unfolding c1 by (intro served_rebuild served_fields(2))
next
  case (Err e)
  then show ?thesis using assms served_fields(1) by (auto elim!: cap_commit_Err)
qed

lemma enable_serves:
  "queries_served cs \<Longrightarrow> cap_enable store now cap v cfg del cs = (res, cs') \<Longrightarrow> queries_served cs'"
  by (erule cap_enable_cases) (auto dest: commit_serves)

lemma disable_serves:
  "queries_served cs \<Longrightarrow> cap_disable store cap cs = (res, cs') \<Longrightarrow> queries_served cs'"
  by (auto simp: cap_disable_def split: option.splits if_splits dest: commit_serves)

lemma run_handler_serves:
  assumes "queries_served cs" "run_handler fw repo store ce h doc (s, cs) = (out, s', cs')"
  shows "queries_served cs'"
proof (cases "reads_only h \<or> h \<notin> {H_CapEnable, H_CapDisable}")
  case True
  then have "cs' = cs" using assms(2) reads_only_caps [of h fw repo store ce doc s cs]
    by (cases h) (auto split: prod.splits)
  then show ?thesis using assms(1) by simp
next
  case False
  then have "h = H_CapEnable \<or> h = H_CapDisable" by auto
  then show ?thesis using assms
    by (auto simp: handle_enable_def handle_disable_def Let_def dest: enable_serves disable_serves
        split: prod.splits result.splits option.splits)
qed

context trust_repository
begin

lemma revoke_keeps:
  assumes "inv s" "handle_revoke fw repo authority nid doc s = (out, s')"
  shows "inv s'"
proof -
  have r: "inv t" if "repo_read repo q s = (res, t)" for q res t using read_law(1) [OF assms(1) that] .
  have u: "inv t'" if "repo_read repo q s = (res, t)" "repo_update repo x t = (res', t')" for q res t x res' t'
    using update_law(1) [OF r [OF that(1)] that(2)] .
  show ?thesis using assms
    by (auto simp: handle_revoke_def Let_def dest: r u split: prod.splits result.splits repository_error.splits)
qed

lemma run_handler_keeps:
  assumes "inv s" "run_handler fw repo store ce h doc (s, cs) = (out, s', cs')"
  shows "inv s'"
  using assms
  by (cases h)
    (auto split: prod.splits dest: recognition_law(1) [OF assms(1)] authorization_law(1) [OF assms(1)]
      create_handler_law [OF assms(1), THEN conjunct1] update_handler_law [OF assms(1), THEN conjunct1]
      delete_handler_law [OF assms(1), THEN conjunct1] read_handler_law [OF assms(1), THEN conjunct1]
      list_handler_law [OF assms(1), THEN conjunct1] grant_keeps [OF assms(1)] revoke_keeps [OF assms(1)])

lemma serve_keeps:
  assumes "inv s" "queries_served cs" "serve_document fw repo store ce disp doc (s, cs) = (out, s', cs')"
  shows "inv s' \<and> queries_served cs'"
proof (cases "dispatch_or_reject fw disp doc (ce_nid ce)")
  case (Ok h)
  then have r: "run_handler fw repo store ce h doc (s, cs) = (out, s', cs')"
    using assms(3) by (simp add: serve_document_def handle_document_def)
  show ?thesis using run_handler_keeps [OF assms(1) r] run_handler_serves [OF assms(2) r] by simp
next
  case (Err e)
  then show ?thesis using assms by (simp add: serve_document_def handle_document_def)
qed

lemma dispatch_admin_keeps:
  assumes "inv s" "queries_served cs" "dispatch_admin fw repo store ids ce t2 doc d (s, cs) = (out, d', s', cs')"
  shows "inv s' \<and> queries_served cs'"
proof -
  obtain o1 s1 cs1 where sv: "serve_document fw repo store ce (cap_dispatcher cs) doc (s, cs) = (o1, s1, cs1)"
    by (metis prod.exhaust)
  have "(s', cs') \<in> {(s, cs), (s1, cs1)}"
    using dispatch_world [of fw ids "serve_document fw repo store ce (cap_dispatcher cs)" "ce_nid ce" "ce_now ce" t2
        doc d "(s, cs)"] assms(3) sv by (simp add: dispatch_admin_def)
  then show ?thesis using serve_keeps [OF assms(1,2) sv] assms(1,2) by auto
qed

lemma task_message_keeps:
  assumes "inv s" "queries_served cs"
    and "didcomm_trust_task fw wi repo store ids dp ce t2 sender body d (s, cs) = (rep, d', s', cs')"
  shows "inv s' \<and> queries_served cs'"
  using assms
  by (auto simp: didcomm_trust_task_def dest: dispatch_admin_keeps split: result.splits if_splits prod.splits)

lemma tsp_frame_keeps:
  assumes "inv s" "queries_served cs"
    and "process_tsp_frame fw wi repo store ids dp ce t2 unpack d (s, cs) = (out, d', s', cs')"
  shows "inv s' \<and> queries_served cs'"
  using assms
  by (auto simp: process_tsp_frame_def tsp_inbound_def dest: dispatch_admin_keeps
      split: result.splits if_splits prod.splits)

lemma handle_admin_keeps:
  assumes "inv s" "handle_admin cfg repo a ctx now m s = (eff, s')"
  shows "inv s'"
  using assms admin_run_law(1) [OF assms(1)]
  by (auto simp: handle_admin_def handle_request_def Let_def split: result.splits option.splits prod.splits)

lemma base_handle_keeps:
  assumes "inv s" "queries_served cs" "nd_repo nd = repo"
    and "base_handle nd ce t2 m d (s, cs) = (res, eff, d', s', cs')"
  shows "inv s' \<and> queries_served cs'"
proof (cases "route_message nd m")
  case None
  then show ?thesis using assms by (simp add: base_handle_def Let_def)
next
  case (Some p)
  note b = assms(4) [unfolded base_handle_def Let_def handle_task_message_def assms(3)]
  show ?thesis
  proof (cases p)
    case P_Trqp
    then show ?thesis using b Some assms(2) trqp_message_law(1) [OF assms(1,3)] by (auto split: prod.splits)
  next
    case P_Admin
    then show ?thesis using b Some assms(2) by (auto split: prod.splits dest: handle_admin_keeps [OF assms(1)])
  next
    case P_Trust_Tasks
    then show ?thesis using b Some
      by (auto split: prod.splits option.splits dest: task_message_keeps [OF assms(1,2)])
  qed (use b Some assms in simp)
qed

lemma run_job_keeps:
  assumes "inv s" "queries_served cs" "nd_repo nd = repo"
    and "run_job nd ce t2 unpack j d (s, cs) = (d', s', cs')"
  shows "inv s' \<and> queries_served cs'"
proof (cases j)
  case (Handle_Didcomm m)
  obtain res eff where "base_handle nd ce t2 m d (s, cs) = (res, eff, d', s', cs')"
    using assms(4) Handle_Didcomm by (auto simp: run_job_def split: prod.splits)
  then show ?thesis by (rule base_handle_keeps [OF assms(1-3)])
next
  case (Handle_Tsp packed admins)
  obtain out where "process_tsp_frame (nd_fw nd) (nd_wire nd) repo (nd_store nd) (nd_ids nd)
      (nd_deployment nd\<lparr>dp_admins := admins\<rparr>) ce t2 (unpack packed) d (s, cs) = (out, d', s', cs')"
    using assms(3,4) Handle_Tsp by (auto simp: run_job_def split: prod.splits)
  then show ?thesis by (rule tsp_frame_keeps [OF assms(1,2)])
qed

lemma step_keeps:
  assumes "nd_repo nd = repo" "listening_step built nd unpack S gs T"
    and "inv (fst (lg_registry S))" "queries_served (snd (lg_registry S))"
  shows "inv (fst (lg_registry T)) \<and> queries_served (snd (lg_registry T))"
  using assms(2)
proof (cases rule: listening_step.cases)
  case (Task xs j ys ce t2 d w)
  then show ?thesis using run_job_keeps [OF assms(3,4,1), of ce t2 unpack j] by (cases w) simp
qed (use assms(3,4) in simp_all)

lemma run_keeps:
  assumes "nd_repo nd = repo" "inv (fst (lg_registry S0))" "queries_served (snd (lg_registry S0))"
  shows "listening_run built nd unpack S0 fs S \<Longrightarrow>
    inv (fst (lg_registry S)) \<and> queries_served (snd (lg_registry S))"
  by (induction rule: listening_run.induct) (use assms(2,3) step_keeps [OF assms(1)] in blast)+

end

end
