(* ===== verification/Client_Mediator.thy ===== *)
theory Client_Mediator
  imports Client_Link Node_Invariant
begin

text \<open>
  A client and a registry joined by a mediator, over the DIDComm binding: \<open>didcomm.rs\<close> of
  \<open>trql-client\<close> on one side, the node of \<open>Didcomm_Handlers\<close> on the other.  A system state holds the
  client's table of waiters, the messages the mediator has accepted for either side, and the node.
  The mediator may lose, repeat and reorder messages, the client may run any number of queries at
  once, and other parties, administrators among them, work on the registry in between.
\<close>

section \<open>Sending\<close>

definition send_envelope :: "atm \<Rightarrow> string \<Rightarrow> string \<Rightarrow> string \<Rightarrow> string \<Rightarrow> json \<Rightarrow> (message, trql_error) result" where
  "send_envelope a envelope_type my_did dest request_id body =
     (let envelope = \<lparr>msg_id = at_ids a 0, msg_type = envelope_type, msg_from = Some my_did,
            msg_to = [dest], msg_thid = Some request_id, msg_pthid = None, msg_body = body\<rparr>
      in case at_pack a envelope dest of
           Err e \<Rightarrow> Err (Transport Didcomm (''packing failed: '' @ e))
         | Ok packed \<Rightarrow>
             (case at_mediator a of
                None \<Rightarrow> Err (Config ''profile lost its mediator configuration'')
              | Some mediator \<Rightarrow>
                  (case at_forward a packed mediator dest of
                     Err e \<Rightarrow> Err (Transport Didcomm (''send via mediator failed: '' @ e))
                   | Ok _ \<Rightarrow> Ok envelope)))"

lemma send_envelope_Ok:
  "send_envelope a t my_did dest i body = Ok m \<Longrightarrow>
     msg_type m = t \<and> msg_from m = Some my_did \<and> msg_thid m = Some i \<and> msg_body m = body"
  by (auto simp: send_envelope_def Let_def split: result.splits option.splits)

section \<open>The system\<close>

text \<open>The two parties; the client's transport is the system below.\<close>

record ('s, 'c, 'd) parties =
  pa_client :: "unit trql_client"
  pa_lib :: client_lib
  pa_env :: envelope_lib
  pa_did :: string
  pa_node :: "('s, 'c, 'd) node"

text \<open>
  A request that was asked: the query, where it goes, its document as JSON, and how many states the
  registry had been in.  \<open>my_history\<close> is a record of these states, for the statements only.
\<close>

record ('s, 'c, 'd) mediated =
  my_demux :: demux
  my_asked :: "string \<Rightarrow> (trqp_query \<times> string \<times> json \<times> nat) option"
  my_requests :: "message list"
  my_replies :: "message list"
  my_ids :: 'd
  my_registry :: "('s, 'c) registry"
  my_history :: "'s list"

definition mediated_start :: "int \<Rightarrow> 'd \<Rightarrow> ('s, 'c) registry \<Rightarrow> ('s, 'c, 'd) mediated" where
  "mediated_start t d w =
     \<lparr>my_demux = demux_new Didcomm t, my_asked = Map.empty, my_requests = [], my_replies = [],
      my_ids = d, my_registry = w, my_history = [fst w]\<rparr>"

text \<open>
  The waiting side of an exchange: every step of the demultiplexer that neither sends nor routes; a
  request on its way can only be dropped by its caller.
\<close>

definition waits :: "demux \<Rightarrow> demux \<Rightarrow> bool" where
  "waits x y \<longleftrightarrow> demux_step x y \<and> dx_next y = dx_next x \<and> dx_sent y = dx_sent x \<and>
     (\<forall>n i. dx_exchange x n = Some (Sending i) \<longrightarrow> dx_exchange y n \<in> {Some (Sending i), Some (Dropped i)})"

text \<open>A message whose document names a thread the client never opened.\<close>

definition unrelated :: "envelope_lib \<Rightarrow> json \<Rightarrow> ('s, 'c, 'd) mediated \<Rightarrow> bool" where
  "unrelated el body y \<longleftrightarrow> (case el_task el body of
     Err e \<Rightarrow> True
   | Ok doc \<Rightarrow> (case tk_thread doc of None \<Rightarrow> True | Some i \<Rightarrow> my_asked y i = None))"

inductive mediated_step ::
  "('s, 'c, 'd) parties \<Rightarrow> ('s, 'c, 'd) mediated \<Rightarrow> ('s, 'c, 'd) mediated \<Rightarrow> bool" for P where
  Ask: "cl_request_json (pa_lib P) (request_of q) = Ok body \<Longrightarrow> i = new_task_id uuid \<Longrightarrow>
    i \<notin> used_ids (my_demux y) \<Longrightarrow>
    didcomm_begin (pa_env P) (request_document (pa_client P) i now AUTHORIZATION body) (my_demux y) =
      (Ok (dest, j, n), x) \<Longrightarrow>
    mediated_step P y (y\<lparr>my_demux := x,
      my_asked := (my_asked y)(i \<mapsto> (q, dest, j, length (my_history y) - 1))\<rparr>)"
| Hand: "dx_exchange (my_demux y) n = Some (Sending i) \<Longrightarrow> my_asked y i = Some (q, dest, j, p) \<Longrightarrow>
    send_envelope a (el_envelope_type (pa_env P)) (pa_did P) dest i j = Ok m \<Longrightarrow>
    mediated_step P y (y\<lparr>my_requests := m # my_requests y\<rparr>)"
| Handed: "dx_exchange (my_demux y) n = Some (Sending i) \<Longrightarrow> m \<in> set (my_requests y) \<Longrightarrow> msg_thid m = Some i \<Longrightarrow>
    mediated_step P y (y\<lparr>my_demux := set_exchange n (Waiting i) (my_demux y)\<rparr>)"
| Not_handed: "dx_exchange (my_demux y) n = Some (Sending i) \<Longrightarrow> my_asked y i = Some (q, dest, j, p) \<Longrightarrow>
    send_envelope a (el_envelope_type (pa_env P)) (pa_did P) dest i j = Err e \<Longrightarrow>
    mediated_step P y (y\<lparr>my_demux := set_exchange n (Finished i (Err e)) (abandon i (my_demux y))\<rparr>)"
| Wait: "waits (my_demux y) x \<Longrightarrow> mediated_step P y (y\<lparr>my_demux := x\<rparr>)"
| Serve: "m \<in> set (my_requests y) \<Longrightarrow>
    base_handle (pa_node P) ce t2 m (my_ids y) (my_registry y) = (res, (audit, out), d, w) \<Longrightarrow>
    mediated_step P y (y\<lparr>my_replies := out @ my_replies y, my_ids := d, my_registry := w,
      my_history := my_history y @ [fst w]\<rparr>)"
| Others: "run_job (pa_node P) ce t2 unpack job (my_ids y) (my_registry y) = (d, w) \<Longrightarrow>
    mediated_step P y (y\<lparr>my_ids := d, my_registry := w, my_history := my_history y @ [fst w]\<rparr>)"
| Deliver: "m \<in> set (my_replies y) \<Longrightarrow>
    didcomm_inbound (pa_env P) (msg_type m) (msg_body m) (my_demux y) = (ack, x) \<Longrightarrow>
    mediated_step P y (y\<lparr>my_demux := x\<rparr>)"
| Stray: "unrelated (pa_env P) body y \<Longrightarrow>
    didcomm_inbound (pa_env P) typ body (my_demux y) = (ack, x) \<Longrightarrow>
    mediated_step P y (y\<lparr>my_demux := x\<rparr>)"

inductive mediated_reach ::
  "('s, 'c, 'd) parties \<Rightarrow> ('s, 'c, 'd) mediated \<Rightarrow> ('s, 'c, 'd) mediated \<Rightarrow> bool" for P y0 where
  Reach_start: "mediated_reach P y0 y0"
| Reach_step: "mediated_reach P y0 y \<Longrightarrow> mediated_step P y z \<Longrightarrow> mediated_reach P y0 z"

section \<open>One request at the node\<close>

text \<open>
  What the two sides share beside \<open>client_wire_ok\<close>: the envelope type, one JSON form of a document,
  and an error for a sender keeps the thread of its request.
\<close>

definition parties_ok :: "('s, 'c, 'd) parties \<Rightarrow> (string \<Rightarrow> (document, string) result) \<Rightarrow> bool" where
  "parties_ok P task \<longleftrightarrow>
     el_envelope_type (pa_env P) = nd_envelope_type (pa_node P) \<and>
     nd_envelope_type (pa_node P) \<notin> {QUERY_AUTHORIZATION, QUERY_RECOGNITION, PROBLEM_REPORT_TYPE} \<union> set admin_message_types \<and>
     (\<forall>d j. el_task_json (pa_env P) d = Ok j \<longrightarrow> wi_parse_value (nd_wire (pa_node P)) j = Ok d) \<and>
     (\<forall>j s. wi_json_text (nd_wire (pa_node P)) j = Ok s \<longrightarrow> el_task (pa_env P) j = task s) \<and>
     (\<forall>doc i r t. er_thread (fw_reject_to (nd_fw (pa_node P)) doc i r t) = Some (reply_thread doc))"

lemma parties_okD:
  assumes "parties_ok P task"
  shows "el_envelope_type (pa_env P) = nd_envelope_type (pa_node P)"
    and "msg_type m = nd_envelope_type (pa_node P) \<Longrightarrow> route_message (pa_node P) m = Some P_Trust_Tasks"
    and "el_task_json (pa_env P) d = Ok j \<Longrightarrow> wi_parse_value (nd_wire (pa_node P)) j = Ok d"
    and "reads_back (nd_wire (pa_node P)) task j d \<Longrightarrow> el_task (pa_env P) j = Ok d"
    and "er_thread (fw_reject_to (nd_fw (pa_node P)) doc i r t) = Some (reply_thread doc)"
  using assms unfolding parties_ok_def reads_back_def route_message_cases by auto

text \<open>The document a client makes of its reply: the verdict on the record, or a rejection.\<close>

definition answers_query ::
  "client_lib \<Rightarrow> ('k \<Rightarrow> trust_record option) \<Rightarrow> (trust_record_query \<Rightarrow> 'k) \<Rightarrow> string \<Rightarrow> trqp_query \<Rightarrow> document \<Rightarrow> bool" where
  "answers_query cl m kq i q doc \<longleftrightarrow>
     (case read_reply cl i (cl_slug cl AUTHORIZATION) doc of
        Ok a \<Rightarrow> qr_answer a = answer is_authorized (m (kq (query_key q)))
      | Err e \<Rightarrow> \<exists>c r ra t. e = trql_error.Rejected c r ra t)"

lemma admit_Err:
  "admit fw dp ce sender doc = Err e \<Longrightarrow> (\<exists>r. e = fw_reject_with fw doc (ce_nid ce) r) \<or>
     (\<exists>r. e = fw_reject_to fw doc (ce_nid ce) r (Some sender))"
  by (auto simp: admit_def split: result.splits)

lemma authorization_reads: "framework_ok fw \<Longrightarrow> tk_type doc = AUTHORIZATION \<Longrightarrow> \<not> is_write fw doc"
  by (simp add: is_write_uri AUTHORIZATION_def is_write_slug_def)

context trust_repository
begin

lemma task_query_reply:
  assumes "framework_ok fw" "client_wire_ok cl fw wi encode task" "inv s" "queries_served cs"
    and "\<And>i r t. er_thread (fw_reject_to fw doc i r t) = Some (reply_thread doc)"
    and "wi_parse_value wi body = Ok doc" "tk_type doc = AUTHORIZATION" "reply_thread doc = i"
    and "cl_request_json cl (request_of q) = Ok (tk_payload doc)"
    and "didcomm_trust_task fw wi repo store ids dp ce t2 sender body d (s, cs) = (Some rep, d', s', cs')"
    and "reply_json wi rep = Ok j"
  shows "\<exists>doc'. reads_back wi task j doc' \<and> answers_query cl (view s) kq i q doc'"
proof -
  have rejected: ?thesis if e: "rep = ReplyErr e" "er_thread e = Some i" for e
  proof -
    obtain j1 d1 where d1: "wi_error_json wi e = Ok j1" "reads_back wi task j1 d1"
      "\<exists>c ra m. read_reply cl i (cl_slug cl AUTHORIZATION) d1 = Err (trql_error.Rejected c (er_retryable e) ra m)"
      by (rule rejection_read [OF assms(2) e(2)])
    then have "answers_query cl (view s) kq i q d1" by (auto simp: answers_query_def)
    moreover have "j1 = j" using assms(11) e(1) d1(1) by (simp add: reply_json_def)
    ultimately show ?thesis using d1(2) by blast
  qed
  have thread: "er_thread (fw_reject_with fw doc n r) = Some i" for n r
    using fw_error_thread [OF assms(1)] assms(8) by simp
  show ?thesis
  proof (cases "admit fw dp ce sender doc")
    case (Err e)
    then have "rep = ReplyErr e" using assms(6,10) by (simp add: didcomm_trust_task_def)
    then show ?thesis using rejected thread admit_Err [OF Err] assms(5,8) by metis
  next
    case (Ok u)
    have slug: "fw_slug fw (tk_type doc) \<noteq> ''registry/did/rotate''"
      using assms(7) by (simp add: AUTHORIZATION_def fw_slug_uri [OF assms(1)])
    obtain out s1 cs1 where sv:
      "serve_document fw repo store ce (cap_dispatcher cs) doc (s, cs) = (out, s1, cs1)"
      by (metis prod.exhaust)
    have "dispatch_admin fw repo store ids ce t2 doc d (s, cs) = (out, d, s1, cs1)"
      unfolding dispatch_admin_def
      by (subst dispatch_read [OF authorization_reads [OF assms(1,7)]]) (simp add: sv)
    then have rep: "rep = reply_of out"
      using assms(6,10) Ok slug by (simp add: didcomm_trust_task_def)
    have "map_of (cap_dispatcher cs) AUTHORIZATION = Some H_Authorization"
      by (rule queries_servedD [OF assms(4)])
    note sa = serve_authorization_entry [OF assms(1,3) this assms(7) sv]
    show ?thesis
    proof (cases out)
      case o: (Ok dr)
      then obtain p where p: "fw_query_payload fw doc = Ok p"
        "respond fw doc (ce_nid ce) (R_Authorization (authorization_response p (ce_now ce)
           (view s (kq (payload_query p))))) = Ok dr"
        using sa by auto
      from answer_read [where m = "view s" and kq = kq, OF assms(1,2,7,8,9) p]
      have "answers_query cl (view s) kq i q dr" by (auto simp: answers_query_def)
      moreover have "reads_back wi task j dr"
        using cw_document [OF assms(2), of dr] rep o assms(11) by (auto simp: reply_json_def)
      ultimately show ?thesis by blast
    next
      case (Err e)
      then show ?thesis using rejected rep sa thread by auto
    qed
  qed
qed

end

section \<open>Exchanges move\<close>

lemma used_ids_eq: "used_ids x = {exchange_id e | n e. dx_exchange x n = Some e}"
proof
  show "used_ids x \<subseteq> {exchange_id e | n e. dx_exchange x n = Some e}"
    unfolding used_ids_def by force
  show "{exchange_id e | n e. dx_exchange x n = Some e} \<subseteq> used_ids x"
    using used_ids_exchange by blast
qed

text \<open>An exchange keeps its id, and what it finishes with was sent on its channel.\<close>

definition moves :: "demux \<Rightarrow> demux \<Rightarrow> bool" where
  "moves x y \<longleftrightarrow> (\<forall>n. map_option exchange_id (dx_exchange y n) = map_option exchange_id (dx_exchange x n) \<and>
     (\<forall>i d. dx_exchange y n = Some (Finished i (Ok d)) \<longrightarrow>
        dx_exchange x n = Some (Finished i (Ok d)) \<or> dx_sent x n = Some d))"

lemma moves_ids: "moves x y \<Longrightarrow> used_ids y = used_ids x"
proof -
  assume m: "moves x y"
  have "(\<exists>e. dx_exchange y n = Some e \<and> exchange_id e = i) \<longleftrightarrow>
      (\<exists>e. dx_exchange x n = Some e \<and> exchange_id e = i)" for n i
  proof -
    have "map_option exchange_id (dx_exchange y n) = map_option exchange_id (dx_exchange x n)"
      using m by (simp add: moves_def)
    then show ?thesis by (cases "dx_exchange y n"; cases "dx_exchange x n") auto
  qed
  then show ?thesis unfolding used_ids_eq by (intro Collect_cong) metis
qed

lemma moves_set:
  assumes "dx_exchange x n = Some e" "exchange_id e' = exchange_id e"
    and "\<And>i d. e' = Finished i (Ok d) \<Longrightarrow> dx_sent x n = Some d"
  shows "moves x (set_exchange n e' x)" "moves x (set_exchange n e' (abandon i x))"
  using assms by (auto simp: moves_def set_exchange_def abandon_def)

lemma route_moves: "moves x (snd (route doc x))"
  by (auto simp: moves_def route_def Let_def split: option.split)

lemma step_moves: "demux_step x y \<Longrightarrow> dx_next y = dx_next x \<Longrightarrow> moves x y"
proof (induction rule: demux_step.cases)
  case (Register i x)
  then show ?case by (simp add: register_def)
next
  case (Inbound x doc)
  then show ?case using route_moves by simp
qed (auto intro!: moves_set)

lemma route_sent:
  "dx_sent (snd (route doc x)) n = Some d \<Longrightarrow> dx_sent x n = Some d \<or>
     d = doc \<and> (\<exists>i. tk_thread doc = Some i \<and> dx_pending x i = Some n)"
  by (auto simp: route_def Let_def split: option.splits if_splits)

lemma inbound_route:
  assumes "didcomm_inbound el typ body x = (ack, x')"
  shows "x' = x \<or> (\<exists>doc. el_task el body = Ok doc \<and> x' = snd (route doc x))"
  using assms by (auto simp: didcomm_inbound_def split: if_splits result.splits)

lemma inbound_moves: "didcomm_inbound el t body x = (ack, x') \<Longrightarrow> moves x x'"
  using inbound_route route_moves by (metis (mono_tags, lifting) moves_def)

section \<open>The invariant\<close>

text \<open>The states the registry had since a query was asked, and a document that settles a query on one.\<close>

definition since :: "nat \<Rightarrow> ('s, 'c, 'd) mediated \<Rightarrow> 's set" where
  "since p y = set (drop p (my_history y))"

definition settles ::
  "('s, 'c, 'd) parties \<Rightarrow> ('s \<Rightarrow> 'k \<Rightarrow> trust_record option) \<Rightarrow> (trust_record_query \<Rightarrow> 'k) \<Rightarrow>
   ('s, 'c, 'd) mediated \<Rightarrow> document \<Rightarrow> bool" where
  "settles P view kq y doc \<longleftrightarrow> (\<exists>i q dest j p. tk_thread doc = Some i \<and> my_asked y i = Some (q, dest, j, p) \<and>
     (\<exists>s \<in> since p y. answers_query (pa_lib P) (view s) kq i q doc))"

definition waiters_part :: "('s, 'c, 'd) mediated \<Rightarrow> bool" where
  "waiters_part y \<longleftrightarrow> demux_inv (my_demux y) \<and> dom (my_asked y) = used_ids (my_demux y)"

definition node_part :: "('s \<Rightarrow> bool) \<Rightarrow> ('s, 'c, 'd) mediated \<Rightarrow> bool" where
  "node_part good y \<longleftrightarrow> good (fst (my_registry y)) \<and> queries_served (snd (my_registry y)) \<and>
     my_history y \<noteq> [] \<and> last (my_history y) = fst (my_registry y)"

definition request_part :: "('s, 'c, 'd) parties \<Rightarrow> ('s, 'c, 'd) mediated \<Rightarrow> bool" where
  "request_part P y \<longleftrightarrow>
     (\<forall>i q dest j p. my_asked y i = Some (q, dest, j, p) \<longrightarrow> p < length (my_history y) \<and>
        (\<exists>doc. wi_parse_value (nd_wire (pa_node P)) j = Ok doc \<and> tk_type doc = AUTHORIZATION \<and>
           reply_thread doc = i \<and> cl_request_json (pa_lib P) (request_of q) = Ok (tk_payload doc))) \<and>
     (\<forall>m \<in> set (my_requests y). \<exists>i q dest j p. my_asked y i = Some (q, dest, j, p) \<and>
        msg_type m = nd_envelope_type (pa_node P) \<and> msg_body m = j)"

definition reply_part ::
  "('s, 'c, 'd) parties \<Rightarrow> ('s \<Rightarrow> 'k \<Rightarrow> trust_record option) \<Rightarrow> (trust_record_query \<Rightarrow> 'k) \<Rightarrow>
   ('s, 'c, 'd) mediated \<Rightarrow> bool" where
  "reply_part P view kq y \<longleftrightarrow>
     (\<forall>m \<in> set (my_replies y). \<forall>doc. el_task (pa_env P) (msg_body m) = Ok doc \<longrightarrow> settles P view kq y doc) \<and>
     (\<forall>n doc. dx_sent (my_demux y) n = Some doc \<longrightarrow> settles P view kq y doc) \<and>
     (\<forall>n i doc. dx_exchange (my_demux y) n = Some (Finished i (Ok doc)) \<longrightarrow> settles P view kq y doc)"

lemma answers_query_thread: "answers_query cl m kq i q doc \<Longrightarrow> tk_thread doc = Some i"
  by (auto simp: answers_query_def read_reply_Ok read_reply_Rejected split: result.splits)

text \<open>Later states know what earlier ones knew.\<close>

definition extends :: "('s, 'c, 'd) mediated \<Rightarrow> ('s, 'c, 'd) mediated \<Rightarrow> bool" where
  "extends y z \<longleftrightarrow> my_asked y \<subseteq>\<^sub>m my_asked z \<and> (\<exists>later. my_history z = my_history y @ later)"

lemma extends_settles: "settles P view kq y doc \<Longrightarrow> extends y z \<Longrightarrow> settles P view kq z doc"
proof -
  assume "settles P view kq y doc" "extends y z"
  then obtain i q dest j p s later where
    *: "tk_thread doc = Some i" "my_asked y i = Some (q, dest, j, p)" "s \<in> since p y"
      "answers_query (pa_lib P) (view s) kq i q doc" "my_history z = my_history y @ later"
      "my_asked y \<subseteq>\<^sub>m my_asked z"
    unfolding settles_def extends_def by blast
  have "my_asked z i = Some (q, dest, j, p)" using *(2,6) by (metis domI map_le_def)
  moreover have "s \<in> since p z" using *(3,5) by (simp add: since_def)
  ultimately show ?thesis using *(1,4) unfolding settles_def by blast
qed

lemma extends_simps [simp]:
  "extends y (y\<lparr>my_demux := x\<rparr>)" "extends y (y\<lparr>my_requests := ms\<rparr>)"
  "extends y (y\<lparr>my_ids := d, my_registry := w, my_history := my_history y @ h\<rparr>)"
  "extends y (y\<lparr>my_replies := out, my_ids := d, my_registry := w, my_history := my_history y @ h\<rparr>)"
  "my_asked y i = None \<Longrightarrow> extends y (y\<lparr>my_demux := x, my_asked := (my_asked y)(i \<mapsto> a)\<rparr>)"
  by (auto simp: extends_def map_le_def)

text \<open>Each part is kept by every step.\<close>

lemma ask_facts:
  assumes "didcomm_begin el (request_document c i now t body) x = (Ok (dest, j, n), x')"
  shows "el_task_json el (request_document c i now t body) = Ok j" "x' = snd (register i x)"
  using assms by (auto simp: didcomm_begin_def request_document_def split: result.splits prod.splits)

lemma ask_used: "used_ids (snd (register i x)) = insert i (used_ids x)" if "demux_inv x"
proof -
  have "dx_exchange x (dx_next x) = None"
    using inv_exchange_next [OF that] by (metis less_irrefl not_None_eq)
  then show ?thesis unfolding used_ids_eq by (auto simp: register_def split: if_splits) (metis not_None_eq option.distinct(1))+
qed

lemma waiters_kept:
  assumes "mediated_step P y z" "waiters_part y"
  shows "waiters_part z"
proof -
  have i: "demux_inv (my_demux y)" and d: "dom (my_asked y) = used_ids (my_demux y)"
    using assms(2) by (simp_all add: waiters_part_def)
  have inb: "demux_inv x \<and> used_ids x = used_ids (my_demux y)"
    if "didcomm_inbound el ty body (my_demux y) = (ack, x)" for el ty body ack x
    using inbound_route [OF that] route_inv [OF i] moves_ids [OF route_moves] i by auto
  from assms(1) show ?thesis
  proof cases
    case (Ask q body i uuid now dest j n x)
    note a = ask_facts [OF Ask(5)]
    have "demux_inv x" using register_inv [OF i Ask(4)] a by simp
    then show ?thesis using Ask(1) a ask_used [OF i] d by (simp add: waiters_part_def)
  next
    case (Handed n i m)
    have "demux_inv (set_exchange n (Waiting i) (my_demux y))"
      by (rule demux_step_inv [OF demux_step.Sent [OF Handed(2)] i])
    then show ?thesis using Handed moves_ids [OF moves_set(1) [OF Handed(2), of "Waiting i"]] d
      by (simp add: waiters_part_def)
  next
    case (Not_handed n i q dest j p a e)
    have "demux_inv (set_exchange n (Finished i (Err e)) (abandon i (my_demux y)))"
      by (rule demux_step_inv [OF demux_step.Send_failed [OF Not_handed(2)] i])
    then show ?thesis
      using Not_handed moves_ids [OF moves_set(2) [OF Not_handed(2), of "Finished i (Err e)" i]] d
      by (simp add: waiters_part_def)
  next
    case (Wait x)
    then have s: "demux_step (my_demux y) x" "dx_next x = dx_next (my_demux y)" by (simp_all add: waits_def)
    show ?thesis using Wait demux_step_inv [OF s(1) i] moves_ids [OF step_moves [OF s]] d
      by (simp add: waiters_part_def)
  qed (use i d inb in \<open>auto simp: waiters_part_def\<close>)
qed

lemma node_kept:
  assumes "trust_repository repo atomic kr kq view good" "nd_repo (pa_node P) = repo"
    and "mediated_step P y z" "node_part good y"
  shows "node_part good z"
proof -
  obtain s cs where w: "my_registry y = (s, cs)" by fastforce
  have g: "good s" "queries_served cs" using assms(4) w by (simp_all add: node_part_def)
  from assms(3) show ?thesis
  proof cases
    case (Serve m ce t2 res audit out d w')
    obtain s' cs' where w': "w' = (s', cs')" by fastforce
    from trust_repository.base_handle_keeps [OF assms(1) g assms(2) Serve(3) [unfolded w w']]
    show ?thesis using Serve(1) w' by (simp add: node_part_def)
  next
    case (Others ce t2 unpack job d w')
    obtain s' cs' where w': "w' = (s', cs')" by fastforce
    from trust_repository.run_job_keeps [OF assms(1) g assms(2) Others(2) [unfolded w w']]
    show ?thesis using Others(1) w' by (simp add: node_part_def)
  qed (use assms(4) in \<open>simp_all add: node_part_def\<close>)
qed

lemma requests_kept:
  assumes "parties_ok P task" "mediated_step P y z" "request_part P y" "waiters_part y" "my_history y \<noteq> []"
  shows "request_part P z"
  using assms(2)
proof cases
  case (Ask q body i uuid now dest j n x)
  note a = ask_facts [OF Ask(5)]
  have new: "my_asked y i = None" using Ask(4) assms(4) by (auto simp: waiters_part_def)
  have "wi_parse_value (nd_wire (pa_node P)) j = Ok (request_document (pa_client P) i now AUTHORIZATION body)"
    by (rule parties_okD(3) [OF assms(1) a(1)])
  then have doc: "\<exists>doc. wi_parse_value (nd_wire (pa_node P)) j = Ok doc \<and> tk_type doc = AUTHORIZATION \<and>
      reply_thread doc = i \<and> cl_request_json (pa_lib P) (request_of q) = Ok (tk_payload doc)"
    using Ask(2) by (simp add: request_document_def reply_thread_def)
  have z: "my_asked z = (my_asked y)(i \<mapsto> (q, dest, j, length (my_history y) - 1))"
    "my_requests z = my_requests y" "my_history z = my_history y"
    using Ask(1) by simp_all
  have old: "\<exists>i' q dest j p. ((my_asked y)(i \<mapsto> a)) i' = Some (q, dest, j, p) \<and> msg_type m = t \<and> msg_body m = j"
    if "\<exists>i q dest j p. my_asked y i = Some (q, dest, j, p) \<and> msg_type m = t \<and> msg_body m = j" for m t a
    using that new by (metis fun_upd_other option.distinct(1))
  show ?thesis unfolding request_part_def z
  proof (intro conjI allI impI ballI)
    fix i' q' dest' j' p'
    assume "((my_asked y)(i \<mapsto> (q, dest, j, length (my_history y) - 1))) i' = Some (q', dest', j', p')"
    then show "p' < length (my_history y)"
      and "\<exists>doc. wi_parse_value (nd_wire (pa_node P)) j' = Ok doc \<and> tk_type doc = AUTHORIZATION \<and>
        reply_thread doc = i' \<and> cl_request_json (pa_lib P) (request_of q') = Ok (tk_payload doc)"
      using doc assms(3,5) by (auto simp: request_part_def split: if_splits)
  next
    fix m assume "m \<in> set (my_requests y)"
    then show "\<exists>i' q' dest' j' p'. ((my_asked y)(i \<mapsto> (q, dest, j, length (my_history y) - 1))) i' =
        Some (q', dest', j', p') \<and> msg_type m = nd_envelope_type (pa_node P) \<and> msg_body m = j'"
      using assms(3) by (intro old) (simp add: request_part_def)
  qed
next
  case (Hand n i q dest j p a m)
  note m = send_envelope_Ok [OF Hand(4)]
  show ?thesis using Hand(1,3) m assms(3) parties_okD(1) [OF assms(1)] by (auto simp: request_part_def)
qed (use assms(3) in \<open>auto simp: request_part_def intro: less_SucI\<close>)

lemma task_replies:
  assumes "base_handle nd ce t2 m d w = (res, (audit, out), d', w')" "route_message nd m = Some P_Trust_Tasks"
    and "r \<in> set out"
  obtains rep where "didcomm_trust_task (nd_fw nd) (nd_wire nd) (nd_repo nd) (nd_store nd) (nd_ids nd)
      (nd_deployment nd) ce t2 (hx_sender_did (base_context nd m)) (msg_body m) d w = (Some rep, d', w')"
    "reply_json (nd_wire nd) rep = Ok (msg_body r)"
proof -
  obtain o1 d1 w1 where h: "handle_task_message nd (base_context nd m) ce t2 m d w = (o1, d1, w1)"
    by (metis prod.exhaust)
  then have e: "out = o1" "d' = d1" "w' = w1"
    using assms(1,2) by (auto simp: base_handle_def Let_def split: prod.splits)
  obtain q d2 w2 where t: "didcomm_trust_task (nd_fw nd) (nd_wire nd) (nd_repo nd) (nd_store nd) (nd_ids nd)
      (nd_deployment nd) ce t2 (hx_sender_did (base_context nd m)) (msg_body m) d w = (q, d2, w2)"
    by (metis prod.exhaust)
  obtain rep where rep: "q = Some rep" "o1 = snd (try_send nd (base_context nd m) rep)" "d1 = d2" "w1 = w2"
    using h t e assms(3) by (auto simp: handle_task_message_def split: option.splits)
  have "reply_json (nd_wire nd) rep = Ok (msg_body r)"
    using assms(3) e rep(2)
    by (auto simp: try_send_def Let_def send_message_def split: result.splits prod.splits delivery.splits)
  with t rep e show ?thesis by (intro that) simp_all
qed

lemma request_answered:
  assumes "trust_repository repo atomic kr kq view good" "nd_repo (pa_node P) = repo"
    and "framework_ok (nd_fw (pa_node P))"
    and "client_wire_ok (pa_lib P) (nd_fw (pa_node P)) (nd_wire (pa_node P)) encode task" "parties_ok P task"
    and "node_part good y" "request_part P y" "msg_type m = nd_envelope_type (pa_node P)"
    and "my_asked y i = Some (q, dest, msg_body m, p)"
    and "base_handle (pa_node P) ce t2 m (my_ids y) (my_registry y) = (res, (audit, out), d, w)"
    and "r \<in> set out"
  shows "\<exists>doc. el_task (pa_env P) (msg_body r) = Ok doc \<and>
    answers_query (pa_lib P) (view (fst (my_registry y))) kq i q doc"
proof -
  obtain s cs where reg: "my_registry y = (s, cs)" by fastforce
  obtain s' cs' where w: "w = (s', cs')" by fastforce
  obtain dc where dc: "p < length (my_history y)" "wi_parse_value (nd_wire (pa_node P)) (msg_body m) = Ok dc"
    "tk_type dc = AUTHORIZATION" "reply_thread dc = i" "cl_request_json (pa_lib P) (request_of q) = Ok (tk_payload dc)"
    using assms(7,9) unfolding request_part_def by blast
  have g: "good s" "queries_served cs" using assms(6) reg by (simp_all add: node_part_def)
  obtain rep where rep: "didcomm_trust_task (nd_fw (pa_node P)) (nd_wire (pa_node P)) repo (nd_store (pa_node P))
      (nd_ids (pa_node P)) (nd_deployment (pa_node P)) ce t2 (hx_sender_did (base_context (pa_node P) m)) (msg_body m)
      (my_ids y) (s, cs) = (Some rep, d, s', cs')" "reply_json (nd_wire (pa_node P)) rep = Ok (msg_body r)"
    by (rule task_replies [OF assms(10) parties_okD(2) [OF assms(5,8)] assms(11), unfolded reg w assms(2)])
  obtain doc' where d': "reads_back (nd_wire (pa_node P)) task (msg_body r) doc'"
    "answers_query (pa_lib P) (view s) kq i q doc'"
    using trust_repository.task_query_reply [OF assms(1,3,4) g parties_okD(5) [OF assms(5)] dc(2-5) rep] by blast
  then show ?thesis using parties_okD(4) [OF assms(5) d'(1)] reg by auto
qed

lemma served_reply:
  assumes "trust_repository repo atomic kr kq view good" "nd_repo (pa_node P) = repo"
    and "framework_ok (nd_fw (pa_node P))"
    and "client_wire_ok (pa_lib P) (nd_fw (pa_node P)) (nd_wire (pa_node P)) encode task" "parties_ok P task"
    and "node_part good y" "request_part P y" "m \<in> set (my_requests y)"
    and "base_handle (pa_node P) ce t2 m (my_ids y) (my_registry y) = (res, (audit, out), d, w)"
    and "r \<in> set out"
  shows "\<exists>doc. el_task (pa_env P) (msg_body r) = Ok doc \<and> settles P view kq y doc"
proof -
  obtain i q dest j p where a: "my_asked y i = Some (q, dest, j, p)"
    "msg_type m = nd_envelope_type (pa_node P)" "msg_body m = j"
    using assms(7,8) unfolding request_part_def by blast
  obtain doc where doc: "el_task (pa_env P) (msg_body r) = Ok doc"
    "answers_query (pa_lib P) (view (fst (my_registry y))) kq i q doc"
    using request_answered [OF assms(1-7) a(2) _ assms(9,10)] a(1,3) by blast
  have "p < length (my_history y)" using assms(7) a(1) unfolding request_part_def by blast
  moreover have "my_history y \<noteq> []" "last (my_history y) = fst (my_registry y)"
    using assms(6) by (simp_all add: node_part_def)
  ultimately have "fst (my_registry y) \<in> since p y"
    using last_in_set [of "drop p (my_history y)"] by (simp add: since_def)
  then show ?thesis using a(1) doc answers_query_thread [OF doc(2)] unfolding settles_def by blast
qed

lemma served_settles:
  assumes "trust_repository repo atomic kr kq view good" "nd_repo (pa_node P) = repo"
    and "framework_ok (nd_fw (pa_node P))"
    and "client_wire_ok (pa_lib P) (nd_fw (pa_node P)) (nd_wire (pa_node P)) encode task" "parties_ok P task"
    and "node_part good y" "request_part P y" "m \<in> set (my_requests y)"
    and "base_handle (pa_node P) ce t2 m (my_ids y) (my_registry y) = (res, (audit, out), d, w)"
    and "r \<in> set out" "el_task (pa_env P) (msg_body r) = Ok doc"
  shows "settles P view kq y doc"
  using served_reply [OF assms(1-10)] assms(11) by auto

lemma reply_partI:
  assumes "reply_part P view kq y" "extends y z"
    and "\<And>m doc. m \<in> set (my_replies z) \<Longrightarrow> el_task (pa_env P) (msg_body m) = Ok doc \<Longrightarrow>
      m \<in> set (my_replies y) \<or> settles P view kq y doc"
    and "\<And>n doc. dx_sent (my_demux z) n = Some doc \<Longrightarrow>
      dx_sent (my_demux y) n = Some doc \<or> settles P view kq y doc"
    and "\<And>n i doc. dx_exchange (my_demux z) n = Some (Finished i (Ok doc)) \<Longrightarrow>
      dx_exchange (my_demux y) n = Some (Finished i (Ok doc)) \<or> dx_sent (my_demux y) n = Some doc"
  shows "reply_part P view kq z"
proof -
  note r = assms(1) [unfolded reply_part_def]
  have "settles P view kq z doc" if "m \<in> set (my_replies z)" "el_task (pa_env P) (msg_body m) = Ok doc" for m doc
    using assms(3) [OF that] r that(2) extends_settles [OF _ assms(2)] by blast
  moreover have "settles P view kq z doc" if "dx_sent (my_demux z) n = Some doc" for n doc
    using assms(4) [OF that] r extends_settles [OF _ assms(2)] by blast
  moreover have "settles P view kq z doc" if "dx_exchange (my_demux z) n = Some (Finished i (Ok doc))" for n i doc
    using assms(5) [OF that] r extends_settles [OF _ assms(2)] by blast
  ultimately show ?thesis unfolding reply_part_def by blast
qed

lemma moves_finished:
  "moves x y \<Longrightarrow> dx_exchange y n = Some (Finished i (Ok d)) \<Longrightarrow>
   dx_exchange x n = Some (Finished i (Ok d)) \<or> dx_sent x n = Some d"
  by (simp add: moves_def)

text \<open>What is routed to a waiter was asked for, so a stray document reaches nobody.\<close>

lemma inbound_sent:
  assumes "waiters_part y" "didcomm_inbound el t body (my_demux y) = (ack, x)" "dx_sent x n = Some d"
  shows "dx_sent (my_demux y) n = Some d \<or> el_task el body = Ok d \<and> (\<exists>i. tk_thread d = Some i \<and> my_asked y i \<noteq> None)"
proof -
  have i: "demux_inv (my_demux y)" "dom (my_asked y) = used_ids (my_demux y)"
    using assms(1) by (simp_all add: waiters_part_def)
  have "my_asked y j \<noteq> None" if "dx_pending (my_demux y) j = Some k" for j k
    using inv_pending [OF i(1) that] used_ids_exchange i(2) by (metis domIff)
  then show ?thesis using inbound_route [OF assms(2)] route_sent [of _ "my_demux y" n d] assms(3) by blast
qed

lemma replies_kept:
  assumes "trust_repository repo atomic kr kq view good" "nd_repo (pa_node P) = repo"
    and "framework_ok (nd_fw (pa_node P))"
    and "client_wire_ok (pa_lib P) (nd_fw (pa_node P)) (nd_wire (pa_node P)) encode task" "parties_ok P task"
    and "node_part good y" "request_part P y" "waiters_part y" "mediated_step P y z" "reply_part P view kq y"
  shows "reply_part P view kq z"
  using assms(9)
proof cases
  case (Ask q body i uuid now dest j n x)
  note a = ask_facts [OF Ask(5)]
  have "my_asked y i = None" using Ask(4) assms(8) by (auto simp: waiters_part_def)
  then have "extends y z" using Ask(1) by simp
  then show ?thesis
    by (rule reply_partI [OF assms(10)]) (use Ask(1) a in \<open>auto simp: register_def split: if_splits\<close>)
next
  case (Hand n i q dest j p a m)
  then have "extends y z" by simp
  then show ?thesis by (rule reply_partI [OF assms(10)]) (use Hand(1) in auto)
next
  case (Handed n i m)
  then have "extends y z" by simp
  then show ?thesis
    by (rule reply_partI [OF assms(10)]) (use Handed(1) in \<open>auto simp: set_exchange_def split: if_splits\<close>)
next
  case (Not_handed n i q dest j p a e)
  then have "extends y z" by simp
  then show ?thesis
    by (rule reply_partI [OF assms(10)])
      (use Not_handed(1) in \<open>auto simp: set_exchange_def abandon_def split: if_splits\<close>)
next
  case (Wait x)
  then have "extends y z" by simp
  moreover have "moves (my_demux y) x" "dx_sent x = dx_sent (my_demux y)"
    using Wait(2) step_moves by (auto simp: waits_def)
  ultimately show ?thesis
    by (intro reply_partI [OF assms(10)]) (use Wait(1) in \<open>auto dest: moves_finished\<close>)
next
  case (Serve m ce t2 res audit out d w)
  then have "extends y z" by simp
  then show ?thesis
    by (rule reply_partI [OF assms(10)])
      (use Serve(1) served_settles [OF assms(1-7) Serve(2,3)] in auto)
next
  case (Others ce t2 unpack job d w)
  then have "extends y z" by simp
  then show ?thesis by (rule reply_partI [OF assms(10)]) (use Others(1) in auto)
next
  case (Deliver m ack x)
  then have "extends y z" by simp
  moreover have "settles P view kq y d" if "el_task (pa_env P) (msg_body m) = Ok d" for d
    using assms(10) Deliver(2) that unfolding reply_part_def by blast
  moreover have "moves (my_demux y) x" by (rule inbound_moves [OF Deliver(3)])
  ultimately show ?thesis
    by (intro reply_partI [OF assms(10)])
      (use Deliver(1) inbound_sent [OF assms(8) Deliver(3)] in \<open>auto dest: moves_finished\<close>)
next
  case (Stray body t ack x)
  then have "extends y z" by simp
  moreover have "moves (my_demux y) x" by (rule inbound_moves [OF Stray(3)])
  moreover have "dx_sent (my_demux y) n = Some d" if "dx_sent x n = Some d" for n d
    using inbound_sent [OF assms(8) Stray(3) that] Stray(2) by (auto simp: unrelated_def)
  ultimately show ?thesis
    by (intro reply_partI [OF assms(10)]) (use Stray(1) in \<open>auto dest: moves_finished\<close>)
qed

lemma mediated_invariant:
  assumes "trust_repository repo atomic kr kq view good" "nd_repo (pa_node P) = repo"
    and "framework_ok (nd_fw (pa_node P))"
    and "client_wire_ok (pa_lib P) (nd_fw (pa_node P)) (nd_wire (pa_node P)) encode task" "parties_ok P task"
    and "good s" "git_only cs" "cap_in_force sts cs" "mediated_reach P (mediated_start t d (s, cs)) y"
  shows "waiters_part y \<and> node_part good y \<and> request_part P y \<and> reply_part P view kq y"
  using assms(9)
proof (induction rule: mediated_reach.induct)
  case Reach_start
  have "used_ids (demux_new Didcomm t) = {}" by (simp add: used_ids_eq demux_new_def)
  then show ?case using assms(6) composed_serves [OF assms(7,8)] demux_inv_new
    by (simp add: mediated_start_def waiters_part_def node_part_def request_part_def reply_part_def demux_new_def)
next
  case (Reach_step y z)
  have ne: "my_history y \<noteq> []" using Reach_step.IH by (simp add: node_part_def)
  show ?case
    using waiters_kept [OF Reach_step.hyps(2)] node_kept [OF assms(1,2) Reach_step.hyps(2)]
      requests_kept [OF assms(5) Reach_step.hyps(2) _ _ ne]
      replies_kept [OF assms(1-5) _ _ _ Reach_step.hyps(2)] Reach_step.IH
    by blast
qed

section \<open>An exchange that completes\<close>

lemma delivered_replies:
  assumes "client_wire_ok cl (nd_fw nd) (nd_wire nd) encode task" "route_message nd m = Some P_Trust_Tasks"
    and "\<And>x r. pack_and_forward (nd_atm nd) x r = Delivered"
    and "wi_parse_value (nd_wire nd) (msg_body m) = Ok doc"
    and "base_handle nd ce t2 m d w = (res, (audit, out), d', w')"
  shows "\<exists>r. out = [r] \<and> msg_type r = nd_envelope_type nd"
proof -
  obtain rep d1 w1 where t: "didcomm_trust_task (nd_fw nd) (nd_wire nd) (nd_repo nd) (nd_store nd) (nd_ids nd)
      (nd_deployment nd) ce t2 (hx_sender_did (base_context nd m)) (msg_body m) d w = (rep, d1, w1)"
    by (metis prod.exhaust)
  obtain r where r: "rep = Some r"
    using t assms(4) by (auto simp: didcomm_trust_task_def split: result.splits if_splits prod.splits)
  obtain j where j: "reply_json (nd_wire nd) r = Ok j"
    using cw_document [OF assms(1)] cw_error [OF assms(1)] by (cases r) (fastforce simp: reply_json_def)+
  have "out = snd (try_send nd (base_context nd m) r)"
    using assms(2,5) t r by (auto simp: base_handle_def Let_def handle_task_message_def split: prod.splits)
  then show ?thesis by (simp add: try_send_def j Let_def send_message_def assms(3))
qed

text \<open>Every step of the system is one of the demultiplexer, or none; what it was asked and sent stays.\<close>

lemma mediated_demux:
  assumes "mediated_step P y z" "waiters_part y"
  shows "my_demux z = my_demux y \<or> demux_step (my_demux y) (my_demux z)"
  using assms(1)
proof cases
  case (Ask q body i uuid now dest j n x)
  then show ?thesis using ask_facts [OF Ask(5)] demux_step.Register [OF Ask(4)] by simp
next
  case (Deliver m ack x)
  then show ?thesis using inbound_route [OF Deliver(3)] demux_step.Inbound by fastforce
next
  case (Stray body t ack x)
  then show ?thesis using inbound_route [OF Stray(3)] demux_step.Inbound by fastforce
qed (auto simp: waits_def intro: demux_step.intros)

lemma holds_reply_reach:
  assumes "mediated_reach P y z" "waiters_part y" "holds_reply n i doc (my_demux y)"
  shows "waiters_part z \<and> holds_reply n i doc (my_demux z)"
  using assms
proof (induction rule: mediated_reach.induct)
  case (Reach_step z z')
  then have "waiters_part z" "holds_reply n i doc (my_demux z)" "demux_inv (my_demux z)"
    by (simp_all add: waiters_part_def)
  then show ?case
    using waiters_kept [OF Reach_step.hyps(2)] mediated_demux [OF Reach_step.hyps(2)] holds_reply_stable by metis
qed simp

lemma replies_kept_on: "mediated_reach P y z \<Longrightarrow> set (my_replies y) \<subseteq> set (my_replies z)"
proof (induction rule: mediated_reach.induct)
  case (Reach_step z z')
  from Reach_step.hyps(2) have "set (my_replies z) \<subseteq> set (my_replies z')" by cases auto
  then show ?case using Reach_step.IH by blast
qed simp

lemma waiters_reach: "mediated_reach P y z \<Longrightarrow> waiters_part y \<Longrightarrow> waiters_part z"
  by (induction rule: mediated_reach.induct) (auto intro: waiters_kept)

text \<open>
  A reply that reaches a waiting exchange: it is acknowledged, and the exchange ends with it as soon
  as it runs, whatever comes in between, unless its caller drops it.
\<close>

lemma reply_taken:
  assumes "waiters_part z" "r \<in> set (my_replies z)" "msg_type r = el_envelope_type (pa_env P)"
    and "el_task (pa_env P) (msg_body r) = Ok doc" "tk_thread doc = Some i"
    and "dx_exchange (my_demux z) n = Some (Waiting i)" "dx_sent (my_demux z) n = None"
  obtains x where "didcomm_inbound (pa_env P) (msg_type r) (msg_body r) (my_demux z) = (True, x)"
    "mediated_step P z (z\<lparr>my_demux := x\<rparr>)"
    "\<And>z'. mediated_reach P (z\<lparr>my_demux := x\<rparr>) z' \<Longrightarrow>
       dx_exchange (my_demux z') n \<in> {Some (Waiting i), Some (Finished i (Ok doc)), Some (Dropped i)} \<and>
       (dx_exchange (my_demux z') n = Some (Waiting i) \<longrightarrow>
          mediated_step P z' (z'\<lparr>my_demux := set_exchange n (Finished i (Ok doc)) (my_demux z')\<rparr>))"
proof -
  have inv: "demux_inv (my_demux z)" using assms(1) by (simp add: waiters_part_def)
  have "dx_pending (my_demux z) i = Some n" using inv_waiter [OF inv assms(6)] assms(7) by simp
  then obtain x where x: "route doc (my_demux z) = (True, x)" "dx_sent x n = Some doc"
    "dx_exchange x = dx_exchange (my_demux z)"
    using assms(5,6) by (simp add: route_def Let_def)
  have ib: "didcomm_inbound (pa_env P) (msg_type r) (msg_body r) (my_demux z) = (True, x)"
    using assms(3,4) x(1) by (simp add: didcomm_inbound_def)
  have st: "mediated_step P z (z\<lparr>my_demux := x\<rparr>)" by (rule mediated_step.Deliver [OF assms(2) ib])
  have h: "holds_reply n i doc (my_demux (z\<lparr>my_demux := x\<rparr>))" using x assms(6) by (simp add: holds_reply_def)
  have "mediated_step P z' (z'\<lparr>my_demux := set_exchange n (Finished i (Ok doc)) (my_demux z')\<rparr>)"
    if "dx_exchange (my_demux z') n = Some (Waiting i)" "holds_reply n i doc (my_demux z')" for z'
  proof (rule mediated_step.Wait)
    have "dx_sent (my_demux z') n = Some doc" using that by (auto simp: holds_reply_def)
    from demux_step.Receive [OF that(1) this]
    show "waits (my_demux z') (set_exchange n (Finished i (Ok doc)) (my_demux z'))"
      using that(1) by (auto simp: waits_def set_exchange_def)
  qed
  note run = this
  show thesis
  proof (rule that [OF ib st])
    fix z' assume "mediated_reach P (z\<lparr>my_demux := x\<rparr>) z'"
    then have "holds_reply n i doc (my_demux z')"
      using holds_reply_reach [OF _ waiters_kept [OF st assms(1)] h] by blast
    then show "dx_exchange (my_demux z') n \<in> {Some (Waiting i), Some (Finished i (Ok doc)), Some (Dropped i)} \<and>
        (dx_exchange (my_demux z') n = Some (Waiting i) \<longrightarrow>
          mediated_step P z' (z'\<lparr>my_demux := set_exchange n (Finished i (Ok doc)) (my_demux z')\<rparr>))"
      using run [of z'] unfolding holds_reply_def by blast
  qed
qed

text \<open>
  From this state on, whenever the exchange of a request still waits without a reply, the message is
  taken and acknowledged when it is delivered; the exchange then waits no longer than until it
  runs, and ends with this document or by its caller dropping it.
\<close>

definition reply_completes ::
  "('s, 'c, 'd) parties \<Rightarrow> message \<Rightarrow> string \<Rightarrow> document \<Rightarrow> ('s, 'c, 'd) mediated \<Rightarrow> bool" where
  "reply_completes P r i doc y \<longleftrightarrow> (\<forall>z n. mediated_reach P y z \<longrightarrow>
     dx_exchange (my_demux z) n = Some (Waiting i) \<longrightarrow> dx_sent (my_demux z) n = None \<longrightarrow>
     (\<exists>x. didcomm_inbound (pa_env P) (msg_type r) (msg_body r) (my_demux z) = (True, x) \<and>
        mediated_step P z (z\<lparr>my_demux := x\<rparr>) \<and>
        (\<forall>z'. mediated_reach P (z\<lparr>my_demux := x\<rparr>) z' \<longrightarrow>
           dx_exchange (my_demux z') n \<in> {Some (Waiting i), Some (Finished i (Ok doc)), Some (Dropped i)} \<and>
           (dx_exchange (my_demux z') n = Some (Waiting i) \<longrightarrow>
              mediated_step P z' (z'\<lparr>my_demux := set_exchange n (Finished i (Ok doc)) (my_demux z')\<rparr>)))))"

lemma reply_completes_now:
  assumes "reply_completes P r i doc y" "dx_exchange (my_demux y) n = Some (Waiting i)" "dx_sent (my_demux y) n = None"
  shows "\<exists>z. mediated_reach P y z \<and> dx_exchange (my_demux z) n = Some (Finished i (Ok doc))"
proof -
  obtain x where x: "didcomm_inbound (pa_env P) (msg_type r) (msg_body r) (my_demux y) = (True, x)"
    "mediated_step P y (y\<lparr>my_demux := x\<rparr>)"
    "\<forall>z'. mediated_reach P (y\<lparr>my_demux := x\<rparr>) z' \<longrightarrow> dx_exchange (my_demux z') n = Some (Waiting i) \<longrightarrow>
       mediated_step P z' (z'\<lparr>my_demux := set_exchange n (Finished i (Ok doc)) (my_demux z')\<rparr>)"
    using assms mediated_reach.Reach_start [of P y] unfolding reply_completes_def by meson
  have "dx_exchange x = dx_exchange (my_demux y)"
    using inbound_route [OF x(1)] by (auto simp: route_def Let_def split: option.splits)
  then have "mediated_step P (y\<lparr>my_demux := x\<rparr>) (y\<lparr>my_demux := set_exchange n (Finished i (Ok doc)) x\<rparr>)"
    using x(3) assms(2) mediated_reach.Reach_start [of P "y\<lparr>my_demux := x\<rparr>"] by fastforce
  then have "mediated_reach P y (y\<lparr>my_demux := set_exchange n (Finished i (Ok doc)) x\<rparr>)"
    using x(2) mediated_reach.Reach_start [of P y] by (meson mediated_reach.Reach_step)
  then show ?thesis
    by (rule exI [of _ "y\<lparr>my_demux := set_exchange n (Finished i (Ok doc)) x\<rparr>", OF conjI]) (simp add: set_exchange_def)
qed

lemma query_completes:
  assumes "trust_repository repo atomic kr kq view good" "nd_repo (pa_node P) = repo"
    and "framework_ok (nd_fw (pa_node P))"
    and "client_wire_ok (pa_lib P) (nd_fw (pa_node P)) (nd_wire (pa_node P)) encode task" "parties_ok P task"
    and "good s" "git_only cs" "cap_in_force sts cs" "mediated_reach P (mediated_start t d (s, cs)) y"
    and "\<And>x r. pack_and_forward (nd_atm (pa_node P)) x r = Delivered"
    and "my_asked y i = Some (q, dest, msg_body m, p)" "m \<in> set (my_requests y)"
    and "base_handle (pa_node P) ce t2 m (my_ids y) (my_registry y) = (res, (audit, out), d', w')"
    and "y' = y\<lparr>my_replies := out @ my_replies y, my_ids := d', my_registry := w', my_history := my_history y @ [fst w']\<rparr>"
  shows "mediated_step P y y' \<and> (\<exists>r doc. out = [r] \<and>
    answers_query (pa_lib P) (view (fst (my_registry y))) kq i q doc \<and>
    reply_completes P r i doc y')"
proof -
  note inv = mediated_invariant [OF assms(1-9)]
  then have inv': "waiters_part y" "node_part good y" "request_part P y" by blast+
  have st: "mediated_step P y y'" unfolding assms(14) by (rule mediated_step.Serve [OF assms(12,13)])
  have ty: "msg_type m = nd_envelope_type (pa_node P)" using inv'(3) assms(12) unfolding request_part_def by blast
  obtain dc where dc: "wi_parse_value (nd_wire (pa_node P)) (msg_body m) = Ok dc"
    using inv'(3) assms(11) unfolding request_part_def by blast
  obtain r where r: "out = [r]" "msg_type r = nd_envelope_type (pa_node P)"
    using delivered_replies [OF assms(4) parties_okD(2) [OF assms(5) ty] assms(10) dc assms(13)] by blast
  obtain doc where doc: "el_task (pa_env P) (msg_body r) = Ok doc"
    "answers_query (pa_lib P) (view (fst (my_registry y))) kq i q doc"
    using request_answered [OF assms(1-5) inv'(2,3) ty assms(11,13)] r(1) by auto
  have "\<exists>x. didcomm_inbound (pa_env P) (msg_type r) (msg_body r) (my_demux z) = (True, x) \<and>
          mediated_step P z (z\<lparr>my_demux := x\<rparr>) \<and>
          (\<forall>z'. mediated_reach P (z\<lparr>my_demux := x\<rparr>) z' \<longrightarrow>
             dx_exchange (my_demux z') n \<in> {Some (Waiting i), Some (Finished i (Ok doc)), Some (Dropped i)} \<and>
             (dx_exchange (my_demux z') n = Some (Waiting i) \<longrightarrow>
                mediated_step P z' (z'\<lparr>my_demux := set_exchange n (Finished i (Ok doc)) (my_demux z')\<rparr>)))"
    if z: "mediated_reach P y' z" "dx_exchange (my_demux z) n = Some (Waiting i)" "dx_sent (my_demux z) n = None" for z n
  proof (rule reply_taken [OF waiters_reach [OF z(1) waiters_kept [OF st inv'(1)]] _ _ doc(1) answers_query_thread [OF doc(2)] z(2,3)])
    show "r \<in> set (my_replies z)" using replies_kept_on [OF z(1)] r(1) assms(14) by auto
    show "msg_type r = el_envelope_type (pa_env P)" using r(2) parties_okD(1) [OF assms(5)] by simp
  qed blast
  then have "reply_completes P r i doc y'" unfolding reply_completes_def by blast
  then show ?thesis using st r(1) doc(2) by blast
qed

lemma reach_trans: "mediated_reach P y z \<Longrightarrow> mediated_reach P x y \<Longrightarrow> mediated_reach P x z"
  by (induction rule: mediated_reach.induct) (auto intro: mediated_reach.Reach_step)

text \<open>A query that is asked, handed over and waits.\<close>

lemma exchange_waits:
  assumes "i = new_task_id uuid" "cl_request_json (pa_lib P) (request_of q) = Ok body"
    and "dest = tc_registry_did (pa_client P)"
    and "el_task_json (pa_env P) (request_document (pa_client P) i now AUTHORIZATION body) = Ok j"
    and "send_envelope a (el_envelope_type (pa_env P)) (pa_did P) dest i j = Ok m"
  obtains y where "mediated_reach P (mediated_start t d (s, cs)) y" "m \<in> set (my_requests y)"
    "my_asked y i = Some (q, dest, msg_body m, 0)" "my_registry y = (s, cs)"
    "dx_exchange (my_demux y) 0 = Some (Waiting i)" "dx_sent (my_demux y) 0 = None"
proof -
  define x1 where "x1 = snd (register i (demux_new Didcomm t))"
  define y0 where "y0 = mediated_start t d (s, cs)"
  define y1 where "y1 = y0\<lparr>my_demux := x1, my_asked := (my_asked y0)(i \<mapsto> (q, dest, j, length (my_history y0) - 1))\<rparr>"
  define y2 where "y2 = y1\<lparr>my_requests := m # my_requests y1\<rparr>"
  define y3 where "y3 = y2\<lparr>my_demux := set_exchange 0 (Waiting i) (my_demux y2)\<rparr>"
  note ms = send_envelope_Ok [OF assms(5)]
  have x1: "dx_exchange x1 = [0 \<mapsto> Sending i]" "dx_sent x1 = Map.empty"
    by (simp_all add: x1_def register_def demux_new_def)
  have y1: "my_demux y1 = x1" "my_requests y1 = []" by (simp_all add: y1_def y0_def mediated_start_def)
  have "didcomm_begin (pa_env P) (request_document (pa_client P) i now AUTHORIZATION body) (my_demux y0) = (Ok (dest, j, 0), x1)"
    using assms(3,4)
    by (simp add: didcomm_begin_def request_document_def y0_def mediated_start_def x1_def register_def demux_new_def)
  moreover have "i \<notin> used_ids (my_demux y0)" by (simp add: used_ids_eq y0_def mediated_start_def demux_new_def)
  ultimately have s1: "mediated_step P y0 y1"
    unfolding y1_def by (rule mediated_step.Ask [OF assms(2,1), rotated])
  have a1: "my_asked y1 i = Some (q, dest, j, 0)" by (simp add: y1_def y0_def mediated_start_def)
  have s2: "mediated_step P y1 y2"
    unfolding y2_def by (rule mediated_step.Hand [OF _ a1 assms(5)]) (simp add: y1 x1)
  have s3: "mediated_step P y2 y3"
    unfolding y3_def by (rule mediated_step.Handed [of _ _ i m]) (simp_all add: y2_def y1 x1 ms)
  have "mediated_reach P y0 y3" using s1 s2 s3 by (meson mediated_reach.intros)
  moreover have "m \<in> set (my_requests y3)" "my_asked y3 i = Some (q, dest, msg_body m, 0)" "my_registry y3 = (s, cs)"
    "dx_exchange (my_demux y3) 0 = Some (Waiting i)" "dx_sent (my_demux y3) 0 = None"
    by (simp_all add: y3_def y2_def a1 y1 x1 ms set_exchange_def) (simp add: y1_def y0_def mediated_start_def)
  ultimately show thesis using that unfolding y0_def by blast
qed

lemma exchange_completes:
  assumes "trust_repository repo atomic kr kq view good" "nd_repo (pa_node P) = repo"
    and "framework_ok (nd_fw (pa_node P))"
    and "client_wire_ok (pa_lib P) (nd_fw (pa_node P)) (nd_wire (pa_node P)) encode task" "parties_ok P task"
    and "good s" "git_only cs" "cap_in_force sts cs" "i = new_task_id uuid"
    and "cl_request_json (pa_lib P) (request_of q) = Ok body" "dest = tc_registry_did (pa_client P)"
    and "el_task_json (pa_env P) (request_document (pa_client P) i now AUTHORIZATION body) = Ok j"
    and "send_envelope a (el_envelope_type (pa_env P)) (pa_did P) dest i j = Ok m"
    and "\<And>x r. pack_and_forward (nd_atm (pa_node P)) x r = Delivered"
  shows "\<exists>y doc. mediated_reach P (mediated_start t d (s, cs)) y \<and>
    dx_exchange (my_demux y) 0 = Some (Finished i (Ok doc))"
proof -
  obtain y where y: "mediated_reach P (mediated_start t d (s, cs)) y" "m \<in> set (my_requests y)"
    "my_asked y i = Some (q, dest, msg_body m, 0)" "my_registry y = (s, cs)"
    "dx_exchange (my_demux y) 0 = Some (Waiting i)" "dx_sent (my_demux y) 0 = None"
    by (rule exchange_waits [OF assms(9-13)])
  obtain ce t2 res audit out d' w' where b:
    "base_handle (pa_node P) ce t2 m (my_ids y) (my_registry y) = (res, (audit, out), d', w')"
    by (metis prod.exhaust)
  define y' where "y' = y\<lparr>my_replies := out @ my_replies y, my_ids := d', my_registry := w', my_history := my_history y @ [fst w']\<rparr>"
  note c = query_completes [OF assms(1-8) y(1) assms(14) y(3,2) b y'_def]
  have d: "dx_exchange (my_demux y') 0 = Some (Waiting i)" "dx_sent (my_demux y') 0 = None"
    using y(5,6) by (simp_all add: y'_def)
  obtain r doc where "reply_completes P r i doc y'" using c by blast
  from reply_completes_now [OF this d] obtain z where z: "mediated_reach P y' z"
    "dx_exchange (my_demux z) 0 = Some (Finished i (Ok doc))" by blast
  have "mediated_reach P (mediated_start t d (s, cs)) y'" using y(1) c by (blast intro: mediated_reach.Reach_step)
  then show ?thesis using reach_trans [OF z(1)] z(2) by blast
qed

end
