(* ===== verification/Mediator_Properties.thy ===== *)
theory Mediator_Properties
  imports Client_Mediator Client_Properties Operation_Properties
begin

text \<open>
  The client and the registry over a mediator, and what a running node keeps whatever arrives.
\<close>

section \<open>The node\<close>

text \<open>C19: While the listener runs, whatever frames it takes over DIDComm and TSP, from whomever, in
  whatever order their tasks run, with failing backends and failing saves of the capability file,
  and through a shutdown: the invariant of the backend holds, the dispatchers in force were composed
  from some capability states, and both registry queries are served by the administrative and by
  the anonymous dispatcher.\<close>

theorem queries_stay_served:
  assumes "trust_repository repo atomic kr kq view good" "nd_repo nd = repo"
    and "good s" "git_only cs" "cap_in_force sts cs"
    and "start_listening md cfg li d (s, cs) acl = (S0, acl')" "listening_run built nd unpack S0 fs S"
  shows "good (fst (lg_registry S)) \<and> (\<exists>sts'. cap_in_force sts' (snd (lg_registry S))) \<and>
    (\<forall>disp \<in> {cap_dispatcher (snd (lg_registry S)), cap_query_dispatcher (snd (lg_registry S))}.
       map_of disp AUTHORIZATION = Some H_Authorization \<and> map_of disp RECOGNITION = Some H_Recognition)"
proof -
  have "lg_registry S0 = (s, cs)" using assms(6) by (auto simp: start_listening_def split: prod.splits)
  then show ?thesis
    using trust_repository.run_keeps [OF assms(1,2) _ _ assms(7)] assms(3) composed_serves [OF assms(4,5)]
    by (auto simp: queries_servedD) (simp add: queries_served_def)
qed

theorem queries_stay_served_witness:
  "\<exists>S. listening_run True sample_node (\<lambda>p n. Err (DIDError ''resolver''))
      (fst (start_listening sample_mediator sample_listener_config \<lparr>li_tsp = None, li_acl_mode = ExplicitDeny\<rparr>
         memory_default (local_new, cap_set_of []) ())) [F_Didcomm query_message] S \<and>
    map_of (cap_query_dispatcher (snd (lg_registry S))) AUTHORIZATION = Some H_Authorization"
proof -
  obtain S0 where s0: "start_listening sample_mediator sample_listener_config \<lparr>li_tsp = None, li_acl_mode = ExplicitDeny\<rparr>
      memory_default (local_new, cap_set_of []) () = (S0, ())" by (metis prod.exhaust old.unit.exhaust)
  obtain res eff d w where b: "base_handle sample_node sample_call 5 query_message (lg_ids S0) (lg_registry S0) =
      (res, eff, d, w)" by (metis prod.exhaust)
  have n: "nd_repo sample_node = local_repo" by (simp add: sample_node_def)
  note r = serves_message [OF b, of True "\<lambda>p n. Err (DIDError ''resolver'')"]
  show ?thesis
    using queries_stay_served [OF local.trust_repository_axioms n local_new_inv(1) cap_set_of_simps(1,2) s0 r] s0 r
    by (intro exI [of _ "S0\<lparr>lg_ids := d, lg_registry := w, lg_taken := lg_taken S0 @ [F_Didcomm query_message],
      lg_done := lg_done S0 @ [Handle_Didcomm query_message]\<rparr>"]) simp
qed

section \<open>Queries over a mediator\<close>

text \<open>C22: However many queries a client runs at once over DIDComm, and however the mediator loses, repeats
  and reorders messages while administrators and others work on the registry: a reply that a query
  returns with is the registry's reply to this very query, a rejection or the verdict on the record
  as it was at some moment since the query was asked.\<close>

theorem concurrent_queries_answered:
  assumes "trust_repository repo atomic kr kq view good" "nd_repo (pa_node P) = repo"
    and "framework_ok (nd_fw (pa_node P))"
    and "client_wire_ok (pa_lib P) (nd_fw (pa_node P)) (nd_wire (pa_node P)) encode task" "parties_ok P task"
    and "good s" "git_only cs" "cap_in_force sts cs" "mediated_reach P (mediated_start t d (s, cs)) y"
    and "dx_exchange (my_demux y) n = Some (Finished i (Ok doc))"
  shows "\<exists>q dest j p. my_asked y i = Some (q, dest, j, p) \<and> (\<exists>s' \<in> since p y.
    case read_reply (pa_lib P) i (cl_slug (pa_lib P) AUTHORIZATION) doc of
      Ok a \<Rightarrow> qr_answer a = answer is_authorized
        (view s' (kq (query_of (tq_entity q) (tq_authority q) (tq_action q) (tq_resource q))))
    | Err e \<Rightarrow> \<exists>c r ra m. e = trql_error.Rejected c r ra m)"
proof -
  note inv = mediated_invariant [OF assms(1-9)]
  have "settles P view kq y doc" using inv assms(10) unfolding reply_part_def by blast
  moreover have "tk_thread doc = Some i"
    using inv inv_finished [OF _ assms(10)] by (simp add: waiters_part_def)
  ultimately show ?thesis unfolding settles_def answers_query_def query_key_def by auto
qed

text \<open>Two parties whose documents travel as codes.\<close>

definition coded_env :: envelope_lib where
  "coded_env = \<lparr>el_task_json = (\<lambda>d. Ok (JStr (code_doc d))),
     el_task = (\<lambda>j. bind_ok (ok_or (as_str j) ''not a code'') read_doc), el_text = (\<lambda>j. Err ''no text''),
     el_json = (\<lambda>s. Err ''no text''), el_debug = (\<lambda>t. ''other''), el_envelope_type = ''envelope''\<rparr>"

definition sample_parties :: "(local_storage, cap_states, memory_store) parties" where
  "sample_parties = \<lparr>pa_client = client_new (\<lambda>d w. (Err (Config ''over the mediator''), w)) ''did:registry'',
     pa_lib = sample_lib, pa_env = coded_env, pa_did = ''did:client'',
     pa_node = sample_node\<lparr>nd_wire := coded_wire\<lparr>wi_parse_value := el_task coded_env\<rparr>\<rparr>\<rparr>"

lemma sample_parties_wire:
  "client_wire_ok (pa_lib sample_parties) (nd_fw (pa_node sample_parties)) (nd_wire (pa_node sample_parties))
     code_doc read_doc"
  using coded_wire_ok by (simp add: sample_parties_def sample_node_def client_wire_ok_def reads_back_def)

lemma sample_parties_ok: "parties_ok sample_parties read_doc"
  unfolding parties_ok_def
  by (auto simp: sample_parties_def sample_node_def coded_env_def coded_wire_def sample_framework_def
      QUERY_AUTHORIZATION_def QUERY_RECOGNITION_def trqp_type_def PROBLEM_REPORT_TYPE_def
      admin_message_types_def admin_types split: option.splits)

lemma sample_parties_node:
  "nd_repo (pa_node sample_parties) = local_repo" "framework_ok (nd_fw (pa_node sample_parties))"
  "pack_and_forward (nd_atm (pa_node sample_parties)) x r = Delivered"
  "send_envelope sample_atm ty me dest i body = Ok \<lparr>msg_id = at_ids sample_atm 0, msg_type = ty, msg_from = Some me,
     msg_to = [dest], msg_thid = Some i, msg_pthid = None, msg_body = body\<rparr>"
  by (simp_all add: sample_parties_def sample_node_def sample_framework_ok sample_atm_def pack_and_forward_def
      send_envelope_def Let_def)

definition sample_query_body :: json where
  "sample_query_body = JObj [(''action'', JStr ''sign''), (''authority_id'', JStr ''did:a''),
     (''entity_id'', JStr ''did:e''), (''resource'', JStr ''repo'')]"

lemma sample_query_json:
  "cl_request_json (pa_lib sample_parties) (request_of (trqp_query_new ''did:e'' ''did:a'' ''sign'' ''repo'')) =
     Ok sample_query_body"
  "el_task_json (pa_env sample_parties) doc = Ok (JStr (code_doc doc))"
  by (simp_all add: sample_parties_def sample_lib_def sample_query_body_def request_of_def trqp_query_new_def
      coded_env_def)

theorem concurrent_queries_answered_witness:
  "\<exists>y doc q dest j p. mediated_reach sample_parties (mediated_start 60 memory_default (local_new, cap_set_of [])) y \<and>
     dx_exchange (my_demux y) 0 = Some (Finished (new_task_id ''1'') (Ok doc)) \<and>
     my_asked y (new_task_id ''1'') = Some (q, dest, j, p) \<and> since p y \<noteq> {}"
proof -
  obtain y doc where y: "mediated_reach sample_parties (mediated_start 60 memory_default (local_new, cap_set_of [])) y"
    "dx_exchange (my_demux y) 0 = Some (Finished (new_task_id ''1'') (Ok doc))"
    using exchange_completes [OF local.trust_repository_axioms sample_parties_node(1,2) sample_parties_wire
        sample_parties_ok local_new_inv(1) cap_set_of_simps(1,2) refl sample_query_json(1) refl sample_query_json(2)
        sample_parties_node(4,3)] by blast
  from concurrent_queries_answered [OF local.trust_repository_axioms sample_parties_node(1,2)
      sample_parties_wire sample_parties_ok local_new_inv(1) cap_set_of_simps(1,2) y]
  show ?thesis using y by blast
qed

text \<open>C34: In every state the client and the registry reach, with any queries, losses and other work behind
  them, once the registry serves the request of a query (with a mediator that accepts its reply)
  there is exactly one reply, a rejection or the verdict on the record as the registry has it then.
  From then on, whatever else happens, if that reply is delivered while the exchange still waits
  without one, it is acknowledged, and the exchange ends with it, no timeout and no other message
  coming in between, unless the caller itself drops the query.\<close>

theorem didcomm_query_completes:
  assumes "trust_repository repo atomic kr kq view good" "nd_repo (pa_node P) = repo"
    and "framework_ok (nd_fw (pa_node P))"
    and "client_wire_ok (pa_lib P) (nd_fw (pa_node P)) (nd_wire (pa_node P)) encode task" "parties_ok P task"
    and "good s" "git_only cs" "cap_in_force sts cs" "mediated_reach P (mediated_start t d (s, cs)) y"
    and "\<And>x r. pack_and_forward (nd_atm (pa_node P)) x r = Delivered"
    and "my_asked y i = Some (q, dest, msg_body m, p)" "m \<in> set (my_requests y)"
    and "base_handle (pa_node P) ce t2 m (my_ids y) (my_registry y) = (res, (audit, out), d', w')"
    and "y' = y\<lparr>my_replies := out @ my_replies y, my_ids := d', my_registry := w', my_history := my_history y @ [fst w']\<rparr>"
  shows "mediated_step P y y' \<and> (\<exists>r doc. out = [r] \<and>
    answers_query (pa_lib P) (view (fst (my_registry y))) kq i q doc \<and>
    (\<forall>z n. mediated_reach P y' z \<longrightarrow> dx_exchange (my_demux z) n = Some (Waiting i) \<longrightarrow> dx_sent (my_demux z) n = None \<longrightarrow>
       (\<exists>x. didcomm_inbound (pa_env P) (msg_type r) (msg_body r) (my_demux z) = (True, x) \<and>
          mediated_step P z (z\<lparr>my_demux := x\<rparr>) \<and>
          (\<forall>z'. mediated_reach P (z\<lparr>my_demux := x\<rparr>) z' \<longrightarrow>
             dx_exchange (my_demux z') n \<in> {Some (Waiting i), Some (Finished i (Ok doc)), Some (Dropped i)} \<and>
             (dx_exchange (my_demux z') n = Some (Waiting i) \<longrightarrow>
                mediated_step P z' (z'\<lparr>my_demux := set_exchange n (Finished i (Ok doc)) (my_demux z')\<rparr>))))))"
  using query_completes [OF assms] unfolding reply_completes_def .

theorem didcomm_query_completes_witness:
  "\<exists>y z doc q. mediated_reach sample_parties (mediated_start 60 memory_default (local_new, cap_set_of [])) y \<and>
     dx_exchange (my_demux y) 0 = Some (Waiting (new_task_id ''1'')) \<and> mediated_reach sample_parties y z \<and>
     dx_exchange (my_demux z) 0 = Some (Finished (new_task_id ''1'') (Ok doc)) \<and>
     answers_query (pa_lib sample_parties) (local_view (fst (my_registry y))) key_from_query (new_task_id ''1'') q doc"
proof -
  let ?i = "new_task_id ''1''" and ?q = "trqp_query_new ''did:e'' ''did:a'' ''sign'' ''repo''"
  obtain y m dest where y: "mediated_reach sample_parties (mediated_start 60 memory_default (local_new, cap_set_of [])) y"
    "m \<in> set (my_requests y)" "my_asked y ?i = Some (?q, dest, msg_body m, 0)"
    "dx_exchange (my_demux y) 0 = Some (Waiting ?i)" "dx_sent (my_demux y) 0 = None"
    by (rule exchange_waits [OF refl sample_query_json(1) refl sample_query_json(2) sample_parties_node(4)]) blast
  obtain ce t2 res audit out d' w' where b:
    "base_handle (pa_node sample_parties) ce t2 m (my_ids y) (my_registry y) = (res, (audit, out), d', w')"
    by (metis prod.exhaust)
  define y' where "y' = y\<lparr>my_replies := out @ my_replies y, my_ids := d', my_registry := w', my_history := my_history y @ [fst w']\<rparr>"
  note c = didcomm_query_completes [OF local.trust_repository_axioms sample_parties_node(1,2) sample_parties_wire
      sample_parties_ok local_new_inv(1) cap_set_of_simps(1,2) y(1) sample_parties_node(3) y(3,2) b y'_def,
      folded reply_completes_def]
  obtain r doc where rd: "reply_completes sample_parties r ?i doc y'"
    "answers_query (pa_lib sample_parties) (local_view (fst (my_registry y))) key_from_query ?i ?q doc" using c by blast
  have "dx_exchange (my_demux y') 0 = Some (Waiting ?i)" "dx_sent (my_demux y') 0 = None"
    using y(4,5) by (simp_all add: y'_def)
  from reply_completes_now [OF rd(1) this] obtain z where "mediated_reach sample_parties y' z"
    "dx_exchange (my_demux z) 0 = Some (Finished ?i (Ok doc))" by blast
  moreover have "mediated_reach sample_parties y y'" using c by (blast intro: mediated_reach.intros)
  ultimately show ?thesis using y(1,4) rd(2) reach_trans by blast
qed

end
