(* ===== verification/Spec2Isabelle.thy ===== *)
theory Spec2Isabelle
  imports Task_Properties Capability_Properties Delivery_Properties Storage_Properties Ddb_Properties
    Client_Properties Node_Properties Operation_Properties Setup_Properties Fixture_Properties
    Request_Properties Mediator_Properties
begin

text \<open>
  \<^bold>\<open>A verification development of the Trust Registry.\<close>

  The program (\<open>trust-registry\<close>) keeps trust records, each saying that an authority authorises or
  recognises an entity for an action on a resource, and answers queries about them over HTTP,
  DIDComm and TSP.  Administrators change the records by signed Trust Tasks or by DIDComm
  administration messages; capabilities (git-trust) add tasks at run time.  \<open>trql-client\<close> is the
  client library: it reads the registry's DID document, selects a transport and sends a query.

  \<^bold>\<open>How the parts interact.\<close>  A binding (HTTP, DIDComm, TSP) turns bytes into a Trust Task document,
  checks who sent it, and gives it to a dispatcher, a table from task type to handler.  The
  dispatcher of the anonymous HTTP binding is composed without the write handlers.  Handlers work
  on one repository, behind the operations of \<open>storage/repository.rs\<close>; five backends implement it.
  DIDComm and TSP go through the write gate (administrator, proof) and the store of message ids,
  which makes a redelivery harmless.

  \<^bold>\<open>Theories, in the order of the code.\<close>
  \<^item> \<open>TR_Prelude\<close>: results, strings, maps as lists, the lemmas and collections all others use;
    \<open>Json_Value\<close>: JSON values as \<open>serde_json\<close> keeps them (objects sorted by key).
  \<^item> \<open>Domain\<close>: \<open>domain/mod.rs\<close>, \<open>domain/key.rs\<close>: identifiers, records, contexts and their merge, the
    builder, the JSON form, the storage keys.
  \<^item> \<open>Repository_Spec\<close>: \<open>storage/repository.rs\<close>; the locale \<open>trust_repository\<close> states what a backend
    promises against an abstract map from keys to records, and proves the consequences all clients
    use.  Its parameters are the backend, the key of a record and of a query, the view of a state
    as a map, and the state invariant; \<open>atomic\<close> says that a failed write has no effect.
  \<^item> \<open>Local_Store\<close>, \<open>Csv_Store\<close>, \<open>Kv_Store\<close> (Redis), \<open>Kv_Fjall\<close>, \<open>Ddb_Store\<close> (DynamoDB): the backends,
    interpretations of the locale.  The CSV codec, the Redis connection, the fjall keyspace and the
    DynamoDB client are parameters with their documented laws as assumptions; the properties
    instantiate them.  The code does not ask DynamoDB for consistent reads, so its specification is a
    table that also remembers what each key has held: writes are conditional on what it holds now, a
    read answers something it has held.  The locale is interpreted for a table with current reads.
  \<^item> \<open>Store_Concurrent\<close>: requests that interleave on Redis and fjall.  Each operation is split into its
    check and its write, which composed are the operation of the backend; a pool of requests is a
    step relation, with or without a lock between the halves; the locale \<open>two_step_store\<close> proves that a
    lock makes every run equal to one after the other.  Redis has the lock, fjall has not.
    \<open>Csv_Concurrent\<close>: the same for the CSV backend, whose requests change the map under a lock and write
    the file without one, together with the steps of its sync task.
  \<^item> \<open>Trust_Task\<close>: \<open>trust_tasks/payloads.rs\<close>, \<open>trust_tasks/proof.rs\<close>; documents, envelopes and proofs of
    the package \<open>trust_tasks_rs\<close> are the record \<open>framework\<close> with the law \<open>framework_ok\<close>.
  \<^item> \<open>Router\<close> (\<open>trust_tasks/router.rs\<close>), \<open>Dedup\<close> (\<open>dedup/mod.rs\<close>), \<open>Capability_Store\<close>, \<open>Git_Trust\<close>,
    \<open>Capabilities\<close> (\<open>capabilities/\<close>): handlers, message ids, enabling and disabling of capabilities.
  \<^item> \<open>Dedup_Concurrent\<close>: deliveries that interleave, as a step relation on workers with one clock; the
    locale \<open>leased_store\<close> extends the contract of the message id store by what a claim excludes.
  \<^item> \<open>Bindings\<close>: \<open>http/handlers/trust_tasks\<close>, \<open>didcomm/handlers/trust_tasks\<close>, \<open>tsp\<close>.
  \<^item> \<open>Trqp\<close>: \<open>http/handlers/trqp\<close>, \<open>http/error.rs\<close>, the routes and the DID document endpoint.
  \<^item> \<open>Audit_Trail\<close> (\<open>audit/\<close>), \<open>Didcomm_Base\<close> (\<open>didcomm/transport.rs\<close>, \<open>didcomm/problem_report.rs\<close>),
    \<open>Didcomm_Admin\<close> (\<open>didcomm/handlers/admin\<close>), \<open>Didcomm_Handlers\<close> (\<open>didcomm/handlers/mod.rs\<close> and
    \<open>trqp\<close>): a DIDComm message from its arrival to its answer and audit entry.
  \<^item> \<open>Configuration\<close> (\<open>configs/\<close>, \<open>storage/factory.rs\<close>), \<open>Listener\<close> (\<open>didcomm/listener/\<close>), \<open>Server\<close>
    (\<open>server.rs\<close>, \<open>health.rs\<close>): how a process is configured, started and supervised.
  \<^item> \<open>Listener_Run\<close>: the listener at work, a step relation labelled with the frames it takes: the receive
    loop, the offline synchronisation, the shutdown token and the tasks they spawn, side by side.
    Live frames are deleted at the mediator when they are received, queued messages when their tasks
    are spawned.  \<open>Node_Invariant\<close>: what every run of it keeps, writes and failures included.
  \<^item> \<open>Did_Document\<close> (\<open>didcomm/did_document.rs\<close>): the published keys and services.
    \<open>Served_Document\<close>: the document a started registry serves, empty when DIDComm is off.
  \<^item> \<open>Trql_Discovery\<close>, \<open>Trql_Client\<close>, \<open>Trql_Pending\<close>: the client library, with callers that may drop an
    exchange they started; \<open>Client_Link\<close> connects the
    client's HTTPS transport to the registry's binding, \<open>Client_Mediator\<close> its DIDComm transport to the
    node, as a system with a mediator that loses, repeats and reorders messages.
  \<^item> \<open>Setup_Tool\<close> (\<open>bin/setup_trust_registry.rs\<close>, \<open>bin/generate_secrets.rs\<close>): the provisioning tools.  Their
    steps run over a world of files, keys, the mediator and the secret store; a failing \<open>expect\<close> is a
    panic, an error is returned.
  \<^item> \<open>Test_Clients\<close> (\<open>test-client/\<close>, \<open>test-trust-registry/\<close>): the administration demo and the fixture.
  \<^item> \<open>Samples\<close>: concrete documents and states for the witnesses.

  \<^bold>\<open>Properties.\<close>  \<open>Task_Properties\<close>: the write gates of the three bindings.  \<open>Capability_Properties\<close>:
  redelivery, restarts, revocation, defaults.  \<open>Delivery_Properties\<close>: concurrent deliveries.
  \<open>Storage_Properties\<close>, \<open>Ddb_Properties\<close>: every backend refines the map, keys, merge, round trips.
  \<open>Client_Properties\<close>: the client and the registry agree, replies reach their waiters, the published
  document.  \<open>Node_Properties\<close>: TRQP, administration, audit, the DIDComm node as a whole.
  \<open>Operation_Properties\<close>: configuration, start, supervision, the running listener.  \<open>Setup_Properties\<close>: what the
  setup tool writes against what the registry and its clients read.  \<open>Fixture_Properties\<close>: the demo
  client against the node, the fixture.  \<open>Request_Properties\<close>: concurrent requests on one backend.
  \<open>Mediator_Properties\<close>: queries over DIDComm, what a running node keeps.

  \<^bold>\<open>State, errors, bounds.\<close>  State is passed explicitly: a handler maps a state to a result and a state.
  Errors are values of \<open>result\<close>.  A fault of the outside (a file call, a connection, a poisoned lock)
  is read from the environment the state carries.  The one unbounded loop of a backend (the pages of
  a Redis scan) is a \<open>partial_function (option)\<close>; \<open>redis_list_complete\<close> proves that it returns when the
  scan ends.  Retries carry their bound as in the code, delays and counters parsed from the
  environment are words of their width, and doubling a delay wraps as in a release build.
  Concurrent exchanges of the client, concurrent deliveries, concurrent storage requests and the
  running listener are inductive step relations.

  \<^bold>\<open>Not modelled.\<close>  Sockets and web server, TLS, the mediator connection, DID resolution and
  key handling (SDK calls), logging, tracing, terminal output.
  \<open>PROJECT.json\<close> lists every part with its status.
\<close>

end

